(* ===== verification/Prelude.thy ===== *)
theory Prelude
  imports Main "HOL-Library.AList" "HOL-Library.Char_ord" "HOL-Library.List_Lexorder"
begin

section \<open>Shared vocabulary of the development\<close>

text \<open>
  What every component theory uses: the exceptions the Python code raises (one datatype for
  the whole program, constructors named after the classes), the shape of a computation that
  may raise, dictionaries as association lists in insertion order, and the facts on lists and
  maps that the component proofs share.
\<close>

named_theorems frame_simps \<open>what lookups give after an operation, and what it leaves unchanged\<close>
named_theorems row_simps \<open>selectors of rows that were built, stored or numbered\<close>

subsection \<open>Exceptions\<close>

text \<open>
  The exception classes of the collector (\<open>IngestError\<close> with its status code, and the
  built-in classes its services raise), of SQLAlchemy and the driver below it (\<open>IntegrityError\<close>, and
  \<open>BindError\<close> for a value that cannot be bound to a statement), of FastAPI
  (\<open>HTTPException\<close>), of httpx, of \<open>struct\<close>, and of the SDK (\<open>sdk/python/controldb/errors.py\<close>).
\<close>

datatype exn =
    IngestError string nat
  | ValueError string
  | AttributeError string
  | TypeError string
  | LookupError string
  | PermissionError string
  | AssertionError
  | IntegrityError
  | HTTPException nat string
  | HttpxError string
  | AuthenticationError string
  | AuthorizationError string
  | ValidationError string
  | PolicyDeniedError string string string
  | ApprovalRequiredError string string string
  | CollectorUnavailableError string
  | PayloadTooLargeError string
  | IdempotencyConflictError string
  | StructError string
  | BindError string

type_synonym 'a result = "exn + 'a"

fun is_ingest_error :: "exn \<Rightarrow> bool" where
  "is_ingest_error (IngestError m c) = True"
| "is_ingest_error _ = False"

subsection \<open>Python truth of optional strings\<close>

text \<open>\<open>x or y\<close> on an optional string: \<open>None\<close> and the empty string are false.\<close>

fun str_truthy :: "string option \<Rightarrow> bool" where
  "str_truthy None = False"
| "str_truthy (Some s) = (s \<noteq> [])"

fun str_or :: "string option \<Rightarrow> string \<Rightarrow> string" where
  "str_or None d = d"
| "str_or (Some s) d = (if s = [] then d else s)"

lemma str_or_truthy: "str_truthy x \<Longrightarrow> Some (str_or x d) = x"
  by (cases x) auto

lemma str_or_falsy: "\<not> str_truthy x \<Longrightarrow> str_or x d = d"
  by (cases x) auto

subsection \<open>Lists\<close>

text \<open>\<open>sep.join(xs)\<close>.\<close>

fun join :: "string \<Rightarrow> string list \<Rightarrow> string" where
  "join sep [] = []"
| "join sep [x] = x"
| "join sep (x # y # ys) = x @ sep @ join sep (y # ys)"

lemma join_Cons: "join sep (x # xs) = (if xs = [] then x else x @ sep @ join sep xs)"
  by (cases xs) auto

lemma find_Some_set: "find P xs = Some x \<Longrightarrow> x \<in> set xs \<and> P x"
  by (induction xs) (auto split: if_splits)

lemma find_append: "find P (xs @ ys) = (case find P xs of None \<Rightarrow> find P ys | Some x \<Rightarrow> Some x)"
  by (induction xs) auto

lemma find_None_iff': "find P xs = None \<longleftrightarrow> (\<forall>x \<in> set xs. \<not> P x)"
  by (induction xs) auto

lemma find_map_frame:
  assumes "\<And>x. P (f x) = P x"
  shows "find P (map f xs) = map_option f (find P xs)"
  using assms by (induction xs) auto

lemma find_unique_key:
  assumes "distinct (map f xs)" and "x \<in> set xs"
  shows "find (\<lambda>y. f y = f x) xs = Some x"
  using assms by (induction xs) auto

lemma filter_append_none:
  "(\<And>x. x \<in> set ys \<Longrightarrow> \<not> P x) \<Longrightarrow> filter P (xs @ ys) = filter P xs"
  by (simp add: filter_empty_conv)

lemma sorted_wrt_append_last:
  assumes "sorted_wrt R xs" and "\<And>x. x \<in> set xs \<Longrightarrow> R x y"
  shows "sorted_wrt R (xs @ [y])"
  using assms by (simp add: sorted_wrt_append)

lemma sort_key_sorted_id: "sorted (map f xs) \<Longrightarrow> sort_key f xs = xs"
  by (simp add: sorted_sort_id sort_key_id_if_sorted)

lemma map_of_filter_key: "map_of (filter (\<lambda>(i, v). i \<noteq> j) d) i = (if i = j then None else map_of d i)"
  by (induction d) auto

text \<open>Texts around the first colon.\<close>

lemma colon_split:
  assumes "a @ CHR '':'' # s = b @ CHR '':'' # t" "CHR '':'' \<notin> set a" "CHR '':'' \<notin> set b"
  shows "a = b \<and> s = t"
proof -
  have "takeWhile (\<lambda>c. c \<noteq> CHR '':'') (a @ CHR '':'' # s) = a" "takeWhile (\<lambda>c. c \<noteq> CHR '':'') (b @ CHR '':'' # t) = b"
    using assms(2,3) by (simp_all add: takeWhile_append)
  with assms(1) show ?thesis by simp
qed

end
