(* ===== verification/Json_Value.thy ===== *)
theory Json_Value
  imports Prelude Complex_Main
begin

section \<open>Python values that travel as JSON\<close>

text \<open>
  Event payloads, policy inputs, policy files, run metadata and API key scopes are Python values
  built from \<open>None\<close>, \<open>bool\<close>, \<open>int\<close>, \<open>float\<close>, \<open>str\<close>,
  \<open>list\<close> and \<open>dict\<close> with string keys. A \<open>str\<close> is the list of the bytes of its
  UTF-8 encoding, whose lexicographic order is the order of the code points. A \<open>dict\<close> is
  the list of its items in insertion order; \<open>wf_json\<close> says that no key occurs twice at any
  level, which every Python dictionary satisfies.

  This theory models the parts of the language the program applies to such values: truth,
  equality (where \<open>True\<close>, \<open>1\<close> and \<open>1.0\<close> are equal), order on numbers, and
  membership.
\<close>

subsection \<open>Floats\<close>

text \<open>
  A \<open>float\<close> is \<open>nan\<close>, an infinity, the negative zero, or a finite value, which is a
  rational number (the model has every rational, a superset of the binary64 values). Python
  compares integers and floats by their exact values.
\<close>

datatype pyfloat = FNan | FInf bool | FNegZero | FRat rat

datatype json =
    JNull
  | JBool bool
  | JInt int
  | JFloat pyfloat
  | JStr string
  | JList "json list"
  | JDict "(string \<times> json) list"

type_synonym pydict = "(string \<times> json) list"

abbreviation dict_get :: "pydict \<Rightarrow> string \<Rightarrow> json" where
  "dict_get d k \<equiv> (case map_of d k of None \<Rightarrow> JNull | Some v \<Rightarrow> v)"

abbreviation dict_get_or :: "pydict \<Rightarrow> string \<Rightarrow> json \<Rightarrow> json" where
  "dict_get_or d k v0 \<equiv> (case map_of d k of None \<Rightarrow> v0 | Some v \<Rightarrow> v)"

abbreviation dict_set :: "pydict \<Rightarrow> string \<Rightarrow> json \<Rightarrow> pydict" where
  "dict_set d k v \<equiv> AList.update k v d"

text \<open>\<open>d.update(e)\<close>\<close>

definition dict_update :: "pydict \<Rightarrow> pydict \<Rightarrow> pydict" where
  "dict_update d e = fold (\<lambda>(k, v) acc. dict_set acc k v) e d"

definition js_str :: "string option \<Rightarrow> json" where
  "js_str x = (case x of None \<Rightarrow> JNull | Some s \<Rightarrow> JStr s)"

definition js_int :: "int option \<Rightarrow> json" where
  "js_int x = (case x of None \<Rightarrow> JNull | Some i \<Rightarrow> JInt i)"

subsection \<open>Induction over a value, a list of values and a list of items\<close>

fun json_nodes :: "json \<Rightarrow> nat"
  and json_nodes_list :: "json list \<Rightarrow> nat"
  and json_nodes_items :: "pydict \<Rightarrow> nat" where
  "json_nodes JNull = 1"
| "json_nodes (JBool b) = 1"
| "json_nodes (JInt i) = 1"
| "json_nodes (JFloat f) = 1"
| "json_nodes (JStr s) = 1"
| "json_nodes (JList xs) = Suc (json_nodes_list xs)"
| "json_nodes (JDict d) = Suc (json_nodes_items d)"
| "json_nodes_list [] = 0"
| "json_nodes_list (x # xs) = json_nodes x + json_nodes_list xs"
| "json_nodes_items [] = 0"
| "json_nodes_items ((k, v) # d) = json_nodes v + json_nodes_items d"

lemmas json_induct3 [case_names Null Bool Int Float Str List Dict LNil LCons DNil DCons] =
  json_nodes_json_nodes_list_json_nodes_items.induct

fun wf_json :: "json \<Rightarrow> bool"
  and wf_list :: "json list \<Rightarrow> bool"
  and wf_items :: "pydict \<Rightarrow> bool" where
  "wf_json JNull = True"
| "wf_json (JBool b) = True"
| "wf_json (JInt i) = True"
| "wf_json (JFloat f) = True"
| "wf_json (JStr s) = True"
| "wf_json (JList xs) = wf_list xs"
| "wf_json (JDict d) = (distinct (map fst d) \<and> wf_items d)"
| "wf_list [] = True"
| "wf_list (x # xs) = (wf_json x \<and> wf_list xs)"
| "wf_items [] = True"
| "wf_items ((k, v) # d) = (wf_json v \<and> wf_items d)"

lemma wf_list_all: "wf_list xs \<longleftrightarrow> (\<forall>x \<in> set xs. wf_json x)"
  by (induction xs) auto

lemma wf_items_all: "wf_items d \<longleftrightarrow> (\<forall>v \<in> snd ` set d. wf_json v)"
  by (induction d) auto

lemma wf_of_opt [simp]:
  "wf_json (js_str s)" "wf_json (js_int i)"
  by (auto simp: js_str_def js_int_def split: option.splits)

subsection \<open>Truth\<close>

fun truthy :: "json \<Rightarrow> bool" where
  "truthy JNull = False"
| "truthy (JBool b) = b"
| "truthy (JInt i) = (i \<noteq> 0)"
| "truthy (JFloat f) = (f \<noteq> FNegZero \<and> f \<noteq> FRat 0)"
| "truthy (JStr s) = (s \<noteq> [])"
| "truthy (JList xs) = (xs \<noteq> [])"
| "truthy (JDict d) = (d \<noteq> [])"

subsection \<open>Numbers\<close>

text \<open>
  \<open>isinstance(x, (int, float))\<close> holds of booleans too, since \<open>bool\<close> is a subclass of
  \<open>int\<close>. The value of a number is \<open>nan\<close>, an infinity or a rational.
\<close>

datatype pynum = NumNan | NumInf bool | NumRat rat

fun num_of :: "json \<Rightarrow> pynum option" where
  "num_of (JBool b) = Some (NumRat (if b then 1 else 0))"
| "num_of (JInt i) = Some (NumRat (of_int i))"
| "num_of (JFloat FNan) = Some NumNan"
| "num_of (JFloat (FInf neg)) = Some (NumInf neg)"
| "num_of (JFloat FNegZero) = Some (NumRat 0)"
| "num_of (JFloat (FRat q)) = Some (NumRat q)"
| "num_of _ = None"

fun num_lt :: "pynum \<Rightarrow> pynum \<Rightarrow> bool" where
  "num_lt NumNan _ = False"
| "num_lt _ NumNan = False"
| "num_lt (NumRat a) (NumRat b) = (a < b)"
| "num_lt (NumInf n) (NumInf m) = (n \<and> \<not> m)"
| "num_lt (NumInf n) (NumRat b) = n"
| "num_lt (NumRat a) (NumInf m) = (\<not> m)"

fun num_eq :: "pynum \<Rightarrow> pynum \<Rightarrow> bool" where
  "num_eq NumNan _ = False"
| "num_eq _ NumNan = False"
| "num_eq (NumRat a) (NumRat b) = (a = b)"
| "num_eq (NumInf n) (NumInf m) = (n = m)"
| "num_eq _ _ = False"

definition num_le :: "pynum \<Rightarrow> pynum \<Rightarrow> bool" where
  "num_le a b = (num_lt a b \<or> num_eq a b)"

subsection \<open>Equality\<close>

text \<open>
  \<open>==\<close>: numbers by value, strings and \<open>None\<close> by identity of content, lists element
  by element, dictionaries by their sets of items whatever the order of insertion.
\<close>

fun py_eq :: "json \<Rightarrow> json \<Rightarrow> bool"
  and py_eq_list :: "json list \<Rightarrow> json list \<Rightarrow> bool"
  and py_eq_items :: "pydict \<Rightarrow> pydict \<Rightarrow> bool" where
  "py_eq JNull w = (w = JNull)"
| "py_eq (JBool b) w = (case num_of w of None \<Rightarrow> False | Some n \<Rightarrow> num_eq (NumRat (if b then 1 else 0)) n)"
| "py_eq (JInt i) w = (case num_of w of None \<Rightarrow> False | Some n \<Rightarrow> num_eq (NumRat (of_int i)) n)"
| "py_eq (JFloat f) w = (case (num_of (JFloat f), num_of w) of (Some m, Some n) \<Rightarrow> num_eq m n | _ \<Rightarrow> False)"
| "py_eq (JStr s) w = (w = JStr s)"
| "py_eq (JList xs) w = (case w of JList ys \<Rightarrow> py_eq_list xs ys | _ \<Rightarrow> False)"
| "py_eq (JDict d) w = (case w of JDict e \<Rightarrow> length d = length e \<and> py_eq_items d e | _ \<Rightarrow> False)"
| "py_eq_list [] ys = (ys = [])"
| "py_eq_list (x # xs) ys = (case ys of [] \<Rightarrow> False | y # zs \<Rightarrow> py_eq x y \<and> py_eq_list xs zs)"
| "py_eq_items [] e = True"
| "py_eq_items ((k, v) # d) e = (case map_of e k of None \<Rightarrow> False | Some w \<Rightarrow> py_eq v w \<and> py_eq_items d e)"

subsection \<open>Membership\<close>

fun py_substr :: "string \<Rightarrow> string \<Rightarrow> bool" where
  "py_substr p [] = (p = [])"
| "py_substr p (c # cs) = (take (length p) (c # cs) = p \<or> py_substr p cs)"

lemma py_substr_iff: "py_substr p s \<longleftrightarrow> (\<exists>a b. s = a @ p @ b)"
proof (induction s)
  case Nil
  then show ?case by auto
next
  case (Cons c cs)
  have "(\<exists>a b. c # cs = a @ p @ b) \<longleftrightarrow> (\<exists>b. c # cs = p @ b) \<or> (\<exists>a b. cs = a @ p @ b)"
    by (metis append_Cons append_Nil append_eq_Cons_conv)
  moreover have "(\<exists>b. c # cs = p @ b) \<longleftrightarrow> take (length p) (c # cs) = p"
    by (metis append_eq_conv_conj append_take_drop_id)
  ultimately show ?case using Cons.IH by simp
qed

text \<open>
  \<open>x in c\<close>: in a list by equality, in a dictionary by key (a list or a dictionary is not
  hashable), in a string as a substring; every other container raises \<open>TypeError\<close>.
\<close>

fun py_in :: "json \<Rightarrow> json \<Rightarrow> bool result" where
  "py_in x (JList ys) = Inr (list_ex (\<lambda>y. py_eq x y) ys)"
| "py_in (JList xs) (JDict d) = Inl (TypeError ''unhashable type'')"
| "py_in (JDict xs) (JDict d) = Inl (TypeError ''unhashable type'')"
| "py_in (JStr k) (JDict d) = Inr (k \<in> set (map fst d))"
| "py_in x (JDict d) = Inr False"
| "py_in (JStr p) (JStr s) = Inr (py_substr p s)"
| "py_in x (JStr s) = Inl (TypeError ''in <string> requires string'')"
| "py_in x c = Inl (TypeError ''argument is not iterable'')"

lemma num_lt_irrefl: "\<not> num_lt a a"
  by (cases a) auto

lemma num_lt_asym: "num_lt a b \<Longrightarrow> \<not> num_lt b a"
  by (cases a; cases b) auto

lemma num_le_not_lt: "num_le a b \<Longrightarrow> \<not> num_lt b a"
  by (cases a; cases b) (auto simp: num_le_def)

text \<open>
  Equality is reflexive on values without \<open>nan\<close>, and a dictionary equals every
  reordering of itself.
\<close>

fun finite_float :: "pyfloat \<Rightarrow> bool" where
  "finite_float FNan = False"
| "finite_float (FInf n) = False"
| "finite_float _ = True"

fun has_nan :: "json \<Rightarrow> bool"
  and has_nan_list :: "json list \<Rightarrow> bool"
  and has_nan_items :: "pydict \<Rightarrow> bool" where
  "has_nan JNull = False"
| "has_nan (JBool b) = False"
| "has_nan (JInt i) = False"
| "has_nan (JFloat f) = (\<not> finite_float f)"
| "has_nan (JStr s) = False"
| "has_nan (JList xs) = has_nan_list xs"
| "has_nan (JDict d) = has_nan_items d"
| "has_nan_list [] = False"
| "has_nan_list (x # xs) = (has_nan x \<or> has_nan_list xs)"
| "has_nan_items [] = False"
| "has_nan_items ((k, v) # d) = (has_nan v \<or> has_nan_items d)"

lemma has_nan_list_ex: "has_nan_list xs \<longleftrightarrow> (\<exists>x \<in> set xs. has_nan x)"
  by (induction xs) auto

lemma has_nan_items_ex: "has_nan_items d \<longleftrightarrow> (\<exists>v \<in> snd ` set d. has_nan v)"
  by (induction d) auto

lemma has_nan_of_opt [simp]: "\<not> has_nan (js_str s)" "\<not> has_nan (js_int i)"
  by (auto simp: js_str_def js_int_def split: option.splits)

lemma py_eq_items_all:
  "py_eq_items d e \<longleftrightarrow> (\<forall>(k, v) \<in> set d. \<exists>w. map_of e k = Some w \<and> py_eq v w)"
  by (induction d) (auto split: option.splits)

lemma py_eq_refl_aux:
  "(\<not> has_nan v \<and> wf_json v \<longrightarrow> py_eq v v)"
  "(\<not> has_nan_list vs \<and> wf_list vs \<longrightarrow> py_eq_list vs vs)"
  "(\<not> has_nan_items d \<and> wf_items d \<longrightarrow> (\<forall>(k, v) \<in> set d. py_eq v v))"
proof (induction v and vs and d rule: json_induct3)
  case (Float f)
  then show ?case by (cases f) auto
next
  case (Dict d)
  then show ?case by (auto simp: py_eq_items_all)
qed auto

lemma py_eq_refl: "\<not> has_nan v \<Longrightarrow> wf_json v \<Longrightarrow> py_eq v v"
  using py_eq_refl_aux(1) by blast

end
