(* ===== verification/Positional.thy ===== *)
theory Positional
  imports Prelude
begin

section \<open>Numbers in a fixed number of digits\<close>

text \<open>
  Three parts of the program print a number in a fixed number of digits, most significant first:
  dates in decimal, identifiers in Crockford's base 32, and the sequence keys of the RocksDB
  backend in base 256. All three rely on the same two facts: the text determines the number, and
  texts are ordered as the numbers are. The interface is the base and the character of a digit;
  it promises only that larger digits are larger characters.
\<close>

fun pos :: "nat \<Rightarrow> (nat \<Rightarrow> char) \<Rightarrow> nat \<Rightarrow> nat \<Rightarrow> string" where
  "pos b g 0 n = []"
| "pos b g (Suc w) n = pos b g w (n div b) @ [g (n mod b)]"

lemma length_pos [simp]: "length (pos b g w n) = w"
  by (induction w arbitrary: n) auto

lemma pos_set: "0 < b \<Longrightarrow> c \<in> set (pos b g w n) \<Longrightarrow> \<exists>d < b. c = g d"
  by (induction w arbitrary: n) (auto intro: mod_less_divisor)

lemma list_less_append: "(xs :: 'a :: linorder list) < ys \<Longrightarrow> length xs = length ys \<Longrightarrow> xs @ us < ys @ vs"
  unfolding list_less_def by (rule lexord_sufI) auto

lemma list_less_last: "(a :: 'a :: linorder) < b \<Longrightarrow> xs @ [a] < xs @ [b]"
  unfolding list_less_def by (rule lexord_append_leftI) simp

locale positional =
  fixes base :: nat and digit :: "nat \<Rightarrow> char"
  assumes base_gt: "1 < base"
    and digit_mono: "i < j \<Longrightarrow> j < base \<Longrightarrow> digit i < digit j"
begin

lemma digit_inj: "i < base \<Longrightarrow> j < base \<Longrightarrow> digit i = digit j \<Longrightarrow> i = j"
  using digit_mono by (metis linorder_neqE_nat order_less_irrefl)

lemma pos_inj:
  "m < base ^ w \<Longrightarrow> n < base ^ w \<Longrightarrow> pos base digit w m = pos base digit w n \<Longrightarrow> m = n"
proof (induction w arbitrary: m n)
  case 0
  then show ?case by simp
next
  case (Suc w)
  have "m div base < base ^ w" "n div base < base ^ w"
    using Suc.prems(1,2) by (simp_all add: less_mult_imp_div_less mult.commute)
  moreover have "pos base digit w (m div base) = pos base digit w (n div base)"
    and l: "digit (m mod base) = digit (n mod base)"
    using Suc.prems(3) by simp_all
  ultimately have q: "m div base = n div base" using Suc.IH by blast
  have "0 < base" using base_gt by simp
  with l have "m mod base = n mod base"
    by (intro digit_inj) simp_all
  with q show ?case by (metis div_mult_mod_eq)
qed

lemma pos_append_inj:
  assumes "pos base digit w m @ x = pos base digit w n @ y" and "m < base ^ w" and "n < base ^ w"
  shows "m = n \<and> x = y"
proof -
  from assms(1) have "pos base digit w m = pos base digit w n \<and> x = y"
    by (simp add: append_eq_append_conv)
  with assms(2,3) show ?thesis using pos_inj by blast
qed

lemma pos_less:
  "m < n \<Longrightarrow> n < base ^ w \<Longrightarrow> pos base digit w m < pos base digit w n"
proof (induction w arbitrary: m n)
  case 0
  then show ?case by simp
next
  case (Suc w)
  have b: "0 < base" using base_gt by simp
  have n: "n div base < base ^ w"
    using Suc.prems(2) by (simp add: less_mult_imp_div_less mult.commute)
  show ?case
  proof (cases "m div base < n div base")
    case True
    then have "pos base digit w (m div base) < pos base digit w (n div base)"
      using n by (rule Suc.IH)
    then show ?thesis by (simp add: list_less_append)
  next
    case False
    with Suc.prems(1) have q: "m div base = n div base"
      by (meson div_le_mono less_imp_le_nat linorder_not_less order_antisym)
    with Suc.prems(1) have "m mod base < n mod base"
      by (metis div_mult_mod_eq nat_add_left_cancel_less)
    with b have "digit (m mod base) < digit (n mod base)"
      by (intro digit_mono) simp_all
    with q show ?thesis by (simp add: list_less_last)
  qed
qed

lemma pos_less_iff:
  "m < base ^ w \<Longrightarrow> n < base ^ w \<Longrightarrow> pos base digit w m < pos base digit w n \<longleftrightarrow> m < n"
  by (metis linorder_neqE_nat order_less_asym order_less_irrefl pos_less)

end

end
