(* ===== verification/Text_Format.thy ===== *)
theory Text_Format
  imports Positional
begin

section \<open>Decimal and hexadecimal text\<close>

text \<open>
  The text the program prints for integers: \<open>str(n)\<close>, the \<open>%0wd\<close> fields of dates, and
  the two hexadecimal digits of a JSON escape. Every printer comes with the fact that makes the
  components' injectivity proofs work: two printed numbers of the same width are equal only if
  the numbers are.
\<close>

definition digit_char :: "nat \<Rightarrow> char" where
  "digit_char n = char_of (48 + n)"

definition digit_val :: "char \<Rightarrow> nat" where
  "digit_val c = of_char c - 48"

definition is_digit :: "char \<Rightarrow> bool" where
  "is_digit c = (CHR ''0'' \<le> c \<and> c \<le> CHR ''9'')"

lemma digit_val_char [simp]: "n < 10 \<Longrightarrow> digit_val (digit_char n) = n"
  by (simp add: digit_val_def digit_char_def)

lemma of_char_digit_char: "n < 10 \<Longrightarrow> (of_char (digit_char n) :: nat) = 48 + n"
  by (simp add: digit_char_def)

lemma is_digit_char [simp]: "n < 10 \<Longrightarrow> is_digit (digit_char n)"
  by (simp add: is_digit_def digit_char_def less_eq_char_def)

lemma digit_char_inj: "a < 10 \<Longrightarrow> b < 10 \<Longrightarrow> digit_char a = digit_char b \<Longrightarrow> a = b"
  by (metis digit_val_char)

subsection \<open>Natural numbers and integers\<close>

fun nat_str :: "nat \<Rightarrow> string" where
  "nat_str n = (if n < 10 then [digit_char n] else nat_str (n div 10) @ [digit_char (n mod 10)])"

declare nat_str.simps [simp del]

definition int_str :: "int \<Rightarrow> string" where
  "int_str i = (if i < 0 then CHR ''-'' # nat_str (nat (- i)) else nat_str (nat i))"

definition digits_val :: "string \<Rightarrow> nat" where
  "digits_val s = foldl (\<lambda>a c. 10 * a + digit_val c) 0 s"

lemma digits_val_snoc [simp]: "digits_val (s @ [c]) = 10 * digits_val s + digit_val c"
  by (simp add: digits_val_def)

lemma digits_val_nat_str [simp]: "digits_val (nat_str n) = n"
proof (induction n rule: nat_str.induct)
  case (1 n)
  show ?case
  proof (cases "n < 10")
    case True
    then show ?thesis by (subst nat_str.simps) (simp add: digits_val_def)
  next
    case False
    with 1 show ?thesis by (subst nat_str.simps) simp
  qed
qed

lemma nat_str_inj [simp]: "nat_str a = nat_str b \<longleftrightarrow> a = b"
  by (metis digits_val_nat_str)

lemma nat_str_nonempty [simp]: "nat_str n \<noteq> []"
  by (subst nat_str.simps) simp

lemma nat_str_digits: "\<forall>c \<in> set (nat_str n). is_digit c"
proof (induction n rule: nat_str.induct)
  case (1 n)
  then show ?case by (subst nat_str.simps) auto
qed

lemma dash_not_digit: "\<not> is_digit (CHR ''-'')"
  by code_simp

lemma int_str_inj [simp]: "int_str i = int_str j \<longleftrightarrow> i = j"
proof
  assume eq: "int_str i = int_str j"
  have no_dash: "nat_str n \<noteq> CHR ''-'' # s" for n s
    using nat_str_digits [of n] dash_not_digit by auto
  show "i = j"
    using eq no_dash no_dash [symmetric] by (auto simp: int_str_def split: if_splits)
qed simp

lemma int_str_nonempty [simp]: "int_str i \<noteq> []"
  by (simp add: int_str_def)

lemma int_str_chars: "\<forall>c \<in> set (int_str i). is_digit c \<or> c = CHR ''-''"
  using nat_str_digits by (auto simp: int_str_def)

subsection \<open>Fields of a fixed width\<close>

text \<open>\<open>"%0wd"\<close> for a value below \<open>10 ^ w\<close>: exactly \<open>w\<close> digits.\<close>

definition pad :: "nat \<Rightarrow> nat \<Rightarrow> string" where
  "pad w n = pos 10 digit_char w n"

lemma digit_char_mono: "i < j \<Longrightarrow> j < 10 \<Longrightarrow> digit_char i < digit_char j"
  by (simp add: digit_char_def less_char_def)

interpretation decimal: positional 10 digit_char
  by unfold_locales (auto intro: digit_char_mono)

lemma length_pad [simp]: "length (pad w n) = w"
  by (simp add: pad_def)

lemma pad_append_inj:
  assumes "pad w a @ x = pad w b @ y" and "a < 10 ^ w" and "b < 10 ^ w"
  shows "a = b \<and> x = y"
  using assms unfolding pad_def by (rule decimal.pos_append_inj)

lemma pad_eq_iff: "a < 10 ^ w \<Longrightarrow> b < 10 ^ w \<Longrightarrow> pad w a = pad w b \<longleftrightarrow> a = b"
  unfolding pad_def using decimal.pos_inj by blast

lemma pad_2_6_eq [simp]:
  "a < 100 \<Longrightarrow> b < 100 \<Longrightarrow> pad 2 a = pad 2 b \<longleftrightarrow> a = b"
  "a < 1000000 \<Longrightarrow> b < 1000000 \<Longrightarrow> pad 6 a = pad 6 b \<longleftrightarrow> a = b"
  using pad_eq_iff [of a 2 b] pad_eq_iff [of a 6 b] by simp_all

lemma pad_digits: "\<forall>c \<in> set (pad w n). is_digit c"
  using pos_set [of 10 _ digit_char w n] is_digit_char by (fastforce simp: pad_def)

subsection \<open>Hexadecimal\<close>

definition hex_char :: "nat \<Rightarrow> char" where
  "hex_char n = (if n < 10 then char_of (48 + n) else char_of (87 + n))"

definition hex_val :: "char \<Rightarrow> nat" where
  "hex_val c = (if of_char c < (58 :: nat) then of_char c - 48 else of_char c - 87)"

lemma hex_val_char [simp]: "n < 16 \<Longrightarrow> hex_val (hex_char n) = n"
  by (simp add: hex_val_def hex_char_def)

text \<open>The lower-case hexadecimal text of a list of bytes (\<open>hexdigest\<close>).\<close>

definition hexdigest :: "string \<Rightarrow> string" where
  "hexdigest bs = concat (map (\<lambda>c. [hex_char (of_char c div 16), hex_char (of_char c mod 16)]) bs)"

lemma hexdigest_Cons [simp]:
  "hexdigest [] = []"
  "hexdigest (c # cs) = hex_char (of_char c div 16) # hex_char (of_char c mod 16) # hexdigest cs"
  by (simp_all add: hexdigest_def)

lemma length_hexdigest [simp]: "length (hexdigest bs) = 2 * length bs"
  by (induction bs) auto

lemma hex_char_inj: "a < 16 \<Longrightarrow> b < 16 \<Longrightarrow> hex_char a = hex_char b \<Longrightarrow> a = b"
  by (metis hex_val_char)

lemma of_char_nat_inj: "(of_char c :: nat) = of_char d \<Longrightarrow> c = d"
  by simp

lemma of_char_lt: "(of_char c :: nat) < 256"
  by simp

lemma div_mod_nat_inj:
  assumes "(a :: nat) div m = b div m" and "a mod m = b mod m"
  shows "a = b"
  using assms by (metis div_mult_mod_eq)

lemma hex_pair_inj:
  assumes "hex_char (of_char c div 16) = hex_char (of_char d div 16)"
    and "hex_char (of_char c mod 16) = hex_char (of_char d mod 16)"
  shows "c = d"
proof (rule of_char_nat_inj)
  have lt: "n div 16 < 16" if "n < 256" for n :: nat
    using that by simp
  have q: "(of_char c div 16 :: nat) = of_char d div 16"
    using hex_char_inj [OF lt [OF of_char_lt] lt [OF of_char_lt] assms(1)] .
  have r: "(of_char c mod 16 :: nat) = of_char d mod 16"
    using hex_char_inj [OF _ _ assms(2)] by simp
  from q r show "(of_char c :: nat) = of_char d"
    by (rule div_mod_nat_inj)
qed

lemma hexdigest_inj: "hexdigest a = hexdigest b \<Longrightarrow> a = b"
proof (induction a arbitrary: b)
  case Nil
  then show ?case by (cases b) auto
next
  case (Cons c cs)
  then obtain d ds where b: "b = d # ds" by (cases b) auto
  with Cons.prems have "c = d" by (auto intro: hex_pair_inj)
  moreover have "cs = ds" using Cons.IH Cons.prems unfolding b by simp
  ultimately show ?case using b by simp
qed

end
