(* ===== verification/Canonical_Json.thy ===== *)
theory Canonical_Json
  imports Json_Value Text_Format
begin

section \<open>Canonical JSON and event hashing\<close>

text \<open>
  \<open>hashing.py\<close>, the same text in the SDK and in the collector: \<open>canonical_json\<close> is
  \<open>json.dumps\<close> with sorted keys, no white space, non-ASCII text kept and \<open>nan\<close> and the
  infinities rejected; hashes are SHA-256 over that text. Two pieces of the run time are
  parameters: \<open>fr\<close>, the text \<open>float.__repr__\<close> gives for a finite float, and \<open>H\<close>, the
  hexadecimal SHA-256 digest. Nothing is assumed of \<open>H\<close>: theorems about hashes say
  \<open>equal or here is a collision\<close>.

  The main result is that the encoding is unambiguous: two values have the same canonical text
  exactly when they are the same value up to the order of dictionary items.
\<close>

subsection \<open>Strings\<close>

definition quote :: char where "quote = CHR 0x22"
definition backslash :: char where "backslash = CHR 0x5C"

text \<open>The escapes of \<open>json.encoder\<close> with \<open>ensure_ascii=False\<close>.\<close>

definition esc_char :: "char \<Rightarrow> string" where
  "esc_char c =
    (if c = quote then [backslash, quote]
     else if c = backslash then [backslash, backslash]
     else if c = CHR 0x0A then [backslash, CHR ''n'']
     else if c = CHR 0x0D then [backslash, CHR ''r'']
     else if c = CHR 0x09 then [backslash, CHR ''t'']
     else if c = CHR 0x0C then [backslash, CHR ''f'']
     else if c = CHR 0x08 then [backslash, CHR ''b'']
     else if (of_char c :: nat) < 32
       then [backslash, CHR ''u'', CHR ''0'', CHR ''0'',
             hex_char (of_char c div 16), hex_char (of_char c mod 16)]
     else [c])"

definition json_string :: "string \<Rightarrow> string" where
  "json_string s = quote # concat (map esc_char s) @ [quote]"

subsection \<open>The encoder\<close>

definition enc_pair :: "string \<times> string \<Rightarrow> string" where
  "enc_pair p = json_string (fst p) @ '':'' @ snd p"

fun enc :: "(pyfloat \<Rightarrow> string) \<Rightarrow> json \<Rightarrow> string"
  and enc_list :: "(pyfloat \<Rightarrow> string) \<Rightarrow> json list \<Rightarrow> string list"
  and enc_items :: "(pyfloat \<Rightarrow> string) \<Rightarrow> pydict \<Rightarrow> (string \<times> string) list" where
  "enc fr JNull = ''null''"
| "enc fr (JBool b) = (if b then ''true'' else ''false'')"
| "enc fr (JInt i) = int_str i"
| "enc fr (JFloat f) = fr f"
| "enc fr (JStr s) = json_string s"
| "enc fr (JList xs) = ''['' @ join '','' (enc_list fr xs) @ '']''"
| "enc fr (JDict d) = ''{'' @ join '','' (map enc_pair (sort_key fst (enc_items fr d))) @ ''}''"
| "enc_list fr [] = []"
| "enc_list fr (x # xs) = enc fr x # enc_list fr xs"
| "enc_items fr [] = []"
| "enc_items fr ((k, v) # d) = (k, enc fr v) # enc_items fr d"

definition canonical_json :: "(pyfloat \<Rightarrow> string) \<Rightarrow> json \<Rightarrow> string result" where
  "canonical_json fr j =
    (if has_nan j then Inl (ValueError ''Out of range float values are not JSON compliant'')
     else Inr (enc fr j))"

definition sha256_hex :: "(string \<Rightarrow> string) \<Rightarrow> string \<Rightarrow> string" where
  "sha256_hex H data = ''sha256:'' @ H data"

definition hash_json :: "(string \<Rightarrow> string) \<Rightarrow> (pyfloat \<Rightarrow> string) \<Rightarrow> json \<Rightarrow> string result" where
  "hash_json H fr j = (case canonical_json fr j of Inl e \<Rightarrow> Inl e | Inr b \<Rightarrow> Inr (sha256_hex H b))"

definition compute_event_hash :: "(string \<Rightarrow> string) \<Rightarrow> (pyfloat \<Rightarrow> string) \<Rightarrow> pydict \<Rightarrow> string result" where
  "compute_event_hash H fr event = hash_json H fr (JDict (filter (\<lambda>(k, v). k \<noteq> ''event_hash'') event))"

definition compute_payload_hash :: "(string \<Rightarrow> string) \<Rightarrow> (pyfloat \<Rightarrow> string) \<Rightarrow> json \<Rightarrow> string result" where
  "compute_payload_hash H fr payload = hash_json H fr (if payload \<noteq> JNull then payload else JDict [])"

subsection \<open>Values up to the order of dictionary items\<close>

fun norm_json :: "json \<Rightarrow> json"
  and norm_list :: "json list \<Rightarrow> json list"
  and norm_items :: "pydict \<Rightarrow> pydict" where
  "norm_json JNull = JNull"
| "norm_json (JBool b) = JBool b"
| "norm_json (JInt i) = JInt i"
| "norm_json (JFloat f) = JFloat f"
| "norm_json (JStr s) = JStr s"
| "norm_json (JList xs) = JList (norm_list xs)"
| "norm_json (JDict d) = JDict (sort_key fst (norm_items d))"
| "norm_list [] = []"
| "norm_list (x # xs) = norm_json x # norm_list xs"
| "norm_items [] = []"
| "norm_items ((k, v) # d) = (k, norm_json v) # norm_items d"

definition json_equiv :: "json \<Rightarrow> json \<Rightarrow> bool" where
  "json_equiv a b = (norm_json a = norm_json b)"

definition map_val :: "('a \<Rightarrow> 'b) \<Rightarrow> string \<times> 'a \<Rightarrow> string \<times> 'b" where
  "map_val f p = (fst p, f (snd p))"

lemma map_val_simps [simp]: "fst (map_val f p) = fst p" "snd (map_val f p) = f (snd p)" "map_val f (k, v) = (k, f v)"
  by (simp_all add: map_val_def)

lemma enc_list_map: "enc_list fr xs = map (enc fr) xs"
  by (induction xs) auto

lemma enc_items_map: "enc_items fr d = map (map_val (enc fr)) d"
  by (induction d) auto

lemma norm_list_map: "norm_list xs = map norm_json xs"
  by (induction xs) auto

lemma norm_items_map: "norm_items d = map (map_val norm_json) d"
  by (induction d) auto

text \<open>Sorting by key commutes with a change of the values.\<close>

lemma insort_key_map_val:
  "insort_key fst (map_val f p) (map (map_val f) d) = map (map_val f) (insort_key fst p d)"
  by (induction d) auto

lemma sort_key_map_val:
  "sort_key fst (map (map_val f) d) = map (map_val f) (sort_key fst d)"
  by (induction d) (simp_all add: insort_key_map_val)

lemma norm_items_sort: "norm_items (sort_key fst d) = sort_key fst (norm_items d)"
  by (simp add: norm_items_map sort_key_map_val)

lemma enc_items_sort: "enc_items fr (sort_key fst d) = sort_key fst (enc_items fr d)"
  by (simp add: enc_items_map sort_key_map_val)

lemma sort_key_idem [simp]: "sort_key f (sort_key f xs) = sort_key f xs"
  by (rule sort_key_sorted_id) simp

lemma norm_json_idem_aux:
  "norm_json (norm_json v) = norm_json v"
  "norm_list (norm_list vs) = norm_list vs"
  "norm_items (norm_items d) = norm_items d"
  by (induction v and vs and d rule: json_induct3) (simp_all add: norm_items_sort)

lemma norm_json_idem [simp]: "norm_json (norm_json v) = norm_json v"
  by (rule norm_json_idem_aux)

text \<open>The encoder sees a value only up to the order of its items.\<close>

lemma enc_norm_aux:
  "enc fr (norm_json v) = enc fr v"
  "enc_list fr (norm_list vs) = enc_list fr vs"
  "enc_items fr (norm_items d) = enc_items fr d"
  by (induction v and vs and d rule: json_induct3) (simp_all add: enc_items_sort)

lemma enc_norm [simp]: "enc fr (norm_json v) = enc fr v"
  by (rule enc_norm_aux)

subsection \<open>Strings are decoded from their escapes\<close>

lemma quote_backslash [simp]: "quote \<noteq> backslash" "backslash \<noteq> quote"
  by (simp_all add: quote_def backslash_def)

definition unesc :: "string \<Rightarrow> (char \<times> string) option" where
  "unesc t = (case t of [] \<Rightarrow> None | c # r \<Rightarrow>
     if c = quote then None
     else if c \<noteq> backslash then Some (c, r)
     else (case r of [] \<Rightarrow> None | e # r' \<Rightarrow>
       if e = CHR ''n'' then Some (CHR 0x0A, r')
       else if e = CHR ''r'' then Some (CHR 0x0D, r')
       else if e = CHR ''t'' then Some (CHR 0x09, r')
       else if e = CHR ''f'' then Some (CHR 0x0C, r')
       else if e = CHR ''b'' then Some (CHR 0x08, r')
       else if e = CHR ''u''
         then Some (char_of (16 * hex_val (r' ! 2) + hex_val (r' ! 3)), drop 4 r')
       else Some (e, r')))"

lemma unesc_esc_char: "unesc (esc_char c @ r) = Some (c, r)"
proof -
  have hex: "char_of (16 * hex_val (hex_char (of_char c div 16)) + hex_val (hex_char (of_char c mod 16))) = c"
    if "(of_char c :: nat) < 32"
    using that by simp
  show ?thesis
    using hex by (auto simp: unesc_def esc_char_def quote_def backslash_def)
qed

lemma unesc_quote: "unesc (quote # r) = None"
  by (simp add: unesc_def)

lemma esc_concat_inj:
  "concat (map esc_char s) @ quote # r = concat (map esc_char t) @ quote # r' \<Longrightarrow> s = t \<and> r = r'"
proof (induction s arbitrary: t)
  case Nil
  show ?case
  proof (cases t)
    case Nil
    with Nil.prems show ?thesis by simp
  next
    case (Cons c u)
    with Nil.prems have "unesc (quote # r) = unesc (esc_char c @ concat (map esc_char u) @ quote # r')"
      by simp
    then show ?thesis by (simp add: unesc_quote unesc_esc_char)
  qed
next
  case (Cons a s)
  show ?case
  proof (cases t)
    case Nil
    with Cons.prems have "unesc (esc_char a @ concat (map esc_char s) @ quote # r) = unesc (quote # r')"
      by simp
    then show ?thesis by (simp add: unesc_quote unesc_esc_char)
  next
    case (Cons c u)
    with Cons.prems have eq: "esc_char a @ concat (map esc_char s) @ quote # r
        = esc_char c @ concat (map esc_char u) @ quote # r'"
      by simp
    then have "unesc (esc_char a @ concat (map esc_char s) @ quote # r)
        = unesc (esc_char c @ concat (map esc_char u) @ quote # r')" by simp
    then have "a = c" and "concat (map esc_char s) @ quote # r = concat (map esc_char u) @ quote # r'"
      by (simp_all add: unesc_esc_char)
    with Cons.IH [of u] Cons show ?thesis by simp
  qed
qed

lemma json_string_inj: "json_string s @ r = json_string t @ r' \<Longrightarrow> s = t \<and> r = r'"
  unfolding json_string_def using esc_concat_inj [of s r t r'] by simp


subsection \<open>The encoding is unambiguous\<close>

text \<open>
  What the program relies on of \<open>float.__repr__\<close>: on finite floats it is injective (it
  prints the shortest text that reads back as the same float), it uses only the characters of
  numbers, and it never prints an integer literal.
\<close>

definition num_chars :: "char set" where
  "num_chars = {c. is_digit c} \<union> {CHR ''-'', CHR ''+'', CHR ''.'', CHR ''e''}"

definition float_repr_ok :: "(pyfloat \<Rightarrow> string) \<Rightarrow> bool" where
  "float_repr_ok fr \<longleftrightarrow>
     inj_on fr {f. finite_float f}
     \<and> (\<forall>f. finite_float f \<longrightarrow> set (fr f) \<subseteq> num_chars \<and> (CHR ''.'' \<in> set (fr f) \<or> CHR ''e'' \<in> set (fr f)))"

text \<open>What can follow an encoded value: nothing, a comma or a closing bracket.\<close>

definition stops :: "string \<Rightarrow> bool" where
  "stops r \<longleftrightarrow> (r = [] \<or> hd r \<in> {CHR '','', CHR '']'', CHR ''}''})"

lemma stops_simps [simp]:
  "stops []" "stops (CHR '','' # r)" "stops (CHR '']'' # r)" "stops (CHR ''}'' # r)"
  by (simp_all add: stops_def)

definition num_text :: "string \<Rightarrow> bool" where
  "num_text t \<longleftrightarrow> t \<noteq> [] \<and> set t \<subseteq> num_chars"

lemma not_num_chars [simp]:
  "CHR ''n'' \<notin> num_chars" "CHR ''t'' \<notin> num_chars" "CHR ''f'' \<notin> num_chars"
  "quote \<notin> num_chars" "CHR ''['' \<notin> num_chars" "CHR ''{'' \<notin> num_chars"
  "CHR '','' \<notin> num_chars" "CHR '']'' \<notin> num_chars" "CHR ''}'' \<notin> num_chars"
  by (simp_all add: num_chars_def is_digit_def less_eq_char_def quote_def)

lemma num_text_inj:
  assumes "t @ r = u @ s" "set t \<subseteq> num_chars" "set u \<subseteq> num_chars" "stops r" "stops s"
  shows "t = u \<and> r = s"
proof -
  have tw: "takeWhile (\<lambda>c. c \<in> num_chars) (x @ y) = x" if "set x \<subseteq> num_chars" "stops y" for x y
    using that by (cases y) (auto simp: stops_def takeWhile_append)
  from tw [OF assms(2,4)] tw [OF assms(3,5)] assms(1) have "t = u" by simp
  with assms(1) show ?thesis by simp
qed

lemma num_text_int: "num_text (int_str i)"
  using int_str_chars [of i] by (auto simp: num_text_def num_chars_def)

lemma num_text_float: "float_repr_ok fr \<Longrightarrow> finite_float f \<Longrightarrow> num_text (fr f)"
  by (fastforce simp: float_repr_ok_def num_text_def)

lemma float_not_int: "float_repr_ok fr \<Longrightarrow> finite_float f \<Longrightarrow> fr f \<noteq> int_str i"
proof
  assume ok: "float_repr_ok fr" "finite_float f" and eq: "fr f = int_str i"
  then have "CHR ''.'' \<in> set (int_str i) \<or> CHR ''e'' \<in> set (int_str i)"
    by (auto simp: float_repr_ok_def)
  then show False
    using int_str_chars [of i] by (auto simp: is_digit_def less_eq_char_def)
qed

lemma num_text_hd: "num_text t \<Longrightarrow> t @ r = c # s \<Longrightarrow> c \<in> num_chars"
  by (cases t) (auto simp: num_text_def)

text \<open>The statement for one value: its text ends where the next character says.\<close>

definition decodes :: "(pyfloat \<Rightarrow> string) \<Rightarrow> json \<Rightarrow> bool" where
  "decodes fr a \<longleftrightarrow> (\<forall>b r s. enc fr a @ r = enc fr b @ s \<longrightarrow> \<not> has_nan a \<longrightarrow> \<not> has_nan b \<longrightarrow>
     stops r \<longrightarrow> stops s \<longrightarrow> norm_json a = norm_json b \<and> r = s)"


lemma decodesD:
  assumes "decodes fr a" "enc fr a @ r = enc fr b @ s" "\<not> has_nan a" "\<not> has_nan b" "stops r" "stops s"
  shows "norm_json a = norm_json b \<and> r = s"
  using assms unfolding decodes_def by blast

text \<open>The first character of a text tells the kind of its value.\<close>

fun kind :: "json \<Rightarrow> char" where
  "kind JNull = CHR ''n''"
| "kind (JBool b) = CHR ''t''"
| "kind (JInt i) = CHR ''0''"
| "kind (JFloat f) = CHR ''0''"
| "kind (JStr s) = quote"
| "kind (JList xs) = CHR ''[''"
| "kind (JDict d) = CHR ''{''"

definition kind_of_char :: "char \<Rightarrow> char" where
  "kind_of_char c = (if c \<in> num_chars then CHR ''0'' else if c = CHR ''f'' then CHR ''t'' else c)"

lemma quote_chars [simp]:
  "quote \<noteq> CHR ''n''" "quote \<noteq> CHR ''t''" "quote \<noteq> CHR ''f''" "quote \<noteq> CHR ''0''" "quote \<noteq> CHR ''[''" "quote \<noteq> CHR ''{''"
  "quote \<noteq> CHR '']''" "quote \<noteq> CHR ''}''" "quote \<noteq> CHR '':''"
  by (simp_all add: quote_def)

lemmas quote_chars_sym [simp] = quote_chars [THEN not_sym]

lemma kind_of_num: "num_text t \<Longrightarrow> t \<noteq> [] \<and> kind_of_char (hd t) = CHR ''0''"
  by (cases t) (auto simp: num_text_def kind_of_char_def)

lemma enc_start:
  assumes "float_repr_ok fr" and "\<not> has_nan a"
  shows "enc fr a \<noteq> [] \<and> kind_of_char (hd (enc fr a)) = kind a"
proof (cases a)
  case (JInt i)
  then show ?thesis using kind_of_num [OF num_text_int [of i]] by simp
next
  case (JFloat f)
  with assms have "finite_float f" by simp
  with JFloat show ?thesis using kind_of_num [OF num_text_float [OF assms(1)]] by simp
qed (auto simp: kind_of_char_def json_string_def)

lemma enc_kind:
  assumes "float_repr_ok fr" "\<not> has_nan a" "\<not> has_nan b" "enc fr a @ r = enc fr b @ s"
  shows "kind a = kind b"
  using enc_start [OF assms(1,2)] enc_start [OF assms(1,3)] assms(4)
  by (metis hd_append2)

lemma kind_bracket: "kind a \<noteq> CHR '']'' \<and> kind a \<noteq> CHR ''}''"
  by (cases a) auto

lemma enc_not_bracket:
  assumes "float_repr_ok fr" "\<not> has_nan a"
  shows "enc fr a \<noteq> [] \<and> hd (enc fr a) \<noteq> CHR '']'' \<and> hd (enc fr a) \<noteq> CHR ''}''"
  using enc_start [OF assms] kind_bracket [of a] by (auto simp: kind_of_char_def split: if_splits)

text \<open>A comma-separated sequence up to its closing bracket is decoded element by element.\<close>

lemma join_hd: "f y \<noteq> [] \<Longrightarrow> hd (join sep (map f (y # ys)) @ t) = hd (f y)"
  by (simp add: join_Cons)

lemma join_inj:
  assumes "\<And>x y r s. x \<in> set xs \<Longrightarrow> y \<in> set ys \<Longrightarrow> f x @ r = f y @ s \<Longrightarrow> stops r \<Longrightarrow> stops s \<Longrightarrow> n x = n y \<and> r = s"
    and "\<And>x. x \<in> set xs \<union> set ys \<Longrightarrow> f x \<noteq> [] \<and> hd (f x) \<noteq> c"
    and c: "c \<in> {CHR '']'', CHR ''}''}"
    and "join '','' (map f xs) @ c # r = join '','' (map f ys) @ c # s"
  shows "map n xs = map n ys \<and> r = s"
  using assms(1,2,4)
proof (induction xs arbitrary: ys)
  case Nil
  have "ys = []"
  proof (rule ccontr)
    assume "ys \<noteq> []"
    then obtain y zs where ys: "ys = y # zs" by (cases ys) auto
    with Nil.prems(3) have "hd (c # r) = hd (join '','' (map f (y # zs)) @ c # s)" by simp
    with Nil.prems(2) [of y] ys show False by (simp add: join_hd del: list.map)
  qed
  with Nil show ?case by simp
next
  case (Cons x xs)
  note ok = Cons.prems(1) and start = Cons.prems(2) and eq = Cons.prems(3)
  show ?case
  proof (cases ys)
    case Nil
    with eq have "hd (join '','' (map f (x # xs)) @ c # r) = hd (c # s)" by simp
    with start [of x] show ?thesis by (simp add: join_hd del: list.map)
  next
    case (Cons y zs)
    define tx where "tx = (if xs = [] then c # r else CHR '','' # join '','' (map f xs) @ c # r)"
    define ty where "ty = (if zs = [] then c # s else CHR '','' # join '','' (map f zs) @ c # s)"
    have "join '','' (map f (x # xs)) @ c # r = f x @ tx"
      by (simp add: join_Cons tx_def)
    moreover have "join '','' (map f (y # zs)) @ c # s = f y @ ty"
      by (simp add: join_Cons ty_def)
    ultimately have "f x @ tx = f y @ ty"
      using eq Cons by simp
    moreover have "stops tx" "stops ty"
      using c by (auto simp: tx_def ty_def)
    ultimately have xy: "n x = n y" and t: "tx = ty"
      using ok [of x y tx ty] Cons by auto
    show ?thesis
    proof (cases "xs = []")
      case True
      with t c have "zs = []" "r = s" by (auto simp: tx_def ty_def split: if_splits)
      with True xy Cons show ?thesis by simp
    next
      case False
      with t c have zs: "zs \<noteq> []" and e: "join '','' (map f xs) @ c # r = join '','' (map f zs) @ c # s"
        by (auto simp: tx_def ty_def split: if_splits)
      have "map n xs = map n zs \<and> r = s"
        using e ok start Cons by (intro Cons.IH) auto
      with xy Cons show ?thesis by simp
    qed
  qed
qed

lemma decodes_list:
  assumes fr: "float_repr_ok fr" and "\<forall>x \<in> set xs. decodes fr x"
  shows "decodes fr (JList xs)"
  unfolding decodes_def
proof (intro allI impI)
  fix b r s
  assume eq: "enc fr (JList xs) @ r = enc fr b @ s" and nx: "\<not> has_nan (JList xs)" and nb: "\<not> has_nan b"
  from enc_kind [OF fr nx nb eq] obtain ys where b: "b = JList ys" by (cases b) auto
  have "map norm_json xs = map norm_json ys \<and> r = s"
  proof (rule join_inj [where f = "enc fr" and c = "CHR '']''"])
    show "join '','' (map (enc fr) xs) @ CHR '']'' # r = join '','' (map (enc fr) ys) @ CHR '']'' # s"
      using eq b by (simp add: enc_list_map)
  next
    fix x y r s
    assume "x \<in> set xs" "y \<in> set ys" "enc fr x @ r = enc fr y @ s" "stops r" "stops s"
    moreover from this have "decodes fr x" "\<not> has_nan x" "\<not> has_nan y"
      using assms(2) nx nb b by (simp_all add: has_nan_list_ex)
    ultimately show "norm_json x = norm_json y \<and> r = s"
      by (intro decodesD)
  next
    fix x assume "x \<in> set xs \<union> set ys"
    then show "enc fr x \<noteq> [] \<and> hd (enc fr x) \<noteq> CHR '']''"
      using enc_not_bracket [OF fr, of x] nx nb b by (auto simp: has_nan_list_ex)
  qed simp
  then show "norm_json (JList xs) = norm_json b \<and> r = s"
    by (simp add: b norm_list_map)
qed

lemma enc_pair_eq:
  assumes "enc_pair p @ r = enc_pair q @ s"
  shows "fst p = fst q \<and> snd p @ r = snd q @ s"
  using json_string_inj [of "fst p" "'':'' @ snd p @ r" "fst q" "'':'' @ snd q @ s"] assms
  by (simp add: enc_pair_def)

lemma decodes_dict:
  assumes fr: "float_repr_ok fr" and "\<forall>p \<in> set d. decodes fr (snd p)"
  shows "decodes fr (JDict d)"
  unfolding decodes_def
proof (intro allI impI)
  fix b r s
  assume eq: "enc fr (JDict d) @ r = enc fr b @ s" and nd: "\<not> has_nan (JDict d)" and nb: "\<not> has_nan b"
  from enc_kind [OF fr nd nb eq] obtain e where b: "b = JDict e" by (cases b) auto
  let ?f = "\<lambda>p. enc_pair (map_val (enc fr) p)"
  have "map (map_val norm_json) (sort_key fst d) = map (map_val norm_json) (sort_key fst e) \<and> r = s"
  proof (rule join_inj [where f = ?f and c = "CHR ''}''"])
    show "join '','' (map ?f (sort_key fst d)) @ CHR ''}'' # r = join '','' (map ?f (sort_key fst e)) @ CHR ''}'' # s"
      using eq b by (simp add: enc_items_map sort_key_map_val comp_def)
  next
    fix p q r s
    assume p: "p \<in> set (sort_key fst d)" and q: "q \<in> set (sort_key fst e)"
      and e: "?f p @ r = ?f q @ s" and st: "stops r" "stops s"
    from enc_pair_eq [OF e] have "fst p = fst q" and "enc fr (snd p) @ r = enc fr (snd q) @ s" by auto
    moreover have "decodes fr (snd p)" "\<not> has_nan (snd p)" "\<not> has_nan (snd q)"
      using p q assms(2) nd nb b by (simp_all add: has_nan_items_ex)
    ultimately show "map_val norm_json p = map_val norm_json q \<and> r = s"
      using decodesD [of fr "snd p" r "snd q" s] st by (simp add: map_val_def)
  qed (auto simp: enc_pair_def json_string_def)
  then show "norm_json (JDict d) = norm_json b \<and> r = s"
    by (simp add: b norm_items_map sort_key_map_val)
qed

lemma decodes_number:
  assumes fr: "float_repr_ok fr" and a: "kind a = CHR ''0''"
  shows "decodes fr a"
  unfolding decodes_def
proof (intro allI impI)
  fix b r s
  assume eq: "enc fr a @ r = enc fr b @ s" and na: "\<not> has_nan a" and nb: "\<not> has_nan b"
    and st: "stops r" "stops s"
  have kb: "kind b = CHR ''0''" using enc_kind [OF fr na nb eq] a by simp
  have num: "num_text (enc fr x)" if "kind x = CHR ''0''" "\<not> has_nan x" for x
    using that num_text_int num_text_float [OF fr] by (cases x) auto
  from num [OF a na] num [OF kb nb] eq st have t: "enc fr a = enc fr b" "r = s"
    using num_text_inj [of "enc fr a" r "enc fr b" s] by (auto simp: num_text_def)
  have "a = b"
    using a kb t(1) na nb float_not_int [OF fr] float_not_int [OF fr, THEN not_sym] fr
    by (cases a; cases b) (auto simp: float_repr_ok_def inj_on_def)
  with t show "norm_json a = norm_json b \<and> r = s" by simp
qed

lemma decodes_string: "float_repr_ok fr \<Longrightarrow> decodes fr (JStr t)"
  unfolding decodes_def
proof (intro allI impI)
  fix b r s
  assume fr: "float_repr_ok fr" and eq: "enc fr (JStr t) @ r = enc fr b @ s"
    and n: "\<not> has_nan (JStr t)" "\<not> has_nan b"
  from enc_kind [OF fr n eq] obtain u where "b = JStr u" by (cases b) auto
  with eq json_string_inj [of t r u s] show "norm_json (JStr t) = norm_json b \<and> r = s" by simp
qed

lemma decodes_const:
  assumes fr: "float_repr_ok fr" and a: "a = JNull \<or> a = JBool c"
  shows "decodes fr a"
  unfolding decodes_def
proof (intro allI impI)
  fix b r s
  assume eq: "enc fr a @ r = enc fr b @ s" and n: "\<not> has_nan a" "\<not> has_nan b"
  from enc_kind [OF fr n eq] a show "norm_json a = norm_json b \<and> r = s"
    using eq by (cases b) (auto split: if_splits)
qed

lemma decodes_aux:
  assumes "float_repr_ok fr"
  shows "decodes fr v" and "\<forall>x \<in> set vs. decodes fr x" and "\<forall>p \<in> set (d :: pydict). decodes fr (snd p)"
  by (induction v and vs and d rule: json_induct3)
    (auto intro: decodes_list decodes_dict decodes_number decodes_string decodes_const assms)

lemma enc_inj:
  assumes "float_repr_ok fr" "\<not> has_nan a" "\<not> has_nan b" "enc fr a = enc fr b"
  shows "json_equiv a b"
  using decodesD [OF decodes_aux(1) [OF assms(1), of a], of "[]" b "[]"] assms(2-4)
  by (simp add: json_equiv_def)

lemma enc_eq_iff:
  assumes "float_repr_ok fr" "\<not> has_nan a" "\<not> has_nan b"
  shows "enc fr a = enc fr b \<longleftrightarrow> json_equiv a b"
  using enc_inj [OF assms] by (metis enc_norm json_equiv_def)

end
