(* ===== verification/Py_Runtime.thy ===== *)
theory Py_Runtime
  imports Canonical_Json
begin

section \<open>The run time: dates, and what the program asks of its environment\<close>

text \<open>
  \<open>datetime\<close> values as the code uses them: civil time with an optional UTC offset, printed by
  \<open>isoformat\<close>. The clock, the random source, SHA-256, \<open>repr\<close> and the parser of ISO
  dates are not code of the repository: a \<open>runtime\<close> record holds them, and a state counts the
  readings made so far.
\<close>

subsection \<open>Dates\<close>

text \<open>Fields as in Python; the offset is in microseconds east of UTC, \<open>None\<close> for a naive date.\<close>

datatype datetime = Datetime
  (dt_year: nat) (dt_month: nat) (dt_day: nat)
  (dt_hour: nat) (dt_minute: nat) (dt_second: nat) (dt_micro: nat) (dt_tz: "int option")

definition dt_key :: "datetime \<Rightarrow> int list" where
  "dt_key d = [int (dt_year d), int (dt_month d), int (dt_day d), int (dt_hour d), int (dt_minute d),
     int (dt_second d), int (dt_micro d)] @ (case dt_tz d of None \<Rightarrow> [] | Some z \<Rightarrow> [z])"

lemma dt_key_inj: "dt_key a = dt_key b \<Longrightarrow> a = b"
  by (cases a; cases b) (auto simp: dt_key_def split: option.splits)

text \<open>Stored dates are compared field by field, most significant first.\<close>

instantiation datetime :: linorder
begin

definition less_eq_datetime :: "datetime \<Rightarrow> datetime \<Rightarrow> bool" where
  "less_eq_datetime a b = (dt_key a \<le> dt_key b)"

definition less_datetime :: "datetime \<Rightarrow> datetime \<Rightarrow> bool" where
  "less_datetime a b = (dt_key a < dt_key b)"

instance
  by standard (auto simp: less_eq_datetime_def less_datetime_def dest: dt_key_inj)

end

definition dt_valid :: "datetime \<Rightarrow> bool" where
  "dt_valid d \<longleftrightarrow> 1 \<le> dt_year d \<and> dt_year d \<le> 9999 \<and> 1 \<le> dt_month d \<and> dt_month d \<le> 12
     \<and> 1 \<le> dt_day d \<and> dt_day d \<le> 31 \<and> dt_hour d < 24 \<and> dt_minute d < 60 \<and> dt_second d < 60
     \<and> dt_micro d < 1000000
     \<and> (case dt_tz d of None \<Rightarrow> True | Some z \<Rightarrow> \<bar>z\<bar> < 86400000000)"

subsection \<open>isoformat\<close>

definition tz_body :: "nat \<Rightarrow> string" where
  "tz_body z =
    pad 2 (z div 3600000000) @ '':'' @ pad 2 (z div 60000000 mod 60)
    @ (if z mod 60000000 = 0 then []
       else '':'' @ pad 2 (z div 1000000 mod 60)
         @ (if z mod 1000000 = 0 then [] else ''.'' @ pad 6 (z mod 1000000)))"

definition tz_text :: "int option \<Rightarrow> string" where
  "tz_text z = (case z of None \<Rightarrow> []
     | Some z \<Rightarrow> (if z < 0 then CHR ''-'' else CHR ''+'') # tz_body (nat \<bar>z\<bar>))"

definition micro_text :: "nat \<Rightarrow> string" where
  "micro_text u = (if u = 0 then [] else ''.'' @ pad 6 u)"

definition date_text :: "datetime \<Rightarrow> string" where
  "date_text d = pad 4 (dt_year d) @ ''-'' @ pad 2 (dt_month d) @ ''-'' @ pad 2 (dt_day d)"

definition isoformat :: "datetime \<Rightarrow> string" where
  "isoformat d = date_text d @ ''T''
     @ pad 2 (dt_hour d) @ '':'' @ pad 2 (dt_minute d) @ '':'' @ pad 2 (dt_second d)
     @ micro_text (dt_micro d) @ tz_text (dt_tz d)"

text \<open>\<open>strftime("%Y-%m-%dT%H:%M:%S.%fZ")\<close>, the SDK's \<open>utc_now_iso\<close>.\<close>

definition utc_now_iso :: "datetime \<Rightarrow> string" where
  "utc_now_iso d = date_text d @ ''T''
     @ pad 2 (dt_hour d) @ '':'' @ pad 2 (dt_minute d) @ '':'' @ pad 2 (dt_second d)
     @ ''.'' @ pad 6 (dt_micro d) @ ''Z''"

text \<open>\<open>value.replace(tzinfo=...)\<close> keeps the civil fields.\<close>

definition with_tz :: "datetime \<Rightarrow> int option \<Rightarrow> datetime" where
  "with_tz d z = Datetime (dt_year d) (dt_month d) (dt_day d) (dt_hour d) (dt_minute d) (dt_second d) (dt_micro d) z"

definition as_utc :: "datetime \<Rightarrow> datetime" where
  "as_utc d = (if dt_tz d = None then with_tz d (Some 0) else d)"

definition utc_iso :: "datetime option \<Rightarrow> json" where
  "utc_iso v = (case v of None \<Rightarrow> JNull | Some d \<Rightarrow> JStr (isoformat (as_utc d)))"

lemma with_tz_simps [simp]:
  "dt_year (with_tz d z) = dt_year d" "dt_month (with_tz d z) = dt_month d" "dt_day (with_tz d z) = dt_day d"
  "dt_hour (with_tz d z) = dt_hour d" "dt_minute (with_tz d z) = dt_minute d"
  "dt_second (with_tz d z) = dt_second d" "dt_micro (with_tz d z) = dt_micro d" "dt_tz (with_tz d z) = z"
  by (simp_all add: with_tz_def)

lemma as_utc_aware: "dt_tz d \<noteq> None \<Longrightarrow> as_utc d = d"
  by (auto simp: as_utc_def)

lemma as_utc_idem [simp]: "as_utc (as_utc d) = as_utc d"
  by (auto simp: as_utc_def)

lemma as_utc_valid: "dt_valid d \<Longrightarrow> dt_valid (as_utc d)"
  by (auto simp: as_utc_def dt_valid_def)

lemma tz_body_inj:
  assumes "tz_body a = tz_body b" "a < 86400000000" "b < 86400000000"
  shows "a = b"
proof -
  let ?ra = "if a mod 60000000 = 0 then [] else '':'' @ pad 2 (a div 1000000 mod 60)
         @ (if a mod 1000000 = 0 then [] else ''.'' @ pad 6 (a mod 1000000))"
  let ?rb = "if b mod 60000000 = 0 then [] else '':'' @ pad 2 (b div 1000000 mod 60)
         @ (if b mod 1000000 = 0 then [] else ''.'' @ pad 6 (b mod 1000000))"
  have h: "a div 3600000000 < 10 ^ 2" "b div 3600000000 < 10 ^ 2"
    using assms(2,3) by (simp_all add: less_mult_imp_div_less)
  have m: "n mod 60 < 10 ^ 2" for n :: nat
    by (rule less_trans [of _ 60]) simp_all
  from assms(1) have e1: "pad 2 (a div 3600000000) @ '':'' @ pad 2 (a div 60000000 mod 60) @ ?ra
      = pad 2 (b div 3600000000) @ '':'' @ pad 2 (b div 60000000 mod 60) @ ?rb"
    by (simp add: tz_body_def)
  from pad_append_inj [OF e1 h] have hh: "a div 3600000000 = b div 3600000000"
    and e2: "pad 2 (a div 60000000 mod 60) @ ?ra = pad 2 (b div 60000000 mod 60) @ ?rb" by auto
  from pad_append_inj [OF e2 m m] have mm: "a div 60000000 mod 60 = b div 60000000 mod 60"
    and e3: "?ra = ?rb" by auto
  have q: "a div 60000000 = b div 60000000"
  proof (rule div_mod_nat_inj)
    show "a div 60000000 div 60 = b div 60000000 div 60"
      using hh by (simp add: div_mult2_eq [symmetric])
  qed (rule mm)
  have "a mod 60000000 = b mod 60000000"
  proof (cases "a mod 60000000 = 0")
    case True
    with e3 show ?thesis by (auto split: if_splits)
  next
    case False
    with e3 have nb: "b mod 60000000 \<noteq> 0" by (auto split: if_splits)
    let ?sa = "if a mod 1000000 = 0 then [] else ''.'' @ pad 6 (a mod 1000000)"
    let ?sb = "if b mod 1000000 = 0 then [] else ''.'' @ pad 6 (b mod 1000000)"
    from e3 False nb have e4: "pad 2 (a div 1000000 mod 60) @ ?sa = pad 2 (b div 1000000 mod 60) @ ?sb" by simp
    from pad_append_inj [OF e4 m m] have ss: "a div 1000000 mod 60 = b div 1000000 mod 60"
      and e5: "?sa = ?sb" by auto
    have u: "n mod 1000000 < 10 ^ 6" for n :: nat by simp
    have "a mod 1000000 = b mod 1000000"
    proof (cases "a mod 1000000 = 0")
      case True
      with e5 show ?thesis by (auto split: if_splits)
    next
      case False
      with e5 have "b mod 1000000 \<noteq> 0" by (auto split: if_splits)
      with False e5 have "pad 6 (a mod 1000000) @ [] = pad 6 (b mod 1000000) @ []" by simp
      from pad_append_inj [OF this u u] show ?thesis by simp
    qed
    with ss show ?thesis
      using mod_mult2_eq [of a 1000000 60] mod_mult2_eq [of b 1000000 60] by simp
  qed
  with q show ?thesis by (metis div_mult_mod_eq)
qed

lemma tz_text_inj:
  assumes "tz_text a = tz_text b"
    and "\<And>z. a = Some z \<Longrightarrow> \<bar>z\<bar> < 86400000000" and "\<And>z. b = Some z \<Longrightarrow> \<bar>z\<bar> < 86400000000"
  shows "a = b"
proof (cases a)
  case None
  with assms(1) show ?thesis by (auto simp: tz_text_def split: option.splits)
next
  case (Some x)
  with assms(1) obtain y where b: "b = Some y" by (auto simp: tz_text_def split: option.splits)
  from assms(1) Some b have sign: "x < 0 \<longleftrightarrow> y < 0" and body: "tz_body (nat \<bar>x\<bar>) = tz_body (nat \<bar>y\<bar>)"
    by (auto simp: tz_text_def split: if_splits)
  have "nat \<bar>x\<bar> = nat \<bar>y\<bar>"
    using tz_body_inj [OF body] assms(2) [OF Some] assms(3) [OF b] by simp
  with sign have "x = y" by linarith
  with Some b show ?thesis by simp
qed

lemma tz_text_no_dot: "tz_text z \<noteq> CHR ''.'' # s"
  by (auto simp: tz_text_def split: option.splits)

lemma isoformat_inj:
  assumes "isoformat a = isoformat b" "dt_valid a" "dt_valid b"
  shows "a = b"
proof -
  note v = assms(2,3) [unfolded dt_valid_def]
  have y: "dt_year a < 10 ^ 4" "dt_year b < 10 ^ 4" using v by simp_all
  have two: "dt_month a < 10 ^ 2" "dt_month b < 10 ^ 2" "dt_day a < 10 ^ 2" "dt_day b < 10 ^ 2"
    "dt_hour a < 10 ^ 2" "dt_hour b < 10 ^ 2" "dt_minute a < 10 ^ 2" "dt_minute b < 10 ^ 2"
    "dt_second a < 10 ^ 2" "dt_second b < 10 ^ 2" using v by simp_all
  have six: "dt_micro a < 10 ^ 6" "dt_micro b < 10 ^ 6" using v by simp_all
  note e0 = assms(1) [unfolded isoformat_def date_text_def append_assoc]
  note s1 = pad_append_inj [OF e0 y]
  then have "dt_month a = dt_month b \<and> dt_day a = dt_day b \<and> dt_hour a = dt_hour b
    \<and> dt_minute a = dt_minute b \<and> dt_second a = dt_second b
    \<and> micro_text (dt_micro a) @ tz_text (dt_tz a) = micro_text (dt_micro b) @ tz_text (dt_tz b)"
    using two by (auto dest!: pad_append_inj)
  moreover from this have "dt_micro a = dt_micro b \<and> tz_text (dt_tz a) = tz_text (dt_tz b)"
    using six tz_text_no_dot tz_text_no_dot [THEN not_sym]
    by (auto simp: micro_text_def split: if_splits dest!: pad_append_inj)
  moreover from this have "dt_tz a = dt_tz b"
    using v by (intro tz_text_inj) auto
  ultimately show ?thesis using s1 by (intro datetime.expand) simp
qed

subsection \<open>What the environment provides\<close>

record runtime =
  rt_sha256 :: "string \<Rightarrow> string"         \<comment> \<open>\<open>hashlib.sha256(data).hexdigest()\<close>\<close>
  rt_float_repr :: "pyfloat \<Rightarrow> string"    \<comment> \<open>\<open>float.__repr__\<close>\<close>
  rt_repr :: "json \<Rightarrow> string"             \<comment> \<open>\<open>repr(value)\<close>\<close>
  rt_fromisoformat :: "string \<Rightarrow> datetime option"  \<comment> \<open>\<open>None\<close> for a \<open>ValueError\<close>\<close>
  rt_now :: "nat \<Rightarrow> datetime"             \<comment> \<open>the \<open>n\<close>-th reading of \<open>datetime.now(timezone.utc)\<close>\<close>
  rt_ms :: "nat \<Rightarrow> nat"                   \<comment> \<open>the \<open>n\<close>-th reading of \<open>int(time.time() * 1000)\<close>\<close>
  rt_perf :: "nat \<Rightarrow> rat"                \<comment> \<open>the \<open>n\<close>-th reading of \<open>time.perf_counter()\<close>\<close>
  rt_rand :: "nat \<Rightarrow> nat"                 \<comment> \<open>the \<open>n\<close>-th \<open>os.urandom(10)\<close>, as a big-endian number\<close>
  rt_real_text :: "pyfloat \<Rightarrow> string"     \<comment> \<open>the text a \<open>String\<close> column keeps for a float\<close>
  rt_column :: "datetime \<Rightarrow> datetime"     \<comment> \<open>what a \<open>DateTime(timezone=True)\<close> column gives back for what it stored\<close>

text \<open>
  SQLite, the default database, keeps the civil fields and drops the offset; PostgreSQL converts
  to the session's zone. The first is the column used by the witnesses.
\<close>

definition sqlite_column :: "datetime \<Rightarrow> datetime" where
  "sqlite_column d = with_tz d None"

definition replace_Z :: "string \<Rightarrow> string" where
  "replace_Z v = concat (map (\<lambda>c. if c = CHR ''Z'' then ''+00:00'' else [c]) v)"

text \<open>
  \<open>_parse_iso\<close>: no value and an unparsable one give the current time (\<open>now\<close>); a naive
  date is taken as UTC. The second component says whether the clock was read.
\<close>

definition parse_iso :: "runtime \<Rightarrow> datetime \<Rightarrow> string option \<Rightarrow> datetime \<times> bool" where
  "parse_iso rt now v =
    (if \<not> str_truthy v then (now, True)
     else (case rt_fromisoformat rt (replace_Z (the v)) of
       None \<Rightarrow> (now, True)
     | Some dt \<Rightarrow> (as_utc dt, False)))"

lemma parse_iso_aware:
  assumes "dt_tz now \<noteq> None"
  shows "dt_tz (fst (parse_iso rt now v)) \<noteq> None"
  using assms by (auto simp: parse_iso_def as_utc_def split: option.splits)

end
