(* ===== verification/Telemetry.thy ===== *)
theory Telemetry
  imports Py_Runtime
begin

section \<open>Metrics\<close>

text \<open>
  \<open>telemetry.py\<close>: counters and histograms in default dictionaries, all documented names present
  from the start. Counters are floats that only count, so the model keeps them as integers; the
  lock makes each operation atomic, which a sequential model has by construction.
\<close>

record metrics =
  m_counters :: "(string \<times> int) list"
  m_histograms :: "(string \<times> rat list) list"

definition counter :: "metrics \<Rightarrow> string \<Rightarrow> int" where
  "counter m name = (case map_of (m_counters m) name of None \<Rightarrow> 0 | Some c \<Rightarrow> c)"

definition histogram :: "metrics \<Rightarrow> string \<Rightarrow> rat list" where
  "histogram m name = (case map_of (m_histograms m) name of None \<Rightarrow> [] | Some h \<Rightarrow> h)"

definition inc :: "string \<Rightarrow> int \<Rightarrow> metrics \<Rightarrow> metrics" where
  "inc name by m = m\<lparr>m_counters := AList.update name (counter m name + by) (m_counters m)\<rparr>"

definition observe :: "string \<Rightarrow> rat \<Rightarrow> metrics \<Rightarrow> metrics" where
  "observe name v m = m\<lparr>m_histograms := AList.update name (histogram m name @ [v]) (m_histograms m)\<rparr>"

definition snapshot :: "metrics \<Rightarrow> (string \<times> int) list \<times> (string \<times> rat list) list" where
  "snapshot m = (m_counters m, m_histograms m)"

definition METRIC_NAMES :: "string list" where
  "METRIC_NAMES = [''controldb.events.ingested'', ''controldb.events.failed'', ''controldb.runs.started'',
     ''controldb.runs.committed'', ''controldb.runs.failed'', ''controldb.policy.allowed'',
     ''controldb.policy.blocked'', ''controldb.approvals.requested'', ''controldb.exports.completed'']"

definition HISTOGRAM_NAMES :: "string list" where
  "HISTOGRAM_NAMES = [''controldb.ingestion.latency_ms'', ''controldb.replay.latency_ms'']"

definition METRICS :: metrics where
  "METRICS = \<lparr>m_counters = map (\<lambda>n. (n, 0)) METRIC_NAMES, m_histograms = map (\<lambda>n. (n, [])) HISTOGRAM_NAMES\<rparr>"

lemma counter_inc [simp]: "counter (inc a n m) b = (if a = b then counter m a + n else counter m b)"
  by (simp add: counter_def inc_def update_conv' split: option.splits)

lemma counter_observe [simp]: "counter (observe a v m) b = counter m b"
  by (simp add: counter_def observe_def)

lemma histogram_observe [simp]:
  "histogram (observe a v m) b = (if a = b then histogram m a @ [v] else histogram m b)"
  by (simp add: histogram_def observe_def update_conv' split: option.splits)

lemma histogram_inc [simp]: "histogram (inc a n m) b = histogram m b"
  by (simp add: histogram_def inc_def)

end
