(* ===== verification/Ids.thy ===== *)
theory Ids
  imports Py_Runtime
begin

section \<open>Identifiers\<close>

text \<open>
  \<open>ids.py\<close> of the SDK and of the collector: a 48-bit millisecond clock and 80 random bits,
  packed into one integer and printed in 26 characters of Crockford's base 32. Python integers
  do not overflow, so the packed value is a natural number; the shifts and masks of the code are
  written as bit operations on it. The docstring promises a \<open>sortable\<close> identifier: the
  order of the texts is proved to be the order of the clock readings.
\<close>

unbundle bit_operations_syntax

definition ULID_ALPHABET :: string where
  "ULID_ALPHABET = ''0123456789ABCDEFGHJKMNPQRSTVWXYZ''"

text \<open>The loop: the low five bits first, \<open>n\<close> times; the caller reverses the list.\<close>

fun ulid_loop :: "nat \<Rightarrow> nat \<Rightarrow> string" where
  "ulid_loop 0 v = []"
| "ulid_loop (Suc n) v = (ULID_ALPHABET ! (v AND 31)) # ulid_loop n (drop_bit 5 v)"

definition ulid_value :: "nat \<Rightarrow> nat \<Rightarrow> nat" where
  "ulid_value ms rand = (push_bit 80 (ms AND (push_bit 48 1 - 1))) OR rand"

definition ulid :: "nat \<Rightarrow> nat \<Rightarrow> string" where
  "ulid ms rand = rev (ulid_loop 26 (ulid_value ms rand))"

definition generate_run_id :: "nat \<Rightarrow> nat \<Rightarrow> string" where
  "generate_run_id ms rand = ''run_'' @ ulid ms rand"

definition generate_step_id :: "nat \<Rightarrow> nat \<Rightarrow> string" where
  "generate_step_id ms rand = ''step_'' @ ulid ms rand"

definition generate_event_id :: "nat \<Rightarrow> nat \<Rightarrow> string" where
  "generate_event_id ms rand = ''evt_'' @ ulid ms rand"

definition generate_approval_id :: "nat \<Rightarrow> nat \<Rightarrow> string" where
  "generate_approval_id ms rand = ''appr_'' @ ulid ms rand"

definition generate_export_id :: "nat \<Rightarrow> nat \<Rightarrow> string" where
  "generate_export_id ms rand = ''exp_'' @ ulid ms rand"

subsection \<open>The text is the value in base 32\<close>

abbreviation ulid_digit :: "nat \<Rightarrow> char" where
  "ulid_digit i \<equiv> ULID_ALPHABET ! i"

lemma ulid_alphabet_sorted: "sorted_wrt (<) ULID_ALPHABET"
  by (simp add: ULID_ALPHABET_def less_char_def)

lemma ulid_digit_mono: "i < j \<Longrightarrow> j < 32 \<Longrightarrow> ulid_digit i < ulid_digit j"
  using sorted_wrt_nth_less [OF ulid_alphabet_sorted, of i j] by (simp add: ULID_ALPHABET_def)

interpretation crockford: positional 32 ulid_digit
  by unfold_locales (auto intro: ulid_digit_mono)

lemma and_31: "(v :: nat) AND 31 = v mod 32"
  using take_bit_eq_mask [of 5 v] by (simp add: take_bit_eq_mod mask_eq_exp_minus_1)

lemma drop_bit_5: "drop_bit 5 (v :: nat) = v div 32"
  by (simp add: drop_bit_eq_div)

lemma ulid_loop_pos: "rev (ulid_loop n v) = pos 32 ulid_digit n v"
  by (induction n arbitrary: v) (simp_all add: and_31 drop_bit_5)

lemma ulid_value_eq:
  assumes "rand < 2 ^ 80"
  shows "ulid_value ms rand = (ms mod 2 ^ 48) * 2 ^ 80 + rand"
proof -
  have m: "ms AND (push_bit 48 1 - 1) = ms mod 2 ^ 48"
    using take_bit_eq_mask [of 48 ms] by (simp add: take_bit_eq_mod mask_eq_exp_minus_1 push_bit_eq_mult)
  have t: "take_bit 80 rand = rand" using assms by (simp add: take_bit_nat_eq_self_iff)
  have "push_bit 80 (ms mod 2 ^ 48) AND take_bit 80 rand = 0"
    by (rule bit_eqI) (simp add: bit_and_iff bit_push_bit_iff bit_take_bit_iff)
  then have "push_bit 80 (ms mod 2 ^ 48) OR rand = push_bit 80 (ms mod 2 ^ 48) + rand"
    by (simp only: t disjunctive_add_eq_or)
  then have "ulid_value ms rand = push_bit 80 (ms mod 2 ^ 48) + rand"
    by (simp only: ulid_value_def m)
  then show ?thesis by (simp only: push_bit_eq_mult)
qed

lemma ulid_value_lt:
  assumes "rand < 2 ^ 80"
  shows "ulid_value ms rand < 32 ^ 26"
proof -
  have "ms mod 2 ^ 48 \<le> 2 ^ 48 - 1" by (simp add: nat_less_le)
  then have "(ms mod 2 ^ 48) * 2 ^ 80 \<le> (2 ^ 48 - 1) * 2 ^ 80" by (rule mult_le_mono1)
  with assms show ?thesis by (simp add: ulid_value_eq [OF assms])
qed

lemma ulid_pos: "ulid ms rand = pos 32 ulid_digit 26 (ulid_value ms rand)"
  by (simp only: ulid_def ulid_loop_pos)

lemma length_ulid [simp]: "length (ulid ms rand) = 26"
  by (simp add: ulid_pos)

lemma ulid_chars: "set (ulid ms rand) \<subseteq> set ULID_ALPHABET"
proof
  fix c assume "c \<in> set (ulid ms rand)"
  then obtain d where "d < 32" "c = ulid_digit d"
    using pos_set [of 32 c ulid_digit 26 "ulid_value ms rand"] by (auto simp: ulid_pos)
  moreover have "length ULID_ALPHABET = 32" by (simp add: ULID_ALPHABET_def)
  ultimately show "c \<in> set ULID_ALPHABET" by (metis nth_mem)
qed

lemma ulid_less:
  assumes "m < n" "n < 2 ^ 48" "r < 2 ^ 80" "s < 2 ^ 80"
  shows "ulid m r < ulid n s"
proof -
  have "m * 2 ^ 80 + r < (m + 1) * 2 ^ 80" using assms(3) by simp
  also have "\<dots> \<le> n * 2 ^ 80" using assms(1) by (intro mult_le_mono1) simp
  finally have "ulid_value m r < ulid_value n s"
    using assms by (simp add: ulid_value_eq)
  then show ?thesis
    unfolding ulid_pos by (rule crockford.pos_less) (rule ulid_value_lt [OF assms(4)])
qed

lemma ulid_inj:
  assumes "ulid m r = ulid n s" "m < 2 ^ 48" "n < 2 ^ 48" "r < 2 ^ 80" "s < 2 ^ 80"
  shows "m = n \<and> r = s"
proof -
  have "ulid_value m r = ulid_value n s"
    using assms(1) unfolding ulid_pos
    by (rule crockford.pos_inj [OF ulid_value_lt [OF assms(4)] ulid_value_lt [OF assms(5)]])
  then have eq: "m * 2 ^ 80 + r = n * 2 ^ 80 + s"
    using assms(2-5) by (simp add: ulid_value_eq)
  have "m = n"
  proof (rule ccontr)
    assume "m \<noteq> n"
    then show False
    proof (rule linorder_neqE_nat)
      assume "m < n"
      then show False using ulid_less [of m n r s] assms by simp
    next
      assume "n < m"
      then show False using ulid_less [of n m s r] assms by simp
    qed
  qed
  with eq show ?thesis by simp
qed

end
