(* ===== verification/Store.thy ===== *)
theory Store
  imports Telemetry Ids
begin

section \<open>The relational store\<close>

text \<open>
  The tables of \<open>storage/models.py\<close> as lists of rows in order of insertion, the sessions of
  \<open>storage/db.py\<close> (commit when the block ends, roll back when it raises), and the bootstrap.
  SQLAlchemy and the database engine are not code of the repository; what the model takes from
  them is the meaning of the statements the services issue: \<open>select\<close>/\<open>where\<close> is
  filtering, \<open>order_by\<close> a stable sort, \<open>session.get\<close> lookup by primary key, and an insert
  that repeats a value of a column declared unique raises \<open>IntegrityError\<close>. A
  \<open>DateTime\<close> column gives back \<open>rt_column\<close> of what was stored; \<open>text_column\<close> and
  \<open>int_column\<close> say what SQLite, the default database, makes of the values that columns of texts and
  numbers are given.
\<close>

subsection \<open>Rows\<close>

record organization =
  o_id :: string
  o_name :: string
  o_created :: datetime

record project =
  p_id :: string
  p_org :: string
  p_name :: string
  p_created :: datetime

record api_key =
  ak_id :: string
  ak_hash :: string
  ak_org :: string
  ak_project :: string
  ak_name :: string
  ak_scopes :: pydict
  ak_created :: datetime
  ak_revoked :: "datetime option"

record agent_run =
  r_id :: string
  r_org :: string
  r_project :: string
  r_env :: string
  r_agent :: string
  r_version :: "string option"
  r_status :: string
  r_metadata :: pydict
  r_started :: datetime
  r_ended :: "datetime option"
  r_last_hash :: "string option"
  r_count :: int

record audit_event =
  e_seq :: nat
  e_id :: string
  e_org :: string
  e_project :: string
  e_env :: string
  e_run :: string
  e_step_id :: "string option"
  e_step_index :: "int option"
  e_type :: string
  e_schema :: string
  e_actor_type :: json
  e_actor_id :: json
  e_trace :: "string option"
  e_span :: "string option"
  e_parent :: "string option"
  e_mode :: string
  e_payload :: json
  e_payload_hash :: "string option"
  e_prev :: "string option"
  e_hash :: string
  e_occurred :: datetime
  e_ingested :: datetime
  e_idem :: "string option"

record approval =
  a_id :: string
  a_run :: string
  a_org :: string
  a_project :: string
  a_policy :: "string option"
  a_requested_by :: "string option"
  a_reviewer :: "string option"
  a_status :: string
  a_reason :: "string option"
  a_input :: json
  a_created :: datetime
  a_decided :: "datetime option"

record evidence_export =
  x_id :: string
  x_run :: string
  x_org :: string
  x_project :: string
  x_uri :: string
  x_hash :: string
  x_count :: int
  x_valid :: bool
  x_by :: "string option"
  x_at :: datetime

record database =
  db_orgs :: "organization list"
  db_projects :: "project list"
  db_keys :: "api_key list"
  db_runs :: "agent_run list"
  db_events :: "audit_event list"
  db_approvals :: "approval list"
  db_exports :: "evidence_export list"

definition empty_db :: database where
  "empty_db = \<lparr>db_orgs = [], db_projects = [], db_keys = [], db_runs = [], db_events = [],
     db_approvals = [], db_exports = []\<rparr>"

subsection \<open>Columns\<close>

text \<open>
  A column of texts turns a number into its digits and a truth value into those of 0 or 1; a list or a dictionary cannot be
  bound, and neither can a number beyond 64 bits.
\<close>

definition int64 :: "int \<Rightarrow> bool" where
  "int64 n \<longleftrightarrow> - (2 ^ 63) \<le> n \<and> n < 2 ^ 63"

definition int_column :: "int option \<Rightarrow> int option result" where
  "int_column x = (case x of
      Some n \<Rightarrow> if int64 n then Inr x else Inl (BindError ''Python int too large to convert to SQLite INTEGER'')
    | None \<Rightarrow> Inr None)"

definition text_column :: "runtime \<Rightarrow> json \<Rightarrow> json result" where
  "text_column rt v = (case v of
      JNull \<Rightarrow> Inr JNull
    | JStr s \<Rightarrow> Inr v
    | JInt n \<Rightarrow> if int64 n then Inr (JStr (int_str n)) else Inl (BindError ''Python int too large to convert to SQLite INTEGER'')
    | JBool b \<Rightarrow> Inr (JStr (if b then ''1'' else ''0''))
    | JFloat f \<Rightarrow> Inr (JStr (rt_real_text rt f))
    | _ \<Rightarrow> Inl (BindError ''type is not supported''))"

definition text_value :: "json \<Rightarrow> bool" where
  "text_value v \<longleftrightarrow> v = JNull \<or> (\<exists>s. v = JStr s)"

lemma text_column_value: "text_value v \<Longrightarrow> text_column rt v = Inr v"
  by (auto simp: text_value_def text_column_def)

lemma text_column_text: "text_column rt v = Inr t \<Longrightarrow> text_value t"
  by (auto simp: text_value_def text_column_def split: json.splits if_splits)

lemma text_value_nan: "text_value v \<Longrightarrow> \<not> has_nan v"
  by (auto simp: text_value_def)

lemma column_errors:
  "text_column rt v = Inl e \<Longrightarrow> \<exists>m. e = BindError m" "int_column n = Inl e \<Longrightarrow> \<exists>m. e = BindError m"
  by (auto simp: text_column_def int_column_def split: json.splits if_splits option.splits)

lemma int_column_same: "int_column n = Inr m \<Longrightarrow> m = n"
  by (auto simp: int_column_def split: option.splits if_splits)

subsection \<open>The state of the collector\<close>

text \<open>
  The database, the metrics, the number of readings of clocks and random source so far, and the
  files of the object store by path.
\<close>

record cstate =
  st_db :: database
  st_metrics :: metrics
  st_tick :: nat
  st_files :: "(string \<times> string) list"

type_synonym 'a svc = "cstate \<Rightarrow> 'a result \<times> cstate"

definition tick :: "cstate \<Rightarrow> cstate" where
  "tick s = s\<lparr>st_tick := Suc (st_tick s)\<rparr>"

definition metric :: "string \<Rightarrow> int \<Rightarrow> cstate \<Rightarrow> cstate" where
  "metric name by s = s\<lparr>st_metrics := inc name by (st_metrics s)\<rparr>"

lemma tick_metric_simps [simp]:
  "st_db (tick s) = st_db s" "st_metrics (tick s) = st_metrics s" "st_tick (tick s) = Suc (st_tick s)"
  "st_db (metric n b s) = st_db s" "st_metrics (metric n b s) = inc n b (st_metrics s)"
  "st_tick (metric n b s) = st_tick s" "st_files (tick s) = st_files s" "st_files (metric n b s) = st_files s"
  by (simp_all add: tick_def metric_def)

text \<open>
  \<open>with db.session() as session: body\<close>. What \<open>body\<close> raises goes on after the rollback;
  metrics and clock readings are not undone.
\<close>

definition with_session :: "'a svc \<Rightarrow> 'a svc" where
  "with_session body s =
    (case body s of
       (Inl e, s') \<Rightarrow> (Inl e, s'\<lparr>st_db := st_db s\<rparr>)
     | (Inr x, s') \<Rightarrow> (Inr x, s'))"

lemma with_session_Inl: "with_session body s = (Inl e, s') \<Longrightarrow> st_db s' = st_db s"
  by (auto simp: with_session_def split: prod.splits sum.splits)

lemma with_session_Inr: "with_session body s = (Inr x, s') \<longleftrightarrow> body s = (Inr x, s')"
  by (auto simp: with_session_def split: prod.splits sum.splits)

subsection \<open>Lookup, insertion and update by primary key\<close>

definition get_run :: "database \<Rightarrow> string \<Rightarrow> agent_run option" where
  "get_run db k = find (\<lambda>r. r_id r = k) (db_runs db)"

definition get_approval :: "database \<Rightarrow> string \<Rightarrow> approval option" where
  "get_approval db k = find (\<lambda>a. a_id a = k) (db_approvals db)"

definition update_run :: "string \<Rightarrow> (agent_run \<Rightarrow> agent_run) \<Rightarrow> database \<Rightarrow> database" where
  "update_run k f db = db\<lparr>db_runs := map (\<lambda>r. if r_id r = k then f r else r) (db_runs db)\<rparr>"

definition update_approval :: "string \<Rightarrow> (approval \<Rightarrow> approval) \<Rightarrow> database \<Rightarrow> database" where
  "update_approval k f db = db\<lparr>db_approvals := map (\<lambda>a. if a_id a = k then f a else a) (db_approvals db)\<rparr>"

text \<open>Rows of one run, in the order of their sequence numbers.\<close>

definition run_events :: "database \<Rightarrow> string \<Rightarrow> audit_event list" where
  "run_events db rid = sort_key e_seq (filter (\<lambda>e. e_run e = rid) (db_events db))"

text \<open>The integer primary key: one more than the largest in the table.\<close>

definition next_seq :: "database \<Rightarrow> nat" where
  "next_seq db = Suc (foldr max (map e_seq (db_events db)) 0)"

fun idem_keys :: "audit_event list \<Rightarrow> string list" where
  "idem_keys [] = []"
| "idem_keys (e # es) = (case e_idem e of None \<Rightarrow> idem_keys es | Some k \<Rightarrow> k # idem_keys es)"

text \<open>\<open>session.add(row); session.flush()\<close> for an event: the two unique columns are checked.\<close>

definition insert_event :: "audit_event \<Rightarrow> database \<Rightarrow> database option" where
  "insert_event row db =
    (if e_id row \<in> set (map e_id (db_events db))
        \<or> (case e_idem row of None \<Rightarrow> False | Some k \<Rightarrow> k \<in> set (idem_keys (db_events db)))
     then None
     else Some (db\<lparr>db_events := db_events db @ [row\<lparr>e_seq := next_seq db\<rparr>]\<rparr>))"

lemma idem_keys_append [simp]: "idem_keys (xs @ ys) = idem_keys xs @ idem_keys ys"
  by (induction xs) (auto split: option.split)

lemma idem_keys_iff: "k \<in> set (idem_keys es) \<longleftrightarrow> (\<exists>e \<in> set es. e_idem e = Some k)"
  by (induction es) (auto split: option.splits)

lemma foldr_max_upper: "x \<in> set xs \<Longrightarrow> x \<le> foldr max xs (m :: nat)"
  by (induction xs) auto

lemma next_seq_fresh: "e \<in> set (db_events db) \<Longrightarrow> e_seq e < next_seq db"
  using foldr_max_upper [of "e_seq e" "map e_seq (db_events db)" 0] by (simp add: next_seq_def)

lemma update_run_simps [simp]:
  "db_events (update_run k f db) = db_events db" "db_keys (update_run k f db) = db_keys db"
  "db_approvals (update_run k f db) = db_approvals db" "db_exports (update_run k f db) = db_exports db"
  "db_orgs (update_run k f db) = db_orgs db" "db_projects (update_run k f db) = db_projects db"
  "run_events (update_run k f db) rid = run_events db rid" "next_seq (update_run k f db) = next_seq db"
  by (simp_all add: update_run_def run_events_def next_seq_def)

lemma get_run_update:
  assumes "\<And>r. r_id (f r) = r_id r"
  shows "get_run (update_run k f db) k' = (if k = k' then map_option f (get_run db k') else get_run db k')"
proof -
  have "find (\<lambda>r. r_id r = k') (map (\<lambda>r. if r_id r = k then f r else r) rs)
      = map_option (\<lambda>r. if r_id r = k then f r else r) (find (\<lambda>r. r_id r = k') rs)" for rs
    by (rule find_map_frame) (simp add: assms)
  moreover have "r_id r = k'" if "find (\<lambda>r. r_id r = k') rs = Some r" for rs r
    using find_Some_set [OF that] by simp
  ultimately show ?thesis
    by (auto simp: get_run_def update_run_def map_option_case split: option.split)
qed

lemma get_run_Some: "get_run db k = Some r \<Longrightarrow> r \<in> set (db_runs db) \<and> r_id r = k"
  unfolding get_run_def by (rule find_Some_set)

lemma get_approval_Some: "get_approval db k = Some a \<Longrightarrow> a \<in> set (db_approvals db) \<and> a_id a = k"
  unfolding get_approval_def by (rule find_Some_set)

lemma get_run_cong [simp]:
  "get_run (db\<lparr>db_events := es\<rparr>) k = get_run db k"
  "get_run (db\<lparr>db_approvals := as\<rparr>) k = get_run db k"
  "get_run (db\<lparr>db_exports := xs\<rparr>) k = get_run db k"
  by (simp_all add: get_run_def)

subsection \<open>Well-formed databases\<close>

text \<open>
  What the declarations of the schema and the insertion rule keep true: primary keys and unique
  columns have no duplicates, sequence numbers grow in order of insertion, and an event belongs to
  a run of the same organisation, project and environment.
\<close>

definition event_of_run :: "audit_event \<Rightarrow> agent_run \<Rightarrow> bool" where
  "event_of_run e r \<longleftrightarrow> e_run e = r_id r \<and> e_org e = r_org r \<and> e_project e = r_project r \<and> e_env e = r_env r"

definition db_ok :: "database \<Rightarrow> bool" where
  "db_ok db \<longleftrightarrow>
     distinct (map r_id (db_runs db))
     \<and> distinct (map e_id (db_events db))
     \<and> distinct (idem_keys (db_events db))
     \<and> sorted_wrt (<) (map e_seq (db_events db))
     \<and> (\<forall>e \<in> set (db_events db). 0 < e_seq e)
     \<and> (\<forall>e \<in> set (db_events db). \<exists>r \<in> set (db_runs db). event_of_run e r)
     \<and> distinct (map a_id (db_approvals db))"

lemma db_ok_empty: "db_ok empty_db"
  by (simp add: db_ok_def empty_db_def)

lemma map_update_id: "(\<And>r. g (f r) = g r) \<Longrightarrow> map g (map (\<lambda>r. if P r then f r else r) rs) = map g rs"
  by simp

lemma db_ok_update_run:
  assumes "db_ok db"
    and "\<And>r. r_id (f r) = r_id r \<and> r_org (f r) = r_org r \<and> r_project (f r) = r_project r \<and> r_env (f r) = r_env r"
  shows "db_ok (update_run k f db)"
proof -
  have "map r_id (db_runs (update_run k f db)) = map r_id (db_runs db)"
    unfolding update_run_def using assms(2) by simp
  moreover have "\<exists>r' \<in> set (db_runs (update_run k f db)). event_of_run e r'"
    if "r \<in> set (db_runs db)" "event_of_run e r" for e r
    using that assms(2) [of r]
    by (intro bexI [of _ "if r_id r = k then f r else r"]) (auto simp: update_run_def event_of_run_def)
  ultimately show ?thesis using assms(1) unfolding db_ok_def by fastforce
qed

lemma db_ok_insert_event:
  assumes "db_ok db" "insert_event row db = Some db'" "r \<in> set (db_runs db)" "event_of_run row r"
  shows "db_ok db'"
proof -
  let ?row = "row\<lparr>e_seq := next_seq db\<rparr>"
  from assms(2) have db': "db' = db\<lparr>db_events := db_events db @ [?row]\<rparr>"
    and new: "e_id row \<notin> set (map e_id (db_events db))"
    and idem: "\<And>k. e_idem row = Some k \<Longrightarrow> k \<notin> set (idem_keys (db_events db))"
    by (auto simp: insert_event_def split: if_splits)
  have "sorted_wrt (<) (map e_seq (db_events db @ [?row]))"
    using assms(1) next_seq_fresh [of _ db] by (auto simp: db_ok_def sorted_wrt_append)
  moreover have "event_of_run ?row r" using assms(4) by (simp add: event_of_run_def)
  moreover have "distinct (idem_keys (db_events db @ [?row]))"
    using assms(1) idem by (auto simp: db_ok_def split: option.split)
  moreover have "0 < next_seq db" by (simp add: next_seq_def)
  ultimately show ?thesis
    using assms(1,3) new by (auto simp: db_ok_def db')
qed

text \<open>In a well-formed database the rows of a run are already in order.\<close>

lemma run_events_filter: "db_ok db \<Longrightarrow> run_events db rid = filter (\<lambda>e. e_run e = rid) (db_events db)"
proof -
  assume "db_ok db"
  then have "sorted_wrt (<) (map e_seq (db_events db))" by (simp add: db_ok_def)
  then have "sorted_wrt (\<lambda>a b. e_seq a < e_seq b) (filter (\<lambda>e. e_run e = rid) (db_events db))"
    by (simp add: sorted_wrt_map sorted_wrt_filter)
  then have "sorted (map e_seq (filter (\<lambda>e. e_run e = rid) (db_events db)))"
    by (simp add: sorted_wrt_map sorted_wrt_mono_rel [of _ "\<lambda>a b. e_seq a < e_seq b"])
  then show ?thesis unfolding run_events_def by (rule sort_key_sorted_id)
qed

lemma run_events_sorted: "db_ok db \<Longrightarrow> sorted_wrt (<) (map e_seq (run_events db rid))"
  by (simp add: run_events_filter db_ok_def sorted_wrt_map sorted_wrt_filter)

lemma run_events_set: "set (run_events db rid) = {e \<in> set (db_events db). e_run e = rid}"
  by (auto simp: run_events_def)

lemma db_ok_run_unique:
  "db_ok db \<Longrightarrow> r \<in> set (db_runs db) \<Longrightarrow> get_run db (r_id r) = Some r"
  unfolding get_run_def db_ok_def by (intro find_unique_key) auto

lemma db_ok_event_run:
  assumes "db_ok db" "e \<in> set (db_events db)" "get_run db (e_run e) = Some r"
  shows "event_of_run e r"
proof -
  from assms(1,2) obtain r' where r': "r' \<in> set (db_runs db)" "event_of_run e r'"
    by (auto simp: db_ok_def)
  with assms(1) have "get_run db (e_run e) = Some r'"
    using db_ok_run_unique [of db r'] by (simp add: event_of_run_def)
  with assms(3) r' show ?thesis by simp
qed

end
