(* ===== verification/Auth.thy ===== *)
theory Auth
  imports Store
begin

section \<open>API keys, principals and scopes\<close>

text \<open>
  \<open>auth.py\<close>: a bearer token is looked up by its SHA-256 among the stored keys, and a scope check
  guards every endpoint; and \<open>Database._bootstrap\<close> of \<open>storage/db.py\<close>, which stores the
  keys of the configuration. FastAPI calls the two dependencies in this order and turns
  \<open>HTTPException\<close> into a response.
\<close>

record principal =
  pr_key :: string
  pr_org :: string
  pr_project :: string
  pr_scopes :: pydict

definition hash_key :: "runtime \<Rightarrow> string \<Rightarrow> string" where
  "hash_key rt key = rt_sha256 rt key"

text \<open>\<open>s.partition(" ")\<close>: the part before the first blank and the part after it.\<close>

definition partition_blank :: "string \<Rightarrow> string \<times> string" where
  "partition_blank s = (takeWhile (\<lambda>c. c \<noteq> CHR '' '') s, drop 1 (dropWhile (\<lambda>c. c \<noteq> CHR '' '') s))"

definition lower_char :: "char \<Rightarrow> char" where
  "lower_char c = (if CHR ''A'' \<le> c \<and> c \<le> CHR ''Z'' then char_of ((of_char c :: nat) + 32) else c)"

definition key_by_hash :: "database \<Rightarrow> string \<Rightarrow> api_key option" where
  "key_by_hash db h = find (\<lambda>k. ak_hash k = h) (db_keys db)"

definition current_principal :: "runtime \<Rightarrow> string option \<Rightarrow> database \<Rightarrow> principal result" where
  "current_principal rt authorization db =
    (if \<not> str_truthy authorization then Inl (HTTPException 401 ''missing Authorization header'')
     else (let (scheme, token) = partition_blank (the authorization) in
       if map lower_char scheme \<noteq> ''bearer'' \<or> token = []
       then Inl (HTTPException 401 ''invalid Authorization header'')
       else (case key_by_hash db (hash_key rt token) of
           None \<Rightarrow> Inl (HTTPException 401 ''invalid api key'')
         | Some row \<Rightarrow>
             if ak_revoked row \<noteq> None then Inl (HTTPException 401 ''invalid api key'')
             else Inr \<lparr>pr_key = ak_id row, pr_org = ak_org row, pr_project = ak_project row,
                       pr_scopes = ak_scopes row\<rparr>)))"

text \<open>A granted scope that is no string compares unequal to every string and is refused.\<close>

definition scope_ok :: "string \<Rightarrow> json \<Rightarrow> bool" where
  "scope_ok action granted \<longleftrightarrow>
     granted = JStr ''write'' \<or> granted = JStr action \<or> granted = JStr ''*''
     \<or> (granted = JStr ''read'' \<and> action = ''read'')"

definition require_scope :: "string \<Rightarrow> string \<Rightarrow> principal \<Rightarrow> principal result" where
  "require_scope resource action p =
    (let granted = dict_get (pr_scopes p) resource in
     if granted = JNull then Inl (HTTPException 403 (''missing scope '' @ resource @ '':'' @ action))
     else if scope_ok action granted then Inr p
     else Inl (HTTPException 403 (''scope '' @ resource @ '' cannot '' @ action)))"

subsection \<open>Bootstrap\<close>

record settings =
  cfg_org :: string
  cfg_project :: string
  cfg_keys :: "string list"
  cfg_schema_version :: string
  cfg_object_store :: string

definition bootstrap_scopes :: pydict where
  "bootstrap_scopes = [(''runs'', JStr ''write''), (''events'', JStr ''write''), (''policies'', JStr ''read''),
     (''approvals'', JStr ''review''), (''exports'', JStr ''create'')]"

definition bootstrap_key :: "runtime \<Rightarrow> settings \<Rightarrow> datetime \<Rightarrow> string \<Rightarrow> api_key" where
  "bootstrap_key rt cfg now raw =
    \<lparr>ak_id = ''key_'' @ take 12 (hash_key rt raw), ak_hash = hash_key rt raw, ak_org = cfg_org cfg,
     ak_project = cfg_project cfg, ak_name = ''bootstrap'', ak_scopes = bootstrap_scopes,
     ak_created = now, ak_revoked = None\<rparr>"

text \<open>
  The set of stored hashes is read once, before the loop: a key that occurs twice in the
  configuration is inserted twice, and the commit raises \<open>IntegrityError\<close>, as it does when two
  keys share the first twelve digits of their hash.
\<close>

definition bootstrap :: "runtime \<Rightarrow> settings \<Rightarrow> datetime \<Rightarrow> database \<Rightarrow> database result" where
  "bootstrap rt cfg now db =
    (let orgs = (if find (\<lambda>o'. o_id o' = cfg_org cfg) (db_orgs db) = None
                 then db_orgs db @ [\<lparr>o_id = cfg_org cfg, o_name = ''Default Org'', o_created = now\<rparr>] else db_orgs db);
         projects = (if find (\<lambda>p. p_id p = cfg_project cfg) (db_projects db) = None
                 then db_projects db @ [\<lparr>p_id = cfg_project cfg, p_org = cfg_org cfg, p_name = ''Default Project'', p_created = now\<rparr>]
                 else db_projects db);
         existing = map ak_hash (db_keys db);
         new = map (bootstrap_key rt cfg now) (filter (\<lambda>raw. hash_key rt raw \<notin> set existing) (cfg_keys cfg));
         keys = db_keys db @ new
     in if distinct (map ak_id keys) \<and> distinct (map ak_hash keys)
        then Inr (db\<lparr>db_orgs := orgs, db_projects := projects, db_keys := keys\<rparr>)
        else Inl IntegrityError)"

lemma partition_bearer: "partition_blank (''Bearer '' @ token) = (''Bearer'', token)"
  by (simp add: partition_blank_def)

lemma lower_bearer: "map lower_char ''Bearer'' = ''bearer''"
  by code_simp

lemma current_principal_bearer:
  assumes "token \<noteq> []"
  shows "current_principal rt (Some (''Bearer '' @ token)) db =
    (case key_by_hash db (hash_key rt token) of
       None \<Rightarrow> Inl (HTTPException 401 ''invalid api key'')
     | Some row \<Rightarrow>
         if ak_revoked row \<noteq> None then Inl (HTTPException 401 ''invalid api key'')
         else Inr \<lparr>pr_key = ak_id row, pr_org = ak_org row, pr_project = ak_project row, pr_scopes = ak_scopes row\<rparr>)"
  using assms partition_bearer [of token] lower_bearer
  by (simp add: current_principal_def split: prod.split)

text \<open>Whoever gets a principal holds an unrevoked key with the hash of the token.\<close>

lemma current_principal_sound:
  assumes "current_principal rt (Some h) db = Inr p"
  shows "\<exists>row \<in> set (db_keys db). ak_hash row = hash_key rt (snd (partition_blank h)) \<and> ak_revoked row = None
    \<and> pr_org p = ak_org row \<and> pr_project p = ak_project row \<and> pr_scopes p = ak_scopes row"
proof -
  from assms obtain row where "key_by_hash db (hash_key rt (snd (partition_blank h))) = Some row"
    and "ak_revoked row = None"
    and p: "p = \<lparr>pr_key = ak_id row, pr_org = ak_org row, pr_project = ak_project row, pr_scopes = ak_scopes row\<rparr>"
    by (auto simp: current_principal_def Let_def split: if_splits option.splits prod.splits)
  then show ?thesis
    using find_Some_set [of _ "db_keys db" row] by (auto simp: key_by_hash_def)
qed

text \<open>Bootstrapping a database that is in use adds to it; a second time it finds what it would add.\<close>

lemma bootstrap_tables:
  assumes "bootstrap rt cfg now db = Inr db'"
  shows "db_runs db' = db_runs db" "db_events db' = db_events db" "db_approvals db' = db_approvals db" "db_exports db' = db_exports db"
    and "db_keys db' = db_keys db @ map (bootstrap_key rt cfg now)
      (filter (\<lambda>raw. hash_key rt raw \<notin> set (map ak_hash (db_keys db))) (cfg_keys cfg))"
    and "\<exists>orgs. db_orgs db' = db_orgs db @ orgs" "\<exists>projects. db_projects db' = db_projects db @ projects"
  using assms by (auto simp: bootstrap_def Let_def split: if_splits)

lemma bootstrap_again:
  assumes "bootstrap rt cfg now db = Inr db'"
  shows "bootstrap rt cfg now' db' = Inr db'"
proof -
  have "find (\<lambda>o'. o_id o' = cfg_org cfg) (db_orgs db') \<noteq> None" "find (\<lambda>p. p_id p = cfg_project cfg) (db_projects db') \<noteq> None"
    using assms by (auto simp: bootstrap_def Let_def find_None_iff split: if_splits)
  moreover have "distinct (map ak_id (db_keys db')) \<and> distinct (map ak_hash (db_keys db'))"
    unfolding bootstrap_tables(5) [OF assms] using assms by (simp add: bootstrap_def Let_def image_image split: if_split_asm)
  moreover have "filter (\<lambda>raw. hash_key rt raw \<notin> set (map ak_hash (db_keys db'))) (cfg_keys cfg) = []"
    unfolding bootstrap_tables(5) [OF assms] by (auto simp: filter_empty_conv bootstrap_key_def)
  ultimately show ?thesis by (simp add: bootstrap_def Let_def del: map_append distinct_append)
qed

lemma bootstrap_keys:
  assumes "bootstrap rt cfg now db = Inr db'" "raw \<in> set (cfg_keys cfg)"
  shows "\<exists>row. key_by_hash db' (hash_key rt raw) = Some row
    \<and> (row \<in> set (db_keys db) \<or> (\<exists>raw'. row = bootstrap_key rt cfg now raw'))"
proof -
  from assms(1) have keys: "db_keys db' = db_keys db @ map (bootstrap_key rt cfg now)
      (filter (\<lambda>raw. hash_key rt raw \<notin> set (map ak_hash (db_keys db))) (cfg_keys cfg))"
    by (auto simp: bootstrap_def Let_def split: if_splits)
  have "\<exists>row \<in> set (db_keys db'). ak_hash row = hash_key rt raw"
  proof (cases "hash_key rt raw \<in> set (map ak_hash (db_keys db))")
    case True
    then show ?thesis unfolding keys by auto
  next
    case False
    with assms(2) show ?thesis unfolding keys
      by (intro bexI [of _ "bootstrap_key rt cfg now raw"]) (auto simp: bootstrap_key_def)
  qed
  then have "key_by_hash db' (hash_key rt raw) \<noteq> None"
    by (auto simp: key_by_hash_def find_None_iff')
  then obtain row where row: "key_by_hash db' (hash_key rt raw) = Some row" by auto
  then have "row \<in> set (db_keys db')"
    unfolding key_by_hash_def by (auto dest: find_Some_set)
  then show ?thesis using row unfolding keys by auto
qed

end
