(* ===== verification/Redaction.thy ===== *)
theory Redaction
  imports Py_Runtime
begin

section \<open>Payload redaction, in the SDK and in the collector\<close>

text \<open>
  \<open>sdk/python/controldb/redaction.py\<close> and
  \<open>services/collector/controldb_collector/redaction.py\<close>. Each side walks a payload with a list
  of rules: a rule with a field replaces the value of every item with that key, a rule with a
  regular expression replaces every string it finds a match in; the first rule that applies wins.
  The compiled expression of the standard library's \<open>re\<close> is the predicate \<open>search\<close> it
  gives on strings. The locale \<open>redactor\<close> is the contract both walks meet, and what redaction
  guarantees is proved from it once.
\<close>

record rule =
  rl_field :: "string option"
  rl_regex :: "(string \<Rightarrow> bool) option"
  rl_mode :: string

definition REDACTED :: string where "REDACTED = ''<redacted>''"
definition REDACTED_SENTINEL :: string where "REDACTED_SENTINEL = ''<redacted>''"

definition redaction_modes :: "string set" where
  "redaction_modes = {''redact'', ''hash'', ''drop''}"

subsection \<open>Rules\<close>

text \<open>
  \<open>re_compile\<close> is \<open>re.compile\<close>: it may raise. The collector compiles first and checks the
  mode afterwards; the SDK demands a field or an expression, then checks the mode, then compiles.
\<close>

definition compile_opt :: "(string \<Rightarrow> (string \<Rightarrow> bool) result) \<Rightarrow> string option \<Rightarrow> (string \<Rightarrow> bool) option result" where
  "compile_opt re_compile regex =
    (if str_truthy regex
     then (case re_compile (the regex) of Inl e \<Rightarrow> Inl e | Inr p \<Rightarrow> Inr (Some p))
     else Inr None)"

definition CollectorRedactionRule ::
  "(string \<Rightarrow> (string \<Rightarrow> bool) result) \<Rightarrow> string option \<Rightarrow> string option \<Rightarrow> string \<Rightarrow> rule result" where
  "CollectorRedactionRule re_compile field regex mode =
    (case compile_opt re_compile regex of
       Inl e \<Rightarrow> Inl e
     | Inr p \<Rightarrow> if mode \<notin> redaction_modes then Inl (ValueError (''invalid mode '' @ mode))
         else Inr \<lparr>rl_field = field, rl_regex = p, rl_mode = mode\<rparr>)"

definition RedactionRule ::
  "(string \<Rightarrow> (string \<Rightarrow> bool) result) \<Rightarrow> string option \<Rightarrow> string option \<Rightarrow> string \<Rightarrow> rule result" where
  "RedactionRule re_compile field regex mode =
    (if \<not> str_truthy field \<and> \<not> str_truthy regex then Inl (ValueError ''RedactionRule requires field or regex'')
     else if mode \<notin> redaction_modes then Inl (ValueError (''unknown redaction mode: '' @ mode))
     else (case compile_opt re_compile regex of
       Inl e \<Rightarrow> Inl e
     | Inr p \<Rightarrow> Inr \<lparr>rl_field = field, rl_regex = p, rl_mode = mode\<rparr>))"

definition field_is :: "string \<Rightarrow> rule \<Rightarrow> bool" where
  "field_is k r \<longleftrightarrow> str_truthy (rl_field r) \<and> rl_field r = Some k"

definition regex_hits :: "string \<Rightarrow> rule \<Rightarrow> bool" where
  "regex_hits s r \<longleftrightarrow> (case rl_regex r of None \<Rightarrow> False | Some p \<Rightarrow> p s)"

subsection \<open>The collector's walk\<close>

definition coll_apply :: "runtime \<Rightarrow> json \<Rightarrow> string \<Rightarrow> json" where
  "coll_apply rt v mode =
    (if mode = ''drop'' then JNull
     else if mode = ''hash'' then JStr (''sha256:'' @ rt_sha256 rt (rt_repr rt v))
     else JStr REDACTED)"

fun coll_walk :: "runtime \<Rightarrow> rule list \<Rightarrow> json \<Rightarrow> json"
  and coll_walk_list :: "runtime \<Rightarrow> rule list \<Rightarrow> json list \<Rightarrow> json list"
  and coll_walk_items :: "runtime \<Rightarrow> rule list \<Rightarrow> pydict \<Rightarrow> pydict" where
  "coll_walk rt rules (JDict d) = JDict (coll_walk_items rt rules d)"
| "coll_walk rt rules (JList xs) = JList (coll_walk_list rt rules xs)"
| "coll_walk rt rules (JStr s) =
     (case find (regex_hits s) rules of Some r \<Rightarrow> coll_apply rt (JStr s) (rl_mode r) | None \<Rightarrow> JStr s)"
| "coll_walk rt rules JNull = JNull"
| "coll_walk rt rules (JBool b) = JBool b"
| "coll_walk rt rules (JInt i) = JInt i"
| "coll_walk rt rules (JFloat f) = JFloat f"
| "coll_walk_list rt rules [] = []"
| "coll_walk_list rt rules (x # xs) = coll_walk rt rules x # coll_walk_list rt rules xs"
| "coll_walk_items rt rules [] = []"
| "coll_walk_items rt rules ((k, v) # d) =
     (k, case find (field_is k) rules of Some r \<Rightarrow> coll_apply rt v (rl_mode r) | None \<Rightarrow> coll_walk rt rules v)
     # coll_walk_items rt rules d"

definition apply_collector_redaction :: "runtime \<Rightarrow> json \<Rightarrow> rule list \<Rightarrow> json" where
  "apply_collector_redaction rt payload rules =
    (if payload = JNull then JNull else coll_walk rt rules payload)"

subsection \<open>The SDK's walk\<close>

definition sdk_apply_mode :: "runtime \<Rightarrow> json \<Rightarrow> string \<Rightarrow> json" where
  "sdk_apply_mode rt v mode =
    (if mode = ''drop'' then JNull
     else if mode = ''hash'' then JStr (''sha256:'' @ rt_sha256 rt (rt_repr rt v))
     else JStr REDACTED_SENTINEL)"

fun redact_value :: "runtime \<Rightarrow> rule list \<Rightarrow> json \<Rightarrow> json"
  and redact_list :: "runtime \<Rightarrow> rule list \<Rightarrow> json list \<Rightarrow> json list"
  and redact_items :: "runtime \<Rightarrow> rule list \<Rightarrow> pydict \<Rightarrow> pydict" where
  "redact_value rt rules (JDict d) = JDict (redact_items rt rules d)"
| "redact_value rt rules (JList xs) = JList (redact_list rt rules xs)"
| "redact_value rt rules (JStr s) =
     (case find (regex_hits s) rules of Some r \<Rightarrow> sdk_apply_mode rt (JStr s) (rl_mode r) | None \<Rightarrow> JStr s)"
| "redact_value rt rules JNull = JNull"
| "redact_value rt rules (JBool b) = JBool b"
| "redact_value rt rules (JInt i) = JInt i"
| "redact_value rt rules (JFloat f) = JFloat f"
| "redact_list rt rules [] = []"
| "redact_list rt rules (x # xs) = redact_value rt rules x # redact_list rt rules xs"
| "redact_items rt rules [] = []"
| "redact_items rt rules ((k, v) # d) =
     (k, case find (field_is k) rules of Some r \<Rightarrow> sdk_apply_mode rt v (rl_mode r) | None \<Rightarrow> redact_value rt rules v)
     # redact_items rt rules d"

definition apply_redaction :: "runtime \<Rightarrow> json \<Rightarrow> rule list \<Rightarrow> (json \<Rightarrow> json) list \<Rightarrow> json" where
  "apply_redaction rt payload rules callbacks =
    (if payload = JNull then JNull
     else fold (\<lambda>cb data. cb data) callbacks (redact_value rt rules payload))"

subsection \<open>What a redaction may leave behind\<close>

text \<open>Every item of every dictionary inside a value, and every string outside key position.\<close>

fun items_in :: "json \<Rightarrow> (string \<times> json) list"
  and items_in_list :: "json list \<Rightarrow> (string \<times> json) list"
  and items_in_items :: "pydict \<Rightarrow> (string \<times> json) list" where
  "items_in (JDict d) = items_in_items d"
| "items_in (JList xs) = items_in_list xs"
| "items_in (JStr s) = []"
| "items_in JNull = []"
| "items_in (JBool b) = []"
| "items_in (JInt i) = []"
| "items_in (JFloat f) = []"
| "items_in_list [] = []"
| "items_in_list (x # xs) = items_in x @ items_in_list xs"
| "items_in_items [] = []"
| "items_in_items ((k, v) # d) = (k, v) # items_in v @ items_in_items d"

fun strings_in :: "json \<Rightarrow> string list"
  and strings_in_list :: "json list \<Rightarrow> string list"
  and strings_in_items :: "pydict \<Rightarrow> string list" where
  "strings_in (JDict d) = strings_in_items d"
| "strings_in (JList xs) = strings_in_list xs"
| "strings_in (JStr s) = [s]"
| "strings_in JNull = []"
| "strings_in (JBool b) = []"
| "strings_in (JInt i) = []"
| "strings_in (JFloat f) = []"
| "strings_in_list [] = []"
| "strings_in_list (x # xs) = strings_in x @ strings_in_list xs"
| "strings_in_items [] = []"
| "strings_in_items ((k, v) # d) = strings_in v @ strings_in_items d"

definition is_mark :: "json \<Rightarrow> bool" where
  "is_mark v \<longleftrightarrow> v = JNull \<or> v = JStr ''<redacted>'' \<or> (\<exists>h. v = JStr (''sha256:'' @ h))"

lemma is_mark_leaf: "is_mark v \<Longrightarrow> items_in v = []"
  by (auto simp: is_mark_def)

lemma is_mark_strings: "is_mark v \<Longrightarrow> s \<in> set (strings_in v) \<Longrightarrow> is_mark (JStr s)"
  by (auto simp: is_mark_def)

subsection \<open>The contract\<close>

locale redactor =
  fixes walk :: "rule list \<Rightarrow> json \<Rightarrow> json" and mark :: "json \<Rightarrow> string \<Rightarrow> json"
  assumes walk_dict: "walk rules (JDict d) = JDict (map (\<lambda>(k, v).
      (k, case find (field_is k) rules of Some r \<Rightarrow> mark v (rl_mode r) | None \<Rightarrow> walk rules v)) d)"
    and walk_list: "walk rules (JList xs) = JList (map (walk rules) xs)"
    and walk_str: "walk rules (JStr s) =
      (case find (regex_hits s) rules of Some r \<Rightarrow> mark (JStr s) (rl_mode r) | None \<Rightarrow> JStr s)"
    and walk_null: "walk rules JNull = JNull"
    and walk_bool: "walk rules (JBool b) = JBool b"
    and walk_int: "walk rules (JInt i) = JInt i"
    and walk_float: "walk rules (JFloat f) = JFloat f"
    and mark_is_mark: "is_mark (mark v m)"
begin

lemmas walk_simps = walk_dict walk_list walk_str walk_null walk_bool walk_int walk_float

text \<open>No item whose key is the field of a rule keeps its value, at any depth.\<close>

lemma walk_fields_aux:
  "\<forall>(k, w) \<in> set (items_in (walk rules v)). (\<exists>r \<in> set rules. field_is k r) \<longrightarrow> is_mark w"
  "\<forall>(k, w) \<in> set (items_in_list (map (walk rules) vs)). (\<exists>r \<in> set rules. field_is k r) \<longrightarrow> is_mark w"
  "\<forall>(k, w) \<in> set (items_in_items (map (\<lambda>(k, v).
      (k, case find (field_is k) rules of Some r \<Rightarrow> mark v (rl_mode r) | None \<Rightarrow> walk rules v)) d)).
      (\<exists>r \<in> set rules. field_is k r) \<longrightarrow> is_mark w"
proof (induction v and vs and d rule: json_induct3)
  case (Str s)
  then show ?case
    by (auto simp: walk_simps mark_is_mark is_mark_leaf split: option.splits)
next
  case (DCons k v d)
  then show ?case
    by (auto simp: mark_is_mark is_mark_leaf find_None_iff' split: option.splits)
qed (auto simp: walk_simps)

lemma walk_fields:
  "(k, w) \<in> set (items_in (walk rules v)) \<Longrightarrow> r \<in> set rules \<Longrightarrow> field_is k r \<Longrightarrow> is_mark w"
  using walk_fields_aux(1) [of rules v] by auto

text \<open>Every string left is a mark, or no expression finds a match in it.\<close>

lemma walk_strings_aux:
  "\<forall>s \<in> set (strings_in (walk rules v)). is_mark (JStr s) \<or> (\<forall>r \<in> set rules. \<not> regex_hits s r)"
  "\<forall>s \<in> set (strings_in_list (map (walk rules) vs)). is_mark (JStr s) \<or> (\<forall>r \<in> set rules. \<not> regex_hits s r)"
  "\<forall>s \<in> set (strings_in_items (map (\<lambda>(k, v).
      (k, case find (field_is k) rules of Some r \<Rightarrow> mark v (rl_mode r) | None \<Rightarrow> walk rules v)) d)).
      is_mark (JStr s) \<or> (\<forall>r \<in> set rules. \<not> regex_hits s r)"
proof (induction v and vs and d rule: json_induct3)
  case (Str s)
  show ?case
    using is_mark_strings [OF mark_is_mark]
    by (auto simp: walk_simps find_None_iff' split: option.splits)
next
  case (DCons k v d)
  then show ?case
    using is_mark_strings [OF mark_is_mark] by (auto split: option.splits)
qed (auto simp: walk_simps)

lemma walk_strings:
  "s \<in> set (strings_in (walk rules v)) \<Longrightarrow> is_mark (JStr s) \<or> (\<forall>r \<in> set rules. \<not> regex_hits s r)"
  using walk_strings_aux(1) by blast

text \<open>Without rules nothing changes; keys and shapes never do.\<close>

lemma walk_no_rules_aux:
  "walk [] v = v"
  "map (walk []) vs = vs"
  "map (\<lambda>(k, v). (k, case find (field_is k) [] of Some r \<Rightarrow> mark v (rl_mode r) | None \<Rightarrow> walk [] v)) d = d"
  by (induction v and vs and d rule: json_induct3) (simp_all add: walk_simps)

lemma walk_no_rules: "walk [] v = v"
  by (rule walk_no_rules_aux)

lemma walk_wf_aux:
  "(wf_json v \<longrightarrow> wf_json (walk rules v))"
  "(wf_list vs \<longrightarrow> wf_list (map (walk rules) vs))"
  "(wf_items d \<longrightarrow> wf_items (map (\<lambda>(k, v).
      (k, case find (field_is k) rules of Some r \<Rightarrow> mark v (rl_mode r) | None \<Rightarrow> walk rules v)) d))"
proof (induction v and vs and d rule: json_induct3)
  case (Str s)
  have "wf_json (mark v m)" for v m
    using mark_is_mark [of v m] by (auto simp: is_mark_def)
  then show ?case by (auto simp: walk_simps split: option.splits)
next
  case (Dict d)
  then show ?case by (auto simp: walk_simps comp_def case_prod_unfold)
next
  case (DCons k v d)
  have "wf_json (mark v m)" for v m
    using mark_is_mark [of v m] by (auto simp: is_mark_def)
  with DCons show ?case by (auto split: option.splits)
qed (auto simp: walk_simps)

lemma walk_wf: "wf_json v \<Longrightarrow> wf_json (walk rules v)"
  using walk_wf_aux(1) by blast

text \<open>The contract leaves no choice: two walks with the same marks are the same function.\<close>

lemma walk_unique_aux:
  assumes "redactor walk' mark"
  shows "walk rules v = walk' rules v"
    and "map (walk rules) vs = map (walk' rules) vs"
    and "map (\<lambda>(k, v). (k, case find (field_is k) rules of Some r \<Rightarrow> mark v (rl_mode r) | None \<Rightarrow> walk rules v)) d
       = map (\<lambda>(k, v). (k, case find (field_is k) rules of Some r \<Rightarrow> mark v (rl_mode r) | None \<Rightarrow> walk' rules v)) d"
  by (induction v and vs and d rule: json_induct3)
    (simp_all add: walk_simps redactor.walk_simps [OF assms] split: option.split)

lemma walk_unique: "redactor walk' mark \<Longrightarrow> walk rules v = walk' rules v"
  by (rule walk_unique_aux)

end

subsection \<open>Both walks meet it\<close>

lemma coll_apply_mark: "is_mark (coll_apply rt v m)"
  by (simp add: coll_apply_def is_mark_def REDACTED_def)

lemma sdk_apply_mark: "is_mark (sdk_apply_mode rt v m)"
  by (simp add: sdk_apply_mode_def is_mark_def REDACTED_SENTINEL_def)

lemma coll_walk_list_map: "coll_walk_list rt rules xs = map (coll_walk rt rules) xs"
  by (induction xs) auto

lemma coll_walk_items_map: "coll_walk_items rt rules d = map (\<lambda>(k, v).
    (k, case find (field_is k) rules of Some r \<Rightarrow> coll_apply rt v (rl_mode r) | None \<Rightarrow> coll_walk rt rules v)) d"
  by (induction d) auto

lemma redact_list_map: "redact_list rt rules xs = map (redact_value rt rules) xs"
  by (induction xs) auto

lemma redact_items_map: "redact_items rt rules d = map (\<lambda>(k, v).
    (k, case find (field_is k) rules of Some r \<Rightarrow> sdk_apply_mode rt v (rl_mode r) | None \<Rightarrow> redact_value rt rules v)) d"
  by (induction d) auto

interpretation coll: redactor "coll_walk rt" "coll_apply rt"
  by unfold_locales (simp_all add: coll_walk_list_map coll_walk_items_map coll_apply_mark)

interpretation sdk: redactor "redact_value rt" "sdk_apply_mode rt"
  by unfold_locales (simp_all add: redact_list_map redact_items_map sdk_apply_mark)

lemma apply_modes_agree: "sdk_apply_mode rt = coll_apply rt"
  by (intro ext) (simp add: sdk_apply_mode_def coll_apply_def REDACTED_def REDACTED_SENTINEL_def)

lemma redact_value_coll: "redact_value rt rules v = coll_walk rt rules v"
  by (rule sdk.walk_unique) (simp add: apply_modes_agree coll.redactor_axioms)

lemma redaction_JNull [simp]: "apply_collector_redaction rt JNull rules = JNull"
  by (simp add: apply_collector_redaction_def)

lemma redaction_no_rules [simp]: "apply_collector_redaction rt v [] = v"
  by (simp add: apply_collector_redaction_def coll.walk_no_rules)

end
