(* ===== verification/Ingest.thy ===== *)
theory Ingest
  imports Auth Redaction
begin

section \<open>Runs and events: the ingestion service\<close>

text \<open>
  \<open>ingest.py\<close>. \<open>IngestService\<close> keeps the life cycle of runs and appends events: it checks
  the type, looks for an earlier event with the same idempotency key, applies the collector's
  redaction, computes the payload hash and the event hash over the canonical envelope, and inserts
  the row with the hash of the row before it. \<open>verify\<close> recomputes the chain. Each method is a
  function from the collector's state to its result (or the exception) and the new state.
\<close>

subsection \<open>Events as they arrive\<close>

text \<open>
  An element of the request after \<open>EventInput.model_dump()\<close>: absent fields are \<open>None\<close>. The
  client's own \<open>previous_event_hash\<close>, \<open>event_hash\<close> and \<open>ingested_at\<close> are accepted
  and not used. A payload is a dictionary, or \<open>JNull\<close> for \<open>None\<close>.
\<close>

record event_input =
  i_event_id :: "string option"
  i_type :: string
  i_schema :: "string option"
  i_mode :: string
  i_payload :: json
  i_payload_hash :: "string option"
  i_prev :: "string option"
  i_hash :: "string option"
  i_step_id :: "string option"
  i_step_index :: "int option"
  i_actor :: "pydict option"
  i_occurred :: "string option"
  i_ingested :: "string option"
  i_trace :: "string option"
  i_span :: "string option"
  i_parent :: "string option"
  i_idem :: "string option"

definition EVENT_TYPES :: "string list" where
  "EVENT_TYPES = [
     ''agent_run.started'', ''agent_run.committed'', ''agent_run.rolled_back'',
     ''agent_run.failed'', ''agent_run.requires_approval'', ''model_call.started'',
     ''model_call.completed'', ''model_call.failed'', ''tool_call.started'',
     ''tool_call.completed'', ''tool_call.failed'', ''memory.read'',
     ''memory.write'', ''memory.delete_requested'', ''memory.redacted'',
     ''state.snapshot.created'', ''state.change.proposed'', ''state.change.applied'',
     ''state.change.reverted'', ''policy.check.started'', ''policy.check.passed'',
     ''policy.check.failed'', ''policy.enforcement.blocked'', ''policy.enforcement.allowed'',
     ''approval.requested'', ''approval.approved'', ''approval.rejected'',
     ''approval.expired'', ''approval.overridden'', ''evidence.artifact.created'',
     ''evidence.export.started'', ''evidence.export.completed'', ''evidence.export.failed'',
     ''auth.api_key.created'', ''auth.api_key.revoked'', ''user.login'',
     ''user.permission.changed'', ''audit_log.exported'']"

subsection \<open>Access to a run\<close>

definition authorize_run :: "database \<Rightarrow> principal \<Rightarrow> string \<Rightarrow> agent_run result" where
  "authorize_run db p rid =
    (case get_run db rid of
       None \<Rightarrow> Inl (IngestError ''run not found'' 404)
     | Some run \<Rightarrow>
         if r_org run \<noteq> pr_org p \<or> r_project run \<noteq> pr_project p then Inl (IngestError ''forbidden'' 403)
         else Inr run)"

definition now_reading :: "runtime \<Rightarrow> cstate \<Rightarrow> datetime" where
  "now_reading rt s = rt_now rt (st_tick s)"

subsection \<open>Life cycle of a run\<close>

definition start_run :: "runtime \<Rightarrow> principal \<Rightarrow> string option \<Rightarrow> string \<Rightarrow> string option \<Rightarrow> string \<Rightarrow> pydict \<Rightarrow> json svc" where
  "start_run rt p run_id agent_id agent_version environment metadata s =
    (if agent_id = [] then (Inl (IngestError ''agent_id is required'' 422), s)
     else (let
         rid = (if str_truthy run_id then the run_id
                else generate_run_id (rt_ms rt (st_tick s)) (rt_rand rt (st_tick s)));
         s1 = (if str_truthy run_id then s else tick s)
       in with_session (\<lambda>s.
         case get_run (st_db s) rid of
           Some existing \<Rightarrow>
             (Inr (JDict [(''run_id'', JStr (r_id existing)), (''status'', JStr (r_status existing)),
                          (''already_started'', JBool True)]), s)
         | None \<Rightarrow>
             (let row = \<lparr>r_id = rid, r_org = pr_org p, r_project = pr_project p, r_env = environment,
                    r_agent = agent_id, r_version = agent_version, r_status = ''running'',
                    r_metadata = metadata, r_started = rt_column rt (now_reading rt s), r_ended = None,
                    r_last_hash = None, r_count = 0\<rparr>
              in (Inr (JDict [(''run_id'', JStr rid), (''status'', JStr ''running'')]),
                  metric ''controldb.runs.started'' 1
                    (tick s\<lparr>st_db := (st_db s)\<lparr>db_runs := db_runs (st_db s) @ [row]\<rparr>\<rparr>)))) s1))"

definition set_status :: "string \<Rightarrow> datetime option \<Rightarrow> agent_run \<Rightarrow> agent_run" where
  "set_status st ended r = r\<lparr>r_status := st, r_ended := (case ended of None \<Rightarrow> r_ended r | Some d \<Rightarrow> Some d)\<rparr>"

definition commit_run :: "runtime \<Rightarrow> principal \<Rightarrow> string \<Rightarrow> json svc" where
  "commit_run rt p rid = with_session (\<lambda>s.
     case authorize_run (st_db s) p rid of
       Inl e \<Rightarrow> (Inl e, s)
     | Inr run \<Rightarrow>
         (Inr (JDict [(''run_id'', JStr rid), (''status'', JStr ''committed'')]),
          metric ''controldb.runs.committed'' 1
            (tick s\<lparr>st_db := update_run rid (set_status ''committed'' (Some (rt_column rt (now_reading rt s)))) (st_db s)\<rparr>)))"

definition rollback_run :: "runtime \<Rightarrow> principal \<Rightarrow> string \<Rightarrow> string option \<Rightarrow> json svc" where
  "rollback_run rt p rid reason s =
    (case with_session (\<lambda>s.
       case authorize_run (st_db s) p rid of
         Inl e \<Rightarrow> (Inl e, s)
       | Inr run \<Rightarrow>
           (Inr (),
            tick s\<lparr>st_db := update_run rid
              (\<lambda>r. (set_status ''rolled_back'' (Some (rt_column rt (now_reading rt s))) r)
                 \<lparr>r_metadata := (if str_truthy reason
                    then dict_set (r_metadata r) ''rollback_reason'' (js_str reason) else r_metadata r)\<rparr>) (st_db s)\<rparr>)) s of
       (Inl e, s') \<Rightarrow> (Inl e, s')
     | (Inr u, s') \<Rightarrow>
         (Inr (JDict [(''run_id'', JStr rid), (''status'', JStr ''rolled_back''), (''reason'', js_str reason)]),
          metric ''controldb.runs.failed'' 1 s'))"

definition run_to_dict :: "agent_run \<Rightarrow> json" where
  "run_to_dict r = JDict [
     (''run_id'', JStr (r_id r)), (''org_id'', JStr (r_org r)), (''project_id'', JStr (r_project r)),
     (''environment'', JStr (r_env r)), (''agent_id'', JStr (r_agent r)),
     (''agent_version'', js_str (r_version r)), (''status'', JStr (r_status r)),
     (''started_at'', utc_iso (Some (r_started r))), (''ended_at'', utc_iso (r_ended r)),
     (''event_count'', JInt (r_count r)), (''last_event_hash'', js_str (r_last_hash r)),
     (''metadata'', JDict (r_metadata r))]"

definition event_to_dict :: "audit_event \<Rightarrow> json" where
  "event_to_dict e = JDict [
     (''event_id'', JStr (e_id e)), (''sequence'', JInt (int (e_seq e))), (''run_id'', JStr (e_run e)),
     (''step_id'', js_str (e_step_id e)), (''step_index'', js_int (e_step_index e)),
     (''event_type'', JStr (e_type e)), (''schema_version'', JStr (e_schema e)),
     (''actor'', JDict [(''type'', e_actor_type e), (''id'', e_actor_id e)]),
     (''trace_id'', js_str (e_trace e)), (''span_id'', js_str (e_span e)),
     (''parent_span_id'', js_str (e_parent e)), (''payload_mode'', JStr (e_mode e)),
     (''payload'', e_payload e), (''payload_hash'', js_str (e_payload_hash e)),
     (''previous_event_hash'', js_str (e_prev e)), (''event_hash'', JStr (e_hash e)),
     (''occurred_at'', utc_iso (Some (e_occurred e))), (''ingested_at'', utc_iso (Some (e_ingested e))),
     (''idempotency_key'', js_str (e_idem e))]"

definition get_run_view :: "principal \<Rightarrow> string \<Rightarrow> database \<Rightarrow> json result" where
  "get_run_view p rid db =
    (case authorize_run db p rid of Inl e \<Rightarrow> Inl e | Inr run \<Rightarrow> Inr (run_to_dict run))"

subsection \<open>The canonical envelope\<close>

definition envelope :: "string \<Rightarrow> string \<Rightarrow> string \<Rightarrow> string \<Rightarrow> string \<Rightarrow> string \<Rightarrow> string \<Rightarrow> string option \<Rightarrow> string
   \<Rightarrow> string option \<Rightarrow> int option \<Rightarrow> string option \<Rightarrow> string option \<Rightarrow> string option \<Rightarrow> json \<Rightarrow> string \<Rightarrow> json
   \<Rightarrow> string option \<Rightarrow> string option \<Rightarrow> json \<Rightarrow> json \<Rightarrow> string option \<Rightarrow> pydict" where
  "envelope event_id schema_version event_type org project environment agent_id agent_version run_id
     step_id step_index trace_id span_id parent_span_id actor payload_mode payload payload_hash
     previous occurred ingested idempotency_key = [
     (''event_id'', JStr event_id),
     (''schema_version'', JStr schema_version),
     (''event_type'', JStr event_type),
     (''org_id'', JStr org),
     (''project_id'', JStr project),
     (''environment'', JStr environment),
     (''agent_id'', JStr agent_id),
     (''agent_version'', js_str agent_version),
     (''run_id'', JStr run_id),
     (''step_id'', js_str step_id),
     (''step_index'', js_int step_index),
     (''trace_id'', js_str trace_id),
     (''span_id'', js_str span_id),
     (''parent_span_id'', js_str parent_span_id),
     (''actor'', actor),
     (''payload_mode'', JStr payload_mode),
     (''payload'', payload),
     (''payload_hash'', js_str payload_hash),
     (''previous_event_hash'', js_str previous),
     (''occurred_at'', occurred),
     (''ingested_at'', ingested),
     (''idempotency_key'', js_str idempotency_key)]"

text \<open>The envelope that \<open>verify\<close> rebuilds from a stored row and its run.\<close>

definition verify_envelope :: "agent_run \<Rightarrow> audit_event \<Rightarrow> pydict" where
  "verify_envelope run e = envelope (e_id e) (e_schema e) (e_type e) (e_org e) (e_project e) (e_env e)
     (r_agent run) (r_version run) (e_run e) (e_step_id e) (e_step_index e) (e_trace e) (e_span e) (e_parent e)
     (JDict [(''type'', e_actor_type e), (''id'', e_actor_id e)]) (e_mode e) (e_payload e) (e_payload_hash e)
     (e_prev e) (utc_iso (Some (e_occurred e))) (utc_iso (Some (e_ingested e))) (e_idem e)"

definition event_hash_of :: "runtime \<Rightarrow> pydict \<Rightarrow> string result" where
  "event_hash_of rt env = compute_event_hash (rt_sha256 rt) (rt_float_repr rt) env"

subsection \<open>Storing one event\<close>

definition find_idempotent :: "database \<Rightarrow> string option \<Rightarrow> audit_event option" where
  "find_idempotent db key =
    (if str_truthy key then find (\<lambda>e. e_idem e = key) (db_events db) else None)"

definition default_actor :: "agent_run \<Rightarrow> pydict" where
  "default_actor run = [(''type'', JStr ''agent''), (''id'', JStr (r_agent run))]"

definition actor_of :: "agent_run \<Rightarrow> event_input \<Rightarrow> pydict" where
  "actor_of run ev = (case i_actor ev of None \<Rightarrow> default_actor run | Some d \<Rightarrow> if d = [] then default_actor run else d)"

definition redact_payload :: "runtime \<Rightarrow> rule list \<Rightarrow> json \<Rightarrow> json" where
  "redact_payload rt rules payload =
    (if payload \<noteq> JNull \<and> rules \<noteq> [] then apply_collector_redaction rt payload rules else payload)"

definition payload_hash_of :: "runtime \<Rightarrow> json \<Rightarrow> string option \<Rightarrow> string option result" where
  "payload_hash_of rt payload given =
    (if str_truthy given then Inr given
     else if payload \<noteq> JNull
       then (case compute_payload_hash (rt_sha256 rt) (rt_float_repr rt) payload of
               Inl e \<Rightarrow> Inl e | Inr h \<Rightarrow> Inr (Some h))
       else Inr None)"

definition read_occurred :: "runtime \<Rightarrow> event_input \<Rightarrow> cstate \<Rightarrow> datetime \<times> cstate" where
  "read_occurred rt ev s =
    (let (d, read) = parse_iso rt (now_reading rt s) (i_occurred ev) in (d, if read then tick s else s))"

definition read_event_id :: "runtime \<Rightarrow> event_input \<Rightarrow> cstate \<Rightarrow> string \<times> cstate" where
  "read_event_id rt ev s =
    (if str_truthy (i_event_id ev) then (the (i_event_id ev), s)
     else (generate_event_id (rt_ms rt (st_tick s)) (rt_rand rt (st_tick s)), tick s))"

definition schema_of :: "string \<Rightarrow> event_input \<Rightarrow> string" where
  "schema_of version ev = str_or (i_schema ev) version"

text \<open>
  The row of an event, up to its sequence number, which the insert assigns. The hash is taken over
  the dates as they were parsed and the actor as it was sent; the row holds what the columns give back for them.
  The actor's values are whatever the client sent. Binding them, and the number of the step, is the first thing the insert does.
\<close>

definition bind_columns :: "runtime \<Rightarrow> pydict \<Rightarrow> int option \<Rightarrow> (json \<times> json) result" where
  "bind_columns rt actor step_index =
    (case int_column step_index of
       Inl e \<Rightarrow> Inl e
     | Inr n \<Rightarrow>
       (case text_column rt (dict_get actor ''type'') of
          Inl e \<Rightarrow> Inl e
        | Inr t \<Rightarrow> (case text_column rt (dict_get actor ''id'') of Inl e \<Rightarrow> Inl e | Inr i \<Rightarrow> Inr (t, i))))"

definition prepare_event ::
  "runtime \<Rightarrow> rule list \<Rightarrow> string \<Rightarrow> principal \<Rightarrow> agent_run \<Rightarrow> event_input \<Rightarrow> string option \<Rightarrow> audit_event svc" where
  "prepare_event rt rules schema p run ev prev s =
    (let payload = redact_payload rt rules (i_payload ev) in
     case payload_hash_of rt payload (i_payload_hash ev) of
       Inl e \<Rightarrow> (Inl e, s)
     | Inr ph \<Rightarrow>
       (let actor = actor_of run ev;
            (occurred, s1) = read_occurred rt ev s;
            ingested = now_reading rt s1;
            (event_id, s2) = read_event_id rt ev (tick s1);
            env = envelope event_id (schema_of schema ev) (i_type ev) (pr_org p) (pr_project p) (r_env run)
              (r_agent run) (r_version run) (r_id run) (i_step_id ev) (i_step_index ev) (i_trace ev)
              (i_span ev) (i_parent ev) (JDict actor) (i_mode ev) payload ph prev
              (JStr (isoformat occurred)) (JStr (isoformat ingested)) (i_idem ev)
        in case event_hash_of rt env of
             Inl e \<Rightarrow> (Inl e, s2)
           | Inr h \<Rightarrow> (case bind_columns rt actor (i_step_index ev) of
             Inl e \<Rightarrow> (Inl e, s2)
           | Inr (actor_type, actor_id) \<Rightarrow>
             (Inr \<lparr>e_seq = 0, e_id = event_id, e_org = pr_org p, e_project = pr_project p, e_env = r_env run,
                e_run = r_id run, e_step_id = i_step_id ev, e_step_index = i_step_index ev, e_type = i_type ev,
                e_schema = schema_of schema ev, e_actor_type = actor_type, e_actor_id = actor_id,
                e_trace = i_trace ev, e_span = i_span ev, e_parent = i_parent ev, e_mode = i_mode ev,
                e_payload = payload, e_payload_hash = ph, e_prev = prev, e_hash = h,
                e_occurred = rt_column rt occurred, e_ingested = rt_column rt ingested, e_idem = i_idem ev\<rparr>, s2))))"

definition status_after :: "string \<Rightarrow> datetime \<Rightarrow> agent_run \<Rightarrow> agent_run" where
  "status_after event_type ingested r =
    (if event_type = ''agent_run.started'' then set_status ''running'' None r
     else if event_type = ''agent_run.requires_approval'' then set_status ''requires_approval'' None r
     else if event_type = ''agent_run.committed'' then set_status ''committed'' (Some ingested) r
     else if event_type = ''agent_run.rolled_back'' then set_status ''rolled_back'' (Some ingested) r
     else if event_type = ''agent_run.failed'' then set_status ''failed'' (Some ingested) r
     else r)"

text \<open>
  The insert. A violated constraint rolls the session back to \<open>db0\<close>, the database at its start:
  the events of the same batch inserted before are gone, and the code goes on with the row that has
  the same event id, if there is one.
\<close>

definition store_event :: "database \<Rightarrow> audit_event \<Rightarrow> (string \<times> string) svc" where
  "store_event db0 row s =
    (case insert_event row (st_db s) of
       Some db' \<Rightarrow>
         (Inr (e_id row, e_hash row),
          s\<lparr>st_db := update_run (e_run row) (status_after (e_type row) (e_ingested row)) db'\<rparr>)
     | None \<Rightarrow>
         (case find (\<lambda>e. e_id e = e_id row) (db_events db0) of
            Some existing \<Rightarrow> (Inr (e_id existing, e_hash existing), s\<lparr>st_db := db0\<rparr>)
          | None \<Rightarrow> (Inl IntegrityError, s\<lparr>st_db := db0\<rparr>)))"

definition persist_event ::
  "runtime \<Rightarrow> rule list \<Rightarrow> string \<Rightarrow> principal \<Rightarrow> agent_run \<Rightarrow> database \<Rightarrow> event_input \<Rightarrow> string option
    \<Rightarrow> (string \<times> string) svc" where
  "persist_event rt rules schema p run db0 ev prev s =
    (if i_type ev \<notin> set EVENT_TYPES then (Inl (IngestError (''unknown event_type: '' @ i_type ev) 422), s)
     else (case find_idempotent (st_db s) (i_idem ev) of
         Some existing \<Rightarrow> (Inr (e_id existing, e_hash existing), s)
       | None \<Rightarrow>
         (case prepare_event rt rules schema p run ev prev s of
            (Inl e, s') \<Rightarrow> (Inl e, s')
          | (Inr row, s') \<Rightarrow> store_event db0 row s')))"

subsection \<open>Appending a batch\<close>

fun append_loop ::
  "runtime \<Rightarrow> rule list \<Rightarrow> string \<Rightarrow> principal \<Rightarrow> agent_run \<Rightarrow> database \<Rightarrow> event_input list \<Rightarrow> string option
    \<Rightarrow> (string list \<times> string option) svc" where
  "append_loop rt rules schema p run db0 [] prev s = (Inr ([], prev), s)"
| "append_loop rt rules schema p run db0 (ev # evs) prev s =
    (case persist_event rt rules schema p run db0 ev prev s of
       (Inl e, s') \<Rightarrow> (Inl e, if is_ingest_error e then metric ''controldb.events.failed'' 1 s' else s')
     | (Inr (eid, h), s') \<Rightarrow>
         (case append_loop rt rules schema p run db0 evs (Some h) s' of
            (Inl e, s'') \<Rightarrow> (Inl e, s'')
          | (Inr (ids, prev'), s'') \<Rightarrow> (Inr (eid # ids, prev'), s'')))"

definition append_session ::
  "runtime \<Rightarrow> rule list \<Rightarrow> string \<Rightarrow> principal \<Rightarrow> string \<Rightarrow> event_input list \<Rightarrow> string list svc" where
  "append_session rt rules schema p rid evs s =
    (case authorize_run (st_db s) p rid of
       Inl e \<Rightarrow> (Inl e, s)
     | Inr run \<Rightarrow>
         (case append_loop rt rules schema p run (st_db s) evs (r_last_hash run) s of
            (Inl e, s') \<Rightarrow> (Inl e, s')
          | (Inr (ids, prev'), s') \<Rightarrow>
              (Inr ids, s'\<lparr>st_db := update_run rid
                 (\<lambda>r. r\<lparr>r_last_hash := prev', r_count := r_count r + int (length ids)\<rparr>) (st_db s')\<rparr>)))"

definition append_events ::
  "runtime \<Rightarrow> rule list \<Rightarrow> string \<Rightarrow> principal \<Rightarrow> string \<Rightarrow> event_input list \<Rightarrow> string list svc" where
  "append_events rt rules schema p rid evs s =
    (if evs = [] then (Inr [], s)
     else (let start = rt_perf rt (st_tick s) in
       case with_session (append_session rt rules schema p rid evs) (tick s) of
         (Inl e, s1) \<Rightarrow> (Inl e, s1)
       | (Inr ids, s1) \<Rightarrow>
           (let s2 = metric ''controldb.events.ingested'' (int (length ids)) s1;
                latency = (rt_perf rt (st_tick s2) - start) * 1000
            in (Inr ids, tick s2\<lparr>st_metrics := observe ''controldb.ingestion.latency_ms'' latency (st_metrics s2)\<rparr>))))"

subsection \<open>Reading a run\<close>

definition page_rows :: "nat \<Rightarrow> nat option \<Rightarrow> audit_event list \<Rightarrow> audit_event list" where
  "page_rows bound cursor rows =
    take bound (case cursor of None \<Rightarrow> rows | Some c \<Rightarrow> if c = 0 then rows else filter (\<lambda>e. c < e_seq e) rows)"

definition next_cursor :: "nat \<Rightarrow> audit_event list \<Rightarrow> nat option" where
  "next_cursor limit rows =
    (if rows \<noteq> [] \<and> length rows = limit then Some (e_seq (last rows)) else None)"

definition timeline_rows :: "database \<Rightarrow> string \<Rightarrow> nat \<Rightarrow> nat option \<Rightarrow> audit_event list" where
  "timeline_rows db rid limit cursor = page_rows (min limit 5000) cursor (run_events db rid)"

definition cursor_json :: "nat option \<Rightarrow> json" where
  "cursor_json c = js_int (map_option int c)"

definition timeline :: "principal \<Rightarrow> string \<Rightarrow> nat \<Rightarrow> nat option \<Rightarrow> database \<Rightarrow> json result" where
  "timeline p rid limit cursor db =
    (case authorize_run db p rid of
       Inl e \<Rightarrow> Inl e
     | Inr run \<Rightarrow>
         (let rows = timeline_rows db rid limit cursor in
          Inr (JDict [(''run'', run_to_dict run), (''events'', JList (map event_to_dict rows)),
                      (''next_cursor'', cursor_json (next_cursor limit rows))])))"

subsection \<open>Verification\<close>

text \<open>The loop of \<open>verify\<close>: the id of the first row that breaks the chain, if any.\<close>

fun verify_rows :: "runtime \<Rightarrow> agent_run \<Rightarrow> string option \<Rightarrow> audit_event list \<Rightarrow> string option result" where
  "verify_rows rt run previous [] = Inr None"
| "verify_rows rt run previous (row # rows) =
    (if e_prev row \<noteq> previous then Inr (Some (e_id row))
     else (case event_hash_of rt (verify_envelope run row) of
         Inl e \<Rightarrow> Inl e
       | Inr expected \<Rightarrow>
           if expected \<noteq> e_hash row then Inr (Some (e_id row))
           else verify_rows rt run (Some (e_hash row)) rows))"

record verification =
  v_run :: string
  v_valid :: bool
  v_count :: nat
  v_broken :: "string option"

definition verify :: "runtime \<Rightarrow> principal \<Rightarrow> string \<Rightarrow> database \<Rightarrow> verification result" where
  "verify rt p rid db =
    (case authorize_run db p rid of
       Inl e \<Rightarrow> Inl e
     | Inr run \<Rightarrow>
         (case verify_rows rt run None (run_events db rid) of
            Inl e \<Rightarrow> Inl e
          | Inr broken \<Rightarrow>
              Inr \<lparr>v_run = rid, v_valid = (broken = None), v_count = length (run_events db rid), v_broken = broken\<rparr>))"

definition verification_dict :: "verification \<Rightarrow> json" where
  "verification_dict v = JDict [(''run_id'', JStr (v_run v)), (''valid'', JBool (v_valid v)),
     (''event_count'', JInt (int (v_count v))), (''broken_at_event_id'', js_str (v_broken v))]"

end
