(* ===== verification/Hash_Chain.thy ===== *)
theory Hash_Chain
  imports Ingest
begin

section \<open>The hash chain\<close>

text \<open>
  What a chain of hashes guarantees, stated once for any kind of record: a record names the hash of
  the record before it, and its own hash is taken over a text that determines its content,
  that name included. The interface \<open>hash_chain\<close> is those two facts. The collector's rows are one
  instance; the other side of the program, the SDK's buffer, is another. No hypothesis on the hash
  function is made: the results say that two chains agree, or else name two different texts of the
  chains with the same digest.
\<close>

fun linked :: "('r \<Rightarrow> string option) \<Rightarrow> ('r \<Rightarrow> string) \<Rightarrow> ('r \<Rightarrow> bool) \<Rightarrow> string option \<Rightarrow> 'r list \<Rightarrow> bool" where
  "linked prev stored good p [] = True"
| "linked prev stored good p (r # rs) = (prev r = p \<and> good r \<and> linked prev stored good (Some (stored r)) rs)"

definition head_hash :: "('r \<Rightarrow> string) \<Rightarrow> string option \<Rightarrow> 'r list \<Rightarrow> string option" where
  "head_hash stored p rs = (if rs = [] then p else Some (stored (last rs)))"

lemma head_hash_simps [simp]:
  "head_hash stored p [] = p"
  "head_hash stored p (rs @ [r]) = Some (stored r)"
  by (simp_all add: head_hash_def)

lemma head_hash_Cons: "head_hash stored p (r # rs) = head_hash stored (Some (stored r)) rs"
  by (simp add: head_hash_def)

lemma linked_append:
  "linked prev stored good p (xs @ ys) \<longleftrightarrow>
     linked prev stored good p xs \<and> linked prev stored good (head_hash stored p xs) ys"
  by (induction xs arbitrary: p) (auto simp: head_hash_Cons)

lemma linked_snoc:
  "linked prev stored good p (xs @ [r]) \<longleftrightarrow>
     linked prev stored good p xs \<and> prev r = head_hash stored p xs \<and> good r"
  by (auto simp: linked_append)

lemma linked_good: "linked prev stored good p rs \<Longrightarrow> r \<in> set rs \<Longrightarrow> good r"
  by (induction rs arbitrary: p) auto

text \<open>A prefix of a chain is a chain: nothing in the records tells that later ones are missing.\<close>

lemma linked_take: "linked prev stored good p rs \<Longrightarrow> linked prev stored good p (take n rs)"
  using linked_append [of prev stored good p "take n rs" "drop n rs"] by simp

text \<open>An explicit collision: two different texts, hashed for the two lists, with one digest.\<close>

definition collides :: "('r \<Rightarrow> string) \<Rightarrow> (string \<Rightarrow> string) \<Rightarrow> 'r list \<Rightarrow> 'r list \<Rightarrow> bool" where
  "collides body digest rs rs' \<longleftrightarrow>
     (\<exists>r \<in> set rs. \<exists>r' \<in> set rs'. body r \<noteq> body r' \<and> digest (body r) = digest (body r'))"

lemma collides_mono:
  "collides body digest rs rs' \<Longrightarrow> set rs \<subseteq> set xs \<Longrightarrow> set rs' \<subseteq> set xs' \<Longrightarrow> collides body digest xs xs'"
  unfolding collides_def by blast

locale hash_chain =
  fixes prev :: "'r \<Rightarrow> string option" and stored :: "'r \<Rightarrow> string"
    and body :: "'r \<Rightarrow> string" and digest :: "string \<Rightarrow> string"
    and good :: "'r \<Rightarrow> bool" and content :: "'r \<Rightarrow> 'c"
  assumes good_stored: "good r \<Longrightarrow> stored r = digest (body r)"
    and body_content: "good r \<Longrightarrow> good r' \<Longrightarrow> body r = body r' \<Longrightarrow> content r = content r'"
    and content_prev: "good r \<Longrightarrow> good r' \<Longrightarrow> content r = content r' \<Longrightarrow> prev r = prev r'"
begin

text \<open>Two records with the same hash have the same content, unless their texts collide.\<close>

lemma same_hash_same_content:
  assumes "good r" "good r'" "stored r = stored r'" "\<not> collides body digest [r] [r']"
  shows "content r = content r'"
proof -
  from assms(1-3) have "digest (body r) = digest (body r')" by (simp add: good_stored)
  with assms(4) have "body r = body r'" by (auto simp: collides_def)
  with assms(1,2) show ?thesis by (rule body_content)
qed

text \<open>The head determines the whole chain: its length and every content.\<close>

lemma chain_determined:
  assumes "linked prev stored good None rs" "linked prev stored good None rs'"
    and "head_hash stored None rs = head_hash stored None rs'" "\<not> collides body digest rs rs'"
  shows "map content rs = map content rs'"
  using assms
proof (induction rs arbitrary: rs' rule: rev_induct)
  case Nil
  then show ?case by (cases rs' rule: rev_cases) auto
next
  case (snoc r rs)
  then obtain s ss where rs': "rs' = ss @ [s]" by (cases rs' rule: rev_cases) auto
  from snoc.prems have good: "good r" "good s" "stored r = stored s"
    unfolding rs' linked_snoc by auto
  have nc: "\<not> collides body digest [r] [s]" "\<not> collides body digest rs ss"
    using snoc.prems(4) unfolding rs' by (auto intro: collides_mono)
  from same_hash_same_content [OF good nc(1)] have c: "content r = content s" .
  with good(1,2) have "prev r = prev s" by (rule content_prev)
  with snoc.prems have "head_hash stored None rs = head_hash stored None ss"
    unfolding rs' linked_snoc by simp
  with snoc.prems snoc.IH [of ss] nc(2) have "map content rs = map content ss"
    unfolding rs' linked_snoc by simp
  with c show ?case unfolding rs' by simp
qed

end

subsection \<open>Dictionaries with the same canonical text\<close>

lemma distinct_sort_key_fst: "distinct (map fst d) \<Longrightarrow> distinct (map fst (sort_key fst d))"
  by (simp add: distinct_map)

lemma map_of_sort_key: "distinct (map fst d) \<Longrightarrow> map_of (sort_key fst d) = map_of d"
  using map_of_inject_set [of "sort_key fst d" d] distinct_sort_key_fst [of d] by simp

lemma map_of_norm_items: "map_of (norm_items d) k = map_option norm_json (map_of d k)"
  by (induction d) auto

lemma map_fst_norm_items [simp]: "map fst (norm_items d) = map fst d"
  by (induction d) auto

lemma json_equiv_refl [simp]: "json_equiv a a"
  by (simp add: json_equiv_def)

lemma json_equiv_sym: "json_equiv a b \<Longrightarrow> json_equiv b a"
  by (simp add: json_equiv_def)

lemma json_equiv_trans: "json_equiv a b \<Longrightarrow> json_equiv b c \<Longrightarrow> json_equiv a c"
  by (simp add: json_equiv_def)

lemma json_equiv_lookup:
  assumes "json_equiv (JDict d) (JDict e)" "distinct (map fst d)" "distinct (map fst e)"
  shows "map_option norm_json (map_of d k) = map_option norm_json (map_of e k)"
proof -
  from assms(1) have "map_of (sort_key fst (norm_items d)) k = map_of (sort_key fst (norm_items e)) k"
    by (simp add: json_equiv_def)
  with assms(2,3) show ?thesis
    by (simp add: map_of_sort_key map_of_norm_items)
qed

lemma json_equiv_dictI: "norm_items d = norm_items e \<Longrightarrow> json_equiv (JDict d) (JDict e)"
  by (simp add: json_equiv_def)

lemma norm_leaf [simp]: "norm_json (js_str x) = js_str x" "norm_json (js_int i) = js_int i"
  by (simp_all add: js_str_def js_int_def split: option.split)

lemma js_inj [simp]: "js_str x = js_str y \<longleftrightarrow> x = y" "js_int i = js_int j \<longleftrightarrow> i = j"
  by (auto simp: js_str_def js_int_def split: option.splits)

lemma js_not_nan [simp]: "\<not> has_nan (utc_iso d)"
  by (simp add: utc_iso_def split: option.split)

subsection \<open>The collector's chain\<close>

lemma envelope_distinct: "distinct (map fst (envelope eid sv ty og pj en ag av ri si sx tr sp pa ac pm pl ph pr oc ing ik))"
  by (simp add: envelope_def)

lemma envelope_no_hash:
  "filter (\<lambda>(k, v). k \<noteq> ''event_hash'') (envelope eid sv ty og pj en ag av ri si sx tr sp pa ac pm pl ph pr oc ing ik)
     = envelope eid sv ty og pj en ag av ri si sx tr sp pa ac pm pl ph pr oc ing ik"
  by (simp add: envelope_def)

lemma envelope_nan:
  "has_nan (JDict (envelope eid sv ty og pj en ag av ri si sx tr sp pa ac pm pl ph pr (JStr oc) (JStr ing) ik))
     \<longleftrightarrow> has_nan ac \<or> has_nan pl"
  by (auto simp: envelope_def)

text \<open>The text hashed for a row, and whether the stored hash is the hash of that text.\<close>

definition row_text :: "runtime \<Rightarrow> agent_run \<times> audit_event \<Rightarrow> string" where
  "row_text rt x = enc (rt_float_repr rt) (JDict (verify_envelope (fst x) (snd x)))"

definition row_digest :: "runtime \<Rightarrow> string \<Rightarrow> string" where
  "row_digest rt t = sha256_hex (rt_sha256 rt) t"

definition row_nan :: "audit_event \<Rightarrow> bool" where
  "row_nan e \<longleftrightarrow> has_nan (e_actor_type e) \<or> has_nan (e_actor_id e) \<or> has_nan (e_payload e)"

definition row_good :: "runtime \<Rightarrow> agent_run \<times> audit_event \<Rightarrow> bool" where
  "row_good rt x \<longleftrightarrow> \<not> row_nan (snd x) \<and> e_hash (snd x) = row_digest rt (row_text rt x)"

lemma utc_iso_Some: "utc_iso (Some d) = JStr (isoformat (as_utc d))"
  by (simp add: utc_iso_def)

lemma verify_envelope_nan: "has_nan (JDict (verify_envelope run e)) \<longleftrightarrow> row_nan e"
  unfolding verify_envelope_def utc_iso_Some envelope_nan by (auto simp: row_nan_def)

lemma event_hash_of_row:
  "event_hash_of rt (verify_envelope run e) =
    (if row_nan e then Inl (ValueError ''Out of range float values are not JSON compliant'')
     else Inr (row_digest rt (row_text rt (run, e))))"
proof -
  have "filter (\<lambda>(k, v). k \<noteq> ''event_hash'') (verify_envelope run e) = verify_envelope run e"
    unfolding verify_envelope_def by (rule envelope_no_hash)
  then show ?thesis
    using verify_envelope_nan [of run e]
    by (simp add: event_hash_of_def compute_event_hash_def hash_json_def canonical_json_def
        row_digest_def row_text_def del: has_nan.simps)
qed

text \<open>What the chain fixes of a row: the envelope, up to the order of items inside it.\<close>

definition row_content :: "agent_run \<times> audit_event \<Rightarrow> json" where
  "row_content x = norm_json (JDict (verify_envelope (fst x) (snd x)))"

lemma row_content_lookup:
  assumes "row_content x = row_content y"
  shows "map_option norm_json (map_of (verify_envelope (fst x) (snd x)) k)
       = map_option norm_json (map_of (verify_envelope (fst y) (snd y)) k)"
proof (rule json_equiv_lookup)
  show "json_equiv (JDict (verify_envelope (fst x) (snd x))) (JDict (verify_envelope (fst y) (snd y)))"
    using assms by (simp add: json_equiv_def row_content_def)
qed (simp_all add: verify_envelope_def envelope_distinct)

lemma row_content_prev: "row_content x = row_content y \<Longrightarrow> e_prev (snd x) = e_prev (snd y)"
  using row_content_lookup [of x y "''previous_event_hash''"]
  by (simp add: verify_envelope_def envelope_def)

lemma row_text_content:
  assumes "float_repr_ok (rt_float_repr rt)" "row_good rt x" "row_good rt y" "row_text rt x = row_text rt y"
  shows "row_content x = row_content y"
  using enc_inj [OF assms(1), of "JDict (verify_envelope (fst x) (snd x))" "JDict (verify_envelope (fst y) (snd y))"]
    assms(2-4) verify_envelope_nan
  by (simp add: row_good_def row_text_def row_content_def json_equiv_def del: has_nan.simps)

definition row_linked :: "runtime \<Rightarrow> agent_run \<Rightarrow> string option \<Rightarrow> audit_event list \<Rightarrow> bool" where
  "row_linked rt run p rows =
     linked (\<lambda>x. e_prev (snd x)) (\<lambda>x. e_hash (snd x)) (row_good rt) p (map (Pair run) rows)"

text \<open>
  The collector's rows as an instance. \<open>float_repr_ok\<close>, the documented behaviour of
  \<open>float.__repr__\<close> the canonical text depends on, is part of what makes a row good here.
\<close>

definition row_sound :: "runtime \<Rightarrow> agent_run \<times> audit_event \<Rightarrow> bool" where
  "row_sound rt x \<longleftrightarrow> float_repr_ok (rt_float_repr rt) \<and> row_good rt x"

interpretation coll_chain: hash_chain "\<lambda>x. e_prev (snd x)" "\<lambda>x. e_hash (snd x)" "row_text rt"
  "row_digest rt" "row_sound rt" row_content for rt
  by unfold_locales (auto simp: row_sound_def row_good_def dest: row_content_prev intro: row_text_content)

lemma row_linked_sound:
  "float_repr_ok (rt_float_repr rt) \<Longrightarrow> row_linked rt run p rows \<longleftrightarrow>
     linked (\<lambda>x. e_prev (snd x)) (\<lambda>x. e_hash (snd x)) (row_sound rt) p (map (Pair run) rows)"
  unfolding row_linked_def by (simp add: row_sound_def [abs_def])

lemma verify_rows_linked:
  "verify_rows rt run p rows = Inr None \<longleftrightarrow> row_linked rt run p rows"
  by (induction rows arbitrary: p)
    (auto simp: row_linked_def event_hash_of_row row_good_def split: if_splits)

end
