(* ===== verification/Ingest_Laws.thy ===== *)
theory Ingest_Laws
  imports Hash_Chain
begin

section \<open>What the ingestion service keeps and gives\<close>

text \<open>
  The relation \<open>run_session db0 rid db\<close> between the database at the start of a session and a
  later point of it: only events of the run \<open>rid\<close> were added, after the old ones, and only that
  run's mutable columns changed. Every step of \<open>append_events\<close> keeps it, the rollback after a
  violated constraint included. On it rest the atomicity of a batch, the isolation of the
  tenants, and the invariant of the chain.
\<close>

subsection \<open>Preparing a row\<close>

lemma read_occurred_frame [simp]:
  "st_db (snd (read_occurred rt ev s)) = st_db s" "st_metrics (snd (read_occurred rt ev s)) = st_metrics s"
  by (simp_all add: read_occurred_def split: prod.split)

lemma read_event_id_frame [simp]:
  "st_db (snd (read_event_id rt ev s)) = st_db s" "st_metrics (snd (read_event_id rt ev s)) = st_metrics s"
  by (simp_all add: read_event_id_def)

text \<open>The envelope that is hashed, and the row that is stored for it.\<close>

definition new_envelope :: "runtime \<Rightarrow> rule list \<Rightarrow> string \<Rightarrow> principal \<Rightarrow> agent_run \<Rightarrow> event_input
    \<Rightarrow> string option \<Rightarrow> string option \<Rightarrow> cstate \<Rightarrow> pydict" where
  "new_envelope rt rules schema p run ev prev ph s =
    (let (occurred, s1) = read_occurred rt ev s in
     envelope (fst (read_event_id rt ev (tick s1))) (schema_of schema ev) (i_type ev) (pr_org p) (pr_project p) (r_env run)
       (r_agent run) (r_version run) (r_id run) (i_step_id ev) (i_step_index ev) (i_trace ev)
       (i_span ev) (i_parent ev) (JDict (actor_of run ev)) (i_mode ev) (redact_payload rt rules (i_payload ev)) ph prev
       (JStr (isoformat occurred)) (JStr (isoformat (now_reading rt s1))) (i_idem ev))"

definition column_text :: "runtime \<Rightarrow> json \<Rightarrow> json" where
  "column_text rt v = (case text_column rt v of Inl e \<Rightarrow> JNull | Inr t \<Rightarrow> t)"

lemma column_text_text: "text_value (column_text rt v)"
  using text_column_text [of rt v] by (auto simp: column_text_def text_value_def split: sum.split)

lemma column_text_value: "text_value v \<Longrightarrow> column_text rt v = v"
  by (simp add: column_text_def text_column_value)

definition fits_columns :: "event_input \<Rightarrow> bool" where
  "fits_columns ev \<longleftrightarrow> (\<forall>d. i_actor ev = Some d \<longrightarrow> text_value (dict_get d ''type'') \<and> text_value (dict_get d ''id''))
     \<and> (\<forall>n. i_step_index ev = Some n \<longrightarrow> int64 n)"

lemma bind_columns_Inr: "bind_columns rt a n = Inr (t, i) \<Longrightarrow> t = column_text rt (dict_get a ''type'') \<and> i = column_text rt (dict_get a ''id'')"
  by (auto simp: bind_columns_def column_text_def split: sum.splits)

lemma bind_columns_Inl: "bind_columns rt a n = Inl e \<Longrightarrow> \<exists>m. e = BindError m"
  by (auto simp: bind_columns_def dest: column_errors split: sum.splits)

lemma actor_of_text: "fits_columns ev \<Longrightarrow> text_value (dict_get (actor_of run ev) ''type'') \<and> text_value (dict_get (actor_of run ev) ''id'')"
  by (auto simp: fits_columns_def actor_of_def default_actor_def text_value_def split: option.split)

lemma bind_columns_fits: "fits_columns ev \<Longrightarrow> \<exists>t i. bind_columns rt (actor_of run ev) (i_step_index ev) = Inr (t, i)"
  using actor_of_text [of ev run]
  by (auto simp: bind_columns_def text_column_value int_column_def fits_columns_def split: option.split)

definition new_row :: "runtime \<Rightarrow> rule list \<Rightarrow> string \<Rightarrow> principal \<Rightarrow> agent_run \<Rightarrow> event_input
    \<Rightarrow> string option \<Rightarrow> string option \<Rightarrow> string \<Rightarrow> cstate \<Rightarrow> audit_event" where
  "new_row rt rules schema p run ev prev ph h s =
    (let (occurred, s1) = read_occurred rt ev s; actor = actor_of run ev in
     \<lparr>e_seq = 0, e_id = fst (read_event_id rt ev (tick s1)), e_org = pr_org p, e_project = pr_project p, e_env = r_env run,
      e_run = r_id run, e_step_id = i_step_id ev, e_step_index = i_step_index ev, e_type = i_type ev,
      e_schema = schema_of schema ev, e_actor_type = column_text rt (dict_get actor ''type''),
      e_actor_id = column_text rt (dict_get actor ''id''),
      e_trace = i_trace ev, e_span = i_span ev, e_parent = i_parent ev, e_mode = i_mode ev,
      e_payload = redact_payload rt rules (i_payload ev), e_payload_hash = ph, e_prev = prev, e_hash = h,
      e_occurred = rt_column rt occurred, e_ingested = rt_column rt (now_reading rt s1), e_idem = i_idem ev\<rparr>)"

lemma prepare_event_Inr:
  assumes "prepare_event rt rules schema p run ev prev s = (Inr row, s')"
  shows "\<exists>ph h. payload_hash_of rt (redact_payload rt rules (i_payload ev)) (i_payload_hash ev) = Inr ph
    \<and> event_hash_of rt (new_envelope rt rules schema p run ev prev ph s) = Inr h
    \<and> row = new_row rt rules schema p run ev prev ph h s"
  using assms
  by (auto simp: prepare_event_def new_envelope_def new_row_def Let_def split: sum.splits prod.splits dest!: bind_columns_Inr)

lemma prepare_event_frame:
  assumes "prepare_event rt rules schema p run ev prev s = (x, s')"
  shows "st_db s' = st_db s \<and> st_metrics s' = st_metrics s"
proof -
  obtain d s1 where occ: "read_occurred rt ev s = (d, s1)" by force
  obtain i s2 where idv: "read_event_id rt ev (tick s1) = (i, s2)" by force
  have "st_db s1 = st_db s" "st_metrics s1 = st_metrics s" "st_db s2 = st_db s1" "st_metrics s2 = st_metrics s1"
    using read_occurred_frame [of rt ev s] read_event_id_frame [of rt ev "tick s1"] unfolding occ idv by auto
  then show ?thesis
    using assms idv unfolding prepare_event_def Let_def occ by (auto simp: idv split: sum.splits prod.splits)
qed

lemma prepare_event_Inl:
  assumes "prepare_event rt rules schema p run ev prev s = (Inl e, s')"
  shows "e = ValueError ''Out of range float values are not JSON compliant'' \<or> (\<exists>m. e = BindError m)"
  using assms
  by (auto simp: prepare_event_def Let_def payload_hash_of_def event_hash_of_def compute_event_hash_def
      compute_payload_hash_def hash_json_def canonical_json_def dest: bind_columns_Inl split: sum.splits prod.splits if_splits)

lemma new_row_simps [simp]:
  "e_run (new_row rt rules schema p run ev prev ph h s) = r_id run"
  "e_org (new_row rt rules schema p run ev prev ph h s) = pr_org p"
  "e_project (new_row rt rules schema p run ev prev ph h s) = pr_project p"
  "e_env (new_row rt rules schema p run ev prev ph h s) = r_env run"
  "e_type (new_row rt rules schema p run ev prev ph h s) = i_type ev"
  "e_prev (new_row rt rules schema p run ev prev ph h s) = prev"
  "e_hash (new_row rt rules schema p run ev prev ph h s) = h"
  "e_idem (new_row rt rules schema p run ev prev ph h s) = i_idem ev"
  "e_payload (new_row rt rules schema p run ev prev ph h s) = redact_payload rt rules (i_payload ev)"
  "e_mode (new_row rt rules schema p run ev prev ph h s) = i_mode ev"
  "e_step_index (new_row rt rules schema p run ev prev ph h s) = i_step_index ev"
  "e_actor_type (new_row rt rules schema p run ev prev ph h s) = column_text rt (dict_get (actor_of run ev) ''type'')"
  "e_actor_id (new_row rt rules schema p run ev prev ph h s) = column_text rt (dict_get (actor_of run ev) ''id'')"
  by (simp_all add: new_row_def Let_def split: prod.split)

lemma new_row_id: "str_truthy (i_event_id ev) \<Longrightarrow> Some (e_id (new_row rt rules schema p run ev prev ph h s)) = i_event_id ev"
  by (cases "i_event_id ev") (auto simp: new_row_def read_event_id_def Let_def split: prod.split)

subsection \<open>Sessions\<close>

definition run_identity :: "agent_run \<Rightarrow> string \<times> string \<times> string \<times> string \<times> string \<times> string option" where
  "run_identity r = (r_id r, r_org r, r_project r, r_env r, r_agent r, r_version r)"

definition run_session :: "database \<Rightarrow> string \<Rightarrow> database \<Rightarrow> bool" where
  "run_session db0 rid db \<longleftrightarrow>
     db_ok db
     \<and> db_orgs db = db_orgs db0 \<and> db_projects db = db_projects db0 \<and> db_keys db = db_keys db0
     \<and> db_approvals db = db_approvals db0 \<and> db_exports db = db_exports db0
     \<and> map run_identity (db_runs db) = map run_identity (db_runs db0)
     \<and> map_option run_identity (get_run db rid) = map_option run_identity (get_run db0 rid)
     \<and> (\<forall>k. k \<noteq> rid \<longrightarrow> get_run db k = get_run db0 k)
     \<and> take (length (db_events db0)) (db_events db) = db_events db0
     \<and> (\<forall>e \<in> set (drop (length (db_events db0)) (db_events db)). e_run e = rid)"

lemma run_session_refl: "db_ok db \<Longrightarrow> run_session db rid db"
  by (simp add: run_session_def)

lemma run_session_new:
  assumes "run_session db0 rid db"
  obtains new where "db_events db = db_events db0 @ new" "\<forall>e \<in> set new. e_run e = rid"
  using assms append_take_drop_id [of "length (db_events db0)" "db_events db"]
  unfolding run_session_def by metis

lemma map_identity_update:
  assumes "\<And>r. run_identity (f r) = run_identity r"
  shows "map run_identity (db_runs (update_run k f db)) = map run_identity (db_runs db)"
  by (simp add: update_run_def assms)

lemma run_session_update:
  assumes "run_session db0 rid db" "\<And>r. run_identity (f r) = run_identity r"
  shows "run_session db0 rid (update_run rid f db)"
proof -
  have keep: "r_id (f r) = r_id r \<and> r_org (f r) = r_org r \<and> r_project (f r) = r_project r \<and> r_env (f r) = r_env r" for r
    using assms(2) [of r] by (simp add: run_identity_def)
  have "db_ok (update_run rid f db)"
    using assms(1) keep by (intro db_ok_update_run) (auto simp: run_session_def)
  moreover have "map run_identity (db_runs (update_run rid f db)) = map run_identity (db_runs db0)"
    using assms by (simp add: map_identity_update run_session_def)
  moreover have "map_option run_identity (get_run (update_run rid f db) rid) = map_option run_identity (get_run db0 rid)"
    using assms(1) keep by (simp add: get_run_update run_session_def option.map_comp comp_def assms(2))
  moreover have "k \<noteq> rid \<Longrightarrow> get_run (update_run rid f db) k = get_run db0 k" for k
    using assms(1) keep by (simp add: get_run_update run_session_def)
  ultimately show ?thesis using assms(1) by (simp add: run_session_def)
qed

lemma run_session_insert:
  assumes "run_session db0 rid db" "insert_event row db = Some db'" "e_run row = rid"
    and "r \<in> set (db_runs db)" "event_of_run row r"
  shows "run_session db0 rid db'"
proof -
  have ok: "db_ok db'" using assms db_ok_insert_event [of db row db' r] by (simp add: run_session_def)
  from assms(2) have db': "db' = db\<lparr>db_events := db_events db @ [row\<lparr>e_seq := next_seq db\<rparr>]\<rparr>"
    by (auto simp: insert_event_def split: if_splits)
  from assms(1) obtain new where new: "db_events db = db_events db0 @ new" "\<forall>e \<in> set new. e_run e = rid"
    by (rule run_session_new)
  show ?thesis
    using assms(1,3) ok new unfolding db' run_session_def by simp
qed

subsection \<open>The steps of a batch stay in the session\<close>

text \<open>\<open>authorize_run\<close> gives the run of the principal's own project, or one of two errors.\<close>

lemma authorize_run_Inr:
  "authorize_run db p rid = Inr run \<longleftrightarrow>
     get_run db rid = Some run \<and> r_org run = pr_org p \<and> r_project run = pr_project p"
  by (auto simp: authorize_run_def split: option.split)

lemma authorize_run_id: "authorize_run db p rid = Inr run \<Longrightarrow> r_id run = rid"
  by (auto simp: authorize_run_Inr dest: get_run_Some)

lemma status_after_identity [simp]: "run_identity (status_after t d r) = run_identity r"
  by (simp add: status_after_def set_status_def run_identity_def)

lemma status_after_chain [simp]:
  "r_last_hash (status_after t d r) = r_last_hash r" "r_count (status_after t d r) = r_count r"
  by (simp_all add: status_after_def set_status_def)

lemma session_run:
  assumes "run_session db0 rid db" "get_run db0 rid = Some run"
  shows "\<exists>r \<in> set (db_runs db). run_identity r = run_identity run"
  using assms by (auto simp: run_session_def dest: get_run_Some)

lemma session_insert_row:
  assumes "run_session db0 (r_id run) db" "get_run db0 (r_id run) = Some run"
    and "r_org run = pr_org p" "r_project run = pr_project p"
    and "insert_event (new_row rt rules schema p run ev prev ph h s) db = Some db'"
  shows "run_session db0 (r_id run) db'"
proof -
  obtain r where r: "r \<in> set (db_runs db)" "run_identity r = run_identity run"
    using session_run [OF assms(1,2)] by blast
  with assms(3,4) have "event_of_run (new_row rt rules schema p run ev prev ph h s) r"
    by (simp add: event_of_run_def run_identity_def)
  with r(1) show ?thesis
    by (intro run_session_insert [OF assms(1,5)]) auto
qed

text \<open>What an accepted event does: it is replayed or dropped, or one row is added.\<close>

definition adds_row :: "runtime \<Rightarrow> rule list \<Rightarrow> string \<Rightarrow> principal \<Rightarrow> agent_run \<Rightarrow> event_input \<Rightarrow> string option
    \<Rightarrow> string \<times> string \<Rightarrow> cstate \<Rightarrow> cstate \<Rightarrow> bool" where
  "adds_row rt rules schema p run ev prev eh s s' \<longleftrightarrow>
     (\<exists>ph h row db'. row = new_row rt rules schema p run ev prev ph h s
        \<and> payload_hash_of rt (redact_payload rt rules (i_payload ev)) (i_payload_hash ev) = Inr ph
        \<and> event_hash_of rt (new_envelope rt rules schema p run ev prev ph s) = Inr h
        \<and> insert_event row (st_db s) = Some db' \<and> eh = (e_id row, h)
        \<and> st_db s' = update_run (r_id run) (status_after (i_type ev) (e_ingested row)) db')"

lemma persist_event_cases:
  assumes "persist_event rt rules schema p run db0 ev prev s = (x, s')"
  shows "st_metrics s' = st_metrics s
    \<and> (st_db s' = st_db s \<or> st_db s' = db0 \<or> (\<exists>eh. x = Inr eh \<and> adds_row rt rules schema p run ev prev eh s s'))"
proof -
  consider (unknown) "i_type ev \<notin> set EVENT_TYPES" | (known) "i_type ev \<in> set EVENT_TYPES" by blast
  then show ?thesis
  proof cases
    case unknown
    with assms show ?thesis by (simp add: persist_event_def)
  next
    case known
    show ?thesis
    proof (cases "find_idempotent (st_db s) (i_idem ev)")
      case (Some existing)
      with known assms show ?thesis by (simp add: persist_event_def)
    next
      case None
      obtain y s1 where prep: "prepare_event rt rules schema p run ev prev s = (y, s1)" by force
      note frame = prepare_event_frame [OF prep]
      show ?thesis
      proof (cases y)
        case (Inl e)
        with prep known None assms frame show ?thesis by (simp add: persist_event_def)
      next
        case (Inr row)
        obtain ph h where row: "row = new_row rt rules schema p run ev prev ph h s"
          "payload_hash_of rt (redact_payload rt rules (i_payload ev)) (i_payload_hash ev) = Inr ph"
          "event_hash_of rt (new_envelope rt rules schema p run ev prev ph s) = Inr h"
          using prepare_event_Inr [of rt rules schema p run ev prev s row s1] prep Inr by blast
        from assms known None prep Inr have store: "store_event db0 row s1 = (x, s')"
          by (simp add: persist_event_def)
        show ?thesis
        proof (cases "insert_event row (st_db s)")
          case None
          with store frame show ?thesis by (auto simp: store_event_def split: option.splits)
        next
          case (Some db')
          with store frame have "x = Inr (e_id row, h)" "st_metrics s' = st_metrics s"
            "st_db s' = update_run (r_id run) (status_after (i_type ev) (e_ingested row)) db'"
            by (auto simp: store_event_def row(1))
          with Some row show ?thesis unfolding adds_row_def by blast
        qed
      qed
    qed
  qed
qed

lemma adds_row_session:
  assumes "adds_row rt rules schema p run ev prev eh s s'" "run_session db0 (r_id run) (st_db s)"
    and "get_run db0 (r_id run) = Some run" "r_org run = pr_org p" "r_project run = pr_project p"
  shows "run_session db0 (r_id run) (st_db s')"
  using assms session_insert_row [OF assms(2-5)]
  by (auto simp: adds_row_def intro!: run_session_update)

lemma persist_event_session:
  assumes "persist_event rt rules schema p run db0 ev prev s = (x, s')" "run_session db0 (r_id run) (st_db s)"
    and "db_ok db0" "get_run db0 (r_id run) = Some run" "r_org run = pr_org p" "r_project run = pr_project p"
  shows "run_session db0 (r_id run) (st_db s')"
  using persist_event_cases [OF assms(1)] assms(2-6) adds_row_session [of rt rules schema p run ev prev _ s s' db0]
  by (auto intro: run_session_refl)

lemma append_loop_session:
  assumes "append_loop rt rules schema p run db0 evs prev s = (x, s')" "run_session db0 (r_id run) (st_db s)"
    and "db_ok db0" "get_run db0 (r_id run) = Some run" "r_org run = pr_org p" "r_project run = pr_project p"
  shows "run_session db0 (r_id run) (st_db s')"
  using assms(1,2)
proof (induction evs arbitrary: prev s x s')
  case Nil
  then show ?case by simp
next
  case (Cons ev evs)
  obtain y s1 where pe: "persist_event rt rules schema p run db0 ev prev s = (y, s1)" by force
  note s1 = persist_event_session [OF pe Cons.prems(2) assms(3-6)]
  show ?case
  proof (cases y)
    case (Inl e)
    with pe Cons.prems(1) s1 show ?thesis by (auto split: if_splits)
  next
    case (Inr eh)
    obtain z s2 where al: "append_loop rt rules schema p run db0 evs (Some (snd eh)) s1 = (z, s2)" by force
    from Cons.IH [OF al s1] Inr pe al Cons.prems(1) show ?thesis
      by (auto split: sum.splits prod.splits)
  qed
qed

subsection \<open>Atomicity and isolation\<close>

lemma append_events_Inl: "append_events rt rules schema p rid evs s = (Inl e, s') \<Longrightarrow> st_db s' = st_db s"
  by (auto simp: append_events_def Let_def split: if_splits sum.splits prod.splits dest!: with_session_Inl)

lemma append_events_Inr:
  assumes "append_events rt rules schema p rid evs s = (Inr ids, s')" "evs \<noteq> []"
  obtains run prev' s1 where "authorize_run (st_db s) p rid = Inr run"
    and "append_loop rt rules schema p run (st_db s) evs (r_last_hash run) (tick s) = (Inr (ids, prev'), s1)"
    and "st_db s' = update_run rid (\<lambda>r. r\<lparr>r_last_hash := prev', r_count := r_count r + int (length ids)\<rparr>) (st_db s1)"
proof -
  from assms obtain s2 where "append_session rt rules schema p rid evs (tick s) = (Inr ids, s2)" "st_db s' = st_db s2"
    by (auto simp: append_events_def Let_def with_session_Inr split: sum.splits prod.splits)
  then show ?thesis
    using that by (auto simp: append_session_def split: sum.splits prod.splits)
qed

lemma append_events_session:
  assumes "append_events rt rules schema p rid evs s = (Inr ids, s')" "db_ok (st_db s)"
  shows "run_session (st_db s) rid (st_db s')"
proof (cases "evs = []")
  case True
  with assms show ?thesis by (simp add: append_events_def run_session_refl)
next
  case False
  obtain run prev' s1 where auth: "authorize_run (st_db s) p rid = Inr run"
    and loop: "append_loop rt rules schema p run (st_db s) evs (r_last_hash run) (tick s) = (Inr (ids, prev'), s1)"
    and s': "st_db s' = update_run rid (\<lambda>r. r\<lparr>r_last_hash := prev', r_count := r_count r + int (length ids)\<rparr>) (st_db s1)"
    by (rule append_events_Inr [OF assms(1) False])
  from authorize_run_id [OF auth] have rid: "r_id run = rid" .
  have "run_session (st_db s) (r_id run) (st_db s1)"
    using auth assms(2) rid by (intro append_loop_session [OF loop]) (auto simp: authorize_run_Inr run_session_refl)
  then show ?thesis
    unfolding s' rid by (rule run_session_update) (simp add: run_identity_def)
qed

end
