(* ===== verification/Chain_Laws.thy ===== *)
theory Chain_Laws
  imports Ingest_Laws
begin

section \<open>Batches and the chain of a run\<close>

text \<open>
  A run's chain is sound when its rows are linked from \<open>None\<close>, the run's \<open>last_event_hash\<close> is the
  hash of the last row and \<open>event_count\<close> the number of rows. \<open>append_events\<close> keeps this when
  each event of the batch became a row; a batch of new events does; and a replayed event does not.
\<close>

subsection \<open>A stored row hashes like the envelope it was made from\<close>

text \<open>
  Documented behaviour of the environment: \<open>datetime.now(timezone.utc)\<close> is in UTC, and a date in
  UTC comes back from its column as the same instant in UTC, with the offset or without.
\<close>

definition utc_runtime :: "runtime \<Rightarrow> bool" where
  "utc_runtime rt \<longleftrightarrow>
     (\<forall>n. dt_tz (rt_now rt n) = Some 0) \<and> (\<forall>d. dt_tz d = Some 0 \<longrightarrow> as_utc (rt_column rt d) = d)"

text \<open>
  An event whose columns hold all that is hashed: the actor is a type and an id, texts or absent, and nothing else,
  and the date, if it can be read, is in UTC.
\<close>

definition plain_actor :: "pydict option \<Rightarrow> bool" where
  "plain_actor a = (case a of None \<Rightarrow> True
     | Some d \<Rightarrow> d = [] \<or> map fst d \<in> set [[''type'', ''id''], [''id'', ''type'']] \<and> (\<forall>v \<in> snd ` set d. text_value v))"

definition utc_date :: "runtime \<Rightarrow> string option \<Rightarrow> bool" where
  "utc_date rt v = (case (if str_truthy v then rt_fromisoformat rt (replace_Z (the v)) else None) of
     None \<Rightarrow> True | Some d \<Rightarrow> dt_tz (as_utc d) = Some 0)"

definition clean_event :: "runtime \<Rightarrow> event_input \<Rightarrow> bool" where
  "clean_event rt ev \<longleftrightarrow> plain_actor (i_actor ev) \<and> utc_date rt (i_occurred ev)"

lemma column_back: "utc_runtime rt \<Longrightarrow> dt_tz d = Some 0 \<Longrightarrow> as_utc (rt_column rt d) = d"
  by (simp add: utc_runtime_def)

lemma clock_utc: "utc_runtime rt \<Longrightarrow> dt_tz (now_reading rt s) = Some 0"
  by (simp add: utc_runtime_def now_reading_def)

lemma occurred_utc:
  assumes "utc_runtime rt" "utc_date rt (i_occurred ev)"
  shows "dt_tz (fst (read_occurred rt ev s)) = Some 0"
  using assms clock_utc [OF assms(1)]
  by (auto simp: read_occurred_def parse_iso_def utc_date_def Let_def split: prod.split option.splits if_splits)

lemma two_items:
  assumes "map fst d = [k, k']"
  obtains v v' where "d = [(k, v), (k', v')]"
  using assms by (cases d; cases "tl d") (auto split: prod.splits)

lemma plain_actor_equiv:
  assumes "plain_actor (i_actor ev)"
  shows "json_equiv (JDict (actor_of run ev))
      (JDict [(''type'', dict_get (actor_of run ev) ''type''), (''id'', dict_get (actor_of run ev) ''id'')])"
    and "has_nan (JDict (actor_of run ev)) \<longleftrightarrow>
      has_nan (dict_get (actor_of run ev) ''type'') \<or> has_nan (dict_get (actor_of run ev) ''id'')"
    and "text_value (dict_get (actor_of run ev) ''type'')" "text_value (dict_get (actor_of run ev) ''id'')"
proof -
  have texts: "\<forall>v \<in> snd ` set (actor_of run ev). text_value v"
    using assms by (auto simp: plain_actor_def actor_of_def default_actor_def text_value_def split: option.splits)
  have "map fst (actor_of run ev) = [''type'', ''id''] \<or> map fst (actor_of run ev) = [''id'', ''type'']"
    using assms by (auto simp: plain_actor_def actor_of_def default_actor_def split: option.splits)
  then obtain t i where a: "actor_of run ev = [(''type'', t), (''id'', i)] \<or> actor_of run ev = [(''id'', i), (''type'', t)]"
    by (auto elim: two_items)
  then show "json_equiv (JDict (actor_of run ev))
      (JDict [(''type'', dict_get (actor_of run ev) ''type''), (''id'', dict_get (actor_of run ev) ''id'')])"
    by (auto simp: json_equiv_def)
  from a show "has_nan (JDict (actor_of run ev)) \<longleftrightarrow>
      has_nan (dict_get (actor_of run ev) ''type'') \<or> has_nan (dict_get (actor_of run ev) ''id'')"
    by auto
  from a texts show "text_value (dict_get (actor_of run ev) ''type'')" "text_value (dict_get (actor_of run ev) ''id'')" by auto
qed

lemma norm_items_envelope_cong:
  assumes "json_equiv ac ac'"
  shows "norm_items (envelope eid sv ty og pj en ag av ri si sx tr sp pa ac pm pl ph pr oc ing ik)
       = norm_items (envelope eid sv ty og pj en ag av ri si sx tr sp pa ac' pm pl ph pr oc ing ik)"
  using assms by (simp add: envelope_def json_equiv_def)

lemma event_hash_of_envelope:
  assumes "event_hash_of rt (envelope eid sv ty og pj en ag av ri si sx tr sp pa ac pm pl ph pr oc ing ik) = Inr h"
  shows "h = row_digest rt (enc (rt_float_repr rt) (JDict (envelope eid sv ty og pj en ag av ri si sx tr sp pa ac pm pl ph pr oc ing ik)))"
    and "\<not> has_nan (JDict (envelope eid sv ty og pj en ag av ri si sx tr sp pa ac pm pl ph pr oc ing ik))"
  using assms unfolding event_hash_of_def compute_event_hash_def envelope_no_hash
  by (auto simp: hash_json_def canonical_json_def row_digest_def split: if_splits)

lemma enc_cong: "json_equiv a b \<Longrightarrow> enc fr a = enc fr b"
  by (metis enc_norm json_equiv_def)

lemma new_row_good:
  assumes "utc_runtime rt" "clean_event rt ev"
    and "event_hash_of rt (new_envelope rt rules schema p run ev prev ph s) = Inr h"
  shows "row_good rt (run, (new_row rt rules schema p run ev prev ph h s)\<lparr>e_seq := n\<rparr>)"
proof -
  let ?row = "(new_row rt rules schema p run ev prev ph h s)\<lparr>e_seq := n\<rparr>"
  obtain d s1 where occ: "read_occurred rt ev s = (d, s1)" by force
  from assms(2) have "plain_actor (i_actor ev)" "utc_date rt (i_occurred ev)" by (auto simp: clean_event_def)
  note actor = plain_actor_equiv [OF this(1), of run]
  note columns = column_text_value [OF actor(3), of rt] column_text_value [OF actor(4), of rt]
  have date: "as_utc (rt_column rt d) = d"
    using occurred_utc [OF assms(1) \<open>utc_date rt (i_occurred ev)\<close>, of s] column_back [OF assms(1)] by (simp add: occ)
  have now: "as_utc (rt_column rt (now_reading rt s1)) = now_reading rt s1"
    by (rule column_back [OF assms(1) clock_utc [OF assms(1)]])
  have row: "norm_items (verify_envelope run ?row) = norm_items (new_envelope rt rules schema p run ev prev ph s)"
    unfolding verify_envelope_def new_envelope_def new_row_def occ utc_iso_Some
    using actor(1) by (simp add: Let_def columns date now norm_items_envelope_cong [OF json_equiv_sym])
  then have "enc (rt_float_repr rt) (JDict (verify_envelope run ?row))
      = enc (rt_float_repr rt) (JDict (new_envelope rt rules schema p run ev prev ph s))"
    by (intro enc_cong json_equiv_dictI)
  moreover have "\<not> row_nan ?row \<and> h = row_digest rt (enc (rt_float_repr rt) (JDict (new_envelope rt rules schema p run ev prev ph s)))"
    using event_hash_of_envelope [OF assms(3) [unfolded new_envelope_def occ Let_def prod.case]] actor(2)
    unfolding new_envelope_def occ row_nan_def new_row_def envelope_nan by (simp add: Let_def columns)
  ultimately have "\<not> row_nan ?row" "h = row_digest rt (row_text rt (run, ?row))"
    unfolding row_text_def fst_conv snd_conv by metis+
  then show ?thesis unfolding row_good_def by simp
qed

subsection \<open>A row that is added extends the chain\<close>

definition run_linked :: "runtime \<Rightarrow> agent_run \<Rightarrow> string option \<Rightarrow> database \<Rightarrow> bool" where
  "run_linked rt run prev db \<longleftrightarrow>
     row_linked rt run None (run_events db (r_id run)) \<and> prev = head_hash e_hash None (run_events db (r_id run))"

lemma row_linked_snoc:
  "row_linked rt run p (rows @ [row]) \<longleftrightarrow>
     row_linked rt run p rows \<and> e_prev row = head_hash e_hash p rows \<and> row_good rt (run, row)"
  unfolding row_linked_def by (cases rows rule: rev_cases) (simp_all add: linked_append)

lemma adds_row_events:
  assumes "adds_row rt rules schema p run ev prev eh s s'"
  obtains ph h where "db_events (st_db s') = db_events (st_db s)
      @ [(new_row rt rules schema p run ev prev ph h s)\<lparr>e_seq := next_seq (st_db s)\<rparr>]"
    and "event_hash_of rt (new_envelope rt rules schema p run ev prev ph s) = Inr h"
    and "eh = (e_id (new_row rt rules schema p run ev prev ph h s), h)"
  using assms by (auto simp: adds_row_def insert_event_def split: if_splits)

lemma adds_row_linked:
  assumes "adds_row rt rules schema p run ev prev eh s s'" "run_linked rt run prev (st_db s)"
    and "utc_runtime rt" "clean_event rt ev" "db_ok (st_db s)" "db_ok (st_db s')"
  shows "run_linked rt run (Some (snd eh)) (st_db s')"
    and "\<exists>row. run_events (st_db s') (r_id run) = run_events (st_db s) (r_id run) @ [row] \<and> e_id row = fst eh
           \<and> e_type row = i_type ev \<and> e_payload row = redact_payload rt rules (i_payload ev)"
proof -
  obtain ph h where ev: "db_events (st_db s') = db_events (st_db s)
      @ [(new_row rt rules schema p run ev prev ph h s)\<lparr>e_seq := next_seq (st_db s)\<rparr>]"
    and h: "event_hash_of rt (new_envelope rt rules schema p run ev prev ph s) = Inr h"
    and eh: "eh = (e_id (new_row rt rules schema p run ev prev ph h s), h)"
    by (rule adds_row_events [OF assms(1)])
  let ?row = "(new_row rt rules schema p run ev prev ph h s)\<lparr>e_seq := next_seq (st_db s)\<rparr>"
  have rows: "run_events (st_db s') (r_id run) = run_events (st_db s) (r_id run) @ [?row]"
    using ev assms(5,6) by (simp add: run_events_filter)
  then show "\<exists>row. run_events (st_db s') (r_id run) = run_events (st_db s) (r_id run) @ [row] \<and> e_id row = fst eh
           \<and> e_type row = i_type ev \<and> e_payload row = redact_payload rt rules (i_payload ev)"
    by (simp add: eh)
  show "run_linked rt run (Some (snd eh)) (st_db s')"
    using assms(2) new_row_good [OF assms(3,4) h, of "next_seq (st_db s)"]
    by (simp add: run_linked_def rows row_linked_snoc eh)
qed

subsection \<open>Batches in which every event becomes a row\<close>

definition row_for :: "runtime \<Rightarrow> rule list \<Rightarrow> event_input \<Rightarrow> string \<Rightarrow> audit_event \<Rightarrow> bool" where
  "row_for rt rules ev eid row \<longleftrightarrow>
     e_id row = eid \<and> e_type row = i_type ev \<and> e_payload row = redact_payload rt rules (i_payload ev)"

definition rows_for :: "runtime \<Rightarrow> rule list \<Rightarrow> event_input list \<Rightarrow> string list \<Rightarrow> audit_event list \<Rightarrow> bool" where
  "rows_for rt rules evs ids rows \<longleftrightarrow>
     length rows = length evs \<and> length ids = length evs
     \<and> list_all2 (\<lambda>(ev, eid) row. row_for rt rules ev eid row) (zip evs ids) rows"

lemma rows_for_Nil [simp]: "rows_for rt rules [] [] []"
  by (simp add: rows_for_def)

lemma rows_for_Cons:
  "row_for rt rules ev eid row \<Longrightarrow> rows_for rt rules evs ids rows
    \<Longrightarrow> rows_for rt rules (ev # evs) (eid # ids) (row # rows)"
  by (simp add: rows_for_def)

text \<open>No event adds more than one row, whichever way it is handled.\<close>

lemma persist_event_length:
  assumes "persist_event rt rules schema p run db0 ev prev s = (x, s')" "run_session db0 (r_id run) (st_db s)"
  shows "length (db_events (st_db s')) \<le> length (db_events (st_db s))
    \<or> (\<exists>eh. x = Inr eh \<and> adds_row rt rules schema p run ev prev eh s s')"
proof -
  obtain new where "db_events (st_db s) = db_events db0 @ new"
    using run_session_new [OF assms(2)] by blast
  then show ?thesis using persist_event_cases [OF assms(1)] by auto
qed

lemma adds_row_length:
  "adds_row rt rules schema p run ev prev eh s s' \<Longrightarrow> length (db_events (st_db s')) = Suc (length (db_events (st_db s)))"
  by (auto elim: adds_row_events)

lemma append_loop_length:
  assumes "append_loop rt rules schema p run db0 evs prev s = (Inr (ids, prev'), s')"
    and "run_session db0 (r_id run) (st_db s)" "db_ok db0" "get_run db0 (r_id run) = Some run"
    and "r_org run = pr_org p" "r_project run = pr_project p"
  shows "length (db_events (st_db s')) \<le> length (db_events (st_db s)) + length evs \<and> length ids = length evs"
  using assms(1,2)
proof (induction evs arbitrary: prev s ids)
  case Nil
  then show ?case by simp
next
  case (Cons ev evs)
  from Cons.prems(1) obtain eh s1 ids' where pe: "persist_event rt rules schema p run db0 ev prev s = (Inr eh, s1)"
    and al: "append_loop rt rules schema p run db0 evs (Some (snd eh)) s1 = (Inr (ids', prev'), s')"
    and ids: "ids = fst eh # ids'"
    by (auto split: sum.splits prod.splits)
  have "run_session db0 (r_id run) (st_db s1)"
    by (rule persist_event_session [OF pe Cons.prems(2) assms(3-6)])
  note ih = Cons.IH [OF al this]
  have "length (db_events (st_db s1)) \<le> Suc (length (db_events (st_db s)))"
    using persist_event_length [OF pe Cons.prems(2)] adds_row_length by fastforce
  with ih ids show ?case by simp
qed

lemma append_loop_linked:
  assumes "append_loop rt rules schema p run db0 evs prev s = (Inr (ids, prev'), s')"
    and "run_session db0 (r_id run) (st_db s)" "run_linked rt run prev (st_db s)"
    and "length (db_events (st_db s')) = length (db_events (st_db s)) + length evs"
    and "utc_runtime rt" "\<forall>ev \<in> set evs. clean_event rt ev"
    and "db_ok db0" "get_run db0 (r_id run) = Some run" "r_org run = pr_org p" "r_project run = pr_project p"
  shows "run_linked rt run prev' (st_db s') \<and> (\<exists>rows. run_events (st_db s') (r_id run)
           = run_events (st_db s) (r_id run) @ rows \<and> rows_for rt rules evs ids rows)"
  using assms(1-4,6)
proof (induction evs arbitrary: prev s ids)
  case Nil
  then show ?case by simp
next
  case (Cons ev evs)
  from Cons.prems(1) obtain eh s1 ids' where pe: "persist_event rt rules schema p run db0 ev prev s = (Inr eh, s1)"
    and al: "append_loop rt rules schema p run db0 evs (Some (snd eh)) s1 = (Inr (ids', prev'), s')"
    and ids: "ids = fst eh # ids'"
    by (auto split: sum.splits prod.splits)
  have ses: "run_session db0 (r_id run) (st_db s1)"
    by (rule persist_event_session [OF pe Cons.prems(2) assms(7-10)])
  note len = append_loop_length [OF al ses assms(7-10)]
  have add: "adds_row rt rules schema p run ev prev eh s s1"
    using persist_event_length [OF pe Cons.prems(2)] len Cons.prems(4) by auto
  have ok: "db_ok (st_db s)" "db_ok (st_db s1)"
    using Cons.prems(2) ses by (simp_all add: run_session_def)
  have clean: "clean_event rt ev" "\<forall>ev \<in> set evs. clean_event rt ev" using Cons.prems(5) by simp_all
  note one = adds_row_linked [OF add Cons.prems(3) assms(5) clean(1) ok]
  from one(2) obtain row where row: "run_events (st_db s1) (r_id run) = run_events (st_db s) (r_id run) @ [row]"
    "row_for rt rules ev (fst eh) row" by (auto simp: row_for_def)
  have "length (db_events (st_db s')) = length (db_events (st_db s1)) + length evs"
    using Cons.prems(4) adds_row_length [OF add] by simp
  from Cons.IH [OF al ses one(1) this clean(2)] row ids show ?case
    by (auto intro: rows_for_Cons)
qed

text \<open>The loop leaves the counter and the head of the run to the end of the session.\<close>

definition run_counter :: "database \<Rightarrow> string \<Rightarrow> (int \<times> string option) option" where
  "run_counter db rid = map_option (\<lambda>r. (r_count r, r_last_hash r)) (get_run db rid)"

lemma adds_row_counter:
  "adds_row rt rules schema p run ev prev eh s s' \<Longrightarrow> run_counter (st_db s') (r_id run) = run_counter (st_db s) (r_id run)"
  by (auto simp: adds_row_def run_counter_def get_run_update insert_event_def status_after_def set_status_def
      option.map_comp comp_def split: if_splits intro!: option.map_cong0)

lemma append_loop_counter:
  assumes "append_loop rt rules schema p run db0 evs prev s = (Inr (ids, prev'), s')"
    and "run_counter (st_db s) (r_id run) = run_counter db0 (r_id run)"
  shows "run_counter (st_db s') (r_id run) = run_counter db0 (r_id run)"
  using assms
proof (induction evs arbitrary: prev s ids)
  case Nil
  then show ?case by simp
next
  case (Cons ev evs)
  from Cons.prems(1) obtain eh s1 ids' where pe: "persist_event rt rules schema p run db0 ev prev s = (Inr eh, s1)"
    and al: "append_loop rt rules schema p run db0 evs (Some (snd eh)) s1 = (Inr (ids', prev'), s')"
    by (auto split: sum.splits prod.splits)
  have "run_counter (st_db s1) (r_id run) = run_counter db0 (r_id run)"
    using persist_event_cases [OF pe] Cons.prems(2) adds_row_counter by fastforce
  with al show ?case by (rule Cons.IH)
qed

end
