(* ===== verification/Batch_Laws.thy ===== *)
theory Batch_Laws
  imports Chain_Laws
begin

section \<open>Batches: chain invariant, fresh events, replays\<close>

text \<open>
  The laws of \<open>append_events\<close> over the chain of the run: the invariant is kept when every event
  becomes a row; a batch of new events is recorded whole and in order; and a replay of an event that
  is not the last one rewinds the head of the chain, so that the next event breaks it.
\<close>

definition chain_sound :: "runtime \<Rightarrow> database \<Rightarrow> string \<Rightarrow> bool" where
  "chain_sound rt db rid =
    (case get_run db rid of
       None \<Rightarrow> False
     | Some run \<Rightarrow> row_linked rt run None (run_events db rid)
         \<and> r_last_hash run = head_hash e_hash None (run_events db rid)
         \<and> r_count run = int (length (run_events db rid)))"

lemma verify_envelope_identity:
  "run_identity r = run_identity r' \<Longrightarrow> verify_envelope r e = verify_envelope r' e"
  by (simp add: verify_envelope_def run_identity_def)

lemma row_good_identity: "run_identity r = run_identity r' \<Longrightarrow> row_good rt (r, e) = row_good rt (r', e)"
  using verify_envelope_identity [of r r' e] by (simp add: row_good_def row_text_def)

lemma row_linked_Nil [simp]: "row_linked rt run p []"
  by (simp add: row_linked_def)

lemma row_linked_identity:
  "run_identity r = run_identity r' \<Longrightarrow> row_linked rt r p rows = row_linked rt r' p rows"
  by (induction rows arbitrary: p) (simp_all add: row_linked_def row_good_identity [of r r'])

lemma row_linked_append:
  "row_linked rt run p (xs @ ys) \<longleftrightarrow> row_linked rt run p xs \<and> row_linked rt run (head_hash e_hash p xs) ys"
  unfolding row_linked_def map_append linked_append by (cases xs rule: rev_cases) simp_all

subsection \<open>The invariant of the chain\<close>

lemma append_events_chain_sound:
  assumes "append_events rt rules schema p rid evs s = (Inr ids, s')" "db_ok (st_db s)"
    and "chain_sound rt (st_db s) rid" "utc_runtime rt" "\<forall>ev \<in> set evs. clean_event rt ev"
    and "length (db_events (st_db s')) = length (db_events (st_db s)) + length evs"
  shows "chain_sound rt (st_db s') rid
    \<and> (\<exists>rows. run_events (st_db s') rid = run_events (st_db s) rid @ rows \<and> rows_for rt rules evs ids rows)"
proof (cases "evs = []")
  case True
  with assms show ?thesis by (simp add: append_events_def)
next
  case False
  obtain run prev' s1 where auth: "authorize_run (st_db s) p rid = Inr run"
    and loop: "append_loop rt rules schema p run (st_db s) evs (r_last_hash run) (tick s) = (Inr (ids, prev'), s1)"
    and s': "st_db s' = update_run rid (\<lambda>r. r\<lparr>r_last_hash := prev', r_count := r_count r + int (length ids)\<rparr>) (st_db s1)"
    by (rule append_events_Inr [OF assms(1) False])
  from authorize_run_id [OF auth] have rid: "r_id run = rid" .
  from auth have run: "get_run (st_db s) (r_id run) = Some run" "r_org run = pr_org p" "r_project run = pr_project p"
    by (auto simp: authorize_run_Inr rid)
  have ses0: "run_session (st_db s) (r_id run) (st_db (tick s))"
    using assms(2) by (simp add: run_session_refl)
  have linked0: "run_linked rt run (r_last_hash run) (st_db (tick s))"
    using assms(3) run(1) by (simp add: chain_sound_def run_linked_def rid)
  have len: "length (db_events (st_db s1)) = length (db_events (st_db (tick s))) + length evs"
    using assms(6) by (simp add: s')
  have ses: "run_session (st_db s) (r_id run) (st_db s1)"
    by (rule append_loop_session [OF loop ses0 assms(2) run])
  from append_loop_linked [OF loop ses0 linked0 len assms(4,5,2) run]
  obtain rows where linked: "run_linked rt run prev' (st_db s1)"
    and rows: "run_events (st_db s1) rid = run_events (st_db s) rid @ rows" "rows_for rt rules evs ids rows"
    unfolding rid by auto
  from ses run(1) obtain run1 where run1: "get_run (st_db s1) rid = Some run1" "run_identity run1 = run_identity run"
    unfolding rid run_session_def by auto
  have count: "r_count run1 = r_count run"
    using append_loop_counter [OF loop] run1(1) run(1) by (simp add: run_counter_def rid)
  let ?run' = "run1\<lparr>r_last_hash := prev', r_count := r_count run1 + int (length ids)\<rparr>"
  have "get_run (st_db s') rid = Some ?run'"
    unfolding s' by (simp add: get_run_update run1)
  moreover have "row_linked rt ?run' None (run_events (st_db s) rid @ rows)"
    using linked run1(2) row_linked_identity [of ?run' run rt None "run_events (st_db s) rid @ rows"]
    by (simp add: run_linked_def rows(1) rid run_identity_def)
  ultimately show ?thesis
    using linked rows assms(3) run(1) count
    by (simp add: chain_sound_def run_linked_def rid s' rows_for_def)
qed

subsection \<open>Batches of new events\<close>

text \<open>An event the store has not seen, which can be hashed and whose values fit their columns.\<close>

definition no_nan :: "runtime \<Rightarrow> rule list \<Rightarrow> event_input \<Rightarrow> bool" where
  "no_nan rt rules ev \<longleftrightarrow> \<not> has_nan (redact_payload rt rules (i_payload ev))
     \<and> (case i_actor ev of None \<Rightarrow> True | Some d \<Rightarrow> \<not> has_nan (JDict d))"

definition fresh_event :: "runtime \<Rightarrow> rule list \<Rightarrow> database \<Rightarrow> event_input \<Rightarrow> bool" where
  "fresh_event rt rules db ev \<longleftrightarrow>
     i_type ev \<in> set EVENT_TYPES \<and> str_truthy (i_event_id ev) \<and> no_nan rt rules ev \<and> fits_columns ev
     \<and> i_event_id ev \<notin> set (map (\<lambda>e. Some (e_id e)) (db_events db))
     \<and> (i_idem ev \<noteq> None \<longrightarrow> i_idem ev \<notin> set (map e_idem (db_events db)))"

definition fresh_batch :: "runtime \<Rightarrow> rule list \<Rightarrow> database \<Rightarrow> event_input list \<Rightarrow> bool" where
  "fresh_batch rt rules db evs \<longleftrightarrow>
     (\<forall>ev \<in> set evs. fresh_event rt rules db ev)
     \<and> distinct (map i_event_id evs) \<and> distinct (filter (\<lambda>k. k \<noteq> None) (map i_idem evs))"

lemma prepare_event_fresh:
  assumes "fresh_event rt rules db ev"
  shows "\<exists>ph h s'. prepare_event rt rules schema p run ev prev s = (Inr (new_row rt rules schema p run ev prev ph h s), s')
    \<and> event_hash_of rt (new_envelope rt rules schema p run ev prev ph s) = Inr h"
proof -
  have pl: "\<not> has_nan (redact_payload rt rules (i_payload ev))" and ac: "\<not> has_nan (JDict (actor_of run ev))"
    using assms by (auto simp: fresh_event_def no_nan_def actor_of_def default_actor_def split: option.splits)
  obtain ph where ph: "payload_hash_of rt (redact_payload rt rules (i_payload ev)) (i_payload_hash ev) = Inr ph"
    using pl by (cases "str_truthy (i_payload_hash ev)"; cases "redact_payload rt rules (i_payload ev) = JNull")
      (simp_all add: payload_hash_of_def compute_payload_hash_def hash_json_def canonical_json_def)
  obtain t u where bind: "bind_columns rt (actor_of run ev) (i_step_index ev) = Inr (t, u)"
    using bind_columns_fits assms unfolding fresh_event_def by blast
  obtain d s1 where occ: "read_occurred rt ev s = (d, s1)" by force
  obtain i s2 where idv: "read_event_id rt ev (tick s1) = (i, s2)" by force
  have "\<not> has_nan (JDict (new_envelope rt rules schema p run ev prev ph s))"
    unfolding new_envelope_def occ Let_def prod.case envelope_nan using pl ac by simp
  moreover have "filter (\<lambda>(k, v). k \<noteq> ''event_hash'') (new_envelope rt rules schema p run ev prev ph s)
      = new_envelope rt rules schema p run ev prev ph s"
    unfolding new_envelope_def occ Let_def prod.case by (rule envelope_no_hash)
  ultimately obtain h where h: "event_hash_of rt (new_envelope rt rules schema p run ev prev ph s) = Inr h"
    by (auto simp: event_hash_of_def compute_event_hash_def hash_json_def canonical_json_def)
  then show ?thesis
    using ph bind by (auto simp: prepare_event_def new_envelope_def new_row_def Let_def occ idv dest: bind_columns_Inr)
qed

lemma find_idempotent_fresh: "fresh_event rt rules db ev \<Longrightarrow> find_idempotent db (i_idem ev) = None"
  by (cases "i_idem ev") (force simp: fresh_event_def find_idempotent_def find_None_iff)+

lemma insert_event_fresh:
  assumes "fresh_event rt rules db ev" "e_id row = the (i_event_id ev)" "e_idem row = i_idem ev"
  shows "insert_event row db = Some (db\<lparr>db_events := db_events db @ [row\<lparr>e_seq := next_seq db\<rparr>]\<rparr>)"
proof -
  have "i_event_id ev = Some (e_id row)"
    using assms(1,2) by (cases "i_event_id ev") (auto simp: fresh_event_def)
  then show ?thesis
    using assms(1,3) by (force simp: insert_event_def fresh_event_def idem_keys_iff split: option.splits)
qed

text \<open>What a row keeps of the event it was made of.\<close>

definition row_keeps :: "runtime \<Rightarrow> rule list \<Rightarrow> string \<Rightarrow> event_input \<Rightarrow> audit_event \<Rightarrow> bool" where
  "row_keeps rt rules rid ev row \<longleftrightarrow>
     e_run row = rid \<and> i_event_id ev = Some (e_id row) \<and> e_idem row = i_idem ev \<and> e_type row = i_type ev
     \<and> e_step_index row = i_step_index ev \<and> e_mode row = i_mode ev \<and> e_payload row = redact_payload rt rules (i_payload ev)"

lemma persist_event_fresh:
  assumes "fresh_event rt rules (st_db s) ev"
  shows "\<exists>h s' row. persist_event rt rules schema p run db0 ev prev s = (Inr (the (i_event_id ev), h), s')
    \<and> db_events (st_db s') = db_events (st_db s) @ [row] \<and> row_keeps rt rules (r_id run) ev row"
proof -
  obtain ph h s1 where prep: "prepare_event rt rules schema p run ev prev s = (Inr (new_row rt rules schema p run ev prev ph h s), s1)"
    using prepare_event_fresh [OF assms] by blast
  let ?row = "new_row rt rules schema p run ev prev ph h s"
  have some: "i_event_id ev = Some (e_id ?row)"
    using assms new_row_id [of ev] unfolding fresh_event_def by metis
  have known: "i_type ev \<in> set EVENT_TYPES" using assms by (simp add: fresh_event_def)
  have frame: "st_db s1 = st_db s" using prepare_event_frame [OF prep] by simp
  show ?thesis
    using known find_idempotent_fresh [OF assms] insert_event_fresh [OF assms, of ?row]
    by (simp add: persist_event_def prep store_event_def frame row_keeps_def some)
qed

lemma fresh_batch_step:
  assumes "fresh_batch rt rules db (ev # evs)" "db_events db' = db_events db @ [row]"
    and "row_keeps rt rules rid ev row"
  shows "fresh_batch rt rules db' evs"
proof -
  have "Some (e_id row) = i_event_id ev" "e_idem row = i_idem ev"
    using assms(3) by (simp_all add: row_keeps_def)
  then show ?thesis
    using assms(1,2) by (auto simp: fresh_batch_def fresh_event_def image_iff split: if_splits)
qed

lemma append_loop_fresh:
  assumes "fresh_batch rt rules (st_db s) evs"
  shows "\<exists>prev' s' rows. append_loop rt rules schema p run db0 evs prev s = (Inr (map (the \<circ> i_event_id) evs, prev'), s')
    \<and> db_events (st_db s') = db_events (st_db s) @ rows \<and> list_all2 (row_keeps rt rules (r_id run)) evs rows"
  using assms
proof (induction evs arbitrary: prev s)
  case Nil
  then show ?case by simp
next
  case (Cons ev evs)
  then have "fresh_event rt rules (st_db s) ev" by (simp add: fresh_batch_def)
  from persist_event_fresh [OF this] obtain h s1 row
    where pe: "persist_event rt rules schema p run db0 ev prev s = (Inr (the (i_event_id ev), h), s1)"
    and row: "db_events (st_db s1) = db_events (st_db s) @ [row]" "row_keeps rt rules (r_id run) ev row"
    by blast
  from Cons.IH [OF fresh_batch_step [OF Cons.prems row], of "Some h"] obtain prev' s' rows where
    "append_loop rt rules schema p run db0 evs (Some h) s1 = (Inr (map (the \<circ> i_event_id) evs, prev'), s')"
    "db_events (st_db s') = db_events (st_db s1) @ rows" "list_all2 (row_keeps rt rules (r_id run)) evs rows" by blast
  with pe row show ?case by (intro exI [of _ prev'] exI [of _ s'] exI [of _ "row # rows"]) simp
qed

lemma append_session_unfold:
  assumes "authorize_run (st_db s) p rid = Inr run"
    and "append_loop rt rules schema p run (st_db s) evs (r_last_hash run) s = (Inr (ids, prev'), s1)"
  shows "append_session rt rules schema p rid evs s = (Inr ids, s1\<lparr>st_db := update_run rid
      (\<lambda>r. r\<lparr>r_last_hash := prev', r_count := r_count r + int (length ids)\<rparr>) (st_db s1)\<rparr>)"
  using assms by (simp add: append_session_def)

lemma append_events_unfold:
  assumes "authorize_run (st_db s) p rid = Inr run" "evs \<noteq> []"
    and "append_loop rt rules schema p run (st_db s) evs (r_last_hash run) (tick s) = (Inr (ids, prev'), s1)"
  shows "\<exists>s'. append_events rt rules schema p rid evs s = (Inr ids, s')
    \<and> st_db s' = update_run rid (\<lambda>r. r\<lparr>r_last_hash := prev', r_count := r_count r + int (length ids)\<rparr>) (st_db s1)"
proof -
  have "append_session rt rules schema p rid evs (tick s) = (Inr ids, s1\<lparr>st_db := update_run rid
      (\<lambda>r. r\<lparr>r_last_hash := prev', r_count := r_count r + int (length ids)\<rparr>) (st_db s1)\<rparr>)"
    using assms by (intro append_session_unfold) simp_all
  then show ?thesis
    using assms(2) by (simp add: append_events_def with_session_def Let_def)
qed

lemma append_events_fresh_rows:
  assumes "authorize_run (st_db s) p rid = Inr run" "fresh_batch rt rules (st_db s) evs"
  shows "\<exists>s' rows. append_events rt rules schema p rid evs s = (Inr (map (the \<circ> i_event_id) evs), s')
    \<and> db_events (st_db s') = db_events (st_db s) @ rows \<and> list_all2 (row_keeps rt rules rid) evs rows"
proof (cases "evs = []")
  case True
  then show ?thesis by (simp add: append_events_def)
next
  case False
  have "fresh_batch rt rules (st_db (tick s)) evs" using assms(2) by simp
  from append_loop_fresh [OF this, of schema p run "st_db s" "r_last_hash run"] obtain prev' s1 rows
    where loop: "append_loop rt rules schema p run (st_db s) evs (r_last_hash run) (tick s)
        = (Inr (map (the \<circ> i_event_id) evs, prev'), s1)"
    and rows: "db_events (st_db s1) = db_events (st_db s) @ rows" "list_all2 (row_keeps rt rules (r_id run)) evs rows" by auto
  from append_events_unfold [OF assms(1) False loop] rows authorize_run_id [OF assms(1)] show ?thesis by auto
qed

lemma append_events_all_fresh:
  assumes "authorize_run (st_db s) p rid = Inr run" "fresh_batch rt rules (st_db s) evs"
  shows "\<exists>s'. append_events rt rules schema p rid evs s = (Inr (map (the \<circ> i_event_id) evs), s')
    \<and> length (db_events (st_db s')) = length (db_events (st_db s)) + length evs"
  using append_events_fresh_rows [OF assms, of schema] by (auto dest: list_all2_lengthD)

subsection \<open>Batches with an unknown type\<close>

lemma persist_event_unknown:
  "i_type ev \<notin> set EVENT_TYPES \<Longrightarrow>
     persist_event rt rules schema p run db0 ev prev s = (Inl (IngestError (''unknown event_type: '' @ i_type ev) 422), s)"
  by (simp add: persist_event_def)

lemma append_loop_unknown:
  assumes "append_loop rt rules schema p run db0 pre prev s = (Inr x, s0)" "i_type ev \<notin> set EVENT_TYPES"
  shows "\<exists>s'. append_loop rt rules schema p run db0 (pre @ ev # post) prev s
      = (Inl (IngestError (''unknown event_type: '' @ i_type ev) 422), s')
    \<and> st_metrics s' = inc ''controldb.events.failed'' 1 (st_metrics s)"
  using assms(1)
proof (induction pre arbitrary: prev s x)
  case Nil
  then show ?case by (simp add: persist_event_unknown [OF assms(2)])
next
  case (Cons e pre)
  obtain y s1 where pe: "persist_event rt rules schema p run db0 e prev s = (y, s1)" by force
  with Cons.prems obtain eid h where y: "y = Inr (eid, h)" by (cases y) auto
  with Cons.prems pe obtain x' where "append_loop rt rules schema p run db0 pre (Some h) s1 = (Inr x', s0)"
    by (auto split: prod.splits sum.splits)
  moreover have "st_metrics s1 = st_metrics s" using persist_event_cases [OF pe] by simp
  ultimately show ?case using Cons.IH pe y by fastforce
qed

lemma append_events_unknown:
  assumes "authorize_run (st_db s) p rid = Inr run" "append_events rt rules schema p rid pre s = (Inr ids, s0)"
    and "i_type ev \<notin> set EVENT_TYPES"
  shows "\<exists>s'. append_events rt rules schema p rid (pre @ ev # post) s
      = (Inl (IngestError (''unknown event_type: '' @ i_type ev) 422), s')
    \<and> st_db s' = st_db s \<and> st_metrics s' = inc ''controldb.events.failed'' 1 (st_metrics s)"
proof -
  obtain x s1 where "append_loop rt rules schema p run (st_db s) pre (r_last_hash run) (tick s) = (Inr x, s1)"
  proof (cases "pre = []")
    case True
    then show thesis using that by simp
  next
    case False
    then show thesis
      using assms(1,2) that
      by (auto simp: append_events_def append_session_def with_session_def Let_def split: prod.splits sum.splits)
  qed
  from append_loop_unknown [OF this assms(3), of post] obtain s2
    where "append_loop rt rules schema p run (st_db s) (pre @ ev # post) (r_last_hash run) (tick s)
        = (Inl (IngestError (''unknown event_type: '' @ i_type ev) 422), s2)"
      "st_metrics s2 = inc ''controldb.events.failed'' 1 (st_metrics s)" by auto
  then show ?thesis
    using assms(1) by (simp add: append_events_def append_session_def with_session_def Let_def)
qed

end
