(* ===== verification/Verify_Laws.thy ===== *)
theory Verify_Laws
  imports Batch_Laws
begin

section \<open>What verification tells\<close>

text \<open>
  \<open>verify\<close> accepts exactly the linked chains and names the first row that breaks one. Two accepted
  histories with the same last hash are the same history, or exhibit a collision. A history cut
  at the end is accepted, for the run's own record of its head is not consulted. And a replayed
  event makes a run that no one tampered with fail verification at its next event.
\<close>

lemma verify_cases:
  assumes "authorize_run db p rid = Inr run"
  shows "verify rt p rid db = (case verify_rows rt run None (run_events db rid) of
      Inl e \<Rightarrow> Inl e
    | Inr b \<Rightarrow> Inr \<lparr>v_run = rid, v_valid = (b = None), v_count = length (run_events db rid), v_broken = b\<rparr>)"
  using assms by (simp add: verify_def)

lemma verify_valid_iff:
  assumes "authorize_run db p rid = Inr run"
  shows "(\<exists>v. verify rt p rid db = Inr v \<and> v_valid v) \<longleftrightarrow> row_linked rt run None (run_events db rid)"
  using assms verify_rows_linked [of rt run None "run_events db rid"]
  by (auto simp: verify_def split: sum.splits)

lemma verify_authorized: "verify rt p rid db = Inr v \<Longrightarrow> \<exists>run. authorize_run db p rid = Inr run"
  by (auto simp: verify_def split: sum.splits)

lemma verify_rows_broken:
  assumes "verify_rows rt run prev rows = Inr (Some i)"
  shows "\<exists>pre row post. rows = pre @ row # post \<and> e_id row = i \<and> row_linked rt run prev pre
           \<and> \<not> row_linked rt run prev (pre @ [row])"
  using assms
proof (induction rows arbitrary: prev)
  case Nil
  then show ?case by simp
next
  case (Cons row rows)
  show ?case
  proof (cases "e_prev row = prev \<and> row_good rt (run, row)")
    case True
    with Cons.prems have "verify_rows rt run (Some (e_hash row)) rows = Inr (Some i)"
      by (simp add: event_hash_of_row row_good_def)
    from Cons.IH [OF this] obtain pre r post where *: "rows = pre @ r # post" "e_id r = i"
      "row_linked rt run (Some (e_hash row)) pre" "\<not> row_linked rt run (Some (e_hash row)) (pre @ [r])" by blast
    with True have "row # rows = (row # pre) @ r # post" "row_linked rt run prev (row # pre)"
      "\<not> row_linked rt run prev ((row # pre) @ [r])"
      by (simp_all add: row_linked_def)
    with * show ?thesis by blast
  next
    case False
    have "e_id row = i"
      using Cons.prems False by (auto simp: event_hash_of_row row_good_def split: if_splits)
    with False have "row # rows = [] @ row # rows \<and> e_id row = i \<and> row_linked rt run prev []
        \<and> \<not> row_linked rt run prev ([] @ [row])"
      by (auto simp: row_linked_def)
    then show ?thesis by blast
  qed
qed

lemma verify_rows_break:
  assumes "row_linked rt run prev pre" "e_prev row \<noteq> head_hash e_hash prev pre"
  shows "verify_rows rt run prev (pre @ row # post) = Inr (Some (e_id row))"
  using assms
proof (induction pre arbitrary: prev)
  case Nil
  then show ?case by simp
next
  case (Cons r pre)
  then show ?case
    by (auto simp: row_linked_def head_hash_Cons event_hash_of_row row_good_def)
qed

subsection \<open>Tamper evidence\<close>

lemma linked_histories_agree:
  assumes "float_repr_ok (rt_float_repr rt)" "row_linked rt run None rows" "row_linked rt run' None rows'"
    and "head_hash e_hash None rows = head_hash e_hash None rows'"
    and "\<not> collides (row_text rt) (row_digest rt) (map (Pair run) rows) (map (Pair run') rows')"
  shows "map (\<lambda>e. row_content (run, e)) rows = map (\<lambda>e. row_content (run', e)) rows'"
proof -
  have head: "head_hash (\<lambda>x. e_hash (snd x)) None (map (Pair r) es) = head_hash e_hash None es" for r es
    by (simp add: head_hash_def last_map)
  have "map row_content (map (Pair run) rows) = map row_content (map (Pair run') rows')"
    using assms by (intro coll_chain.chain_determined [where rt = rt]) (simp_all add: row_linked_sound head)
  then show ?thesis by (simp add: comp_def)
qed

text \<open>What equal contents mean for the columns.\<close>

lemma row_content_columns:
  assumes "row_content (run, e) = row_content (run', e')"
  shows "e_id e = e_id e'" "e_type e = e_type e'" "e_org e = e_org e'" "e_project e = e_project e'"
    "e_run e = e_run e'" "e_payload_hash e = e_payload_hash e'" "e_idem e = e_idem e'"
    "json_equiv (e_payload e) (e_payload e')"
  using row_content_lookup [OF assms, of "''event_id''"] row_content_lookup [OF assms, of "''event_type''"]
    row_content_lookup [OF assms, of "''org_id''"] row_content_lookup [OF assms, of "''project_id''"]
    row_content_lookup [OF assms, of "''run_id''"] row_content_lookup [OF assms, of "''payload_hash''"]
    row_content_lookup [OF assms, of "''idempotency_key''"] row_content_lookup [OF assms, of "''payload''"]
  by (simp_all add: verify_envelope_def envelope_def json_equiv_def)

subsection \<open>A replay rewinds the head\<close>

lemma append_replay:
  assumes "authorize_run (st_db s) p rid = Inr run" "i_type ev \<in> set EVENT_TYPES"
    and "find_idempotent (st_db s) (i_idem ev) = Some old"
  shows "\<exists>s'. append_events rt rules schema p rid [ev] s = (Inr [e_id old], s')
    \<and> st_db s' = update_run rid (\<lambda>r. r\<lparr>r_last_hash := Some (e_hash old), r_count := r_count r + 1\<rparr>) (st_db s)"
proof -
  have "append_loop rt rules schema p run (st_db s) [ev] (r_last_hash run) (tick s) = (Inr ([e_id old], Some (e_hash old)), tick s)"
    using assms(2,3) by (simp add: persist_event_def)
  from append_events_unfold [OF assms(1) _ this] show ?thesis by simp
qed

text \<open>The next event, whatever it is, is stored with the rewound hash as its predecessor.\<close>

lemma append_one_fresh:
  assumes "authorize_run (st_db s) p rid = Inr run" "db_ok (st_db s)" "fresh_batch rt rules (st_db s) [ev]"
  shows "\<exists>s' row. append_events rt rules schema p rid [ev] s = (Inr [the (i_event_id ev)], s')
    \<and> run_events (st_db s') rid = run_events (st_db s) rid @ [row]
    \<and> e_id row = the (i_event_id ev) \<and> e_prev row = r_last_hash run \<and> db_ok (st_db s')"
proof -
  from append_events_all_fresh [OF assms(1,3)] obtain s'
    where app: "append_events rt rules schema p rid [ev] s = (Inr [the (i_event_id ev)], s')"
    and len: "length (db_events (st_db s')) = Suc (length (db_events (st_db s)))" by auto
  obtain run0 prev' s1 where auth: "authorize_run (st_db s) p rid = Inr run0"
    and loop: "append_loop rt rules schema p run0 (st_db s) [ev] (r_last_hash run0) (tick s) = (Inr ([the (i_event_id ev)], prev'), s1)"
    and s': "st_db s' = update_run rid (\<lambda>r. r\<lparr>r_last_hash := prev', r_count := r_count r + int (length [the (i_event_id ev)])\<rparr>) (st_db s1)"
    by (rule append_events_Inr [OF app]) simp_all
  from auth assms(1) have r: "run0 = run" by simp
  from loop obtain eh where pe: "persist_event rt rules schema p run (st_db s) ev (r_last_hash run) (tick s) = (Inr eh, s1)"
    and eh: "fst eh = the (i_event_id ev)"
    unfolding r by (auto split: sum.splits prod.splits)
  have rid: "r_id run = rid" by (rule authorize_run_id [OF assms(1)])
  have "run_session (st_db s) (r_id run) (st_db (tick s))" using assms(2) by (simp add: run_session_refl)
  then have add: "adds_row rt rules schema p run ev (r_last_hash run) eh (tick s) s1"
    using persist_event_length [OF pe] len s' by fastforce
  then obtain ph h where ev: "db_events (st_db s1) = db_events (st_db (tick s))
      @ [(new_row rt rules schema p run ev (r_last_hash run) ph h (tick s))\<lparr>e_seq := next_seq (st_db (tick s))\<rparr>]"
    and eh': "eh = (e_id (new_row rt rules schema p run ev (r_last_hash run) ph h (tick s)), h)"
    by (rule adds_row_events)
  have ok': "db_ok (st_db s')"
    using append_events_session [OF app assms(2)] by (simp add: run_session_def)
  have "db_events (st_db s') = db_events (st_db s1)" by (simp add: s')
  with ev ok' assms(2) eh eh' rid app show ?thesis
    by (simp add: run_events_filter)
qed

lemma replay_breaks_chain:
  assumes "authorize_run (st_db s) p rid = Inr run" "db_ok (st_db s)" "row_linked rt run None (run_events (st_db s) rid)"
    and "i_type ev \<in> set EVENT_TYPES" "find_idempotent (st_db s) (i_idem ev) = Some old"
    and "Some (e_hash old) \<noteq> head_hash e_hash None (run_events (st_db s) rid)"
    and "fresh_batch rt rules (st_db s) [ev']"
  shows "\<exists>s1 s2. append_events rt rules schema p rid [ev] s = (Inr [e_id old], s1)
    \<and> append_events rt rules schema p rid [ev'] s1 = (Inr [the (i_event_id ev')], s2)
    \<and> verify rt p rid (st_db s2) = Inr \<lparr>v_run = rid, v_valid = False,
         v_count = Suc (length (run_events (st_db s) rid)), v_broken = i_event_id ev'\<rparr>"
proof -
  from append_replay [OF assms(1,4,5)] obtain s1
    where app1: "append_events rt rules schema p rid [ev] s = (Inr [e_id old], s1)"
    and s1: "st_db s1 = update_run rid (\<lambda>r. r\<lparr>r_last_hash := Some (e_hash old), r_count := r_count r + 1\<rparr>) (st_db s)"
    by blast
  let ?run1 = "run\<lparr>r_last_hash := Some (e_hash old), r_count := r_count run + 1\<rparr>"
  have auth1: "authorize_run (st_db s1) p rid = Inr ?run1"
    using assms(1) by (simp add: authorize_run_Inr s1 get_run_update)
  have ok1: "db_ok (st_db s1)"
    using append_events_session [OF app1 assms(2)] by (simp add: run_session_def)
  have fresh1: "fresh_batch rt rules (st_db s1) [ev']"
    using assms(7) by (simp add: fresh_batch_def fresh_event_def s1)
  from append_one_fresh [OF auth1 ok1 fresh1, of schema] obtain s2 row
    where app2: "append_events rt rules schema p rid [ev'] s1 = (Inr [the (i_event_id ev')], s2)"
    and rows: "run_events (st_db s2) rid = run_events (st_db s1) rid @ [row]"
    and row: "e_id row = the (i_event_id ev')" "e_prev row = Some (e_hash old)"
    by auto
  have ses: "run_session (st_db s1) rid (st_db s2)" by (rule append_events_session [OF app2 ok1])
  from auth1 ses obtain run2 where run2: "get_run (st_db s2) rid = Some run2" "run_identity run2 = run_identity ?run1"
    unfolding run_session_def authorize_run_Inr by auto
  have auth2: "authorize_run (st_db s2) p rid = Inr run2"
    using run2 auth1 by (simp add: authorize_run_Inr run_identity_def)
  have "row_linked rt run2 None (run_events (st_db s) rid)"
    using assms(3) run2(2) row_linked_identity [of run2 run] by (simp add: run_identity_def)
  then have "verify_rows rt run2 None (run_events (st_db s2) rid) = Inr (Some (e_id row))"
    using verify_rows_break [of rt run2 None "run_events (st_db s) rid" row "[]"] assms(6) row(2)
    by (simp add: rows s1)
  moreover have "i_event_id ev' = Some (e_id row)"
    using assms(7) row(1) by (cases "i_event_id ev'") (auto simp: fresh_batch_def fresh_event_def)
  ultimately show ?thesis
    using app1 app2 by (simp add: verify_cases [OF auth2] rows s1)
qed

end
