(* ===== verification/Approvals.thy ===== *)
theory Approvals
  imports Verify_Laws
begin

section \<open>Approvals and queries\<close>

text \<open>
  \<open>approvals.py\<close>: a request for approval is stored once per id, a reviewer's decision is written
  over it, and the open requests of a project are listed; and \<open>query.py\<close>, the filters over a
  project's events with their cursor. An event is dated when it reaches the database: the answer to a
  new request has no \<open>created_at\<close> yet.
\<close>

record approval_request =
  q_approval_id :: "string option"
  q_run :: string
  q_policy :: "string option"
  q_requested_by :: "string option"
  q_reason :: "string option"
  q_input :: json

definition iso_opt :: "datetime option \<Rightarrow> json" where
  "iso_opt d = js_str (map_option isoformat d)"

definition approval_to_dict :: "approval \<Rightarrow> datetime option \<Rightarrow> datetime option \<Rightarrow> json" where
  "approval_to_dict a created decided = JDict [
     (''approval_id'', JStr (a_id a)), (''run_id'', JStr (a_run a)), (''status'', JStr (a_status a)),
     (''policy_id'', js_str (a_policy a)), (''requested_by'', js_str (a_requested_by a)),
     (''reviewer_id'', js_str (a_reviewer a)), (''reason'', js_str (a_reason a)), (''input'', a_input a),
     (''created_at'', iso_opt created), (''decided_at'', iso_opt decided)]"

definition stored_approval :: "approval \<Rightarrow> json" where
  "stored_approval a = approval_to_dict a (Some (a_created a)) (a_decided a)"

definition request_approval :: "runtime \<Rightarrow> principal \<Rightarrow> approval_request \<Rightarrow> json svc" where
  "request_approval rt p q s =
    (let aid = (if str_truthy (q_approval_id q) then the (q_approval_id q)
                else generate_approval_id (rt_ms rt (st_tick s)) (rt_rand rt (st_tick s)));
         s1 = (if str_truthy (q_approval_id q) then s else tick s)
     in with_session (\<lambda>s.
       case get_approval (st_db s) aid of
         Some existing \<Rightarrow> (Inr (stored_approval existing), s)
       | None \<Rightarrow>
           (let row = \<lparr>a_id = aid, a_run = q_run q, a_org = pr_org p, a_project = pr_project p,
                  a_policy = q_policy q, a_requested_by = q_requested_by q, a_reviewer = None,
                  a_status = ''requested'', a_reason = q_reason q, a_input = q_input q,
                  a_created = rt_column rt (now_reading rt s), a_decided = None\<rparr>
            in (Inr (approval_to_dict row None None),
                metric ''controldb.approvals.requested'' 1
                  (tick s\<lparr>st_db := (st_db s)\<lparr>db_approvals := db_approvals (st_db s) @ [row]\<rparr>\<rparr>)))) s1)"

definition DECISIONS :: "string list" where
  "DECISIONS = [''approved'', ''rejected'', ''expired'', ''overridden'']"

definition decided :: "string \<Rightarrow> string \<Rightarrow> datetime \<Rightarrow> string option \<Rightarrow> approval \<Rightarrow> approval" where
  "decided decision reviewer now reason a =
    a\<lparr>a_status := decision, a_reviewer := Some reviewer, a_decided := Some now,
      a_reason := (if str_truthy reason then reason else a_reason a)\<rparr>"

definition decide :: "runtime \<Rightarrow> principal \<Rightarrow> string \<Rightarrow> string \<Rightarrow> string \<Rightarrow> string option \<Rightarrow> json svc" where
  "decide rt p aid decision reviewer reason s =
    (if decision \<notin> set DECISIONS then (Inl (ValueError (''invalid decision: '' @ decision)), s)
     else with_session (\<lambda>s.
       case get_approval (st_db s) aid of
         None \<Rightarrow> (Inl (LookupError ''approval not found''), s)
       | Some row \<Rightarrow>
           if a_org row \<noteq> pr_org p \<or> a_project row \<noteq> pr_project p then (Inl (PermissionError ''forbidden''), s)
           else (let now = now_reading rt s in
             (Inr (approval_to_dict (decided decision reviewer now reason row) (Some (a_created row)) (Some now)),
              tick s\<lparr>st_db := update_approval aid (decided decision reviewer (rt_column rt now) reason) (st_db s)\<rparr>))) s)"

definition pending_rows :: "principal \<Rightarrow> database \<Rightarrow> approval list" where
  "pending_rows p db = sort_key a_created
     (filter (\<lambda>a. a_org a = pr_org p \<and> a_project a = pr_project p \<and> a_status a = ''requested'') (db_approvals db))"

definition pending :: "principal \<Rightarrow> database \<Rightarrow> json list" where
  "pending p db = map stored_approval (pending_rows p db)"

subsection \<open>Queries\<close>

record query_request =
  qr_run :: "string option"
  qr_types :: "string list option"
  qr_limit :: int
  qr_cursor :: "int option"

definition query_limit :: "int \<Rightarrow> nat" where
  "query_limit limit = nat (min (max limit 1) 1000)"

definition project_events :: "principal \<Rightarrow> database \<Rightarrow> audit_event list" where
  "project_events p db =
     sort_key e_seq (filter (\<lambda>e. e_org e = pr_org p \<and> e_project e = pr_project p) (db_events db))"

definition query_filter :: "query_request \<Rightarrow> audit_event \<Rightarrow> bool" where
  "query_filter q e \<longleftrightarrow>
     (case qr_types q of None \<Rightarrow> True | Some ts \<Rightarrow> ts = [] \<or> e_type e \<in> set ts)
     \<and> (str_truthy (qr_run q) \<longrightarrow> Some (e_run e) = qr_run q)
     \<and> (case qr_cursor q of None \<Rightarrow> True | Some c \<Rightarrow> c = 0 \<or> c < int (e_seq e))"

definition query_rows :: "principal \<Rightarrow> query_request \<Rightarrow> database \<Rightarrow> audit_event list" where
  "query_rows p q db = take (query_limit (qr_limit q)) (filter (query_filter q) (project_events p db))"

definition query_cursor :: "query_request \<Rightarrow> audit_event list \<Rightarrow> nat option" where
  "query_cursor q rows =
    (if rows \<noteq> [] \<and> int (length rows) = qr_limit q then Some (e_seq (last rows)) else None)"

definition query :: "principal \<Rightarrow> query_request \<Rightarrow> database \<Rightarrow> json" where
  "query p q db =
    (let rows = query_rows p q db in
     JDict [(''events'', JList (map event_to_dict rows)), (''next_cursor'', cursor_json (query_cursor q rows))])"

subsection \<open>Runs of a project\<close>

text \<open>The listing of \<open>app.py\<close>: the latest started first.\<close>

definition list_runs :: "principal \<Rightarrow> nat \<Rightarrow> database \<Rightarrow> json" where
  "list_runs p limit db = JDict [(''runs'', JList (map run_to_dict (take limit
     (rev (sort_key r_started (rev (filter (\<lambda>r. r_org r = pr_org p \<and> r_project r = pr_project p) (db_runs db))))))))]"

end
