(* ===== verification/Paging.thy ===== *)
theory Paging
  imports Approvals
begin

section \<open>Cursors\<close>

text \<open>
  The contract of a paged listing: a page holds the next rows after the cursor, in the order of their
  sequence numbers, and the new cursor is the last row's number when the page is full. A client that
  follows the cursors from the start then sees every row once. The timeline of a run and
  the query over a project's events both meet it, within their bounds on the limit.
\<close>

text \<open>What a client does: fetch a page, follow its cursor, at most \<open>fuel\<close> times.\<close>

fun collect_pages :: "(nat \<Rightarrow> 'r list \<times> nat option) \<Rightarrow> nat \<Rightarrow> nat \<Rightarrow> 'r list" where
  "collect_pages fetch 0 c = []"
| "collect_pages fetch (Suc fuel) c =
    (case fetch c of (rows, next) \<Rightarrow>
       rows @ (case next of None \<Rightarrow> [] | Some c' \<Rightarrow> collect_pages fetch fuel c'))"

locale paged =
  fixes fetch :: "'d \<Rightarrow> nat \<Rightarrow> 'r list \<times> nat option" and rows :: "'d \<Rightarrow> 'r list"
    and key :: "'r \<Rightarrow> nat" and size_of :: "'d \<Rightarrow> nat" and good :: "'d \<Rightarrow> bool"
  assumes fetch_page: "good d \<Longrightarrow> fst (fetch d c) = take (size_of d) (filter (\<lambda>r. c < key r) (rows d))"
    and fetch_next: "good d \<Longrightarrow> snd (fetch d c) =
      (if fst (fetch d c) \<noteq> [] \<and> length (fst (fetch d c)) = size_of d then Some (key (last (fst (fetch d c)))) else None)"
    and rows_sorted: "good d \<Longrightarrow> sorted_wrt (<) (map key (rows d))"
    and keys_positive: "good d \<Longrightarrow> r \<in> set (rows d) \<Longrightarrow> 0 < key r"
    and size_positive: "good d \<Longrightarrow> 0 < size_of d"
begin

text \<open>After a full page, the rows beyond its last key are the ones the page left out.\<close>

lemma sorted_drop:
  fixes xs :: "'r list"
  assumes "sorted_wrt (<) (map key xs)" "n < length xs"
  shows "filter (\<lambda>r. key (xs ! n) < key r) xs = drop (Suc n) xs"
  using assms
proof (induction xs arbitrary: n)
  case Nil
  then show ?case by simp
next
  case (Cons x xs)
  show ?case
  proof (cases n)
    case 0
    with Cons.prems show ?thesis by auto
  next
    case (Suc m)
    with Cons.prems have "key x < key (xs ! m)" "m < length xs" by simp_all
    with Cons Suc show ?thesis by (simp add: not_less_iff_gr_or_eq)
  qed
qed

lemma filter_after:
  assumes "good d" "0 < length ys" "ys = filter (\<lambda>r. c < key r) (rows d)" "size_of d \<le> length ys"
  shows "filter (\<lambda>r. key (last (take (size_of d) ys)) < key r) (rows d) = drop (size_of d) ys"
proof -
  let ?n = "size_of d - 1"
  have n: "?n < length ys" "Suc ?n = size_of d" using assms(2,4) size_positive [OF assms(1)] by auto
  have last: "last (take (size_of d) ys) = ys ! ?n"
    using n assms(4) take_Suc_conv_app_nth [OF n(1)] by simp
  have "ys ! ?n \<in> set ys" using n(1) by simp
  then have "c < key (ys ! ?n)" using assms(3) by simp
  then have "filter (\<lambda>r. key (ys ! ?n) < key r) (rows d) = filter (\<lambda>r. key (ys ! ?n) < key r) ys"
    unfolding assms(3) filter_filter by (intro filter_cong) auto
  moreover have "sorted_wrt (<) (map key ys)"
    using rows_sorted [OF assms(1)] unfolding assms(3) by (simp add: sorted_wrt_map sorted_wrt_filter)
  ultimately show ?thesis
    using sorted_drop [of ys ?n] n unfolding last by simp
qed

lemma collect_from:
  assumes "good d" "length (filter (\<lambda>r. c < key r) (rows d)) < fuel"
  shows "collect_pages (fetch d) fuel c = filter (\<lambda>r. c < key r) (rows d)"
  using assms(2)
proof (induction fuel arbitrary: c)
  case 0
  then show ?case by simp
next
  case (Suc fuel)
  let ?ys = "filter (\<lambda>r. c < key r) (rows d)"
  obtain page next' where f: "fetch d c = (page, next')" by force
  have page: "page = take (size_of d) ?ys" using fetch_page [OF assms(1), of c] f by simp
  have next': "next' = (if page \<noteq> [] \<and> length page = size_of d then Some (key (last page)) else None)"
    using fetch_next [OF assms(1), of c] unfolding f fst_conv snd_conv .
  show ?case
  proof (cases "page \<noteq> [] \<and> length page = size_of d")
    case True
    then have len: "0 < length ?ys" "size_of d \<le> length ?ys" using page by auto
    have rest: "filter (\<lambda>r. key (last page) < key r) (rows d) = drop (size_of d) ?ys"
      unfolding page by (rule filter_after [OF assms(1) len(1) refl len(2)])
    have "length (drop (size_of d) ?ys) < fuel"
      using Suc.prems len size_positive [OF assms(1)] by simp
    with Suc.IH [of "key (last page)"] rest have "collect_pages (fetch d) fuel (key (last page)) = drop (size_of d) ?ys"
      by simp
    with True show ?thesis by (simp add: f next' page)
  next
    case False
    have "?ys = page"
      using False page size_positive [OF assms(1)] by (cases "size_of d \<le> length ?ys") auto
    moreover have "next' = None" using False next' by auto
    ultimately show ?thesis by (simp add: f)
  qed
qed

lemma collect_all:
  assumes "good d" "length (rows d) < fuel"
  shows "collect_pages (fetch d) fuel 0 = rows d"
proof -
  have "filter (\<lambda>r. 0 < key r) (rows d) = rows d"
    using keys_positive [OF assms(1)] by (simp add: filter_id_conv)
  with collect_from [OF assms(1), of 0 fuel] assms(2) show ?thesis by simp
qed

end

subsection \<open>The timeline of a run\<close>

definition timeline_fetch :: "database \<times> string \<times> nat \<Rightarrow> nat \<Rightarrow> audit_event list \<times> nat option" where
  "timeline_fetch d c = (case d of (db, rid, limit) \<Rightarrow>
     (timeline_rows db rid limit (Some c), next_cursor limit (timeline_rows db rid limit (Some c))))"

lemma run_events_positive: "db_ok db \<Longrightarrow> e \<in> set (run_events db rid) \<Longrightarrow> 0 < e_seq e"
  by (simp add: run_events_set db_ok_def)

lemma timeline_rows_some:
  "db_ok db \<Longrightarrow> timeline_rows db rid limit (Some c) = take (min limit 5000) (filter (\<lambda>e. c < e_seq e) (run_events db rid))"
  using run_events_positive [of db _ rid]
  by (cases c) (auto simp: timeline_rows_def page_rows_def filter_id_conv)

interpretation timeline_pages: paged timeline_fetch "\<lambda>(db, rid, limit). run_events db rid" e_seq
  "\<lambda>(db, rid, limit). limit" "\<lambda>(db, rid, limit). db_ok db \<and> 1 \<le> limit \<and> limit \<le> 5000"
  by unfold_locales
    (auto simp: timeline_fetch_def timeline_rows_some next_cursor_def run_events_sorted run_events_positive
      split: prod.splits)

subsection \<open>Queries\<close>

definition query_fetch :: "principal \<times> query_request \<times> database \<Rightarrow> nat \<Rightarrow> audit_event list \<times> nat option" where
  "query_fetch d c = (case d of (p, q, db) \<Rightarrow>
     (let rows = query_rows p (q\<lparr>qr_cursor := Some (int c)\<rparr>) db in (rows, query_cursor q rows)))"

definition query_matches :: "principal \<Rightarrow> query_request \<Rightarrow> database \<Rightarrow> audit_event list" where
  "query_matches p q db = filter (query_filter (q\<lparr>qr_cursor := None\<rparr>)) (project_events p db)"

lemma project_events_filter:
  assumes "db_ok db"
  shows "project_events p db = filter (\<lambda>e. e_org e = pr_org p \<and> e_project e = pr_project p) (db_events db)"
proof -
  have "sorted_wrt (\<lambda>a b. e_seq a < e_seq b) (db_events db)"
    using assms by (simp add: db_ok_def sorted_wrt_map)
  then have "sorted (map e_seq (filter (\<lambda>e. e_org e = pr_org p \<and> e_project e = pr_project p) (db_events db)))"
    by (simp add: sorted_wrt_map sorted_wrt_filter sorted_wrt_mono_rel [of _ "\<lambda>a b. e_seq a < e_seq b"])
  then show ?thesis unfolding project_events_def by (rule sort_key_sorted_id)
qed

lemma query_matches_sorted: "db_ok db \<Longrightarrow> sorted_wrt (<) (map e_seq (query_matches p q db))"
  by (simp add: query_matches_def project_events_filter db_ok_def sorted_wrt_map sorted_wrt_filter)

lemma query_matches_positive: "db_ok db \<Longrightarrow> e \<in> set (query_matches p q db) \<Longrightarrow> 0 < e_seq e"
  by (simp add: query_matches_def project_events_filter db_ok_def)

lemma query_rows_after:
  assumes "db_ok db"
  shows "query_rows p (q\<lparr>qr_cursor := Some (int c)\<rparr>) db
       = take (query_limit (qr_limit q)) (filter (\<lambda>e. c < e_seq e) (query_matches p q db))"
proof -
  have "query_filter (q\<lparr>qr_cursor := Some (int c)\<rparr>) e \<longleftrightarrow> query_filter (q\<lparr>qr_cursor := None\<rparr>) e \<and> c < e_seq e"
    if "e \<in> set (project_events p db)" for e
    using that assms by (auto simp: query_filter_def project_events_filter db_ok_def)
  then have "filter (query_filter (q\<lparr>qr_cursor := Some (int c)\<rparr>)) (project_events p db)
      = filter (\<lambda>e. c < e_seq e) (query_matches p q db)"
    unfolding query_matches_def filter_filter by (intro filter_cong) auto
  then show ?thesis by (simp add: query_rows_def)
qed

interpretation query_pages: paged query_fetch "\<lambda>(p, q, db). query_matches p q db" e_seq
  "\<lambda>(p, q, db). nat (qr_limit q)" "\<lambda>(p, q, db). db_ok db \<and> 1 \<le> qr_limit q \<and> qr_limit q \<le> 1000"
  by unfold_locales
    (auto simp: query_fetch_def query_rows_after query_cursor_def query_limit_def Let_def
      query_matches_sorted query_matches_positive split: prod.splits)

text \<open>A larger limit gives a full page of 1000 rows and no cursor.\<close>

lemma query_limit_cut:
  assumes "1000 < qr_limit q"
  shows "length (query_rows p q db) \<le> 1000 \<and> query_cursor q (query_rows p q db) = None"
  using assms by (auto simp: query_rows_def query_cursor_def query_limit_def)

end
