(* ===== verification/Policy.thy ===== *)
theory Policy
  imports Verify_Laws
begin

section \<open>The policy engine\<close>

text \<open>
  \<open>policy/engine.py\<close>: policies are loaded from YAML files, each with the hash of its canonical
  form, and an input is decided by the first rule that fires. A policy that is not registered
  allows. With an OPA address configured, the decision is the service's. The parser of YAML is a
  library: the loader receives what it returned for each file, in the order of the paths. A policy is
  a tree of JSON values here (YAML dates and keys that are no strings are outside the model), and
  the shapes the code does not check raise what Python raises.
\<close>

subsection \<open>Python's operations on values of unknown shape\<close>

definition py_str :: "runtime \<Rightarrow> json \<Rightarrow> string" where
  "py_str rt v = (case v of JStr s \<Rightarrow> s | _ \<Rightarrow> rt_repr rt v)"

text \<open>\<open>v.get(key, default)\<close>\<close>

definition py_get :: "json \<Rightarrow> string \<Rightarrow> json \<Rightarrow> json result" where
  "py_get v key d = (case v of JDict items \<Rightarrow> Inr (dict_get_or items key d) | _ \<Rightarrow> Inl (AttributeError ''get''))"

text \<open>The values a \<open>for\<close> loop runs over.\<close>

definition py_iter :: "json \<Rightarrow> json list result" where
  "py_iter v = (case v of
      JList xs \<Rightarrow> Inr xs
    | JDict d \<Rightarrow> Inr (map (JStr \<circ> fst) d)
    | JStr s \<Rightarrow> Inr (map (\<lambda>c. JStr [c]) s)
    | _ \<Rightarrow> Inl (TypeError ''object is not iterable''))"

text \<open>
  \<open>dict(v)\<close> of a mapping or of an empty sequence; a sequence of pairs, which \<open>dict\<close> would
  also take, is not a result any policy gives and is an error here.
\<close>

definition py_dict :: "json \<Rightarrow> pydict result" where
  "py_dict v = (case v of
      JDict d \<Rightarrow> Inr d
    | JList [] \<Rightarrow> Inr []
    | JStr [] \<Rightarrow> Inr []
    | JStr _ \<Rightarrow> Inl (ValueError ''dictionary update sequence element #0 has length 1; 2 is required'')
    | _ \<Rightarrow> Inl (TypeError ''cannot convert dictionary update sequence''))"

text \<open>\<open>{**d, **e}\<close>\<close>

subsection \<open>Loading\<close>

record engine =
  en_policies :: "(json \<times> pydict) list"
  en_opa :: "string option"

text \<open>The key of a dictionary entry: equal keys are the same entry; containers are not hashable.\<close>

fun put_policy :: "json \<Rightarrow> pydict \<Rightarrow> (json \<times> pydict) list \<Rightarrow> (json \<times> pydict) list" where
  "put_policy k d [] = [(k, d)]"
| "put_policy k d ((k', d') # ps) = (if py_eq k k' then (k', d) # ps else (k', d') # put_policy k d ps)"

definition hashable :: "json \<Rightarrow> bool" where
  "hashable v = (case v of JList _ \<Rightarrow> False | JDict _ \<Rightarrow> False | _ \<Rightarrow> True)"

fun load_files :: "runtime \<Rightarrow> json list \<Rightarrow> (json \<times> pydict) list \<Rightarrow> (json \<times> pydict) list result" where
  "load_files rt [] ps = Inr ps"
| "load_files rt (data # files) ps =
    (case data of
       JDict d \<Rightarrow>
         (case map_of d ''policy_id'' of
            None \<Rightarrow> load_files rt files ps
          | Some pid \<Rightarrow>
              (case hash_json (rt_sha256 rt) (rt_float_repr rt) data of
                 Inl e \<Rightarrow> Inl e
               | Inr h \<Rightarrow>
                   if hashable pid
                   then load_files rt files (put_policy pid (dict_set d ''_policy_hash'' (JStr h)) ps)
                   else Inl (TypeError ''unhashable type'')))
     | _ \<Rightarrow> load_files rt files ps)"

text \<open>\<open>PolicyEngine.__init__\<close>: no directory, no policies.\<close>

definition load_engine :: "runtime \<Rightarrow> json list option \<Rightarrow> string option \<Rightarrow> engine result" where
  "load_engine rt files opa_url =
    (case files of
       None \<Rightarrow> Inr \<lparr>en_policies = [], en_opa = opa_url\<rparr>
     | Some fs \<Rightarrow>
         (case load_files rt fs [] of
            Inl e \<Rightarrow> Inl e
          | Inr ps \<Rightarrow> Inr \<lparr>en_policies = ps, en_opa = opa_url\<rparr>))"

text \<open>The engine of a process is loaded when it is first asked for; a policy file that changes later is not read before the next start.\<close>

definition get_policy_engine :: "runtime \<Rightarrow> json list option \<Rightarrow> string option \<Rightarrow> engine option \<Rightarrow> engine result \<times> engine option" where
  "get_policy_engine rt files opa_url held =
    (case held of
       Some en \<Rightarrow> (Inr en, held)
     | None \<Rightarrow> (case load_engine rt files opa_url of Inl e \<Rightarrow> (Inl e, None) | Inr en \<Rightarrow> (Inr en, Some en)))"

definition reset_policy_engine :: "engine option \<Rightarrow> engine option" where
  "reset_policy_engine held = None"

definition list_policies :: "engine \<Rightarrow> json list" where
  "list_policies en = map (\<lambda>(k, d). JDict [
     (''policy_id'', dict_get d ''policy_id''), (''policy_version'', dict_get d ''policy_version''),
     (''policy_hash'', dict_get d ''_policy_hash''), (''description'', dict_get d ''description'')]) (en_policies en)"

subsection \<open>Matching\<close>

text \<open>
  One comparison of \<open>_match\<close>: whether it refuses. \<open>isinstance(actual, (int, float))\<close> comes
  first, so only a numeric \<open>actual\<close> meets a bound that may be no number.
\<close>

datatype operator = OpEq | OpNe | OpGt | OpGte | OpLt | OpLte | OpIn | OpNotIn

fun op_key :: "operator \<Rightarrow> string" where
  "op_key OpEq = ''eq''"
| "op_key OpNe = ''ne''"
| "op_key OpGt = ''gt''"
| "op_key OpGte = ''gte''"
| "op_key OpLt = ''lt''"
| "op_key OpLte = ''lte''"
| "op_key OpIn = ''in''"
| "op_key OpNotIn = ''not_in''"

definition compare_num :: "(pynum \<Rightarrow> pynum \<Rightarrow> bool) \<Rightarrow> json \<Rightarrow> json \<Rightarrow> bool result" where
  "compare_num cmp actual bound =
    (case num_of actual of
       None \<Rightarrow> Inr False
     | Some a \<Rightarrow> (case num_of bound of
         None \<Rightarrow> Inl (TypeError ''comparison not supported between instances'')
       | Some b \<Rightarrow> Inr (cmp a b)))"

fun op_holds :: "operator \<Rightarrow> json \<Rightarrow> json \<Rightarrow> bool result" where
  "op_holds OpEq actual e = Inr (py_eq actual e)"
| "op_holds OpNe actual e = Inr (\<not> py_eq actual e)"
| "op_holds OpGt actual e = compare_num (\<lambda>a b. num_lt b a) actual e"
| "op_holds OpGte actual e = compare_num (\<lambda>a b. num_le b a) actual e"
| "op_holds OpLt actual e = compare_num num_lt actual e"
| "op_holds OpLte actual e = compare_num num_le actual e"
| "op_holds OpIn actual e = py_in actual e"
| "op_holds OpNotIn actual e = (case py_in actual e of Inl x \<Rightarrow> Inl x | Inr b \<Rightarrow> Inr (\<not> b))"

definition operators :: "operator list" where
  "operators = [OpEq, OpNe, OpGt, OpGte, OpLt, OpLte, OpIn, OpNotIn]"

text \<open>The operators present in \<open>expected\<close>, in the order of the code, up to the first that fails.\<close>

fun ops_hold :: "operator list \<Rightarrow> json \<Rightarrow> pydict \<Rightarrow> bool result" where
  "ops_hold [] actual expected = Inr True"
| "ops_hold (o' # os) actual expected =
    (case map_of expected (op_key o') of
       None \<Rightarrow> ops_hold os actual expected
     | Some e \<Rightarrow>
         (case op_holds o' actual e of
            Inl x \<Rightarrow> Inl x
          | Inr b \<Rightarrow> if b then ops_hold os actual expected else Inr False))"

definition item_holds :: "pydict \<Rightarrow> string \<Rightarrow> json \<Rightarrow> bool result" where
  "item_holds input key expected =
    (case expected of
       JDict d \<Rightarrow> ops_hold operators (dict_get input key) d
     | _ \<Rightarrow> Inr (py_eq (dict_get input key) expected))"

fun match_items :: "pydict \<Rightarrow> pydict \<Rightarrow> bool result" where
  "match_items [] input = Inr True"
| "match_items ((key, expected) # cond) input =
    (case item_holds input key expected of
       Inl x \<Rightarrow> Inl x
     | Inr b \<Rightarrow> if b then match_items cond input else Inr False)"

definition match_cond :: "json \<Rightarrow> pydict \<Rightarrow> bool result" where
  "match_cond cond input =
    (case cond of JDict d \<Rightarrow> match_items d input | _ \<Rightarrow> Inl (AttributeError ''items''))"

subsection \<open>Deciding\<close>

record decision =
  de_allowed :: bool
  de_requires :: bool
  de_reason :: string
  de_policy :: json
  de_version :: json
  de_hash :: json
  de_raw :: pydict

definition wrap :: "runtime \<Rightarrow> pydict \<Rightarrow> pydict \<Rightarrow> decision" where
  "wrap rt policy res = \<lparr>
     de_allowed = truthy (dict_get_or res ''allowed'' (JBool True)),
     de_requires = truthy (dict_get_or res ''requires_approval'' (JBool False)),
     de_reason = py_str rt (dict_get_or res ''reason'' (JStr [])),
     de_policy = dict_get policy ''policy_id'',
     de_version = dict_get_or policy ''policy_version'' (JStr ''unversioned''),
     de_hash = dict_get policy ''_policy_hash'',
     de_raw = res\<rparr>"

definition no_policy :: "string \<Rightarrow> decision" where
  "no_policy policy_id = \<lparr>de_allowed = True, de_requires = False, de_reason = ''no policy registered'',
     de_policy = JStr policy_id, de_version = JStr ''unversioned'', de_hash = JStr ''sha256:0'',
     de_raw = [(''allowed'', JBool True), (''requires_approval'', JBool False), (''reason'', JStr ''no policy registered'')]\<rparr>"

definition no_rule_matched :: pydict where
  "no_rule_matched = [(''allowed'', JBool True), (''requires_approval'', JBool False), (''reason'', JStr ''no rule matched'')]"

text \<open>Whether a rule fires: one with \<open>default\<close> always, one with \<open>when\<close> if its condition holds.\<close>

definition rule_fires :: "json \<Rightarrow> pydict \<Rightarrow> bool result" where
  "rule_fires r input =
    (case py_in (JStr ''default'') r of
       Inl e \<Rightarrow> Inl e
     | Inr b \<Rightarrow>
         if b then Inr True
         else (case py_in (JStr ''when'') r of
             Inl e \<Rightarrow> Inl e
           | Inr b' \<Rightarrow>
               if \<not> b' then Inr False
               else (case r of
                   JDict d \<Rightarrow> match_cond (dict_get d ''when'') input
                 | _ \<Rightarrow> Inl (TypeError ''indices must be integers''))))"

definition rule_result :: "json \<Rightarrow> pydict result" where
  "rule_result r = (case py_get r ''result'' (JDict []) of Inl e \<Rightarrow> Inl e | Inr v \<Rightarrow> py_dict v)"

fun run_rules :: "runtime \<Rightarrow> pydict \<Rightarrow> json list \<Rightarrow> pydict \<Rightarrow> decision result" where
  "run_rules rt policy [] input = Inr (wrap rt policy no_rule_matched)"
| "run_rules rt policy (r # rs) input =
    (case rule_fires r input of
       Inl e \<Rightarrow> Inl e
     | Inr b \<Rightarrow>
         if b then (case rule_result r of Inl e \<Rightarrow> Inl e | Inr d \<Rightarrow> Inr (wrap rt policy d))
         else run_rules rt policy rs input)"

text \<open>\<open>_evaluate_opa\<close>: \<open>opa\<close> is the service, from the address and the body of the request to the
  parsed body of its answer or the error of the client library.\<close>

definition opa_url_for :: "string \<Rightarrow> string \<Rightarrow> string" where
  "opa_url_for base policy_id =
     rev (dropWhile (\<lambda>c. c = CHR ''/'') (rev base)) @ ''/v1/data/'' @ map (\<lambda>c. if c = CHR ''.'' then CHR ''/'' else c) policy_id"

definition evaluate_opa :: "runtime \<Rightarrow> (string \<Rightarrow> json \<Rightarrow> json result) \<Rightarrow> string \<Rightarrow> string \<Rightarrow> pydict \<Rightarrow> decision result" where
  "evaluate_opa rt opa base policy_id input =
    (case opa (opa_url_for base policy_id) (JDict [(''input'', JDict input)]) of
       Inl e \<Rightarrow> Inl e
     | Inr answer \<Rightarrow>
         (case py_get answer ''result'' (JDict []) of
            Inl e \<Rightarrow> Inl e
          | Inr body \<Rightarrow>
              (case body of
                 JDict d \<Rightarrow> Inr \<lparr>
                   de_allowed = truthy (dict_get_or d ''allowed'' (JBool True)),
                   de_requires = truthy (dict_get_or d ''requires_approval'' (JBool False)),
                   de_reason = py_str rt (dict_get_or d ''reason'' (JStr [])),
                   de_policy = JStr policy_id,
                   de_version = JStr (py_str rt (dict_get_or d ''policy_version'' (JStr ''opa''))),
                   de_hash = JStr (py_str rt (dict_get_or d ''policy_hash'' (JStr ''sha256:opa''))),
                   de_raw = d\<rparr>
               | _ \<Rightarrow> Inl (AttributeError ''get''))))"

definition entry_is :: "string \<Rightarrow> json \<times> pydict \<Rightarrow> bool" where
  "entry_is policy_id entry = py_eq (JStr policy_id) (fst entry)"

definition find_policy :: "engine \<Rightarrow> string \<Rightarrow> pydict option" where
  "find_policy en policy_id = map_option snd (find (entry_is policy_id) (en_policies en))"

definition evaluate :: "runtime \<Rightarrow> (string \<Rightarrow> json \<Rightarrow> json result) \<Rightarrow> engine \<Rightarrow> string \<Rightarrow> pydict \<Rightarrow> decision result" where
  "evaluate rt opa en policy_id input =
    (if str_truthy (en_opa en) then evaluate_opa rt opa (the (en_opa en)) policy_id input
     else (case find_policy en policy_id of
         None \<Rightarrow> Inr (no_policy policy_id)
       | Some policy \<Rightarrow>
           if policy = [] then Inr (no_policy policy_id)
           else (case py_iter (dict_get_or policy ''rules'' (JList [])) of
               Inl e \<Rightarrow> Inl e
             | Inr rs \<Rightarrow> run_rules rt policy rs input)))"

text \<open>The endpoint \<open>/v1/policy/check\<close> of \<open>app.py\<close>.\<close>

definition policy_check :: "runtime \<Rightarrow> (string \<Rightarrow> json \<Rightarrow> json result) \<Rightarrow> engine \<Rightarrow> string \<Rightarrow> pydict \<Rightarrow> json svc" where
  "policy_check rt opa en policy_id input s =
    (case evaluate rt opa en policy_id input of
       Inl e \<Rightarrow> (Inl e, s)
     | Inr d \<Rightarrow>
         (Inr (JDict [(''policy_id'', de_policy d), (''policy_version'', de_version d), (''policy_hash'', de_hash d),
             (''result'', JDict (dict_update [(''allowed'', JBool (de_allowed d)),
                (''requires_approval'', JBool (de_requires d)), (''reason'', JStr (de_reason d))] (de_raw d)))]),
          metric (if de_allowed d \<and> \<not> de_requires d then ''controldb.policy.allowed'' else ''controldb.policy.blocked'') 1 s))"

end
