(* ===== verification/Export.thy ===== *)
theory Export
  imports Approvals
begin

section \<open>Evidence bundles\<close>

text \<open>
  \<open>export.py\<close>: the evidence of a run is its events, its approvals and the outcome of
  verification, written into a ZIP file whose hash is recorded, and an event says that it was
  exported. The members of the archive are modelled by their contents; \<open>zip_bytes\<close>, the bytes
  that \<open>json.dumps\<close> and \<open>zipfile\<close> make of them, is the run time's. A run id that holds a slash
  would name another directory and is outside the model.
\<close>

subsection \<open>Members\<close>

datatype content = CJson json | CJsonLines "json list" | CText string

type_synonym archiver = "(string \<times> content) list \<Rightarrow> string"

definition starts_with :: "string \<Rightarrow> string \<Rightarrow> bool" where
  "starts_with p s = (take (length p) s = p)"

definition state_diffs :: "audit_event list \<Rightarrow> json" where
  "state_diffs es = JList (map (\<lambda>e. JDict [(''event_id'', JStr (e_id e)), (''step_id'', js_str (e_step_id e)),
     (''payload'', e_payload e)]) (filter (\<lambda>e. starts_with ''state.'' (e_type e)) es))"

definition policy_checks :: "audit_event list \<Rightarrow> json" where
  "policy_checks es = JList (map event_to_dict (filter (\<lambda>e. starts_with ''policy.'' (e_type e)) es))"

definition manifest :: "string \<Rightarrow> string \<Rightarrow> string \<Rightarrow> datetime \<Rightarrow> string option \<Rightarrow> audit_event list \<Rightarrow> verification \<Rightarrow> json" where
  "manifest schema export_id rid now generated_by es v = JDict [
     (''bundle_id'', JStr export_id), (''run_id'', JStr rid), (''generated_at'', JStr (isoformat now)),
     (''generated_by'', js_str generated_by), (''event_count'', JInt (int (length es))),
     (''hash_chain_valid'', JBool (v_valid v)), (''broken_at_event_id'', js_str (v_broken v)),
     (''artifact_count'', JInt (int (length (filter (\<lambda>e. e_type e = ''evidence.artifact.created'') es)))),
     (''schema_version'', JStr schema)]"

subsection \<open>CSV\<close>

text \<open>
  \<open>csv.writer\<close> with its defaults: a field is quoted when it holds a comma, a quote or the end of
  a line, quotes inside it are doubled, and \<open>None\<close> is the empty field.
\<close>

definition csv_field :: "runtime \<Rightarrow> json \<Rightarrow> string" where
  "csv_field rt v = (case v of JNull \<Rightarrow> [] | JStr s \<Rightarrow> s | _ \<Rightarrow> rt_repr rt v)"

definition csv_special :: "char set" where
  "csv_special = {CHR '','', quote, CHR 0x0D, CHR 0x0A}"

definition csv_quote :: "string \<Rightarrow> string" where
  "csv_quote s =
    (if list_ex (\<lambda>c. c \<in> csv_special) s
     then quote # concat (map (\<lambda>c. if c = quote then [quote, quote] else [c]) s) @ [quote] else s)"

definition csv_row :: "string list \<Rightarrow> string" where
  "csv_row cells = join '','' (map csv_quote cells) @ [CHR 0x0D, CHR 0x0A]"

definition csv_header :: "string list" where
  "csv_header = [''sequence'', ''event_id'', ''occurred_at'', ''event_type'', ''step_id'', ''step_index'',
     ''actor_type'', ''actor_id'', ''payload_mode'', ''payload_hash'', ''previous_event_hash'', ''event_hash'']"

definition csv_fields :: "runtime \<Rightarrow> audit_event \<Rightarrow> string list" where
  "csv_fields rt e = map (csv_field rt) [JInt (int (e_seq e)), JStr (e_id e), utc_iso (Some (e_occurred e)),
     JStr (e_type e), js_str (e_step_id e), js_int (e_step_index e), e_actor_type e, e_actor_id e,
     JStr (e_mode e), js_str (e_payload_hash e), js_str (e_prev e), JStr (e_hash e)]"

definition render_events_csv :: "runtime \<Rightarrow> audit_event list \<Rightarrow> string" where
  "render_events_csv rt es = concat (map csv_row (csv_header # map (csv_fields rt) es))"

subsection \<open>The summary\<close>

definition em_dash :: string where
  "em_dash = [CHR 0xE2, CHR 0x80, CHR 0x94]"

definition code_text :: "string \<Rightarrow> string" where
  "code_text s = CHR 0x60 # s @ [CHR 0x60]"

text \<open>An f-string shows a value by \<open>str\<close>: \<open>None\<close> for an absent one.\<close>

definition show_opt :: "string option \<Rightarrow> string" where
  "show_opt x = (case x of None \<Rightarrow> ''None'' | Some s \<Rightarrow> s)"

definition show_date :: "datetime option \<Rightarrow> string" where
  "show_date d = show_opt (map_option (isoformat \<circ> as_utc) d)"

definition summary_event :: "audit_event \<Rightarrow> string" where
  "summary_event e = ''- '' @ code_text (nat_str (e_seq e)) @ '' '' @ code_text (show_date (Some (e_occurred e)))
     @ '' **'' @ e_type e @ ''** step='' @ show_opt (e_step_id e)"

definition summary_approval :: "approval \<Rightarrow> string" where
  "summary_approval a = ''- '' @ code_text (a_id a) @ '' '' @ em_dash @ '' '' @ a_status a @ '' by ''
     @ code_text (show_opt (a_reviewer a)) @ '' '' @ em_dash @ '' '' @ str_or (a_reason a) []"

definition summary_lines :: "agent_run \<Rightarrow> audit_event list \<Rightarrow> approval list \<Rightarrow> verification \<Rightarrow> string list" where
  "summary_lines run es approvals v =
     [''# Evidence Bundle '' @ em_dash @ '' Run '' @ r_id run, [],
      ''- Agent: '' @ code_text (r_agent run) @ '' ('' @ code_text (str_or (r_version run) ''unversioned'') @ '')'',
      ''- Environment: '' @ code_text (r_env run),
      ''- Status: '' @ code_text (r_status run),
      ''- Started: '' @ code_text (show_date (Some (r_started run))),
      ''- Ended: '' @ code_text (show_date (r_ended run)),
      ''- Events: **'' @ nat_str (length es) @ ''**'',
      ''- Hash chain valid: **'' @ (if v_valid v then ''True'' else ''False'') @ ''**'']
     @ (if str_truthy (v_broken v) then [''- Broken at event: '' @ code_text (the (v_broken v))] else [])
     @ [[], ''## Timeline''] @ map summary_event es @ [[], ''## Approvals'']
     @ (if approvals = [] then [''- (none)''] else map summary_approval approvals)"

definition render_summary_markdown :: "agent_run \<Rightarrow> audit_event list \<Rightarrow> approval list \<Rightarrow> verification \<Rightarrow> string" where
  "render_summary_markdown run es approvals v = join [CHR 0x0A] (summary_lines run es approvals v) @ [CHR 0x0A]"

subsection \<open>Exporting a run\<close>

definition run_approvals :: "database \<Rightarrow> string \<Rightarrow> approval list" where
  "run_approvals db rid = filter (\<lambda>a. a_run a = rid) (db_approvals db)"

definition bundle_members :: "runtime \<Rightarrow> json \<Rightarrow> agent_run \<Rightarrow> audit_event list \<Rightarrow> approval list \<Rightarrow> verification
    \<Rightarrow> (string \<times> content) list" where
  "bundle_members rt man run es approvals v = [
     (''manifest.json'', CJson man),
     (''run.json'', CJson (run_to_dict run)),
     (''events.jsonl'', CJsonLines (map event_to_dict es)),
     (''events.csv'', CText (render_events_csv rt es)),
     (''state_diffs.json'', CJson (state_diffs es)),
     (''policy_checks.json'', CJson (policy_checks es)),
     (''approvals.json'', CJson (JList (map stored_approval approvals))),
     (''run_summary.md'', CText (render_summary_markdown run es approvals v))]"

definition bundle_path :: "settings \<Rightarrow> string \<Rightarrow> string" where
  "bundle_path cfg rid = cfg_object_store cfg @ ''/evidence_bundle_'' @ rid @ ''.zip''"

definition write_file :: "string \<Rightarrow> string \<Rightarrow> cstate \<Rightarrow> cstate" where
  "write_file path data s = s\<lparr>st_files := AList.update path data (st_files s)\<rparr>"

lemma write_file_simps [simp]:
  "st_db (write_file f d s) = st_db s" "st_metrics (write_file f d s) = st_metrics s"
  "st_tick (write_file f d s) = st_tick s" "map_of (st_files (write_file f d s)) = (map_of (st_files s))(f \<mapsto> d)"
  by (simp_all add: write_file_def update_conv')

definition export_payload :: "string \<Rightarrow> string \<Rightarrow> string \<Rightarrow> nat \<Rightarrow> bool \<Rightarrow> pydict" where
  "export_payload export_id uri h count valid = [(''export_id'', JStr export_id), (''bundle_uri'', JStr uri),
     (''bundle_hash'', JStr h), (''event_count'', JInt (int count)), (''hash_chain_valid'', JBool valid)]"

definition export_event :: "string \<Rightarrow> string \<Rightarrow> pydict \<Rightarrow> event_input" where
  "export_event eid schema payload =
    \<lparr>i_event_id = Some eid, i_type = ''evidence.export.completed'', i_schema = Some schema, i_mode = ''metadata_only'',
     i_payload = JDict payload, i_payload_hash = None, i_prev = None, i_hash = None, i_step_id = None,
     i_step_index = None, i_actor = None, i_occurred = None, i_ingested = None, i_trace = None, i_span = None,
     i_parent = None, i_idem = None\<rparr>"

text \<open>The record of the export: \<open>IntegrityError\<close> if the id is taken, after the metric.\<close>

definition record_export :: "runtime \<Rightarrow> evidence_export \<Rightarrow> unit svc" where
  "record_export rt row = with_session (\<lambda>s.
     let s' = metric ''controldb.exports.completed'' 1 (tick s) in
     if x_id row \<in> set (map x_id (db_exports (st_db s))) then (Inl IntegrityError, s')
     else (Inr (), s'\<lparr>st_db := (st_db s)\<lparr>db_exports := db_exports (st_db s) @ [row\<lparr>x_at := rt_column rt (now_reading rt s)\<rparr>]\<rparr>\<rparr>))"

text \<open>The first session: the run of the principal's project, or \<open>LookupError\<close>.\<close>

definition export_source :: "principal \<Rightarrow> string \<Rightarrow> database \<Rightarrow> agent_run result" where
  "export_source p rid db =
    (case get_run db rid of
       None \<Rightarrow> Inl (LookupError ''run not found'')
     | Some run \<Rightarrow>
         if r_org run \<noteq> pr_org p \<or> r_project run \<noteq> pr_project p then Inl (LookupError ''run not found'') else Inr run)"

text \<open>The event about the export: whatever \<open>append_events\<close> raises is dropped.\<close>

definition announce_export :: "runtime \<Rightarrow> rule list \<Rightarrow> settings \<Rightarrow> principal \<Rightarrow> string \<Rightarrow> pydict \<Rightarrow> cstate \<Rightarrow> cstate" where
  "announce_export rt rules cfg p rid payload s =
    (let eid = generate_event_id (rt_ms rt (st_tick s)) (rt_rand rt (st_tick s)) in
     snd (append_events rt rules (cfg_schema_version cfg) p rid
       [export_event eid (cfg_schema_version cfg) payload] (tick s)))"

definition finish_export :: "runtime \<Rightarrow> settings \<Rightarrow> principal \<Rightarrow> evidence_export \<Rightarrow> pydict \<Rightarrow> json svc" where
  "finish_export rt cfg p row payload s =
    (case record_export rt row s of
       (Inl e, s') \<Rightarrow> (Inl e, s')
     | (Inr u, s') \<Rightarrow> (Inr (JDict payload), announce_export rt [] cfg p (x_run row) payload s'))"

definition export_run :: "runtime \<Rightarrow> archiver \<Rightarrow> settings \<Rightarrow> principal \<Rightarrow> string \<Rightarrow> string option \<Rightarrow> json svc" where
  "export_run rt zip_bytes cfg p rid generated_by s =
    (case export_source p rid (st_db s) of
       Inl e \<Rightarrow> (Inl e, s)
     | Inr run \<Rightarrow>
         (case verify rt p rid (st_db s) of
            Inl e \<Rightarrow> (Inl e, s)
          | Inr v \<Rightarrow>
              (let es = run_events (st_db s) rid;
                   approvals = run_approvals (st_db s) rid;
                   export_id = generate_export_id (rt_ms rt (st_tick s)) (rt_rand rt (st_tick s));
                   s1 = tick s;
                   man = manifest (cfg_schema_version cfg) export_id rid (now_reading rt s1) generated_by es v;
                   path = bundle_path cfg rid;
                   data = zip_bytes (bundle_members rt man run es approvals v);
                   s2 = write_file path data (tick s1);
                   h = ''sha256:'' @ rt_sha256 rt data;
                   row = \<lparr>x_id = export_id, x_run = rid, x_org = pr_org p, x_project = pr_project p, x_uri = path,
                     x_hash = h, x_count = int (length es), x_valid = v_valid v, x_by = generated_by,
                     x_at = now_reading rt s2\<rparr>
               in finish_export rt cfg p row (export_payload export_id path h (length es) (v_valid v)) s2)))"

text \<open>The download endpoint of \<open>app.py\<close>: the file the row names, as it is on disk now.\<close>

definition export_download :: "principal \<Rightarrow> string \<Rightarrow> cstate \<Rightarrow> string result" where
  "export_download p export_id s =
    (case find (\<lambda>x. x_id x = export_id) (db_exports (st_db s)) of
       None \<Rightarrow> Inl (HTTPException 404 ''export not found'')
     | Some row \<Rightarrow>
         if x_org row \<noteq> pr_org p \<or> x_project row \<noteq> pr_project p then Inl (HTTPException 403 ''forbidden'')
         else (case map_of (st_files s) (x_uri row) of
             None \<Rightarrow> Inl (HTTPException 410 ''bundle missing on disk'')
           | Some data \<Rightarrow> Inr data))"

end
