(* ===== verification/App.thy ===== *)
theory App
  imports Paging Policy_Laws Export
begin

section \<open>The HTTP application\<close>

text \<open>
  \<open>app.py\<close>: each endpoint asks for its scope, runs one operation of a service, and turns the
  exceptions it names into HTTP errors. A request is handled whole before the next one: the
  endpoints are coroutines that never wait. FastAPI's part, which calls the dependencies first and
  checks the bounds of the parameters, is written out; the dashboard's pages are not modelled.
\<close>

datatype request =
    Healthz
  | Metrics
  | EventTypes
  | RunsStart "string option" string "string option" string pydict
  | RunsEvents string "event_input list"
  | RunsCommit string
  | RunsRollback string "string option"
  | RunsGet string
  | RunsList int
  | RunsTimeline string int "int option"
  | RunsReplay string
  | RunsVerify string
  | PolicyCheck string pydict
  | PoliciesList
  | ApprovalsRequest approval_request
  | ApprovalsApprove string string "string option"
  | ApprovalsReject string string "string option"
  | ApprovalsPending
  | AuditExport string "string option"
  | ExportDownload string
  | QueryEvents query_request

datatype response = RJson json | RFile string

record deployment =
  dp_cfg :: settings
  dp_engine :: engine
  dp_opa :: "string \<Rightarrow> json \<Rightarrow> json result"
  dp_zip :: archiver

text \<open>The scope an endpoint depends on; the three of \<open>meta\<close> have none.\<close>

fun scope_of :: "request \<Rightarrow> (string \<times> string) option" where
  "scope_of Healthz = None"
| "scope_of Metrics = None"
| "scope_of EventTypes = None"
| "scope_of (RunsStart _ _ _ _ _) = Some (''runs'', ''write'')"
| "scope_of (RunsEvents _ _) = Some (''events'', ''write'')"
| "scope_of (RunsCommit _) = Some (''runs'', ''write'')"
| "scope_of (RunsRollback _ _) = Some (''runs'', ''write'')"
| "scope_of (RunsGet _) = Some (''runs'', ''read'')"
| "scope_of (RunsList _) = Some (''runs'', ''read'')"
| "scope_of (RunsTimeline _ _ _) = Some (''events'', ''read'')"
| "scope_of (RunsReplay _) = Some (''events'', ''read'')"
| "scope_of (RunsVerify _) = Some (''events'', ''read'')"
| "scope_of (PolicyCheck _ _) = Some (''policies'', ''read'')"
| "scope_of PoliciesList = Some (''policies'', ''read'')"
| "scope_of (ApprovalsRequest _) = Some (''approvals'', ''review'')"
| "scope_of (ApprovalsApprove _ _ _) = Some (''approvals'', ''review'')"
| "scope_of (ApprovalsReject _ _ _) = Some (''approvals'', ''review'')"
| "scope_of ApprovalsPending = Some (''approvals'', ''review'')"
| "scope_of (AuditExport _ _) = Some (''exports'', ''create'')"
| "scope_of (ExportDownload _) = Some (''exports'', ''create'')"
| "scope_of (QueryEvents _) = Some (''events'', ''read'')"

subsection \<open>Exceptions the endpoints catch\<close>

fun catch_ingest :: "exn \<Rightarrow> exn" where
  "catch_ingest (IngestError m c) = HTTPException c m"
| "catch_ingest e = e"

fun catch_lookup :: "exn \<Rightarrow> exn" where
  "catch_lookup (LookupError m) = HTTPException 404 m"
| "catch_lookup e = e"

fun catch_permission :: "exn \<Rightarrow> exn" where
  "catch_permission (PermissionError m) = HTTPException 403 m"
| "catch_permission e = e"

text \<open>The outcome of an operation as a response, its exceptions passed through \<open>catch\<close>.\<close>

definition respond :: "(exn \<Rightarrow> exn) \<Rightarrow> ('a \<Rightarrow> response) \<Rightarrow> 'a result \<Rightarrow> response result" where
  "respond catch show r = (case r of Inl e \<Rightarrow> Inl (catch e) | Inr x \<Rightarrow> Inr (show x))"

definition respond_st :: "(exn \<Rightarrow> exn) \<Rightarrow> ('a \<Rightarrow> response) \<Rightarrow> 'a svc \<Rightarrow> response svc" where
  "respond_st catch show f s = map_prod (respond catch show) (\<lambda>s'. s') (f s)"

definition event_ids_json :: "string list \<Rightarrow> json" where
  "event_ids_json ids = JDict [(''event_ids'', JList (map JStr ids))]"

definition metrics_json :: "metrics \<Rightarrow> json" where
  "metrics_json m = (case snapshot m of (cs, hs) \<Rightarrow> JDict [
     (''counters'', JDict (map (\<lambda>(k, c). (k, JFloat (FRat (of_int c)))) cs)),
     (''histograms'', JDict (map (\<lambda>(k, vs). (k, JList (map (JFloat \<circ> FRat) vs))) hs))])"

definition validation_error :: exn where
  "validation_error = HTTPException 422 ''validation error''"

subsection \<open>The replay endpoint\<close>

definition replay :: "runtime \<Rightarrow> principal \<Rightarrow> string \<Rightarrow> json svc" where
  "replay rt p rid s =
    (let start = rt_perf rt (st_tick s); s1 = tick s in
     case timeline p rid 1000 None (st_db s1) of
       Inl e \<Rightarrow> (Inl e, s1)
     | Inr t \<Rightarrow>
         (case verify rt p rid (st_db s1) of
            Inl e \<Rightarrow> (Inl e, s1)
          | Inr v \<Rightarrow>
              (Inr (JDict [(''timeline'', t), (''verification'', verification_dict v), (''mode'', JStr ''historical'')]),
               tick s1\<lparr>st_metrics := observe ''controldb.replay.latency_ms''
                  ((rt_perf rt (st_tick s1) - start) * 1000) (st_metrics s1)\<rparr>)))"

subsection \<open>The endpoints\<close>

definition rules_of_app :: "rule list" where
  "rules_of_app = []"  \<comment> \<open>\<open>IngestService(db)\<close>: no redaction rules are passed\<close>

fun handle :: "runtime \<Rightarrow> deployment \<Rightarrow> principal \<Rightarrow> request \<Rightarrow> response svc" where
  "handle rt dp p (RunsStart rid agent version env meta) s =
     respond_st catch_ingest RJson (start_run rt p rid agent version env meta) s"
| "handle rt dp p (RunsEvents rid evs) s =
     respond_st catch_ingest (RJson \<circ> event_ids_json)
       (append_events rt rules_of_app (cfg_schema_version (dp_cfg dp)) p rid evs) s"
| "handle rt dp p (RunsCommit rid) s = respond_st catch_ingest RJson (commit_run rt p rid) s"
| "handle rt dp p (RunsRollback rid reason) s = respond_st catch_ingest RJson (rollback_run rt p rid reason) s"
| "handle rt dp p (RunsGet rid) s = (respond catch_ingest RJson (get_run_view p rid (st_db s)), s)"
| "handle rt dp p (RunsList limit) s =
     (if limit < 1 \<or> 500 < limit then (Inl validation_error, s)
      else (Inr (RJson (list_runs p (nat limit) (st_db s))), s))"
| "handle rt dp p (RunsTimeline rid limit cursor) s =
     (if limit < 1 \<or> 5000 < limit \<or> (case cursor of None \<Rightarrow> False | Some c \<Rightarrow> c < 0) then (Inl validation_error, s)
      else (respond catch_ingest RJson (timeline p rid (nat limit) (map_option nat cursor) (st_db s)), s))"
| "handle rt dp p (RunsReplay rid) s = respond_st catch_ingest RJson (replay rt p rid) s"
| "handle rt dp p (RunsVerify rid) s =
     (respond catch_ingest (RJson \<circ> verification_dict) (verify rt p rid (st_db s)), s)"
| "handle rt dp p (PolicyCheck pid input) s =
     respond_st (\<lambda>e. e) RJson (policy_check rt (dp_opa dp) (dp_engine dp) pid input) s"
| "handle rt dp p PoliciesList s =
     (Inr (RJson (JDict [(''policies'', JList (list_policies (dp_engine dp)))])), s)"
| "handle rt dp p (ApprovalsRequest q) s = respond_st (\<lambda>e. e) RJson (request_approval rt p q) s"
| "handle rt dp p (ApprovalsApprove aid reviewer reason) s =
     respond_st (catch_permission \<circ> catch_lookup) RJson (decide rt p aid ''approved'' reviewer reason) s"
| "handle rt dp p (ApprovalsReject aid reviewer reason) s =
     respond_st catch_lookup RJson (decide rt p aid ''rejected'' reviewer reason) s"
| "handle rt dp p ApprovalsPending s =
     (Inr (RJson (JDict [(''approvals'', JList (pending p (st_db s)))])), s)"
| "handle rt dp p (AuditExport rid by) s =
     respond_st catch_lookup RJson (export_run rt (dp_zip dp) (dp_cfg dp) p rid by) s"
| "handle rt dp p (ExportDownload xid) s = (respond (\<lambda>e. e) RFile (export_download p xid s), s)"
| "handle rt dp p (QueryEvents q) s = (Inr (RJson (query p q (st_db s))), s)"
| "handle rt dp p Healthz s =
     (Inr (RJson (JDict [(''status'', JStr ''ok''), (''schema_version'', JStr (cfg_schema_version (dp_cfg dp)))])), s)"
| "handle rt dp p Metrics s = (Inr (RJson (metrics_json (st_metrics s))), s)"
| "handle rt dp p EventTypes s =
     (Inr (RJson (JDict [(''schema_version'', JStr (cfg_schema_version (dp_cfg dp))),
        (''event_types'', JList (map JStr (sort EVENT_TYPES)))])), s)"

definition no_principal :: principal where
  "no_principal = \<lparr>pr_key = [], pr_org = [], pr_project = [], pr_scopes = []\<rparr>"

text \<open>A request with its \<open>Authorization\<close> header: the dependencies run before the endpoint.\<close>

definition serve :: "runtime \<Rightarrow> deployment \<Rightarrow> string option \<Rightarrow> request \<Rightarrow> response svc" where
  "serve rt dp auth req s =
    (case scope_of req of
       None \<Rightarrow> handle rt dp no_principal req s
     | Some (resource, action) \<Rightarrow>
         (case current_principal rt auth (st_db s) of
            Inl e \<Rightarrow> (Inl e, s)
          | Inr p \<Rightarrow>
              (case require_scope resource action p of
                 Inl e \<Rightarrow> (Inl e, s)
               | Inr p' \<Rightarrow> handle rt dp p' req s)))"

text \<open>The status of a response: an exception without a handler is a server error.\<close>

definition http_status :: "response result \<Rightarrow> nat" where
  "http_status r = (case r of
      Inr _ \<Rightarrow> 200
    | Inl (HTTPException code detail) \<Rightarrow> code
    | Inl (IngestError m code) \<Rightarrow> code
    | Inl _ \<Rightarrow> 500)"

subsection \<open>Runs of the collector\<close>

text \<open>
  A collector serves a request, or is stopped and started again: the database stays and is bootstrapped, with the tenant and the
  keys its environment has then, and the metrics begin anew.
\<close>

inductive step :: "runtime \<Rightarrow> deployment \<Rightarrow> cstate \<Rightarrow> cstate \<Rightarrow> bool" for rt dp where
  served: "serve rt dp auth req s = (r, s') \<Longrightarrow> step rt dp s s'"
| restarted: "bootstrap rt cfg now (st_db s) = Inr db \<Longrightarrow> step rt dp s (s\<lparr>st_db := db, st_metrics := METRICS\<rparr>)"

inductive reachable :: "runtime \<Rightarrow> deployment \<Rightarrow> datetime \<Rightarrow> cstate \<Rightarrow> bool" for rt dp now where
  start: "bootstrap rt (dp_cfg dp) now empty_db = Inr db
    \<Longrightarrow> reachable rt dp now \<lparr>st_db = db, st_metrics = METRICS, st_tick = n, st_files = files\<rparr>"
| more: "reachable rt dp now s \<Longrightarrow> step rt dp s s' \<Longrightarrow> reachable rt dp now s'"

inductive_cases stepE: "step rt dp s s'"

end
