(* ===== verification/App_Laws.thy ===== *)
theory App_Laws
  imports App
begin

section \<open>Tenants, atomicity and reachable states\<close>

text \<open>
  The contract every operation of the services keeps, as a locale: it leaves a well-formed database
  well-formed, it only appends events, all of the caller's own project, it changes nothing of another
  project, and it changes no table when it raises. Each operation of the model is an instance; the
  request handler is put together from them, and the reachable states inherit the invariant.
\<close>

definition own_run :: "principal \<Rightarrow> agent_run \<Rightarrow> bool" where
  "own_run p r \<longleftrightarrow> r_org r = pr_org p \<and> r_project r = pr_project p"

definition own_event :: "principal \<Rightarrow> audit_event \<Rightarrow> bool" where
  "own_event p e \<longleftrightarrow> e_org e = pr_org p \<and> e_project e = pr_project p"

definition own_approval :: "principal \<Rightarrow> approval \<Rightarrow> bool" where
  "own_approval p a \<longleftrightarrow> a_org a = pr_org p \<and> a_project a = pr_project p"

definition own_export :: "principal \<Rightarrow> evidence_export \<Rightarrow> bool" where
  "own_export p x \<longleftrightarrow> x_org x = pr_org p \<and> x_project x = pr_project p"

text \<open>A table before and after: rows of others are the same, in the same order.\<close>

definition tenant_step :: "principal \<Rightarrow> database \<Rightarrow> database \<Rightarrow> bool" where
  "tenant_step p db db' \<longleftrightarrow>
     db_ok db'
     \<and> db_orgs db' = db_orgs db \<and> db_projects db' = db_projects db \<and> db_keys db' = db_keys db
     \<and> filter (\<lambda>r. \<not> own_run p r) (db_runs db') = filter (\<lambda>r. \<not> own_run p r) (db_runs db)
     \<and> filter (\<lambda>a. \<not> own_approval p a) (db_approvals db') = filter (\<lambda>a. \<not> own_approval p a) (db_approvals db)
     \<and> filter (\<lambda>x. \<not> own_export p x) (db_exports db') = filter (\<lambda>x. \<not> own_export p x) (db_exports db)
     \<and> (\<exists>new. db_events db' = db_events db @ new \<and> (\<forall>e \<in> set new. own_event p e))"

lemma tenant_step_refl: "db_ok db \<Longrightarrow> tenant_step p db db"
  by (simp add: tenant_step_def)

lemma tenant_step_trans: "tenant_step p a b \<Longrightarrow> tenant_step p b c \<Longrightarrow> tenant_step p a c"
  unfolding tenant_step_def by fastforce

lemma tenant_step_foreign_events:
  assumes "tenant_step p db db'"
  shows "filter (\<lambda>e. \<not> own_event p e) (db_events db') = filter (\<lambda>e. \<not> own_event p e) (db_events db)"
  using assms by (auto simp: tenant_step_def filter_empty_conv)

lemma tenant_step_foreign_run:
  assumes "tenant_step p db db'" "r \<in> set (db_runs db)" "\<not> own_run p r"
  shows "get_run db' (r_id r) = Some r"
proof -
  have "r \<in> set (filter (\<lambda>r. \<not> own_run p r) (db_runs db'))"
    using assms by (simp add: tenant_step_def)
  then show ?thesis
    using assms(1) by (intro db_ok_run_unique) (auto simp: tenant_step_def)
qed

subsection \<open>The interface of an operation\<close>

locale service_op =
  fixes op :: "principal \<Rightarrow> 'q \<Rightarrow> 'a svc"
  assumes tenant: "db_ok (st_db s) \<Longrightarrow> op p q s = (x, s') \<Longrightarrow> tenant_step p (st_db s) (st_db s')"
    and fails: "op p q s = (Inl e, s') \<Longrightarrow> st_db s' = st_db s"
begin

lemma keeps_ok: "db_ok (st_db s) \<Longrightarrow> op p q s = (x, s') \<Longrightarrow> db_ok (st_db s')"
  using tenant [of s p q x s'] by (simp add: tenant_step_def)

text \<open>The contract passes through an endpoint.\<close>

lemma endpoint_tenant:
  assumes "db_ok (st_db s)" "respond_st catch show (op p q) s = (r, s')"
  shows "tenant_step p (st_db s) (st_db s')"
proof -
  obtain x where "op p q s = (x, s')" using assms(2) by (cases "op p q s") (simp add: respond_st_def)
  with assms(1) show ?thesis by (rule tenant)
qed

lemma endpoint_fails:
  assumes "respond_st catch show (op p q) s = (Inl e, s')"
  shows "st_db s' = st_db s"
proof -
  obtain e' where "op p q s = (Inl e', s')"
    using assms by (cases "op p q s") (auto simp: respond_st_def respond_def split: sum.splits)
  then show ?thesis by (rule fails)
qed

end

subsection \<open>Runs\<close>

lemma map_the_get_run:
  assumes "db_ok db"
  shows "map (\<lambda>i. the (get_run db i)) (map r_id (db_runs db)) = db_runs db"
  using assms by (simp add: map_idI db_ok_run_unique)

lemma run_session_runs:
  assumes "db_ok db" "db_ok db'" "map run_identity (db_runs db') = map run_identity (db_runs db)"
  shows "db_runs db' = map (\<lambda>r. the (get_run db' (r_id r))) (db_runs db)"
proof -
  have "map r_id (db_runs db') = map r_id (db_runs db)"
    using arg_cong [OF assms(3), of "map fst"] by (simp add: run_identity_def comp_def)
  then show ?thesis
    using map_the_get_run [OF assms(2)] by (metis (no_types, lifting) list.map_comp map_eq_conv comp_apply)
qed

lemma filter_map_frame:
  assumes "\<And>r. r \<in> set rs \<Longrightarrow> P (g r) = P r" "\<And>r. r \<in> set rs \<Longrightarrow> P r \<Longrightarrow> g r = r"
  shows "filter P (map g rs) = filter P rs"
  using assms by (induction rs) auto

lemma run_session_tenant:
  assumes "run_session db rid db'" "db_ok db" "get_run db rid = Some run" "own_run p run"
  shows "tenant_step p db db'"
proof -
  have ok': "db_ok db'" using assms(1) by (simp add: run_session_def)
  let ?g = "\<lambda>r. the (get_run db' (r_id r))"
  have runs: "db_runs db' = map ?g (db_runs db)"
    using assms(1,2) by (intro run_session_runs) (auto simp: run_session_def)
  have "own_run p (?g r) = own_run p r \<and> (\<not> own_run p r \<longrightarrow> ?g r = r)" if "r \<in> set (db_runs db)" for r
  proof (cases "r_id r = rid")
    case True
    then have "r = run" using db_ok_run_unique [OF assms(2) that] assms(3) by simp
    moreover from assms(1,3) obtain run' where "get_run db' rid = Some run'" "run_identity run' = run_identity run"
      by (auto simp: run_session_def)
    ultimately show ?thesis using True assms(4) by (simp add: own_run_def run_identity_def)
  next
    case False
    then show ?thesis using assms(1) db_ok_run_unique [OF assms(2) that] by (simp add: run_session_def)
  qed
  then have foreign: "filter (\<lambda>r. \<not> own_run p r) (db_runs db') = filter (\<lambda>r. \<not> own_run p r) (db_runs db)"
    unfolding runs by (intro filter_map_frame) auto
  obtain new where new: "db_events db' = db_events db @ new" "\<forall>e \<in> set new. e_run e = rid"
    using assms(1) by (rule run_session_new)
  from assms(1,3) obtain run' where run': "get_run db' rid = Some run'" "run_identity run' = run_identity run"
    by (auto simp: run_session_def)
  have "own_event p e" if "e \<in> set new" for e
  proof -
    have "event_of_run e run'"
      using that new run'(1) by (intro db_ok_event_run [OF ok']) auto
    with run'(2) assms(4) show ?thesis by (simp add: own_event_def own_run_def event_of_run_def run_identity_def)
  qed
  with foreign ok' new(1) assms(1) show ?thesis by (simp add: tenant_step_def run_session_def)
qed

lemma append_events_tenant:
  assumes "db_ok (st_db s)" "append_events rt rules schema p rid evs s = (x, s')"
  shows "tenant_step p (st_db s) (st_db s')"
proof (cases x)
  case (Inl e)
  with assms show ?thesis using append_events_Inl tenant_step_refl by metis
next
  case (Inr ids)
  show ?thesis
  proof (cases "evs = []")
    case True
    with assms Inr show ?thesis by (simp add: append_events_def tenant_step_refl)
  next
    case False
    with assms(2) Inr obtain run where "authorize_run (st_db s) p rid = Inr run"
      using append_events_Inr by metis
    then show ?thesis
      using run_session_tenant [of "st_db s" rid "st_db s'" run p] append_events_session [of rt rules schema p rid evs s ids s'] assms Inr
      by (simp add: authorize_run_Inr own_run_def)
  qed
qed

interpretation append_op: service_op "\<lambda>p (rid, evs). append_events rt rules schema p rid evs" for rt rules schema
  by unfold_locales (auto intro: append_events_tenant append_events_Inl split: prod.splits)

lemma update_own_run_tenant:
  assumes "db_ok db" "authorize_run db p rid = Inr run" "\<And>r. run_identity (f r) = run_identity r"
  shows "tenant_step p db (update_run rid f db)"
  using assms run_session_update [OF run_session_refl [OF assms(1)] assms(3)]
  by (intro run_session_tenant [of _ rid _ run]) (auto simp: authorize_run_Inr own_run_def)

lemma set_status_identity [simp]: "run_identity (set_status st d r) = run_identity r"
  by (simp add: set_status_def run_identity_def)

lemma identity_metadata [simp]: "run_identity (r\<lparr>r_metadata := m\<rparr>) = run_identity r"
  by (simp add: run_identity_def)

lemma commit_run_tenant:
  assumes "db_ok (st_db s)" "commit_run rt p rid s = (x, s')"
  shows "tenant_step p (st_db s) (st_db s')"
  using assms update_own_run_tenant [OF assms(1), of p rid]
  by (auto simp: commit_run_def with_session_def tenant_step_refl split: sum.splits)

interpretation commit_op: service_op "\<lambda>p rid. commit_run rt p rid" for rt
  by unfold_locales (auto intro: commit_run_tenant simp: commit_run_def dest: with_session_Inl)

lemma rollback_run_tenant:
  assumes "db_ok (st_db s)" "rollback_run rt p rid reason s = (x, s')"
  shows "tenant_step p (st_db s) (st_db s')"
  using assms update_own_run_tenant [OF assms(1), of p rid]
  by (auto simp: rollback_run_def with_session_def tenant_step_refl split: sum.splits)

lemma rollback_run_fails: "rollback_run rt p rid reason s = (Inl e, s') \<Longrightarrow> st_db s' = st_db s"
  by (auto simp: rollback_run_def with_session_def split: sum.splits)

interpretation rollback_op: service_op "\<lambda>p (rid, reason). rollback_run rt p rid reason" for rt
  by unfold_locales (auto intro: rollback_run_tenant rollback_run_fails split: prod.splits)

text \<open>A new run has an id that no run has.\<close>

lemma add_run_tenant:
  assumes "db_ok db" "get_run db (r_id row) = None" "own_run p row"
  shows "tenant_step p db (db\<lparr>db_runs := db_runs db @ [row]\<rparr>)"
proof -
  have "r_id row \<notin> set (map r_id (db_runs db))"
    using assms(2) by (auto simp: get_run_def find_None_iff)
  with assms(1) have "db_ok (db\<lparr>db_runs := db_runs db @ [row]\<rparr>)"
    by (auto simp: db_ok_def)
  with assms(3) show ?thesis by (simp add: tenant_step_def)
qed

lemma start_run_tenant:
  assumes "db_ok (st_db s)" "start_run rt p rid agent version env meta s = (x, s')"
  shows "tenant_step p (st_db s) (st_db s')"
  using assms
  by (auto simp: start_run_def with_session_def Let_def tenant_step_refl own_run_def
      intro!: add_run_tenant split: if_splits option.splits)

lemma start_run_fails: "start_run rt p rid agent version env meta s = (Inl e, s') \<Longrightarrow> st_db s' = st_db s"
  by (auto simp: start_run_def with_session_def Let_def split: if_splits option.splits)

interpretation start_op: service_op "\<lambda>p (rid, agent, version, env, meta). start_run rt p rid agent version env meta" for rt
  by unfold_locales (auto intro: start_run_tenant start_run_fails split: prod.splits)

subsection \<open>Approvals\<close>

lemma update_approval_tables:
  "db_runs (update_approval k f db) = db_runs db" "db_events (update_approval k f db) = db_events db"
  by (simp_all add: update_approval_def)

lemma update_approval_ok:
  assumes "db_ok db" "\<And>a. a_id (f a) = a_id a"
  shows "db_ok (update_approval k f db)"
proof -
  have "map a_id (db_approvals (update_approval k f db)) = map a_id (db_approvals db)"
    by (simp add: update_approval_def assms(2))
  then show ?thesis using assms(1) unfolding db_ok_def by (metis update_approval_tables)
qed

lemma update_own_approval_tenant:
  assumes "db_ok db" "get_approval db aid = Some a" "own_approval p a"
    and "\<And>a. a_id (f a) = a_id a \<and> a_org (f a) = a_org a \<and> a_project (f a) = a_project a"
  shows "tenant_step p db (update_approval aid f db)"
proof -
  have own: "own_approval p (f a') = own_approval p a'" for a' using assms(4) by (simp add: own_approval_def)
  have uniq: "a' = a" if "a' \<in> set (db_approvals db)" "a_id a' = aid" for a'
  proof -
    have "find (\<lambda>x. a_id x = a_id a') (db_approvals db) = Some a'"
      using that(1) assms(1) by (intro find_unique_key) (auto simp: db_ok_def)
    with that(2) assms(2) show ?thesis by (simp add: get_approval_def)
  qed
  have "filter (\<lambda>a. \<not> own_approval p a) (map (\<lambda>a. if a_id a = aid then f a else a) (db_approvals db))
      = filter (\<lambda>a. \<not> own_approval p a) (db_approvals db)"
    using uniq assms(3) own by (intro filter_map_frame) auto
  moreover have "db_ok (update_approval aid f db)"
    using assms(1,4) by (intro update_approval_ok) auto
  ultimately show ?thesis by (simp add: tenant_step_def update_approval_def)
qed

lemma decide_tenant:
  assumes "db_ok (st_db s)" "decide rt p aid decision reviewer reason s = (x, s')"
  shows "tenant_step p (st_db s) (st_db s')"
  using assms
  by (auto simp: decide_def with_session_def Let_def tenant_step_refl own_approval_def decided_def
      intro!: update_own_approval_tenant split: if_splits option.splits)

lemma decide_fails: "decide rt p aid decision reviewer reason s = (Inl e, s') \<Longrightarrow> st_db s' = st_db s"
  by (auto simp: decide_def with_session_def Let_def split: if_splits option.splits)

interpretation decide_op: service_op "\<lambda>p (aid, decision, reviewer, reason). decide rt p aid decision reviewer reason" for rt
  by unfold_locales (auto intro: decide_tenant decide_fails split: prod.splits)

lemma add_approval_tenant:
  assumes "db_ok db" "get_approval db (a_id row) = None" "own_approval p row"
  shows "tenant_step p db (db\<lparr>db_approvals := db_approvals db @ [row]\<rparr>)"
proof -
  have "a_id row \<notin> set (map a_id (db_approvals db))"
    using assms(2) by (auto simp: get_approval_def find_None_iff)
  with assms(1,3) show ?thesis by (simp add: tenant_step_def db_ok_def)
qed

lemma request_approval_tenant:
  assumes "db_ok (st_db s)" "request_approval rt p q s = (x, s')"
  shows "tenant_step p (st_db s) (st_db s')"
  using assms
  by (auto simp: request_approval_def with_session_def Let_def tenant_step_refl own_approval_def
      intro!: add_approval_tenant split: if_splits option.splits)

lemma request_approval_fails: "request_approval rt p q s = (Inl e, s') \<Longrightarrow> st_db s' = st_db s"
  by (auto simp: request_approval_def with_session_def Let_def split: if_splits option.splits)

interpretation request_op: service_op "\<lambda>p q. request_approval rt p q" for rt
  by unfold_locales (auto intro: request_approval_tenant request_approval_fails)

subsection \<open>Policy checks, replays and exports\<close>

lemma policy_check_frame: "policy_check rt opa en pid input s = (x, s') \<Longrightarrow> st_db s' = st_db s"
  by (auto simp: policy_check_def split: sum.splits)

interpretation policy_op: service_op "\<lambda>p (pid, input). policy_check rt opa en pid input" for rt opa en
  by unfold_locales (auto simp: policy_check_frame tenant_step_refl dest: policy_check_frame split: prod.splits)

lemma replay_frame: "replay rt p rid s = (x, s') \<Longrightarrow> st_db s' = st_db s"
  by (auto simp: replay_def Let_def split: sum.splits)

interpretation replay_op: service_op "\<lambda>p rid. replay rt p rid" for rt
  by unfold_locales (auto simp: tenant_step_refl dest: replay_frame)

lemma record_export_tenant:
  assumes "record_export rt row s = (x, s')" "db_ok (st_db s)" "own_export p row"
  shows "tenant_step p (st_db s) (st_db s')"
  using assms
  by (auto simp: record_export_def with_session_def Let_def tenant_step_def db_ok_def own_export_def split: if_splits)

lemma record_export_fails: "record_export rt row s = (Inl e, s') \<Longrightarrow> st_db s' = st_db s"
  unfolding record_export_def by (rule with_session_Inl)

lemma announce_export_tenant:
  assumes "db_ok (st_db s)"
  shows "tenant_step p (st_db s) (st_db (announce_export rt rules cfg p rid payload s))"
  unfolding announce_export_def Let_def
  using append_events_tenant [of "tick s", OF _ surjective_pairing] assms by simp

lemma finish_export_tenant:
  assumes "finish_export rt cfg p row payload s = (x, s')" "db_ok (st_db s)" "own_export p row"
  shows "tenant_step p (st_db s) (st_db s')"
proof -
  obtain y s1 where rec: "record_export rt row s = (y, s1)" by force
  note t = record_export_tenant [OF rec assms(2,3)]
  then have "db_ok (st_db s1)" by (simp add: tenant_step_def)
  with assms(1) t tenant_step_trans [OF t announce_export_tenant] show ?thesis
    by (auto simp: finish_export_def rec split: sum.splits)
qed

lemma finish_export_fails: "finish_export rt cfg p row payload s = (Inl e, s') \<Longrightarrow> st_db s' = st_db s"
  by (auto simp: finish_export_def split: prod.splits sum.splits dest!: record_export_fails)

lemma export_run_tenant:
  assumes "db_ok (st_db s)" "export_run rt zip_bytes cfg p rid by s = (x, s')"
  shows "tenant_step p (st_db s) (st_db s')"
proof -
  have fin: "tenant_step p (st_db s) (st_db s')"
    if "finish_export rt cfg p row payload s2 = (x, s')" "st_db s2 = st_db s" "own_export p row" for row payload s2
    using finish_export_tenant [OF that(1)] that(2,3) assms(1) by simp
  show ?thesis
    using assms by (auto simp: export_run_def Let_def tenant_step_refl own_export_def intro!: fin split: sum.splits)
qed

lemma export_run_fails: "export_run rt zip_bytes cfg p rid by s = (Inl e, s') \<Longrightarrow> st_db s' = st_db s"
  by (auto simp: export_run_def Let_def split: sum.splits dest!: finish_export_fails)

interpretation export_op: service_op "\<lambda>p (rid, by). export_run rt zip_bytes cfg p rid by" for rt zip_bytes cfg
  by unfold_locales (auto intro: export_run_tenant export_run_fails split: prod.splits)

subsection \<open>Every request\<close>

lemmas endpoint_tenant =
  start_op.endpoint_tenant [where q = "(rid, agent, version, env, meta)" for rid agent version env meta, simplified]
  append_op.endpoint_tenant [where q = "(rid, evs)" for rid evs, simplified]
  commit_op.endpoint_tenant
  rollback_op.endpoint_tenant [where q = "(rid, reason)" for rid reason, simplified]
  replay_op.endpoint_tenant
  policy_op.endpoint_tenant [where q = "(pid, input)" for pid input, simplified]
  request_op.endpoint_tenant
  decide_op.endpoint_tenant [where q = "(aid, decision, reviewer, reason)" for aid decision reviewer reason, simplified]
  export_op.endpoint_tenant [where q = "(rid, by)" for rid "by", simplified]

lemmas endpoint_fails =
  start_op.endpoint_fails [where q = "(rid, agent, version, env, meta)" for rid agent version env meta, simplified]
  append_op.endpoint_fails [where q = "(rid, evs)" for rid evs, simplified]
  commit_op.endpoint_fails
  rollback_op.endpoint_fails [where q = "(rid, reason)" for rid reason, simplified]
  replay_op.endpoint_fails
  policy_op.endpoint_fails [where q = "(pid, input)" for pid input, simplified]
  request_op.endpoint_fails
  decide_op.endpoint_fails [where q = "(aid, decision, reviewer, reason)" for aid decision reviewer reason, simplified]
  export_op.endpoint_fails [where q = "(rid, by)" for rid "by", simplified]

lemma handle_tenant:
  assumes "handle rt dp p req s = (r, s')" "db_ok (st_db s)"
  shows "tenant_step p (st_db s) (st_db s')"
  using assms by (cases req) (auto simp: tenant_step_refl intro: endpoint_tenant split: if_splits)

lemma handle_fails:
  assumes "handle rt dp p req s = (Inl e, s')"
  shows "st_db s' = st_db s"
  using assms by (cases req) (auto dest: endpoint_fails split: if_splits)

lemma serve_cases:
  assumes "serve rt dp auth req s = (r, s')"
  obtains (refused) e where "r = Inl e" "s' = s"
  | (open_endpoint) "scope_of req = None" "handle rt dp no_principal req s = (r, s')"
  | (principal) p resource action where "scope_of req = Some (resource, action)"
      "current_principal rt auth (st_db s) = Inr p" "require_scope resource action p = Inr p"
      "handle rt dp p req s = (r, s')"
proof (cases "scope_of req")
  case None
  with assms open_endpoint show thesis by (simp add: serve_def)
next
  case (Some ra)
  obtain resource action where ra: "ra = (resource, action)" by force
  show thesis
  proof (cases "current_principal rt auth (st_db s)")
    case (Inl e)
    with assms Some ra have "r = Inl e" "s' = s" by (simp_all add: serve_def)
    then show thesis by (rule refused)
  next
    case p: (Inr p)
    show thesis
    proof (cases "require_scope resource action p")
      case (Inl e)
      with assms Some ra p have "r = Inl e" "s' = s" by (simp_all add: serve_def)
      then show thesis by (rule refused)
    next
      case (Inr p')
      then have "p' = p" by (auto simp: require_scope_def Let_def split: if_splits)
      with assms Some ra p Inr principal show thesis by (simp add: serve_def)
    qed
  qed
qed

lemma open_endpoint_frame: "scope_of req = None \<Longrightarrow> handle rt dp p req s = (r, s') \<Longrightarrow> s' = s"
  by (cases req) auto

lemma serve_tenant:
  assumes "serve rt dp auth req s = (r, s')" "db_ok (st_db s)"
  shows "st_db s' = st_db s \<or> (\<exists>p. current_principal rt auth (st_db s) = Inr p \<and> tenant_step p (st_db s) (st_db s'))"
  using assms(1)
proof (cases rule: serve_cases)
  case (refused e)
  then show ?thesis by simp
next
  case open_endpoint
  then show ?thesis using open_endpoint_frame by blast
next
  case (principal p resource action)
  then show ?thesis using handle_tenant [OF principal(4) assms(2)] by blast
qed

lemma serve_fails:
  assumes "serve rt dp auth req s = (Inl e, s')"
  shows "st_db s' = st_db s"
  using assms
proof (cases rule: serve_cases)
  case (refused e)
  then show ?thesis by simp
next
  case open_endpoint
  then show ?thesis using handle_fails by blast
next
  case (principal p resource action)
  then show ?thesis using handle_fails by blast
qed

subsection \<open>Reachable states\<close>

lemma bootstrap_kept: "bootstrap rt cfg now db = Inr db' \<Longrightarrow> db_ok db \<Longrightarrow> db_ok db'"
  by (simp add: db_ok_def bootstrap_tables)

lemma step_ok: "step rt dp s s' \<Longrightarrow> db_ok (st_db s) \<Longrightarrow> db_ok (st_db s')"
  by (auto elim!: stepE dest!: serve_tenant bootstrap_kept simp: tenant_step_def)

lemma bootstrap_ok: "bootstrap rt cfg now empty_db = Inr db \<Longrightarrow> db_ok db"
  by (rule bootstrap_kept [OF _ db_ok_empty])

lemma reachable_ok: "reachable rt dp now s \<Longrightarrow> db_ok (st_db s)"
  by (induction rule: reachable.induct) (auto dest: bootstrap_ok step_ok)

lemma step_append_only:
  assumes "step rt dp s s'" "db_ok (st_db s)"
  shows "\<exists>new. db_events (st_db s') = db_events (st_db s) @ new"
  using assms by (auto elim!: stepE dest!: serve_tenant simp: tenant_step_def bootstrap_tables)

text \<open>What was recorded stays recorded, in place and unchanged.\<close>

lemma steps_append_only:
  assumes "(step rt dp)\<^sup>*\<^sup>* s s'" "db_ok (st_db s)"
  shows "db_ok (st_db s') \<and> (\<exists>new. db_events (st_db s') = db_events (st_db s) @ new)"
  using assms
proof (induction rule: rtranclp_induct)
  case base
  then show ?case by simp
next
  case (step t u)
  then show ?case using step_ok [OF step(2)] step_append_only [OF step(2)] by fastforce
qed

end
