(* ===== verification/Transport.thy ===== *)
theory Transport
  imports Ids
begin

section \<open>The SDK's transport\<close>

text \<open>
  \<open>transport.py\<close>: requests with retries and exponential backoff, the classification of the
  answers, and the spool that keeps batches on disk while the collector cannot be reached. The wire
  is a parameter: the answer to the \<open>n\<close>-th call, as \<open>httpx\<close> gives it. The state records the
  calls made, the pauses between them, and the lines of the spool file.
\<close>

text \<open>\<open>str(value)\<close>, as a format string shows it.\<close>

definition show_value :: "runtime \<Rightarrow> json \<Rightarrow> string" where
  "show_value rt v = (case v of JStr s \<Rightarrow> s | _ \<Rightarrow> rt_repr rt v)"

subsection \<open>The wire\<close>

record http_call =
  hc_method :: string
  hc_path :: string
  hc_body :: "json option"
  hc_key :: "string option"

text \<open>A body: none, the text of a JSON value, or text that is no JSON.\<close>

datatype body = NoBody | JsonBody json | TextBody string

datatype answer = NoAnswer string | Answer nat body

record sdk_state =
  sd_tick :: nat
  sd_sent :: "http_call list"
  sd_slept :: "rat list"
  sd_spool :: "json list"

record transport =
  tc_max_retries :: nat
  tc_backoff_initial :: rat
  tc_backoff_max :: rat
  tc_fail_open :: bool
  tc_spooling :: bool

text \<open>The world of the SDK: the wire, and the random number in \<open>[0, 1]\<close> behind \<open>random.uniform\<close>.\<close>

record world =
  wo_rt :: runtime
  wo_net :: "nat \<Rightarrow> http_call \<Rightarrow> answer"
  wo_jitter :: "nat \<Rightarrow> rat"

type_synonym 'a sdk = "sdk_state \<Rightarrow> 'a result \<times> sdk_state"

subsection \<open>Classifying an answer\<close>

text \<open>\<open>message or default\<close>; a message that is no string is shown by \<open>str\<close> when the error is.\<close>

definition or_text :: "runtime \<Rightarrow> json \<Rightarrow> string \<Rightarrow> string" where
  "or_text rt v d = (if truthy v then (case v of JStr s \<Rightarrow> s | _ \<Rightarrow> rt_repr rt v) else d)"

definition error_message :: "runtime \<Rightarrow> body \<Rightarrow> json" where
  "error_message rt b = (case b of
      JsonBody (JDict d) \<Rightarrow> dict_get d ''detail''
    | JsonBody (JStr s) \<Rightarrow> JStr s
    | JsonBody v \<Rightarrow> JStr (rt_repr rt v)
    | TextBody t \<Rightarrow> JStr t
    | NoBody \<Rightarrow> JStr [])"

definition raise_for_status :: "runtime \<Rightarrow> nat \<Rightarrow> body \<Rightarrow> exn option" where
  "raise_for_status rt status b =
    (if status < 400 then None
     else let m = error_message rt b in
       if status = 401 then Some (AuthenticationError (or_text rt m ''unauthenticated''))
       else if status = 403 then Some (AuthorizationError (or_text rt m ''forbidden''))
       else if status = 409 then Some (IdempotencyConflictError (or_text rt m ''conflict''))
       else if status = 413 then Some (PayloadTooLargeError (or_text rt m ''payload too large''))
       else if status = 422 then Some (ValidationError (or_text rt m ''validation error''))
       else if status \<ge> 500 then Some (CollectorUnavailableError (or_text rt m (''collector status '' @ nat_str status)))
       else Some (CollectorUnavailableError (or_text rt m (''unexpected status '' @ nat_str status))))"

text \<open>The value of one attempt: the \<open>try\<close> block of \<open>request\<close>.\<close>

definition attempt_result :: "runtime \<Rightarrow> answer \<Rightarrow> json result" where
  "attempt_result rt a = (case a of
      NoAnswer m \<Rightarrow> Inl (HttpxError m)
    | Answer status b \<Rightarrow>
        (case raise_for_status rt status b of
           Some e \<Rightarrow> Inl e
         | None \<Rightarrow>
             if status = 204 \<or> b = NoBody then Inr (JDict [])
             else (case b of JsonBody v \<Rightarrow> Inr v | _ \<Rightarrow> Inl (ValueError ''Expecting value''))))"

fun retryable :: "exn \<Rightarrow> bool" where
  "retryable (HttpxError m) = True"
| "retryable (CollectorUnavailableError m) = True"
| "retryable _ = False"

subsection \<open>Requests\<close>

definition send :: "world \<Rightarrow> http_call \<Rightarrow> json sdk" where
  "send w call st =
    (attempt_result (wo_rt w) (wo_net w (length (sd_sent st)) call), st\<lparr>sd_sent := sd_sent st @ [call]\<rparr>)"

definition backoff :: "transport \<Rightarrow> nat \<Rightarrow> rat" where
  "backoff tc attempt = min (tc_backoff_max tc) (tc_backoff_initial tc * 2 ^ attempt)"

definition pause :: "world \<Rightarrow> transport \<Rightarrow> nat \<Rightarrow> sdk_state \<Rightarrow> sdk_state" where
  "pause w tc attempt st =
    (let s = backoff tc attempt; u = wo_jitter w (sd_tick st)
     in st\<lparr>sd_tick := Suc (sd_tick st), sd_slept := sd_slept st @ [s + u * (s / 2)]\<rparr>)"

text \<open>The loop over the attempts: how many are left, the number of this one, the last error.\<close>

fun request_loop :: "world \<Rightarrow> transport \<Rightarrow> http_call \<Rightarrow> nat \<Rightarrow> nat \<Rightarrow> exn option \<Rightarrow> json sdk" where
  "request_loop w tc call 0 attempt last_error st =
     (case last_error of None \<Rightarrow> (Inl AssertionError, st) | Some e \<Rightarrow> (Inl e, st))"
| "request_loop w tc call (Suc left) attempt last_error st =
     (case send w call st of
        (Inr v, st') \<Rightarrow> (Inr v, st')
      | (Inl e, st') \<Rightarrow>
          if \<not> retryable e then (Inl e, st')
          else if left = 0 then (Inl e, st')
          else request_loop w tc call left (Suc attempt) (Some e) (pause w tc attempt st'))"

definition request :: "world \<Rightarrow> transport \<Rightarrow> string \<Rightarrow> string \<Rightarrow> json option \<Rightarrow> string option \<Rightarrow> bool \<Rightarrow> json sdk" where
  "request w tc meth path body key retry =
     request_loop w tc \<lparr>hc_method = meth, hc_path = path, hc_body = body,
         hc_key = (if str_truthy key then key else None)\<rparr>
       (if retry then tc_max_retries tc else 1) 0 None"

subsection \<open>The spool\<close>

definition spool_write :: "json \<Rightarrow> sdk_state \<Rightarrow> sdk_state" where
  "spool_write batch st = st\<lparr>sd_spool := sd_spool st @ [batch]\<rparr>"

text \<open>The file is read whole and removed.\<close>

definition drain :: "sdk_state \<Rightarrow> json list \<times> sdk_state" where
  "drain st = (sd_spool st, st\<lparr>sd_spool := []\<rparr>)"

subsection \<open>What the SDK asks of the collector\<close>

definition events_path :: "string \<Rightarrow> string" where
  "events_path rid = ''/v1/runs/'' @ rid @ ''/events''"

definition events_body :: "json list \<Rightarrow> json" where
  "events_body events = JDict [(''events'', JList events)]"

definition spool_entry :: "string \<Rightarrow> json list \<Rightarrow> string option \<Rightarrow> json" where
  "spool_entry rid events key =
     JDict [(''run_id'', JStr rid), (''events'', JList events), (''idempotency_key'', js_str key)]"

text \<open>\<open>str(exc)\<close>\<close>

fun exn_text :: "exn \<Rightarrow> string" where
  "exn_text (HttpxError m) = m"
| "exn_text (CollectorUnavailableError m) = m"
| "exn_text _ = []"

definition post_events :: "world \<Rightarrow> transport \<Rightarrow> string \<Rightarrow> json list \<Rightarrow> string option \<Rightarrow> json sdk" where
  "post_events w tc rid events key st =
    (case request w tc ''POST'' (events_path rid) (Some (events_body events)) key True st of
       (Inr v, st') \<Rightarrow> (Inr v, st')
     | (Inl e, st') \<Rightarrow>
         if \<not> retryable e then (Inl e, st')
         else if tc_spooling tc
           then (Inr (JDict [(''spooled'', JBool True), (''reason'', JStr (exn_text e))]),
                 spool_write (spool_entry rid events key) st')
         else if tc_fail_open tc
           then (Inr (JDict [(''spooled'', JBool False), (''fail_open'', JBool True), (''reason'', JStr (exn_text e))]), st')
         else (Inl e, st'))"

definition start_run_call :: "world \<Rightarrow> transport \<Rightarrow> json \<Rightarrow> json sdk" where
  "start_run_call w tc payload = request w tc ''POST'' ''/v1/runs/start'' (Some payload) None True"

definition commit_run_call :: "world \<Rightarrow> transport \<Rightarrow> string \<Rightarrow> json sdk" where
  "commit_run_call w tc rid = request w tc ''POST'' (''/v1/runs/'' @ rid @ ''/commit'') None None True"

definition rollback_run_call :: "world \<Rightarrow> transport \<Rightarrow> string \<Rightarrow> string option \<Rightarrow> json sdk" where
  "rollback_run_call w tc rid reason =
     request w tc ''POST'' (''/v1/runs/'' @ rid @ ''/rollback'') (Some (JDict [(''reason'', js_str reason)])) None True"

definition policy_check_call :: "world \<Rightarrow> transport \<Rightarrow> json \<Rightarrow> json sdk" where
  "policy_check_call w tc body = request w tc ''POST'' ''/v1/policy/check'' (Some body) None True"

definition request_approval_call :: "world \<Rightarrow> transport \<Rightarrow> json \<Rightarrow> json sdk" where
  "request_approval_call w tc body = request w tc ''POST'' ''/v1/approvals/request'' (Some body) None True"

definition get_timeline_call :: "world \<Rightarrow> transport \<Rightarrow> string \<Rightarrow> json sdk" where
  "get_timeline_call w tc rid = request w tc ''GET'' (''/v1/runs/'' @ rid @ ''/timeline'') None None False"

definition verify_run_call :: "world \<Rightarrow> transport \<Rightarrow> string \<Rightarrow> json sdk" where
  "verify_run_call w tc rid = request w tc ''GET'' (''/v1/runs/'' @ rid @ ''/verify'') None None False"

text \<open>
  One entry of the spool, as \<open>flush_spool\<close> sends it. An entry that was not written by
  \<open>post_events\<close> may lack a key; the subscript is inside the \<open>try\<close> and fails like a request. A
  run id of another type is formatted into the path.
\<close>

definition flush_entry :: "world \<Rightarrow> transport \<Rightarrow> json \<Rightarrow> json sdk" where
  "flush_entry w tc entry st =
    (case entry of
       JDict d \<Rightarrow>
         (case (map_of d ''run_id'', map_of d ''events'') of
            (Some rid, Some events) \<Rightarrow>
              request w tc ''POST'' (events_path (show_value (wo_rt w) rid)) (Some (JDict [(''events'', events)]))
                (case dict_get d ''idempotency_key'' of JStr k \<Rightarrow> Some k | _ \<Rightarrow> None) True st
          | _ \<Rightarrow> (Inl (LookupError ''missing key''), st))
     | _ \<Rightarrow> (Inl (TypeError ''indices must be integers''), st))"

fun flush_loop :: "world \<Rightarrow> transport \<Rightarrow> json list \<Rightarrow> sdk_state \<Rightarrow> nat \<times> sdk_state" where
  "flush_loop w tc [] st = (0, st)"
| "flush_loop w tc (entry # entries) st =
     (case flush_entry w tc entry st of
        (Inl e, st') \<Rightarrow> (0, spool_write entry st')
      | (Inr v, st') \<Rightarrow> (case flush_loop w tc entries st' of (n, st'') \<Rightarrow> (Suc n, st'')))"

definition flush_spool :: "world \<Rightarrow> transport \<Rightarrow> sdk_state \<Rightarrow> nat \<times> sdk_state" where
  "flush_spool w tc st =
    (if \<not> tc_spooling tc then (0, st)
     else (case drain st of (drained, st') \<Rightarrow> flush_loop w tc drained st'))"

subsection \<open>Retries\<close>

text \<open>The answer to the \<open>i\<close>-th attempt of a request sent from \<open>st\<close>.\<close>

definition nth_attempt :: "world \<Rightarrow> http_call \<Rightarrow> sdk_state \<Rightarrow> nat \<Rightarrow> json result" where
  "nth_attempt w call st i = attempt_result (wo_rt w) (wo_net w (length (sd_sent st) + i) call)"

definition retried :: "json result \<Rightarrow> bool" where
  "retried r = (case r of Inl e \<Rightarrow> retryable e | Inr v \<Rightarrow> False)"

lemma pause_simps [simp]:
  "sd_sent (pause w tc a st) = sd_sent st" "sd_spool (pause w tc a st) = sd_spool st"
  by (simp_all add: pause_def Let_def)

lemma send_simps:
  "send w call st = (nth_attempt w call st 0, st\<lparr>sd_sent := sd_sent st @ [call]\<rparr>)"
  by (simp add: send_def nth_attempt_def)

lemma nth_attempt_shift:
  "nth_attempt w call (pause w tc a (st\<lparr>sd_sent := sd_sent st @ [call]\<rparr>)) i = nth_attempt w call st (Suc i)"
  by (simp add: nth_attempt_def)

text \<open>
  The result is the first answer that settles the request, or the last of the allowed ones; the call
  was sent exactly that many times.
\<close>

lemma request_loop_spec:
  assumes "0 < n"
  shows "\<exists>k < n. (\<forall>i < k. retried (nth_attempt w call st i))
    \<and> (k = n - 1 \<or> \<not> retried (nth_attempt w call st k))
    \<and> fst (request_loop w tc call n a l st) = nth_attempt w call st k
    \<and> sd_sent (snd (request_loop w tc call n a l st)) = sd_sent st @ replicate (Suc k) call
    \<and> sd_spool (snd (request_loop w tc call n a l st)) = sd_spool st"
  using assms
proof (induction n arbitrary: a l st)
  case 0
  then show ?case by simp
next
  case (Suc n)
  let ?st = "st\<lparr>sd_sent := sd_sent st @ [call]\<rparr>"
  show ?case
  proof (cases "retried (nth_attempt w call st 0) \<and> n \<noteq> 0")
    case False
    then have "request_loop w tc call (Suc n) a l st = (nth_attempt w call st 0, ?st)"
      by (auto simp: send_simps retried_def split: sum.split)
    with False show ?thesis
      by (intro exI [of _ 0]) auto
  next
    case True
    then obtain e where e: "nth_attempt w call st 0 = Inl e" "retryable e"
      by (auto simp: retried_def split: sum.splits)
    let ?st' = "pause w tc a ?st"
    have eq: "request_loop w tc call (Suc n) a l st = request_loop w tc call n (Suc a) (Some e) ?st'"
      using True e by (simp add: send_simps)
    from Suc.IH [of ?st' "Suc a" "Some e"] True obtain k where k: "k < n"
      "\<forall>i < k. retried (nth_attempt w call st (Suc i))"
      "k = n - 1 \<or> \<not> retried (nth_attempt w call st (Suc k))"
      "fst (request_loop w tc call n (Suc a) (Some e) ?st') = nth_attempt w call st (Suc k)"
      "sd_sent (snd (request_loop w tc call n (Suc a) (Some e) ?st')) = sd_sent st @ call # replicate (Suc k) call"
      "sd_spool (snd (request_loop w tc call n (Suc a) (Some e) ?st')) = sd_spool st"
      unfolding nth_attempt_shift by auto
    have "\<forall>i < Suc k. retried (nth_attempt w call st i)"
      using True k(2) by (auto simp: less_Suc_eq_0_disj)
    with k True show ?thesis unfolding eq
      by (intro exI [of _ "Suc k"]) auto
  qed
qed

text \<open>Every pause lies between the backoff and one and a half times it.\<close>

lemma backoff_bounds: "0 \<le> tc_backoff_initial tc \<Longrightarrow> 0 \<le> tc_backoff_max tc \<Longrightarrow> 0 \<le> backoff tc n \<and> backoff tc n \<le> tc_backoff_max tc"
  by (simp add: backoff_def)

lemma pause_bounds:
  assumes "0 \<le> tc_backoff_initial tc" "0 \<le> tc_backoff_max tc" "\<forall>n. 0 \<le> wo_jitter w n \<and> wo_jitter w n \<le> 1"
  shows "\<exists>p. sd_slept (pause w tc a st) = sd_slept st @ [p] \<and> backoff tc a \<le> p \<and> p \<le> 3 / 2 * backoff tc a"
proof -
  let ?u = "wo_jitter w (sd_tick st)" and ?s = "backoff tc a"
  have s: "0 \<le> ?s" using backoff_bounds assms(1,2) by blast
  have u: "0 \<le> ?u" "?u \<le> 1" using assms(3) by auto
  have "0 \<le> ?u * (?s / 2)" using s u by simp
  moreover have "?u * (?s / 2) \<le> 1 * (?s / 2)" using s u by (intro mult_right_mono) simp_all
  ultimately show ?thesis by (simp add: pause_def Let_def)
qed

lemma request_loop_slept:
  assumes "0 \<le> tc_backoff_initial tc" "0 \<le> tc_backoff_max tc" "\<forall>n. 0 \<le> wo_jitter w n \<and> wo_jitter w n \<le> 1"
  shows "\<exists>ps. sd_slept (snd (request_loop w tc call n a l st)) = sd_slept st @ ps \<and> length ps \<le> n - 1
    \<and> (\<forall>p \<in> set ps. 0 \<le> p \<and> p \<le> 3 / 2 * tc_backoff_max tc)"
proof (induction n arbitrary: a l st)
  case 0
  then show ?case by (simp split: option.split)
next
  case (Suc n)
  let ?st = "st\<lparr>sd_sent := sd_sent st @ [call]\<rparr>"
  show ?case
  proof (cases "retried (nth_attempt w call st 0) \<and> n \<noteq> 0")
    case False
    then have "request_loop w tc call (Suc n) a l st = (nth_attempt w call st 0, ?st)"
      by (auto simp: send_simps retried_def split: sum.split)
    then show ?thesis by simp
  next
    case True
    then obtain e where e: "nth_attempt w call st 0 = Inl e" "retryable e"
      by (auto simp: retried_def split: sum.splits)
    let ?st' = "pause w tc a ?st"
    have eq: "request_loop w tc call (Suc n) a l st = request_loop w tc call n (Suc a) (Some e) ?st'"
      using True e by (simp add: send_simps)
    from pause_bounds [OF assms, of a ?st] obtain p where p: "sd_slept ?st' = sd_slept st @ [p]"
      "backoff tc a \<le> p" "p \<le> 3 / 2 * backoff tc a" by auto
    have b: "0 \<le> backoff tc a" "backoff tc a \<le> tc_backoff_max tc" using backoff_bounds assms(1,2) by blast+
    have pb: "0 \<le> p" "p \<le> 3 / 2 * tc_backoff_max tc" using p(2,3) b by linarith+
    from Suc.IH [of "Suc a" "Some e" ?st'] obtain ps
      where ps: "sd_slept (snd (request_loop w tc call n (Suc a) (Some e) ?st')) = sd_slept ?st' @ ps"
        "length ps \<le> n - 1" "\<forall>p \<in> set ps. 0 \<le> p \<and> p \<le> 3 / 2 * tc_backoff_max tc" by blast
    then show ?thesis
      unfolding eq p(1) using pb True by (intro exI [of _ "p # ps"]) auto
  qed
qed

subsection \<open>The spool keeps what could not be sent\<close>

lemma request_spool: "sd_spool (snd (request_loop w tc call n a l st)) = sd_spool st"
proof (cases "n = 0")
  case True
  then show ?thesis by (simp split: option.split)
next
  case False
  then show ?thesis using request_loop_spec [of n w call st tc a l] by blast
qed

lemma request_spool' [simp]: "request w tc meth path body key retry st = (r, st') \<Longrightarrow> sd_spool st' = sd_spool st"
  unfolding request_def by (metis request_spool snd_conv)

lemma post_events_spooled:
  assumes "tc_spooling tc" "post_events w tc rid events key st = (r, st')"
  shows "(\<exists>v. request w tc ''POST'' (events_path rid) (Some (events_body events)) key True st = (Inr v, st') \<and> r = Inr v)
    \<or> (\<exists>v. r = Inr v \<and> sd_spool st' = sd_spool st @ [spool_entry rid events key])
    \<or> (\<exists>e. r = Inl e \<and> \<not> retryable e)"
  using assms
  by (auto simp: post_events_def spool_write_def split: prod.splits sum.splits if_splits)

text \<open>An entry as \<open>post_events\<close> wrote it is sent as \<open>post_events\<close> would have sent it.\<close>

lemma flush_entry_written:
  "flush_entry w tc (spool_entry rid events key) st =
     request w tc ''POST'' (events_path rid) (Some (events_body events)) key True st"
  by (simp add: flush_entry_def spool_entry_def events_body_def js_str_def show_value_def split: option.split)

text \<open>When the first failure is at the \<open>k\<close>-th entry, that entry is all the spool keeps.\<close>

lemma flush_entry_spool: "flush_entry w tc entry st = (r, st') \<Longrightarrow> sd_spool st' = sd_spool st"
  by (auto simp: flush_entry_def split: json.splits option.splits)

lemma flush_loop_spool:
  "flush_loop w tc entries st = (n, st') \<Longrightarrow>
     n \<le> length entries \<and> sd_spool st' = sd_spool st @ (if n < length entries then [entries ! n] else [])"
proof (induction entries arbitrary: st n st')
  case Nil
  then show ?case by simp
next
  case (Cons entry entries)
  obtain r st1 where fe: "flush_entry w tc entry st = (r, st1)" by force
  note sp = flush_entry_spool [OF fe]
  show ?case
  proof (cases r)
    case (Inl e)
    with Cons.prems fe sp show ?thesis by (auto simp: spool_write_def)
  next
    case (Inr v)
    obtain m st2 where fl: "flush_loop w tc entries st1 = (m, st2)" by force
    from Cons.IH [OF fl] Inr fe fl Cons.prems sp show ?thesis by auto
  qed
qed

end
