(* ===== verification/Sdk_Run.thy ===== *)
theory Sdk_Run
  imports Transport Redaction Hash_Chain
begin

section \<open>The SDK's runs\<close>

text \<open>
  \<open>run.py\<close>, \<open>events.py\<close> and \<open>client.py\<close>: a run builds envelopes, chains them by their
  hashes, buffers them and posts them in batches. The run object and the state of the SDK are passed
  along together; an operation gives its result or exception and the pair it leaves, so that what
  an exception leaves behind is visible.
\<close>

subsection \<open>Envelopes\<close>

definition SCHEMA_VERSION :: string where "SCHEMA_VERSION = ''2026-05-01''"

text \<open>\<open>EVENT_TYPES\<close> of \<open>events.py\<close>; the collector has its own list.\<close>

definition SDK_EVENT_TYPES :: "string list" where
  "SDK_EVENT_TYPES = [
     ''agent_run.started'', ''agent_run.committed'', ''agent_run.rolled_back'',
     ''agent_run.failed'', ''agent_run.requires_approval'', ''model_call.started'',
     ''model_call.completed'', ''model_call.failed'', ''tool_call.started'',
     ''tool_call.completed'', ''tool_call.failed'', ''memory.read'',
     ''memory.write'', ''memory.delete_requested'', ''memory.redacted'',
     ''state.snapshot.created'', ''state.change.proposed'', ''state.change.applied'',
     ''state.change.reverted'', ''policy.check.started'', ''policy.check.passed'',
     ''policy.check.failed'', ''policy.enforcement.blocked'', ''policy.enforcement.allowed'',
     ''approval.requested'', ''approval.approved'', ''approval.rejected'',
     ''approval.expired'', ''approval.overridden'', ''evidence.artifact.created'',
     ''evidence.export.started'', ''evidence.export.completed'', ''evidence.export.failed'',
     ''auth.api_key.created'', ''auth.api_key.revoked'', ''user.login'',
     ''user.permission.changed'', ''audit_log.exported'']"

lemma sdk_event_types: "set SDK_EVENT_TYPES = set EVENT_TYPES"
  by (simp add: SDK_EVENT_TYPES_def EVENT_TYPES_def)

datatype payload_mode = METADATA_ONLY | HASH_ONLY | REDACTED_PAYLOAD | FULL_PAYLOAD | SELF_HOSTED_PAYLOAD

fun mode_value :: "payload_mode \<Rightarrow> string" where
  "mode_value METADATA_ONLY = ''metadata_only''"
| "mode_value HASH_ONLY = ''hash_only''"
| "mode_value REDACTED_PAYLOAD = ''redacted_payload''"
| "mode_value FULL_PAYLOAD = ''full_payload''"
| "mode_value SELF_HOSTED_PAYLOAD = ''self_hosted_payload''"

definition payload_modes :: "payload_mode list" where
  "payload_modes = [METADATA_ONLY, HASH_ONLY, REDACTED_PAYLOAD, FULL_PAYLOAD, SELF_HOSTED_PAYLOAD]"

text \<open>\<open>PayloadMode(value)\<close>\<close>

definition payload_mode_of :: "string \<Rightarrow> payload_mode result" where
  "payload_mode_of s = (case find (\<lambda>m. mode_value m = s) payload_modes of
     None \<Rightarrow> Inl (ValueError (s @ '' is not a valid PayloadMode'')) | Some m \<Rightarrow> Inr m)"

record actor =
  ac_type :: string
  ac_id :: string

record client =
  cl_org :: string
  cl_project :: string
  cl_env :: string
  cl_mode :: string
  cl_rules :: "rule list"
  cl_callbacks :: "(json \<Rightarrow> json) list"
  cl_batch :: nat
  cl_transport :: transport

record run =
  ro_id :: string
  ro_agent :: string
  ro_version :: "string option"
  ro_env :: string
  ro_metadata :: pydict
  ro_trace :: "string option"
  ro_buffer :: "pydict list"
  ro_step :: nat
  ro_prev :: "string option"
  ro_status :: string
  ro_committed :: bool
  ro_closed :: bool

text \<open>\<open>asdict(envelope)\<close>, in the order of the dataclass, with the event's idempotency key.\<close>

record envelope_fields =
  en_id :: string
  en_type :: string
  en_step_id :: "string option"
  en_step_index :: int
  en_actor :: actor
  en_mode :: string
  en_payload :: json
  en_payload_hash :: "string option"
  en_prev :: "string option"
  en_hash :: string
  en_occurred :: string
  en_ingested :: string

definition actor_dict :: "actor \<Rightarrow> json" where
  "actor_dict a = JDict [(''type'', JStr (ac_type a)), (''id'', JStr (ac_id a))]"

definition envelope_dict :: "client \<Rightarrow> run \<Rightarrow> envelope_fields \<Rightarrow> string option \<Rightarrow> pydict" where
  "envelope_dict cl ro en key = [
     (''event_id'', JStr (en_id en)), (''schema_version'', JStr SCHEMA_VERSION), (''event_type'', JStr (en_type en)),
     (''org_id'', JStr (cl_org cl)), (''project_id'', JStr (cl_project cl)), (''environment'', JStr (ro_env ro)),
     (''agent_id'', JStr (ro_agent ro)), (''run_id'', JStr (ro_id ro)), (''actor'', actor_dict (en_actor en)),
     (''payload_mode'', JStr (en_mode en)), (''event_hash'', JStr (en_hash en)),
     (''occurred_at'', JStr (en_occurred en)), (''ingested_at'', JStr (en_ingested en)),
     (''agent_version'', js_str (ro_version ro)), (''step_id'', js_str (en_step_id en)),
     (''step_index'', JInt (en_step_index en)), (''trace_id'', js_str (ro_trace ro)), (''span_id'', JNull),
     (''parent_span_id'', JNull), (''payload'', en_payload en), (''payload_hash'', js_str (en_payload_hash en)),
     (''previous_event_hash'', js_str (en_prev en)), (''idempotency_key'', js_str key)]"

subsection \<open>What is captured of a payload\<close>

definition as_dict :: "json \<Rightarrow> json" where
  "as_dict v = (case v of JDict d \<Rightarrow> v | _ \<Rightarrow> JDict [(''value'', v)])"

definition artifact_uri :: "json \<Rightarrow> json" where
  "artifact_uri v = JDict [(''artifact_uri'', case v of JDict d \<Rightarrow> dict_get d ''artifact_uri'' | _ \<Rightarrow> JNull)]"

definition redacted_of :: "runtime \<Rightarrow> client \<Rightarrow> json \<Rightarrow> bool \<Rightarrow> json" where
  "redacted_of rt cl payload redact =
     (if redact then apply_redaction rt payload (cl_rules cl) (cl_callbacks cl) else payload)"

definition sdk_payload_hash :: "runtime \<Rightarrow> json \<Rightarrow> string result" where
  "sdk_payload_hash rt v = compute_payload_hash (rt_sha256 rt) (rt_float_repr rt) v"

text \<open>The payload that is sent, and the value that is hashed.\<close>

fun captured :: "payload_mode \<Rightarrow> json \<Rightarrow> json \<Rightarrow> json \<times> json" where
  "captured METADATA_ONLY payload redacted = (JNull, redacted)"
| "captured HASH_ONLY payload redacted = (JNull, redacted)"
| "captured REDACTED_PAYLOAD payload redacted = (as_dict redacted, redacted)"
| "captured FULL_PAYLOAD payload redacted = (as_dict payload, payload)"
| "captured SELF_HOSTED_PAYLOAD payload redacted = (artifact_uri payload, payload)"

definition capture :: "runtime \<Rightarrow> client \<Rightarrow> payload_mode \<Rightarrow> json \<Rightarrow> bool \<Rightarrow> (json \<times> string option) result" where
  "capture rt cl mode payload redact =
    (if payload = JNull then Inr (JNull, None)
     else (let (sent, hashed) = captured mode payload (redacted_of rt cl payload redact) in
       case sdk_payload_hash rt hashed of
         Inl e \<Rightarrow> Inl e
       | Inr h \<Rightarrow> Inr (sent, Some h)))"

subsection \<open>Building an event\<close>

type_synonym ctx = "run \<times> sdk_state"
type_synonym 'a op = "ctx \<Rightarrow> 'a result \<times> ctx"

text \<open>One operation after another; an exception of the first ends both.\<close>

definition and_then :: "'a op \<Rightarrow> ('a \<Rightarrow> 'b op) \<Rightarrow> 'b op" where
  "and_then f g c = (case f c of (Inl e, c') \<Rightarrow> (Inl e, c') | (Inr x, c') \<Rightarrow> g x c')"

definition ok :: "'a \<Rightarrow> 'a op" where
  "ok x c = (Inr x, c)"

definition throw :: "exn \<Rightarrow> 'a op" where
  "throw e c = (Inl e, c)"

definition on_wire :: "'a sdk \<Rightarrow> 'a op" where
  "on_wire f c = (case f (snd c) of (r, st) \<Rightarrow> (r, (fst c, st)))"

definition sdk_tick :: "sdk_state \<Rightarrow> sdk_state" where
  "sdk_tick st = st\<lparr>sd_tick := Suc (sd_tick st)\<rparr>"

text \<open>The arguments of \<open>_emit\<close>, with its defaults.\<close>

record emission =
  em_type :: string
  em_payload :: json
  em_step_id :: "string option"
  em_step_index :: "int option"
  em_actor :: "actor option"
  em_mode :: "string option"
  em_redact :: bool

definition emission_of :: "string \<Rightarrow> json \<Rightarrow> emission" where
  "emission_of event_type payload = \<lparr>em_type = event_type, em_payload = payload, em_step_id = None,
     em_step_index = None, em_actor = None, em_mode = None, em_redact = True\<rparr>"

definition sdk_event_hash :: "runtime \<Rightarrow> pydict \<Rightarrow> string result" where
  "sdk_event_hash rt d = compute_event_hash (rt_sha256 rt) (rt_float_repr rt) d"

text \<open>
  \<open>_build_envelope\<close>. The identifier takes one reading of clock and random source, and each date one
  of the clock. The hash is taken while the idempotency key is still absent.
\<close>

definition unsigned_envelope :: "runtime \<Rightarrow> run \<Rightarrow> emission \<Rightarrow> payload_mode \<Rightarrow> json \<Rightarrow> string option \<Rightarrow> nat \<Rightarrow> envelope_fields" where
  "unsigned_envelope rt ro em mode payload ph t =
    \<lparr>en_id = generate_event_id (rt_ms rt t) (rt_rand rt t), en_type = em_type em, en_step_id = em_step_id em,
     en_step_index = (case em_step_index em of None \<Rightarrow> int (ro_step ro) | Some i \<Rightarrow> i),
     en_actor = (case em_actor em of None \<Rightarrow> \<lparr>ac_type = ''agent'', ac_id = ro_agent ro\<rparr> | Some a \<Rightarrow> a),
     en_mode = mode_value mode, en_payload = payload, en_payload_hash = ph, en_prev = ro_prev ro,
     en_hash = [], en_occurred = utc_now_iso (rt_now rt (t + 1)), en_ingested = utc_now_iso (rt_now rt (t + 2))\<rparr>"

definition build_envelope :: "world \<Rightarrow> client \<Rightarrow> emission \<Rightarrow> envelope_fields op" where
  "build_envelope w cl em c =
    (let rt = wo_rt w; ro = fst c; st = snd c in
     if em_type em \<notin> set SDK_EVENT_TYPES then (Inl (ValidationError (''unknown event_type: '' @ em_type em)), c)
     else (case payload_mode_of (str_or (em_mode em) (cl_mode cl)) of
       Inl e \<Rightarrow> (Inl e, c)
     | Inr mode \<Rightarrow>
         (case capture rt cl mode (em_payload em) (em_redact em) of
           Inl e \<Rightarrow> (Inl e, c)
         | Inr (payload, ph) \<Rightarrow>
             (let en = unsigned_envelope rt ro em mode payload ph (sd_tick st);
                  ro1 = (if em_step_index em = None then ro\<lparr>ro_step := Suc (ro_step ro)\<rparr> else ro);
                  st1 = st\<lparr>sd_tick := sd_tick st + 3\<rparr>
              in case sdk_event_hash rt (envelope_dict cl ro en None) of
                   Inl e \<Rightarrow> (Inl e, (ro1, st1))
                 | Inr h \<Rightarrow> (Inr (en\<lparr>en_hash := h\<rparr>), (ro1\<lparr>ro_prev := Some h\<rparr>, st1))))))"

subsection \<open>Buffering and flushing\<close>

definition event_key :: "run \<Rightarrow> envelope_fields \<Rightarrow> string" where
  "event_key ro en = ro_id ro @ '':'' @ int_str (en_step_index en) @ '':'' @ en_type en"

definition dict_str :: "pydict \<Rightarrow> string \<Rightarrow> string" where
  "dict_str d k = (case dict_get d k of JStr s \<Rightarrow> s | _ \<Rightarrow> [])"

definition batch_key :: "string \<Rightarrow> pydict list \<Rightarrow> string" where
  "batch_key rid events = rid @ '':batch:'' @ dict_str (hd events) ''event_id'' @ '':'' @ dict_str (last events) ''event_id''"

text \<open>
  \<open>_flush\<close>: the buffer is emptied before the request and put back when it raises, before
  whatever is in the buffer then.
\<close>

definition flush_run :: "world \<Rightarrow> client \<Rightarrow> unit op" where
  "flush_run w cl c =
    (let ro = fst c; events = ro_buffer ro in
     if events = [] then (Inr (), c)
     else (let ro1 = ro\<lparr>ro_buffer := []\<rparr> in
       case post_events w (cl_transport cl) (ro_id ro) (map JDict events) (Some (batch_key (ro_id ro) events)) (snd c) of
         (Inl e, st) \<Rightarrow> (Inl e, (ro1\<lparr>ro_buffer := events @ ro_buffer ro1\<rparr>, st))
       | (Inr v, st) \<Rightarrow> (Inr (), (ro1, st))))"

definition emit_event :: "world \<Rightarrow> client \<Rightarrow> emission \<Rightarrow> pydict op" where
  "emit_event w cl em = and_then (build_envelope w cl em) (\<lambda>en c.
     let ro = fst c;
         d = envelope_dict cl ro en (Some (event_key ro en));
         ro1 = ro\<lparr>ro_buffer := ro_buffer ro @ [d]\<rparr>
     in if cl_batch cl \<le> length (ro_buffer ro1)
        then and_then (flush_run w cl) (\<lambda>u. ok d) (ro1, snd c)
        else (Inr d, (ro1, snd c)))"

end
