(* ===== verification/Sdk_Api.thy ===== *)
theory Sdk_Api
  imports Sdk_Run
begin

section \<open>The SDK's calls\<close>

text \<open>
  The named helpers of \<open>run.py\<close>, tool calls, policies and approvals, the life cycle of a run with
  its context manager, and \<open>client.py\<close>. Each is a composition of \<open>emit_event\<close>, \<open>flush_run\<close> and
  the calls of the transport, in the order of the code.
\<close>

subsection \<open>Named events\<close>

definition input_event :: "world \<Rightarrow> client \<Rightarrow> string option \<Rightarrow> string option \<Rightarrow> pydict \<Rightarrow> unit op" where
  "input_event w cl user_id input_hash meta = and_then
     (emit_event w cl (emission_of ''agent_run.started'' (JDict [(''user_id'', js_str user_id),
        (''input_hash'', js_str input_hash), (''metadata'', JDict meta)]))) (\<lambda>d. ok ())"

definition model_call :: "world \<Rightarrow> client \<Rightarrow> string \<Rightarrow> json \<Rightarrow> json \<Rightarrow> string option \<Rightarrow> pydict \<Rightarrow> bool \<Rightarrow> bool \<Rightarrow> pydict op" where
  "model_call w cl model prompt completion provider usage redact success =
     emit_event w cl ((emission_of (if success then ''model_call.completed'' else ''model_call.failed'')
       (JDict [(''model'', JStr model), (''provider'', js_str provider), (''prompt'', prompt),
          (''completion'', completion), (''usage'', JDict usage)]))\<lparr>em_redact := redact\<rparr>)"

definition memory_event :: "string \<Rightarrow> world \<Rightarrow> client \<Rightarrow> string \<Rightarrow> json \<Rightarrow> string \<Rightarrow> bool \<Rightarrow> pydict op" where
  "memory_event event_type w cl key val store redact =
     emit_event w cl ((emission_of event_type
       (JDict [(''store'', JStr store), (''key'', JStr key), (''value'', val)]))\<lparr>em_redact := redact\<rparr>)"

definition memory_read :: "world \<Rightarrow> client \<Rightarrow> string \<Rightarrow> json \<Rightarrow> string \<Rightarrow> bool \<Rightarrow> pydict op" where
  "memory_read = memory_event ''memory.read''"

definition memory_write :: "world \<Rightarrow> client \<Rightarrow> string \<Rightarrow> json \<Rightarrow> string \<Rightarrow> bool \<Rightarrow> pydict op" where
  "memory_write = memory_event ''memory.write''"

definition state_change :: "world \<Rightarrow> client \<Rightarrow> string \<Rightarrow> string \<Rightarrow> json \<Rightarrow> json \<Rightarrow> string option \<Rightarrow> bool \<Rightarrow> bool \<Rightarrow> pydict op" where
  "state_change w cl entity_type entity_id before after reason applied redact =
     emit_event w cl ((emission_of (if applied then ''state.change.applied'' else ''state.change.proposed'')
       (JDict [(''entity_type'', JStr entity_type), (''entity_id'', JStr entity_id), (''before'', before),
          (''after'', after), (''reason'', js_str reason)]))\<lparr>em_redact := redact\<rparr>)"

definition evidence_artifact :: "world \<Rightarrow> client \<Rightarrow> string \<Rightarrow> string \<Rightarrow> string \<Rightarrow> string option \<Rightarrow> pydict op" where
  "evidence_artifact w cl uri sha256 artifact_kind description =
     emit_event w cl (emission_of ''evidence.artifact.created'' (JDict [(''uri'', JStr uri), (''sha256'', JStr sha256),
       (''kind'', JStr artifact_kind), (''description'', js_str description)]))"

text \<open>
  \<open>emit\<close>: a raw event, with the keywords of \<open>_build_envelope\<close>. A number that is given takes the place of
  the next one, and the counter stays.
\<close>

record emit_options =
  eo_step_id :: "string option"
  eo_step_index :: "int option"
  eo_actor :: "actor option"
  eo_mode :: "string option"
  eo_redact :: bool

definition no_options :: emit_options where
  "no_options = \<lparr>eo_step_id = None, eo_step_index = None, eo_actor = None, eo_mode = None, eo_redact = True\<rparr>"

definition emission_with :: "string \<Rightarrow> json \<Rightarrow> emit_options \<Rightarrow> emission" where
  "emission_with event_type payload eo = \<lparr>em_type = event_type, em_payload = payload, em_step_id = eo_step_id eo,
     em_step_index = eo_step_index eo, em_actor = eo_actor eo, em_mode = eo_mode eo, em_redact = eo_redact eo\<rparr>"

definition run_emit :: "world \<Rightarrow> client \<Rightarrow> string \<Rightarrow> pydict \<Rightarrow> emit_options \<Rightarrow> pydict op" where
  "run_emit w cl event_type payload eo = emit_event w cl (emission_with event_type (JDict payload) eo)"

lemma run_emit_plain: "run_emit w cl t p no_options = emit_event w cl (emission_of t (JDict p))"
  by (simp add: run_emit_def emission_with_def no_options_def emission_of_def)

subsection \<open>Tool calls\<close>

record tool =
  tl_name :: string
  tl_redact :: bool
  tl_step :: string
  tl_input :: json
  tl_output :: json
  tl_started :: bool

definition tool_call :: "world \<Rightarrow> string \<Rightarrow> bool \<Rightarrow> tool op" where
  "tool_call w name redact c =
    (let t = sd_tick (snd c) in
     (Inr \<lparr>tl_name = name, tl_redact = redact, tl_step = generate_step_id (rt_ms (wo_rt w) t) (rt_rand (wo_rt w) t),
        tl_input = JNull, tl_output = JNull, tl_started = False\<rparr>, (fst c, sdk_tick (snd c))))"

definition tool_input :: "json \<Rightarrow> tool \<Rightarrow> tool" where
  "tool_input v tc = tc\<lparr>tl_input := v\<rparr>"

definition tool_output :: "json \<Rightarrow> bool option \<Rightarrow> tool \<Rightarrow> tool" where
  "tool_output v redact tc = tc\<lparr>tl_output := v, tl_redact := (case redact of None \<Rightarrow> tl_redact tc | Some b \<Rightarrow> b)\<rparr>"

definition tool_emission :: "tool \<Rightarrow> string \<Rightarrow> pydict \<Rightarrow> emission" where
  "tool_emission tc event_type items =
     (emission_of event_type (JDict ([(''name'', JStr (tl_name tc)), (''input'', tl_input tc)] @ items)))
       \<lparr>em_step_id := Some (tl_step tc), em_redact := tl_redact tc\<rparr>"

definition tool_enter :: "world \<Rightarrow> client \<Rightarrow> tool \<Rightarrow> tool op" where
  "tool_enter w cl tc = and_then (emit_event w cl (tool_emission tc ''tool_call.started'' []))
     (\<lambda>d. ok (tc\<lparr>tl_started := True\<rparr>))"

text \<open>\<open>__exit__\<close>: the exception of the block, as its type and text, is not swallowed.\<close>

definition tool_exit :: "world \<Rightarrow> client \<Rightarrow> tool \<Rightarrow> (string \<times> string) option \<Rightarrow> bool op" where
  "tool_exit w cl tc exc = and_then
     (emit_event w cl (case exc of
        Some (name, msg) \<Rightarrow> tool_emission tc ''tool_call.failed''
          [(''error'', JDict [(''type'', JStr name), (''message'', JStr msg)])]
      | None \<Rightarrow> tool_emission tc ''tool_call.completed'' [(''output'', tl_output tc)])) (\<lambda>d. ok False)"

subsection \<open>Approvals\<close>

definition approval_body :: "string \<Rightarrow> string \<Rightarrow> string option \<Rightarrow> json \<Rightarrow> json \<Rightarrow> json" where
  "approval_body aid rid policy_id input reason = JDict [(''approval_id'', JStr aid), (''run_id'', JStr rid),
     (''policy_id'', js_str policy_id), (''input'', input), (''reason'', reason)]"

definition sdk_request_approval :: "world \<Rightarrow> client \<Rightarrow> string option \<Rightarrow> json \<Rightarrow> json \<Rightarrow> string option \<Rightarrow> json op" where
  "sdk_request_approval w cl policy_id input reason approval_id c =
    (let t = sd_tick (snd c);
         aid = (if str_truthy approval_id then the approval_id
                else generate_approval_id (rt_ms (wo_rt w) t) (rt_rand (wo_rt w) t));
         c1 = (if str_truthy approval_id then c else (fst c, sdk_tick (snd c)));
         body = approval_body aid (ro_id (fst c)) policy_id input reason
     in and_then (emit_event w cl (emission_of ''approval.requested'' body)) (\<lambda>d.
        and_then (flush_run w cl) (\<lambda>u.
        on_wire (request_approval_call w (cl_transport cl) body))) c1)"

definition human_approval :: "world \<Rightarrow> client \<Rightarrow> string \<Rightarrow> string \<Rightarrow> string \<Rightarrow> string option \<Rightarrow> pydict op" where
  "human_approval w cl approval_id reviewer_id decision reason =
    (if decision \<notin> {''approved'', ''rejected'', ''expired'', ''overridden''}
     then throw (ValidationError (''invalid approval decision: '' @ decision))
     else emit_event w cl ((emission_of (''approval.'' @ decision)
       (JDict [(''approval_id'', JStr approval_id), (''reviewer_id'', JStr reviewer_id),
          (''decision'', JStr decision), (''reason'', js_str reason)]))
       \<lparr>em_actor := Some \<lparr>ac_type = ''human'', ac_id = reviewer_id\<rparr>\<rparr>))"

subsection \<open>Policies\<close>

text \<open>\<open>response.get("result", response)\<close> and the \<open>get\<close>s on it.\<close>

definition policy_answer :: "json \<Rightarrow> (pydict \<times> json \<times> json) result" where
  "policy_answer response =
    (case response of
       JDict d \<Rightarrow>
         (case dict_get_or d ''result'' response of
            JDict r \<Rightarrow> Inr (r, dict_get d ''policy_version'', dict_get d ''policy_hash'')
          | _ \<Rightarrow> Inl (AttributeError ''get''))
     | _ \<Rightarrow> Inl (AttributeError ''get''))"

definition check_passed :: "pydict \<Rightarrow> bool" where
  "check_passed res \<longleftrightarrow> truthy (dict_get_or res ''allowed'' (JBool True)) \<or> truthy (dict_get res ''requires_approval'')"

definition record_check :: "world \<Rightarrow> client \<Rightarrow> string \<Rightarrow> json \<Rightarrow> pydict \<Rightarrow> json \<Rightarrow> json \<Rightarrow> pydict op" where
  "record_check w cl policy_id input res version h = and_then
     (emit_event w cl (emission_of (if check_passed res then ''policy.check.passed'' else ''policy.check.failed'')
       (JDict [(''policy_id'', JStr policy_id), (''policy_version'', version), (''policy_hash'', h),
          (''input'', input), (''result'', JDict res)]))) (\<lambda>d. ok res)"

definition sdk_policy_check :: "world \<Rightarrow> client \<Rightarrow> string \<Rightarrow> json \<Rightarrow> pydict option \<Rightarrow> string option \<Rightarrow> string option \<Rightarrow> pydict op" where
  "sdk_policy_check w cl policy_id input given version h =
    (case given of
       Some res \<Rightarrow> record_check w cl policy_id input res (js_str version) (js_str h)
     | None \<Rightarrow> (\<lambda>c. and_then
         (on_wire (policy_check_call w (cl_transport cl) (JDict [(''policy_id'', JStr policy_id), (''input'', input),
            (''run_id'', JStr (ro_id (fst c)))])))
         (\<lambda>response. case policy_answer response of
            Inl e \<Rightarrow> throw e
          | Inr (res, v, h') \<Rightarrow> record_check w cl policy_id input res
              (if str_truthy version then js_str version else v) (if str_truthy h then js_str h else h')) c))"

text \<open>\<open>result.get("allowed") is False\<close>: the value \<open>False\<close> and no other that counts as false.\<close>

definition denied :: "pydict \<Rightarrow> bool" where
  "denied res \<longleftrightarrow> dict_get res ''allowed'' = JBool False \<and> \<not> truthy (dict_get res ''requires_approval'')"

definition enforcement :: "string \<Rightarrow> json \<Rightarrow> pydict \<Rightarrow> json" where
  "enforcement policy_id input res = JDict [(''policy_id'', JStr policy_id), (''input'', input), (''result'', JDict res)]"

definition enforce_policy :: "world \<Rightarrow> client \<Rightarrow> string \<Rightarrow> json \<Rightarrow> pydict op" where
  "enforce_policy w cl policy_id input = and_then (sdk_policy_check w cl policy_id input None None None) (\<lambda>res.
     let show = show_value (wo_rt w) in
     if denied res then
       and_then (emit_event w cl (emission_of ''policy.enforcement.blocked'' (enforcement policy_id input res)))
         (\<lambda>d. throw (PolicyDeniedError (show (dict_get_or res ''reason'' (JStr ''policy denied''))) policy_id
            (show (dict_get_or res ''reason'' (JStr [])))))
     else if truthy (dict_get res ''requires_approval'') then
       and_then (sdk_request_approval w cl (Some policy_id) input (dict_get_or res ''reason'' (JStr ''approval required'')) None)
         (\<lambda>approval. case approval of
            JDict d \<Rightarrow> throw (ApprovalRequiredError (show (dict_get_or res ''reason'' (JStr ''approval required'')))
              (show (dict_get_or d ''approval_id'' (JStr []))) policy_id)
          | _ \<Rightarrow> throw (AttributeError ''get''))
     else
       and_then (emit_event w cl (emission_of ''policy.enforcement.allowed'' (enforcement policy_id input res)))
         (\<lambda>d. ok res))"

subsection \<open>The end of a run\<close>

definition close_run :: "string \<Rightarrow> bool \<Rightarrow> unit op" where
  "close_run status committed c =
     (Inr (), ((fst c)\<lparr>ro_status := status, ro_committed := (committed \<or> ro_committed (fst c)), ro_closed := True\<rparr>, snd c))"

definition commit :: "world \<Rightarrow> client \<Rightarrow> json op" where
  "commit w cl c =
    (if ro_closed (fst c) then (Inl (ValidationError ''run already closed''), c)
     else and_then (emit_event w cl (emission_of ''agent_run.committed'' (JDict []))) (\<lambda>d.
       and_then (flush_run w cl) (\<lambda>u.
       and_then (close_run ''committed'' True) (\<lambda>u.
       on_wire (commit_run_call w (cl_transport cl) (ro_id (fst c)))))) c)"

definition rollback :: "world \<Rightarrow> client \<Rightarrow> string option \<Rightarrow> json op" where
  "rollback w cl reason c =
    (if ro_closed (fst c) then (Inl (ValidationError ''run already closed''), c)
     else and_then (emit_event w cl (emission_of ''agent_run.rolled_back'' (JDict [(''reason'', js_str reason)]))) (\<lambda>d.
       and_then (flush_run w cl) (\<lambda>u.
       and_then (close_run ''rolled_back'' False) (\<lambda>u.
       on_wire (rollback_run_call w (cl_transport cl) (ro_id (fst c)) reason)))) c)"

text \<open>An exception, as \<open>fail\<close> records it: its type, its text, and its traceback.\<close>

record error_info =
  er_type :: string
  er_message :: string
  er_traceback :: string

definition fail :: "world \<Rightarrow> client \<Rightarrow> error_info \<Rightarrow> unit op" where
  "fail w cl er c =
    (if ro_closed (fst c) then (Inr (), c)
     else and_then (emit_event w cl (emission_of ''agent_run.failed'' (JDict [(''error'',
         JDict [(''type'', JStr (er_type er)), (''message'', JStr (er_message er)), (''traceback'', JStr (er_traceback er))])])))
       (\<lambda>d. and_then (flush_run w cl) (\<lambda>u. close_run ''failed'' False)) c)"

text \<open>
  \<open>__exit__\<close>: an exception of the block is recorded, and what recording raises is logged and
  dropped; a block that ends normally commits a run that is not committed yet.
\<close>

definition run_exit :: "world \<Rightarrow> client \<Rightarrow> error_info option \<Rightarrow> bool op" where
  "run_exit w cl exc c =
    (case exc of
       Some er \<Rightarrow> (Inr False, snd (fail w cl er c))
     | None \<Rightarrow>
         if ro_committed (fst c) then (Inr False, c)
         else and_then (commit w cl) (\<lambda>v. ok False) c)"

subsection \<open>The client\<close>

definition new_run :: "client \<Rightarrow> string \<Rightarrow> string \<Rightarrow> string option \<Rightarrow> string option \<Rightarrow> pydict \<Rightarrow> string option \<Rightarrow> run" where
  "new_run cl rid agent version env meta trace =
    \<lparr>ro_id = rid, ro_agent = agent, ro_version = version, ro_env = str_or env (cl_env cl), ro_metadata = meta,
     ro_trace = trace, ro_buffer = [], ro_step = 0, ro_prev = None, ro_status = ''running'',
     ro_committed = False, ro_closed = False\<rparr>"

text \<open>\<open>ControlDB.run\<close>: the collector's id, else the caller's, else a new one.\<close>

definition client_run :: "world \<Rightarrow> client \<Rightarrow> string \<Rightarrow> string option \<Rightarrow> string option \<Rightarrow> pydict \<Rightarrow> string option
    \<Rightarrow> string option \<Rightarrow> run sdk" where
  "client_run w cl agent version env meta trace run_id st =
    (case start_run_call w (cl_transport cl) (JDict [(''agent_id'', JStr agent), (''agent_version'', js_str version),
         (''environment'', JStr (str_or env (cl_env cl))), (''org_id'', JStr (cl_org cl)),
         (''project_id'', JStr (cl_project cl)), (''metadata'', JDict meta), (''run_id'', js_str run_id)]) st of
       (Inl e, st') \<Rightarrow> (Inl e, st')
     | (Inr response, st') \<Rightarrow>
         (case response of
            JDict d \<Rightarrow>
              (let given = dict_get d ''run_id'' in
               if truthy given then (Inr (new_run cl (show_value (wo_rt w) given) agent version env meta trace), st')
               else if str_truthy run_id then (Inr (new_run cl (the run_id) agent version env meta trace), st')
               else (Inr (new_run cl (generate_run_id (rt_ms (wo_rt w) (sd_tick st')) (rt_rand (wo_rt w) (sd_tick st')))
                       agent version env meta trace), sdk_tick st'))
          | _ \<Rightarrow> (Inl (AttributeError ''get''), st')))"

text \<open>\<open>close\<close>: the open runs are flushed, and what that raises is dropped.\<close>

fun close_client :: "world \<Rightarrow> client \<Rightarrow> run list \<Rightarrow> sdk_state \<Rightarrow> run list \<times> sdk_state" where
  "close_client w cl [] st = ([], st)"
| "close_client w cl (ro # ros) st =
    (let (ro1, st1) = (if \<not> ro_committed ro \<and> \<not> ro_closed ro then snd (flush_run w cl (ro, st)) else (ro, st));
         (ros1, st2) = close_client w cl ros st1
     in (ro1 # ros1, st2))"

end
