(* ===== verification/Deliveries.thy ===== *)
theory Deliveries
  imports Sdk_Api
begin

section \<open>The calls a run makes\<close>

text \<open>
  What the calls of a run carry. A run posts its events in batches to the path of its events and makes
  no other call than those of policies, approvals and its own end. \<open>delivers\<close> follows a sequence of
  calls: each batch is the head of what is still to be sent, and only a batch that was accepted is taken off
  it. After a batch that was not accepted nothing is said: then the run retries, spools or keeps it.
\<close>

definition accepted :: "world \<Rightarrow> nat \<Rightarrow> http_call \<Rightarrow> bool" where
  "accepted w n call \<longleftrightarrow> (\<exists>v. attempt_result (wo_rt w) (wo_net w n call) = Inr v)"

definition commit_path :: "string \<Rightarrow> string" where
  "commit_path rid = ''/v1/runs/'' @ rid @ ''/commit''"

definition rollback_path :: "string \<Rightarrow> string" where
  "rollback_path rid = ''/v1/runs/'' @ rid @ ''/rollback''"

definition side_path :: "string \<Rightarrow> bool" where
  "side_path path \<longleftrightarrow> path = ''/v1/policy/check'' \<or> path = ''/v1/approvals/request''
     \<or> (\<exists>r. path = commit_path r) \<or> (\<exists>r. path = rollback_path r)"

definition side_call :: "http_call \<Rightarrow> bool" where
  "side_call call \<longleftrightarrow> hc_method call = ''POST'' \<and> side_path (hc_path call)"

definition batch_call :: "string \<Rightarrow> pydict list \<Rightarrow> http_call \<Rightarrow> bool" where
  "batch_call rid batch call \<longleftrightarrow> hc_method call = ''POST'' \<and> hc_path call = events_path rid
     \<and> hc_body call = Some (events_body (map JDict batch))"

text \<open>A call of a run.\<close>

definition run_call :: "string \<Rightarrow> http_call \<Rightarrow> bool" where
  "run_call rid call \<longleftrightarrow> side_call call \<or> (\<exists>batch. batch_call rid batch call)"

fun delivers :: "world \<Rightarrow> string \<Rightarrow> nat \<Rightarrow> http_call list \<Rightarrow> pydict list \<Rightarrow> pydict list \<Rightarrow> bool" where
  "delivers w rid n [] due left \<longleftrightarrow> due = left"
| "delivers w rid n (call # calls) due left \<longleftrightarrow>
     (if hc_path call = events_path rid
      then \<exists>batch rest. batch_call rid batch call \<and> due = batch @ rest
        \<and> (accepted w n call \<longrightarrow> delivers w rid (Suc n) calls rest left)
      else side_call call \<and> delivers w rid (Suc n) calls due left)"

lemma events_path_last: "last (events_path rid) = CHR ''s''"
  by (simp add: events_path_def)

lemma side_path_last: "side_path path \<Longrightarrow> last path = CHR ''k'' \<or> last path = CHR ''t'' "
  by (auto simp: side_path_def commit_path_def rollback_path_def)

lemma side_call_path: "side_call call \<Longrightarrow> hc_path call \<noteq> events_path rid"
  using side_path_last [of "hc_path call"] events_path_last [of rid] by (auto simp: side_call_def)

lemma delivers_side: "\<forall>call \<in> set calls. side_call call \<Longrightarrow> delivers w rid n calls due due"
  by (induction calls arbitrary: n) (simp_all add: side_call_path)

lemma delivers_frame: "delivers w rid n calls due left \<Longrightarrow> delivers w rid n calls (due @ extra) (left @ extra)"
proof (induction calls arbitrary: n due)
  case Nil
  then show ?case by simp
next
  case (Cons call calls)
  show ?case
  proof (cases "hc_path call = events_path rid")
    case True
    with Cons.prems obtain batch rest where b: "batch_call rid batch call" "due = batch @ rest"
      "accepted w n call \<longrightarrow> delivers w rid (Suc n) calls rest left" by auto
    then have "accepted w n call \<longrightarrow> delivers w rid (Suc n) calls (rest @ extra) (left @ extra)"
      using Cons.IH by blast
    with b True show ?thesis by auto
  next
    case False
    with Cons show ?thesis by simp
  qed
qed

lemma delivers_append:
  "delivers w rid n xs a b \<Longrightarrow> delivers w rid (n + length xs) ys b c \<Longrightarrow> delivers w rid n (xs @ ys) a c"
proof (induction xs arbitrary: n a)
  case Nil
  then show ?case by simp
next
  case (Cons call xs)
  have "delivers w rid (Suc n) (xs @ ys) d c" if "delivers w rid (Suc n) xs d b" for d
    using Cons.IH [OF that] Cons.prems(2) by simp
  with Cons.prems(1) show ?case by (auto split: if_splits)
qed

subsection \<open>What requests add\<close>

lemma request_loop_tick: "sd_tick st \<le> sd_tick (snd (request_loop w tc call n a l st))"
proof (induction n arbitrary: a l st)
  case 0
  then show ?case by (simp split: option.split)
next
  case (Suc n)
  let ?st = "pause w tc a (snd (send w call st))"
  have "sd_tick st \<le> sd_tick ?st" by (simp add: pause_def send_def Let_def)
  also have "\<dots> \<le> sd_tick (snd (request_loop w tc call n (Suc a) l' ?st))" for l' by (rule Suc.IH)
  finally show ?case by (auto simp: send_def split: sum.split)
qed

lemma request_tick: "request w tc meth path body key retry st = (r, st') \<Longrightarrow> sd_tick st \<le> sd_tick st'"
  unfolding request_def by (metis request_loop_tick snd_conv)

text \<open>The calls of a request are the same; a request whose first call was accepted makes one call and returns.\<close>

lemma request_calls:
  assumes "request w tc meth path body key retry st = (r, st')"
  defines "call \<equiv> \<lparr>hc_method = meth, hc_path = path, hc_body = body, hc_key = (if str_truthy key then key else None)\<rparr>"
  shows "\<exists>k \<le> (if retry then tc_max_retries tc else 1). sd_sent st' = sd_sent st @ replicate k call
    \<and> (0 < k \<and> accepted w (length (sd_sent st)) call \<longrightarrow> k = 1 \<and> (\<exists>v. r = Inr v))"
proof -
  let ?n = "if retry then tc_max_retries tc else 1"
  have eq: "request_loop w tc call ?n 0 None st = (r, st')" using assms(1) by (simp add: request_def call_def)
  show ?thesis
  proof (cases "?n = 0")
    case True
    with eq show ?thesis by (intro exI [of _ 0]) simp
  next
    case False
    then have pos: "0 < ?n" by blast
    from request_loop_spec [OF pos, of w call st tc 0 None]
    obtain k where k: "k < ?n" "\<forall>i < k. retried (nth_attempt w call st i)" "r = nth_attempt w call st k"
      "sd_sent st' = sd_sent st @ replicate (Suc k) call" unfolding eq by auto
    have "k = 0 \<and> (\<exists>v. r = Inr v)" if "accepted w (length (sd_sent st)) call"
    proof -
      from that obtain v where v: "nth_attempt w call st 0 = Inr v" by (auto simp: accepted_def nth_attempt_def)
      then have "\<not> retried (nth_attempt w call st 0)" by (simp add: retried_def)
      with k(2) have "k = 0" by blast
      with k(3) v show ?thesis by simp
    qed
    with k(1,4) show ?thesis by (intro exI [of _ "Suc k"]) simp
  qed
qed

subsection \<open>What an event is\<close>

definition sdk_id :: "pydict \<Rightarrow> string" where
  "sdk_id d = dict_str d ''event_id''"

text \<open>An envelope of a known type with a payload that is a dictionary or absent.\<close>

definition emitted :: "string \<Rightarrow> pydict \<Rightarrow> bool" where
  "emitted rid d \<longleftrightarrow> (\<exists>cl ro en key. d = envelope_dict cl ro en (Some key) \<and> ro_id ro = rid \<and> en_type en \<in> set SDK_EVENT_TYPES
     \<and> (en_payload en = JNull \<or> (\<exists>p. en_payload en = JDict p)) \<and> (\<exists>t. en_occurred en = utc_now_iso t))"

text \<open>The identifiers come from growing readings of the clock and the random source.\<close>

definition event_id_at :: "runtime \<Rightarrow> nat \<Rightarrow> string" where
  "event_id_at rt t = generate_event_id (rt_ms rt t) (rt_rand rt t)"

definition drawn :: "runtime \<Rightarrow> nat \<Rightarrow> nat \<Rightarrow> pydict list \<Rightarrow> bool" where
  "drawn rt a b ds \<longleftrightarrow> (\<exists>ts. map sdk_id ds = map (event_id_at rt) ts \<and> sorted_wrt (<) ts \<and> set ts \<subseteq> {a..<b})"

lemma drawn_Nil [simp]: "drawn rt a b []"
  unfolding drawn_def by (intro exI [of _ "[]"]) simp

lemma drawn_append:
  assumes "drawn rt a b xs" "drawn rt b c ys" "a \<le> b" "b \<le> c"
  shows "drawn rt a c (xs @ ys)"
proof -
  from assms(1) obtain ts where ts: "map sdk_id xs = map (event_id_at rt) ts" "sorted_wrt (<) ts" "set ts \<subseteq> {a..<b}"
    by (auto simp: drawn_def)
  from assms(2) obtain us where us: "map sdk_id ys = map (event_id_at rt) us" "sorted_wrt (<) us" "set us \<subseteq> {b..<c}"
    by (auto simp: drawn_def)
  have "t < u" if "t \<in> set ts" "u \<in> set us" for t u
    using ts(3) us(3) that by (meson atLeastLessThan_iff order_less_le_trans subset_iff)
  moreover have "set ts \<subseteq> {a..<c}" "set us \<subseteq> {a..<c}" using ts(3) us(3) assms(3,4) by auto
  ultimately show ?thesis
    unfolding drawn_def using ts us by (intro exI [of _ "ts @ us"]) (simp add: sorted_wrt_append)
qed

text \<open>As long as the readings give different identifiers, no two events share one.\<close>

lemma drawn_distinct:
  assumes "drawn rt a b ds" "inj_on (event_id_at rt) {a..<b}"
  shows "distinct (map sdk_id ds)" "set (map sdk_id ds) \<subseteq> event_id_at rt ` {a..<b}"
proof -
  from assms(1) obtain ts where ts: "map sdk_id ds = map (event_id_at rt) ts" "sorted_wrt (<) ts" "set ts \<subseteq> {a..<b}"
    by (auto simp: drawn_def)
  have "inj_on (event_id_at rt) (set ts)" using inj_on_subset [OF assms(2) ts(3)] .
  with ts(2) show "distinct (map sdk_id ds)" unfolding ts(1) by (simp add: distinct_map strict_sorted_iff)
  from ts(3) show "set (map sdk_id ds) \<subseteq> event_id_at rt ` {a..<b}" unfolding ts(1) by auto
qed

end
