(* ===== verification/Sdk_Laws.thy ===== *)
theory Sdk_Laws
  imports Deliveries
begin

section \<open>What a run sends\<close>

text \<open>
  Every operation on a run is a \<open>run_step\<close>: the events it makes continue the chain of hashes from
  where it was, under growing step numbers, and what was in the buffer or is new is either still in the
  buffer, in order, or went out before it in a call that was sent. This holds whether the operation
  returns or raises. The contract is a locale, and each operation is an instance. Only an event that is given a
  number of its own keeps no more than \<open>run_step_if False\<close>, which says the same but for the numbers.
\<close>

subsection \<open>The chain of the SDK\<close>

definition sdk_prev :: "pydict \<Rightarrow> string option" where
  "sdk_prev d = (case dict_get d ''previous_event_hash'' of JStr s \<Rightarrow> Some s | _ \<Rightarrow> None)"

definition sdk_hash :: "pydict \<Rightarrow> string" where
  "sdk_hash d = dict_str d ''event_hash''"

definition sdk_index :: "pydict \<Rightarrow> int" where
  "sdk_index d = (case dict_get d ''step_index'' of JInt i \<Rightarrow> i | _ \<Rightarrow> 0)"

definition sdk_key :: "pydict \<Rightarrow> string" where
  "sdk_key d = dict_str d ''idempotency_key''"

text \<open>What the hash was taken over: the event before it got its hash and its idempotency key.\<close>

definition unsigned :: "pydict \<Rightarrow> pydict" where
  "unsigned d = filter (\<lambda>(k, v). k \<noteq> ''event_hash'') (dict_set d ''idempotency_key'' JNull)"

definition sdk_text :: "runtime \<Rightarrow> pydict \<Rightarrow> string" where
  "sdk_text rt d = enc (rt_float_repr rt) (JDict (unsigned d))"

definition sdk_good :: "runtime \<Rightarrow> pydict \<Rightarrow> bool" where
  "sdk_good rt d \<longleftrightarrow> distinct (map fst d) \<and> \<not> has_nan (JDict (unsigned d)) \<and> sdk_hash d = row_digest rt (sdk_text rt d)"

definition sdk_sound :: "runtime \<Rightarrow> pydict \<Rightarrow> bool" where
  "sdk_sound rt d \<longleftrightarrow> float_repr_ok (rt_float_repr rt) \<and> sdk_good rt d"

definition sdk_content :: "pydict \<Rightarrow> json" where
  "sdk_content d = norm_json (JDict (unsigned d))"

lemma distinct_filter_fst: "distinct (map fst d) \<Longrightarrow> distinct (map fst (filter P d))"
  by (induction d) auto

lemma unsigned_distinct: "distinct (map fst d) \<Longrightarrow> distinct (map fst (unsigned d))"
  unfolding unsigned_def by (intro distinct_filter_fst distinct_update)

lemma unsigned_lookup:
  "k \<noteq> ''event_hash'' \<Longrightarrow> k \<noteq> ''idempotency_key'' \<Longrightarrow> map_of (unsigned d) k = map_of d k"
  by (simp add: unsigned_def map_of_filter_key update_conv')

lemma norm_json_JStr: "norm_json v = JStr s \<longleftrightarrow> v = JStr s"
  by (cases v) auto

lemma sdk_content_prev:
  assumes "distinct (map fst d)" "distinct (map fst e)" "sdk_content d = sdk_content e"
  shows "sdk_prev d = sdk_prev e"
proof -
  have "json_equiv (JDict (unsigned d)) (JDict (unsigned e))"
    using assms(3) by (simp add: json_equiv_def sdk_content_def)
  from json_equiv_lookup [OF this unsigned_distinct [OF assms(1)] unsigned_distinct [OF assms(2)], of "''previous_event_hash''"]
  have *: "map_option norm_json (map_of d ''previous_event_hash'') = map_option norm_json (map_of e ''previous_event_hash'')"
    by (simp add: unsigned_lookup)
  show ?thesis
  proof (cases "map_of d ''previous_event_hash''")
    case None
    with * show ?thesis by (simp add: sdk_prev_def)
  next
    case (Some v)
    with * obtain v' where v': "map_of e ''previous_event_hash'' = Some v'" "norm_json v = norm_json v'"
      by (cases "map_of e ''previous_event_hash''") auto
    have "v = JStr s \<longleftrightarrow> v' = JStr s" for s
      using v'(2) norm_json_JStr by metis
    with Some v'(1) show ?thesis by (auto simp: sdk_prev_def split: json.split)
  qed
qed

interpretation sdk_chain: hash_chain sdk_prev sdk_hash "sdk_text rt" "row_digest rt" "sdk_sound rt" sdk_content for rt
proof unfold_locales
  fix d e
  show "sdk_hash d = row_digest rt (sdk_text rt d)" if "sdk_sound rt d"
    using that by (simp add: sdk_sound_def sdk_good_def)
  show "sdk_content d = sdk_content e" if "sdk_sound rt d" "sdk_sound rt e" "sdk_text rt d = sdk_text rt e"
    using that enc_inj [of "rt_float_repr rt" "JDict (unsigned d)" "JDict (unsigned e)"]
    by (simp add: sdk_sound_def sdk_good_def sdk_text_def sdk_content_def json_equiv_def del: has_nan.simps)
  show "sdk_prev d = sdk_prev e" if "sdk_sound rt d" "sdk_sound rt e" "sdk_content d = sdk_content e"
    using that by (intro sdk_content_prev) (simp_all add: sdk_sound_def sdk_good_def)
qed

abbreviation sdk_linked :: "runtime \<Rightarrow> string option \<Rightarrow> pydict list \<Rightarrow> bool" where
  "sdk_linked rt p ds \<equiv> linked sdk_prev sdk_hash (sdk_good rt) p ds"

subsection \<open>The envelope that is emitted\<close>

lemma envelope_dict_simps [simp]:
  "sdk_prev (envelope_dict cl ro en key) = en_prev en" "sdk_hash (envelope_dict cl ro en key) = en_hash en"
  "sdk_index (envelope_dict cl ro en key) = en_step_index en" "distinct (map fst (envelope_dict cl ro en key))"
  by (auto simp: envelope_dict_def sdk_prev_def sdk_hash_def sdk_index_def dict_str_def js_str_def split: option.split)

lemma unsigned_dict:
  "unsigned (envelope_dict cl ro en (Some key)) = filter (\<lambda>(k, v). k \<noteq> ''event_hash'') (envelope_dict cl ro (en\<lparr>en_hash := h\<rparr>) None)"
  by (simp add: unsigned_def envelope_dict_def js_str_def)

lemma envelope_dict_cong:
  assumes "ro_id ro = ro_id ro'" "ro_env ro = ro_env ro'" "ro_agent ro = ro_agent ro'"
    "ro_version ro = ro_version ro'" "ro_trace ro = ro_trace ro'"
  shows "envelope_dict cl ro en key = envelope_dict cl ro' en key"
  using assms by (simp add: envelope_dict_def)

lemma sdk_event_hash_good:
  assumes "sdk_event_hash rt (envelope_dict cl ro en None) = Inr h"
  shows "sdk_good rt (envelope_dict cl ro (en\<lparr>en_hash := h\<rparr>) (Some key))"
proof -
  have u: "unsigned (envelope_dict cl ro (en\<lparr>en_hash := h\<rparr>) (Some key))
      = filter (\<lambda>(k, v). k \<noteq> ''event_hash'') (envelope_dict cl ro en None)"
    using unsigned_dict [of cl ro "en\<lparr>en_hash := h\<rparr>" key "en_hash en"] by simp
  have "h = row_digest rt (sdk_text rt (envelope_dict cl ro (en\<lparr>en_hash := h\<rparr>) (Some key)))
      \<and> \<not> has_nan (JDict (unsigned (envelope_dict cl ro (en\<lparr>en_hash := h\<rparr>) (Some key))))"
    using assms unfolding sdk_text_def u
    by (auto simp: sdk_event_hash_def compute_event_hash_def hash_json_def canonical_json_def row_digest_def split: if_splits)
  then show ?thesis unfolding sdk_good_def by simp
qed

subsection \<open>The contract of an operation\<close>

text \<open>Events that are part of a call made between two states.\<close>

definition sent_since :: "sdk_state \<Rightarrow> sdk_state \<Rightarrow> pydict \<Rightarrow> bool" where
  "sent_since st st' d \<longleftrightarrow>
     (\<exists>call events. call \<in> set (drop (length (sd_sent st)) (sd_sent st')) \<and> hc_body call = Some (events_body events)
        \<and> JDict d \<in> set events)"

definition grows :: "sdk_state \<Rightarrow> sdk_state \<Rightarrow> bool" where
  "grows st st' \<longleftrightarrow> (\<exists>calls. sd_sent st' = sd_sent st @ calls) \<and> sd_tick st \<le> sd_tick st'"

definition same_identity :: "run \<Rightarrow> run \<Rightarrow> bool" where
  "same_identity ro ro' \<longleftrightarrow> ro_id ro' = ro_id ro \<and> ro_env ro' = ro_env ro \<and> ro_agent ro' = ro_agent ro
     \<and> ro_version ro' = ro_version ro \<and> ro_trace ro' = ro_trace ro"

text \<open>The new events: chained from the run's last hash, keyed by run and number.\<close>

definition new_events :: "runtime \<Rightarrow> run \<Rightarrow> run \<Rightarrow> pydict list \<Rightarrow> bool" where
  "new_events rt ro ro' new \<longleftrightarrow>
     sdk_linked rt (ro_prev ro) new \<and> ro_prev ro' = head_hash sdk_hash (ro_prev ro) new \<and> ro_step ro \<le> ro_step ro'
     \<and> (\<forall>d \<in> set new. (\<exists>t. sdk_key d = ro_id ro @ '':'' @ int_str (sdk_index d) @ '':'' @ t) \<and> emitted (ro_id ro) d)"

text \<open>The numbers of events that the run numbers itself: growing, from its counter on.\<close>

definition numbered :: "run \<Rightarrow> run \<Rightarrow> pydict list \<Rightarrow> bool" where
  "numbered ro ro' new \<longleftrightarrow> sorted_wrt (<) (map sdk_index new)
     \<and> (\<forall>d \<in> set new. int (ro_step ro) \<le> sdk_index d \<and> sdk_index d < int (ro_step ro'))"

text \<open>The counter goes no faster than the clock is read.\<close>

definition paced :: "ctx \<Rightarrow> ctx \<Rightarrow> bool" where
  "paced c c' \<longleftrightarrow> ro_step (fst c') + sd_tick (snd c) \<le> ro_step (fst c) + sd_tick (snd c')"

text \<open>The calls between two states and what they carry of the events that were due.\<close>

definition carries :: "world \<Rightarrow> string \<Rightarrow> sdk_state \<Rightarrow> sdk_state \<Rightarrow> pydict list \<Rightarrow> pydict list \<Rightarrow> bool" where
  "carries w rid st st' due left \<longleftrightarrow>
     (\<exists>calls. sd_sent st' = sd_sent st @ calls \<and> (\<forall>call \<in> set calls. run_call rid call)
        \<and> delivers w rid (length (sd_sent st)) calls due left)"

definition run_makes_if :: "bool \<Rightarrow> world \<Rightarrow> ctx \<Rightarrow> ctx \<Rightarrow> pydict list \<Rightarrow> bool" where
  "run_makes_if k w c c' new \<longleftrightarrow>
     same_identity (fst c) (fst c') \<and> grows (snd c) (snd c') \<and> paced c c' \<and> (k \<longrightarrow> numbered (fst c) (fst c') new)
     \<and> (\<exists>out. new_events (wo_rt w) (fst c) (fst c') new
          \<and> drawn (wo_rt w) (sd_tick (snd c)) (sd_tick (snd c')) new
          \<and> ro_buffer (fst c) @ new = out @ ro_buffer (fst c')
          \<and> (\<forall>d \<in> set out. sent_since (snd c) (snd c') d)
          \<and> carries w (ro_id (fst c)) (snd c) (snd c') (ro_buffer (fst c) @ new) (ro_buffer (fst c')))"

definition run_step_if :: "bool \<Rightarrow> world \<Rightarrow> ctx \<Rightarrow> ctx \<Rightarrow> bool" where
  "run_step_if k w c c' \<longleftrightarrow> (\<exists>new. run_makes_if k w c c' new)"

abbreviation run_makes :: "world \<Rightarrow> ctx \<Rightarrow> ctx \<Rightarrow> pydict list \<Rightarrow> bool" where
  "run_makes \<equiv> run_makes_if True"

abbreviation run_step :: "world \<Rightarrow> ctx \<Rightarrow> ctx \<Rightarrow> bool" where
  "run_step \<equiv> run_step_if True"

lemma run_makes_weak: "run_makes w c c' new \<Longrightarrow> run_makes_if k w c c' new"
  by (simp add: run_makes_if_def)

lemma run_step_weak: "run_step w c c' \<Longrightarrow> run_step_if k w c c'"
  unfolding run_step_if_def using run_makes_weak by blast

lemma grows_refl [simp]: "grows st st"
  by (simp add: grows_def)

lemma grows_trans: "grows a b \<Longrightarrow> grows b c \<Longrightarrow> grows a c"
  by (auto simp: grows_def)

lemma carries_side: "sd_sent st' = sd_sent st @ calls \<Longrightarrow> \<forall>call \<in> set calls. side_call call \<Longrightarrow> carries w rid st st' due due"
  unfolding carries_def by (intro exI [of _ calls] conjI delivers_side) (simp_all add: run_call_def)

lemma carries_same: "sd_sent st' = sd_sent st \<Longrightarrow> carries w rid st st' due due"
  by (rule carries_side [of st' st "[]"]) simp_all

lemma carries_trans:
  assumes "carries w rid a b due left" "carries w rid b c (left @ extra) left'"
  shows "carries w rid a c (due @ extra) left'"
proof -
  from assms(1) obtain xs where xs: "sd_sent b = sd_sent a @ xs" "\<forall>call \<in> set xs. run_call rid call" "delivers w rid (length (sd_sent a)) xs due left"
    by (auto simp: carries_def)
  from assms(2) obtain ys where ys: "sd_sent c = sd_sent b @ ys" "\<forall>call \<in> set ys. run_call rid call" "delivers w rid (length (sd_sent b)) ys (left @ extra) left'"
    by (auto simp: carries_def)
  have "delivers w rid (length (sd_sent a)) (xs @ ys) (due @ extra) left'"
    using delivers_append [OF delivers_frame [OF xs(3)]] ys(3) by (simp add: xs(1))
  then show ?thesis unfolding carries_def using xs(1,2) ys(1,2) by (intro exI [of _ "xs @ ys"]) auto
qed

lemma sent_since_right: "grows a b \<Longrightarrow> sent_since b c d \<Longrightarrow> grows b c \<Longrightarrow> sent_since a c d"
  unfolding grows_def sent_since_def by fastforce

lemma sent_since_left: "sent_since a b d \<Longrightarrow> grows b c \<Longrightarrow> sent_since a c d"
  unfolding grows_def sent_since_def by fastforce

lemma new_events_Nil: "ro_prev ro' = ro_prev ro \<Longrightarrow> ro_step ro \<le> ro_step ro' \<Longrightarrow> new_events rt ro ro' []"
  by (simp add: new_events_def)

lemma head_hash_append: "head_hash h p (xs @ ys) = head_hash h (head_hash h p xs) ys"
  by (cases ys rule: rev_cases) (simp_all flip: append_assoc)

lemma new_events_append:
  assumes "new_events rt a b xs" "new_events rt b c ys" "ro_id b = ro_id a"
  shows "new_events rt a c (xs @ ys)"
proof -
  have "\<forall>d \<in> set (xs @ ys). (\<exists>t. sdk_key d = ro_id a @ '':'' @ int_str (sdk_index d) @ '':'' @ t) \<and> emitted (ro_id a) d"
    using assms unfolding new_events_def by auto
  then show ?thesis
    using assms by (simp add: new_events_def linked_append head_hash_append)
qed

lemma numbered_append:
  assumes "numbered a b xs" "numbered b c ys" "ro_step a \<le> ro_step b" "ro_step b \<le> ro_step c"
  shows "numbered a c (xs @ ys)"
proof -
  have x: "sdk_index d < int (ro_step b)" "int (ro_step a) \<le> sdk_index d" if "d \<in> set xs" for d
    using assms(1) that by (simp_all add: numbered_def)
  have y: "int (ro_step b) \<le> sdk_index d" "sdk_index d < int (ro_step c)" if "d \<in> set ys" for d
    using assms(2) that by (simp_all add: numbered_def)
  have "sdk_index d < sdk_index e" if "d \<in> set xs" "e \<in> set ys" for d e
    using x(1) [OF that(1)] y(1) [OF that(2)] by linarith
  then have "sorted_wrt (<) (map sdk_index (xs @ ys))"
    using assms(1,2) by (auto simp: numbered_def sorted_wrt_append)
  moreover have "int (ro_step a) \<le> sdk_index d \<and> sdk_index d < int (ro_step c)" if "d \<in> set (xs @ ys)" for d
    using that x [of d] y [of d] assms(3,4) by auto
  ultimately show ?thesis by (simp add: numbered_def)
qed

text \<open>A step without events: the run keeps its buffer and its chain, and makes side calls at most.\<close>

lemma quiet_makes:
  assumes "same_identity (fst c) (fst c')" "ro_prev (fst c') = ro_prev (fst c)" "ro_step (fst c') = ro_step (fst c)"
    "ro_buffer (fst c') = ro_buffer (fst c)" "grows (snd c) (snd c')"
    "\<And>due. carries w (ro_id (fst c)) (snd c) (snd c') due due"
  shows "run_makes w c c' []"
  unfolding run_makes_if_def using assms
  by (intro conjI exI [of _ "[]"]) (simp_all add: new_events_Nil numbered_def paced_def grows_def)

lemma quiet_step:
  assumes "same_identity (fst c) (fst c')" "ro_prev (fst c') = ro_prev (fst c)" "ro_step (fst c') = ro_step (fst c)"
    "ro_buffer (fst c') = ro_buffer (fst c)" "grows (snd c) (snd c')"
    "\<And>due. carries w (ro_id (fst c)) (snd c) (snd c') due due"
  shows "run_step w c c'"
  unfolding run_step_if_def using quiet_makes [OF assms] by blast

lemma run_makes_refl: "run_makes w c c []"
  by (rule quiet_makes) (simp_all add: same_identity_def carries_same)

lemma run_step_refl: "run_step w c c"
  unfolding run_step_if_def using run_makes_refl by blast

lemma run_makes_trans:
  assumes "run_makes_if k w a b new" "run_makes_if k w b c new'"
  shows "run_makes_if k w a c (new @ new')"
proof -
  from assms(1) obtain out where 1: "new_events (wo_rt w) (fst a) (fst b) new"
    "ro_buffer (fst a) @ new = out @ ro_buffer (fst b)" "\<forall>d \<in> set out. sent_since (snd a) (snd b) d"
    "drawn (wo_rt w) (sd_tick (snd a)) (sd_tick (snd b)) new"
    "carries w (ro_id (fst a)) (snd a) (snd b) (ro_buffer (fst a) @ new) (ro_buffer (fst b))"
    by (auto simp: run_makes_if_def)
  from assms(2) obtain out' where 2: "new_events (wo_rt w) (fst b) (fst c) new'"
    "ro_buffer (fst b) @ new' = out' @ ro_buffer (fst c)" "\<forall>d \<in> set out'. sent_since (snd b) (snd c) d"
    "drawn (wo_rt w) (sd_tick (snd b)) (sd_tick (snd c)) new'"
    "carries w (ro_id (fst b)) (snd b) (snd c) (ro_buffer (fst b) @ new') (ro_buffer (fst c))"
    by (auto simp: run_makes_if_def)
  have g: "grows (snd a) (snd b)" "grows (snd b) (snd c)" and pace: "paced a b" "paced b c"
    and no: "k \<longrightarrow> numbered (fst a) (fst b) new" "k \<longrightarrow> numbered (fst b) (fst c) new'"
    using assms by (simp_all add: run_makes_if_def)
  have ids: "same_identity (fst a) (fst b)" "same_identity (fst a) (fst c)"
    using assms by (auto simp: run_makes_if_def same_identity_def)
  have "ro_buffer (fst a) @ (new @ new') = (ro_buffer (fst a) @ new) @ new'" by simp
  also have "\<dots> = out @ (ro_buffer (fst b) @ new')" by (simp add: 1(2))
  also have "\<dots> = (out @ out') @ ro_buffer (fst c)" by (simp add: 2(2))
  finally have "ro_buffer (fst a) @ (new @ new') = (out @ out') @ ro_buffer (fst c)" .
  moreover have "\<forall>d \<in> set (out @ out'). sent_since (snd a) (snd c) d"
    using 1(3) 2(3) sent_since_left [OF _ g(2)] sent_since_right [OF g(1) _ g(2)] by auto
  moreover have "new_events (wo_rt w) (fst a) (fst c) (new @ new')"
    using new_events_append [OF 1(1) 2(1)] ids(1) by (simp add: same_identity_def)
  moreover have "drawn (wo_rt w) (sd_tick (snd a)) (sd_tick (snd c)) (new @ new')"
    using drawn_append [OF 1(4) 2(4)] g by (simp add: grows_def)
  moreover have "carries w (ro_id (fst a)) (snd a) (snd c) (ro_buffer (fst a) @ new @ new') (ro_buffer (fst c))"
    using carries_trans [OF 1(5), of "snd c" new' "ro_buffer (fst c)"] 2(5) ids(1) by (simp add: same_identity_def)
  moreover have "paced a c" using pace by (simp add: paced_def)
  moreover have "k \<longrightarrow> numbered (fst a) (fst c) (new @ new')"
    using no numbered_append 1(1) 2(1) by (auto simp: new_events_def)
  ultimately show ?thesis
    unfolding run_makes_if_def using ids(2) grows_trans [OF g] by blast
qed

lemma run_step_trans: "run_step_if k w a b \<Longrightarrow> run_step_if k w b c \<Longrightarrow> run_step_if k w a c"
  unfolding run_step_if_def using run_makes_trans by blast

locale run_op =
  fixes f :: "'a op" and w :: world
  assumes makes_step: "f c = (r, c') \<Longrightarrow> run_step w c c'"
begin

lemma then_step:
  assumes "\<And>x. run_op (g x) w" "and_then f g c = (r, c')"
  shows "run_step w c c'"
proof -
  obtain y c1 where Pair: "f c = (y, c1)" by (cases "f c")
  note s = makes_step [OF Pair]
  show ?thesis
  proof (cases y)
    case (Inl e)
    with Pair assms(2) s show ?thesis by (simp add: and_then_def)
  next
    case (Inr x)
    with Pair assms(2) have "g x c1 = (r, c')" by (simp add: and_then_def)
    with assms(1) have "run_step w c1 c'" by (rule run_op.makes_step)
    with s show ?thesis by (rule run_step_trans)
  qed
qed

lemma then_op: "(\<And>x. run_op (g x) w) \<Longrightarrow> run_op (and_then f g) w"
  by unfold_locales (rule then_step)

end

subsection \<open>The elementary operations\<close>

lemma ok_op: "run_op (ok x) w"
  by unfold_locales (simp add: ok_def run_step_refl)

lemma throw_op: "run_op (throw e) w"
  by unfold_locales (simp add: throw_def run_step_refl)

text \<open>Calls of the transport that carry no events.\<close>

definition side_calls :: "sdk_state \<Rightarrow> sdk_state \<Rightarrow> bool" where
  "side_calls st st' \<longleftrightarrow> sd_tick st \<le> sd_tick st' \<and> (\<exists>calls. sd_sent st' = sd_sent st @ calls \<and> (\<forall>call \<in> set calls. side_call call))"

lemma wire_step: "side_calls (snd c) st \<Longrightarrow> run_step w c (fst c, st)"
  by (rule quiet_step) (auto simp: same_identity_def side_calls_def grows_def carries_side)

lemma side_calls_tick: "sd_sent st' = sd_sent st \<Longrightarrow> sd_tick st \<le> sd_tick st' \<Longrightarrow> side_calls st st'"
  by (simp add: side_calls_def)

lemma request_side:
  assumes "request w tc ''POST'' path body key retry st = (r, st')" "side_path path"
  shows "side_calls st st'"
  using request_calls [OF assms(1)] request_tick [OF assms(1)] assms(2)
  by (fastforce simp: side_calls_def side_call_def)

lemma request_grows: "request w tc meth path body key retry st = (r, st') \<Longrightarrow> grows st st'"
  using request_calls [of w tc meth path body key retry st r st'] request_tick [of w tc meth path body key retry st r st']
  by (auto simp: grows_def)

lemma on_wire_op:
  assumes "\<And>st r st'. f st = (r, st') \<Longrightarrow> side_calls st st'"
  shows "run_op (on_wire f) w"
proof unfold_locales
  fix c r c'
  assume "on_wire f c = (r, c')"
  then obtain st where "f (snd c) = (r, st)" "c' = (fst c, st)"
    by (auto simp: on_wire_def split: prod.splits)
  with assms show "run_step w c c'" by (auto intro: wire_step)
qed

lemma spool_write_grows [simp]: "grows st (spool_write b st') \<longleftrightarrow> grows st st'"
  by (simp add: grows_def spool_write_def)

lemma post_events_grows: "post_events w tc rid events key st = (r, st') \<Longrightarrow> grows st st'"
  by (auto simp: post_events_def split: prod.splits sum.splits if_splits dest: request_grows)

text \<open>Posting a batch makes calls with the batch; the first that is accepted is the last, and posting returns.\<close>

lemma post_events_carries:
  assumes "post_events w tc rid (map JDict batch) key st = (r, st')" "\<And>v. r = Inr v \<Longrightarrow> left = []"
    "sd_sent st' = sd_sent st \<Longrightarrow> left = batch"
  shows "carries w rid st st' batch left"
proof -
  obtain x st1 where req: "request w tc ''POST'' (events_path rid) (Some (events_body (map JDict batch))) key True st = (x, st1)"
    by force
  let ?call = "\<lparr>hc_method = ''POST'', hc_path = events_path rid, hc_body = Some (events_body (map JDict batch)),
      hc_key = (if str_truthy key then key else None)\<rparr>"
  from request_calls [OF req] obtain k where k: "sd_sent st1 = sd_sent st @ replicate k ?call"
    "0 < k \<and> accepted w (length (sd_sent st)) ?call \<longrightarrow> k = 1 \<and> (\<exists>v. x = Inr v)" by auto
  have sent: "sd_sent st' = sd_sent st1" "\<And>v. x = Inr v \<Longrightarrow> r = Inr v"
    using assms(1) req by (auto simp: post_events_def spool_write_def split: sum.splits if_splits)
  have "delivers w rid (length (sd_sent st)) (replicate k ?call) batch left"
  proof (cases k)
    case 0
    with assms(3) k(1) sent(1) show ?thesis by simp
  next
    case (Suc m)
    then have "accepted w (length (sd_sent st)) ?call \<longrightarrow> m = 0 \<and> left = []"
      using k(2) sent(2) assms(2) by auto
    then have "accepted w (length (sd_sent st)) ?call
        \<longrightarrow> delivers w rid (Suc (length (sd_sent st))) (replicate m ?call) [] left" by auto
    then show ?thesis unfolding Suc by (auto simp: batch_call_def)
  qed
  moreover have "run_call rid ?call" by (auto simp: run_call_def batch_call_def)
  ultimately show ?thesis
    unfolding carries_def using k(1) sent(1) by (intro exI [of _ "replicate k ?call"]) simp
qed

text \<open>A request that does not fail with an assertion was sent.\<close>

lemma request_sent:
  assumes "request w tc meth path (Some body) key retry st = (r, st')" "r \<noteq> Inl AssertionError"
  shows "\<exists>call \<in> set (drop (length (sd_sent st)) (sd_sent st')). hc_body call = Some body"
proof -
  let ?n = "if retry then tc_max_retries tc else 1"
  let ?call = "\<lparr>hc_method = meth, hc_path = path, hc_body = Some body, hc_key = (if str_truthy key then key else None)\<rparr>"
  have eq: "request_loop w tc ?call ?n 0 None st = (r, st')" using assms(1) by (simp add: request_def)
  have "0 < ?n"
  proof (rule ccontr)
    assume "\<not> 0 < ?n"
    then have "?n = 0" by simp
    with eq assms(2) show False by simp
  qed
  from request_loop_spec [OF this, of w ?call st tc 0 None] obtain k
    where "sd_sent st' = sd_sent st @ replicate (Suc k) ?call" unfolding eq by auto
  then show ?thesis by (intro bexI [of _ ?call]) simp_all
qed

lemma post_events_sent:
  assumes "post_events w tc rid events key st = (Inr v, st')"
  shows "\<exists>call \<in> set (drop (length (sd_sent st)) (sd_sent st')). hc_body call = Some (events_body events)"
proof -
  obtain r st1 where req: "request w tc ''POST'' (events_path rid) (Some (events_body events)) key True st = (r, st1)" by force
  have "r \<noteq> Inl AssertionError \<and> sd_sent st' = sd_sent st1"
    using assms req by (auto simp: post_events_def spool_write_def split: sum.splits if_splits)
  with request_sent [OF req] show ?thesis by simp
qed

subsection \<open>Building, flushing, emitting\<close>

lemma int_str_no_colon: "CHR '':'' \<notin> set (int_str i)"
  using int_str_chars [of i] by (auto simp: is_digit_def less_eq_char_def)

lemma captured_payload:
  "capture rt cl mode v redact = Inr (payload, ph) \<Longrightarrow> payload = JNull \<or> (\<exists>p. payload = JDict p)"
  by (cases mode) (auto simp: capture_def as_dict_def artifact_uri_def split: if_splits sum.splits json.splits)

lemma build_envelope_Inr:
  assumes "build_envelope w cl em c = (Inr en, c')"
  shows "\<exists>mode payload ph h.
      sdk_event_hash (wo_rt w) (envelope_dict cl (fst c)
        (unsigned_envelope (wo_rt w) (fst c) em mode payload ph (sd_tick (snd c))) None) = Inr h
      \<and> em_type em \<in> set SDK_EVENT_TYPES \<and> (payload = JNull \<or> (\<exists>p. payload = JDict p))
      \<and> sd_tick (snd c') = sd_tick (snd c) + 3 \<and> en = (unsigned_envelope (wo_rt w) (fst c) em mode payload ph (sd_tick (snd c)))\<lparr>en_hash := h\<rparr>
      \<and> ro_prev (fst c') = Some h
      \<and> ro_step (fst c') = (if em_step_index em = None then Suc (ro_step (fst c)) else ro_step (fst c))"
proof -
  obtain mode where mode: "payload_mode_of (str_or (em_mode em) (cl_mode cl)) = Inr mode"
    using assms(1) by (auto simp: build_envelope_def Let_def split: if_splits sum.splits)
  obtain payload ph where cap: "capture (wo_rt w) cl mode (em_payload em) (em_redact em) = Inr (payload, ph)"
    using assms(1) mode by (auto simp: build_envelope_def Let_def split: if_splits sum.splits)
  show ?thesis
    using assms mode cap captured_payload [OF cap]
    by (intro exI [of _ mode] exI [of _ payload] exI [of _ ph])
      (simp add: build_envelope_def Let_def split: if_splits sum.splits, fastforce+)
qed

text \<open>A built envelope is the next link, whatever is then done with it.\<close>

lemma build_envelope_step:
  assumes "build_envelope w cl em c = (r, c')"
  shows "same_identity (fst c) (fst c')" "sd_sent (snd c') = sd_sent (snd c)"
    "ro_buffer (fst c') = ro_buffer (fst c)" "sd_tick (snd c) \<le> sd_tick (snd c')" "paced c c'"
    "\<And>e. r = Inl e \<Longrightarrow> new_events (wo_rt w) (fst c) (fst c') []"
    "\<And>en. r = Inr en \<Longrightarrow>
      new_events (wo_rt w) (fst c) (fst c') [envelope_dict cl (fst c') en (Some (event_key (fst c') en))]
      \<and> drawn (wo_rt w) (sd_tick (snd c)) (sd_tick (snd c')) [envelope_dict cl (fst c') en (Some (event_key (fst c') en))]
      \<and> (em_step_index em = None \<longrightarrow> numbered (fst c) (fst c') [envelope_dict cl (fst c') en (Some (event_key (fst c') en))])"
proof -
  show 1: "same_identity (fst c) (fst c')" "sd_sent (snd c') = sd_sent (snd c)"
    "ro_buffer (fst c') = ro_buffer (fst c)" "sd_tick (snd c) \<le> sd_tick (snd c')" "paced c c'"
    using assms by (auto simp: build_envelope_def Let_def same_identity_def paced_def split: if_splits sum.splits prod.splits)
  show "new_events (wo_rt w) (fst c) (fst c') []" if "r = Inl e" for e
    using assms that by (intro new_events_Nil)
      (auto simp: build_envelope_def Let_def split: if_splits sum.splits prod.splits)
  show "new_events (wo_rt w) (fst c) (fst c') [envelope_dict cl (fst c') en (Some (event_key (fst c') en))]
      \<and> drawn (wo_rt w) (sd_tick (snd c)) (sd_tick (snd c')) [envelope_dict cl (fst c') en (Some (event_key (fst c') en))]
      \<and> (em_step_index em = None \<longrightarrow> numbered (fst c) (fst c') [envelope_dict cl (fst c') en (Some (event_key (fst c') en))])"
    if r: "r = Inr en" for en
  proof -
    obtain mode payload ph h where
      hash: "sdk_event_hash (wo_rt w) (envelope_dict cl (fst c)
        (unsigned_envelope (wo_rt w) (fst c) em mode payload ph (sd_tick (snd c))) None) = Inr h"
      and known: "em_type em \<in> set SDK_EVENT_TYPES" "payload = JNull \<or> (\<exists>p. payload = JDict p)"
      and tick: "sd_tick (snd c') = sd_tick (snd c) + 3"
      and en: "en = (unsigned_envelope (wo_rt w) (fst c) em mode payload ph (sd_tick (snd c)))\<lparr>en_hash := h\<rparr>"
      and ro: "ro_prev (fst c') = Some h"
        "ro_step (fst c') = (if em_step_index em = None then Suc (ro_step (fst c)) else ro_step (fst c))"
      using build_envelope_Inr [of w cl em c en c'] assms r by blast
    let ?en0 = "unsigned_envelope (wo_rt w) (fst c) em mode payload ph (sd_tick (snd c))"
    have fields: "en_prev ?en0 = ro_prev (fst c)" by (simp add: unsigned_envelope_def)
    have no: "em_step_index em = None \<longrightarrow> numbered (fst c) (fst c') [envelope_dict cl (fst c') en (Some (event_key (fst c') en))]"
      using ro(2) by (simp add: numbered_def en unsigned_envelope_def)
    have cong: "envelope_dict cl (fst c') e k = envelope_dict cl (fst c) e k" for e k
      using 1(1) by (intro envelope_dict_cong) (simp_all add: same_identity_def)
    have "sdk_good (wo_rt w) (envelope_dict cl (fst c') en (Some (event_key (fst c') en)))"
      unfolding en cong by (rule sdk_event_hash_good [OF hash])
    moreover have "sdk_key (envelope_dict cl (fst c') en (Some k)) = k" for k
      by (simp add: sdk_key_def dict_str_def envelope_dict_def js_str_def)
    moreover have "emitted (ro_id (fst c)) (envelope_dict cl (fst c') en (Some (event_key (fst c') en)))"
      unfolding emitted_def using 1(1) known
      by (intro exI [of _ cl] exI [of _ "fst c'"] exI [of _ en] exI [of _ "event_key (fst c') en"])
        (auto simp: en unsigned_envelope_def same_identity_def)
    moreover have "sdk_id (envelope_dict cl (fst c') en (Some k)) = event_id_at (wo_rt w) (sd_tick (snd c))" for k
      by (simp add: sdk_id_def dict_str_def envelope_dict_def en unsigned_envelope_def event_id_at_def)
    then have "drawn (wo_rt w) (sd_tick (snd c)) (sd_tick (snd c')) [envelope_dict cl (fst c') en (Some k)]" for k
      unfolding drawn_def by (intro exI [of _ "[sd_tick (snd c)]"]) (simp add: tick)
    ultimately show ?thesis
      using 1(1) fields ro no by (simp add: new_events_def en head_hash_def event_key_def same_identity_def)
  qed
qed

lemma flush_run_makes:
  assumes "flush_run w cl c = (r, c')"
  shows "run_makes w c c' []"
proof (cases "ro_buffer (fst c) = []")
  case True
  with assms show ?thesis by (simp add: flush_run_def run_makes_refl)
next
  case False
  let ?events = "ro_buffer (fst c)"
  obtain x st where post: "post_events w (cl_transport cl) (ro_id (fst c)) (map JDict ?events)
      (Some (batch_key (ro_id (fst c)) ?events)) (snd c) = (x, st)" by force
  note g = post_events_grows [OF post]
  show ?thesis
  proof (cases x)
    case (Inl e)
    with assms False post have c': "c' = (fst c, st)" by (simp add: flush_run_def Let_def)
    show ?thesis
      unfolding run_makes_if_def same_identity_def c' using g post_events_carries [OF post] Inl
      by (intro conjI exI [of _ "[]"]) (simp_all add: new_events_Nil numbered_def paced_def grows_def)
  next
    case (Inr v)
    with assms False post have c': "c' = ((fst c)\<lparr>ro_buffer := []\<rparr>, st)" by (simp add: flush_run_def Let_def)
    note sent = post_events_sent [OF post [unfolded Inr]]
    then have "\<forall>d \<in> set ?events. sent_since (snd c) st d" by (fastforce simp: sent_since_def)
    moreover have "carries w (ro_id (fst c)) (snd c) st ?events []"
      by (rule post_events_carries [OF post]) (use sent in auto)
    ultimately show ?thesis
      unfolding run_makes_if_def same_identity_def c' using g
      by (intro conjI exI [of _ ?events]) (simp_all add: new_events_Nil numbered_def paced_def grows_def)
  qed
qed

lemma flush_op: "run_op (flush_run w cl) w"
  by unfold_locales (auto simp: run_step_if_def dest: flush_run_makes)

lemma run_makes_buffer:
  assumes "same_identity (fst c) ro" "grows (snd c) st" "new_events (wo_rt w) (fst c) ro new" "ro_buffer ro = ro_buffer (fst c)"
    "sd_sent st = sd_sent (snd c)" "drawn (wo_rt w) (sd_tick (snd c)) (sd_tick st) new" "paced c (ro, st)"
    "k \<longrightarrow> numbered (fst c) ro new"
  shows "run_makes_if k w c (ro\<lparr>ro_buffer := ro_buffer ro @ new\<rparr>, st) new"
  unfolding run_makes_if_def using assms
  by (intro conjI exI [of _ "[]"]) (simp_all add: same_identity_def new_events_def carries_same numbered_def paced_def)

text \<open>What an emission makes: its event, if it returns or fails after the event was built, and nothing else.\<close>

definition event_kind :: "pydict \<Rightarrow> string" where
  "event_kind d = dict_str d ''event_type''"

definition makes_one :: "string \<Rightarrow> 'a result \<Rightarrow> pydict list \<Rightarrow> bool" where
  "makes_one t r new \<longleftrightarrow> map event_kind new = [t] \<or> (new = [] \<and> (\<exists>e. r = Inl e))"

lemma emit_event_makes_if:
  assumes "emit_event w cl em c = (r, c')"
  defines "k \<equiv> em_step_index em = None"
  shows "\<exists>new. run_makes_if k w c c' new \<and> makes_one (em_type em) r new"
proof -
  obtain x c1 where build: "build_envelope w cl em c = (x, c1)" by (cases "build_envelope w cl em c")
  note b = build_envelope_step [OF build]
  have g: "grows (snd c) (snd c1)" using b(2,4) by (simp add: grows_def)
  have pace: "paced c (fst c1, snd c1)" using b(5) by simp
  show ?thesis
  proof (cases x)
    case (Inl e)
    have "run_makes_if k w c c1 []"
      using run_makes_buffer [OF b(1) g b(6) [OF Inl] b(3) b(2) _ pace] by (cases c1) (simp add: numbered_def)
    with assms(1) Inl build show ?thesis by (auto simp: emit_event_def and_then_def makes_one_def)
  next
    case (Inr en)
    let ?d = "envelope_dict cl (fst c1) en (Some (event_key (fst c1) en))"
    let ?c2 = "((fst c1)\<lparr>ro_buffer := ro_buffer (fst c1) @ [?d]\<rparr>, snd c1)"
    have "en_type en = em_type em"
      using build_envelope_Inr [of w cl em c en c1] build Inr by (auto simp: unsigned_envelope_def)
    then have type: "makes_one (em_type em) r [?d]"
      by (simp add: makes_one_def event_kind_def dict_str_def envelope_dict_def)
    have s: "run_makes_if k w c ?c2 [?d]"
      using b(7) [OF Inr] unfolding k_def by (intro run_makes_buffer [OF b(1) g _ b(3) b(2) _ pace]) simp_all
    have "run_makes_if k w c c' [?d]"
    proof (cases "cl_batch cl \<le> length (ro_buffer (fst ?c2))")
      case True
      with assms(1) Inr build have "and_then (flush_run w cl) (\<lambda>u. ok ?d) ?c2 = (r, c')"
        by (simp add: emit_event_def and_then_def [of "build_envelope w cl em"] Let_def)
      then obtain y where "flush_run w cl ?c2 = (y, c')"
        by (cases "flush_run w cl ?c2") (auto simp: and_then_def ok_def split: sum.splits)
      from run_makes_trans [OF s run_makes_weak [OF flush_run_makes [OF this]]] show ?thesis by simp
    next
      case False
      with assms(1) Inr build s show ?thesis
        by (simp add: emit_event_def and_then_def [of "build_envelope w cl em"] Let_def)
    qed
    with type show ?thesis by blast
  qed
qed

lemma emit_event_step_if: "emit_event w cl em c = (r, c') \<Longrightarrow> run_step_if (em_step_index em = None) w c c'"
  unfolding run_step_if_def using emit_event_makes_if by blast

lemma emit_event_makes:
  assumes "emit_event w cl em c = (r, c')" "em_step_index em = None"
  shows "\<exists>new. run_makes w c c' new \<and> makes_one (em_type em) r new"
  using emit_event_makes_if [OF assms(1)] assms(2) by simp

lemma emit_op: "em_step_index em = None \<Longrightarrow> run_op (emit_event w cl em) w"
  by unfold_locales (use emit_event_step_if in fastforce)

lemma emission_of_plain [simp]:
  "em_step_index (emission_of t p) = None" "em_step_index (emission_of t p\<lparr>em_redact := b\<rparr>) = None"
  "em_step_index (emission_of t p\<lparr>em_actor := a\<rparr>) = None" "em_step_index (tool_emission tc t i) = None"
  by (simp_all add: emission_of_def tool_emission_def)

text \<open>After an emission that returns, the buffer is shorter than a batch.\<close>

lemma flush_run_empty: "flush_run w cl c = (Inr u, c') \<Longrightarrow> ro_buffer (fst c') = []"
  by (auto simp: flush_run_def Let_def split: if_splits prod.splits sum.splits)

lemma emit_event_buffer:
  assumes "emit_event w cl em c = (Inr d, c')" "0 < cl_batch cl"
  shows "length (ro_buffer (fst c')) < cl_batch cl"
proof -
  obtain x c1 where build: "build_envelope w cl em c = (x, c1)" by (cases "build_envelope w cl em c")
  with assms show ?thesis
    by (auto simp: emit_event_def and_then_def Let_def ok_def split: sum.splits if_splits prod.splits dest!: flush_run_empty)
qed

end
