(* ===== verification/Sdk_Calls.thy ===== *)
theory Sdk_Calls
  imports Sdk_Laws
begin

section \<open>Whole runs\<close>

text \<open>
  The calls a user of the SDK makes on a run, performed one after another, whatever each of them
  returns or raises. Over the whole sequence the contract of \<open>Sdk_Laws\<close> gives what the
  collector and its auditors rely on: one chain from the first event, no event that is neither sent nor still
  buffered, and, where the run numbers its events itself, distinct idempotency keys.
\<close>

datatype api =
    ApiInput "string option" "string option" pydict
  | ApiModelCall string json json "string option" pydict bool bool
  | ApiMemoryRead string json string bool
  | ApiMemoryWrite string json string bool
  | ApiStateChange string string json json "string option" bool bool
  | ApiArtifact string string string "string option"
  | ApiToolEnter tool
  | ApiToolExit tool "(string \<times> string) option"
  | ApiEmit string pydict emit_options
  | ApiPolicyCheck string json "pydict option" "string option" "string option"
  | ApiEnforce string json
  | ApiRequestApproval "string option" json json "string option"
  | ApiHumanApproval string string string "string option"
  | ApiCommit
  | ApiRollback "string option"
  | ApiFail error_info
  | ApiExit "error_info option"

fun perform :: "world \<Rightarrow> client \<Rightarrow> api \<Rightarrow> ctx \<Rightarrow> ctx" where
  "perform w cl (ApiInput u h m) c = snd (input_event w cl u h m c)"
| "perform w cl (ApiModelCall m p q pr u r s) c = snd (model_call w cl m p q pr u r s c)"
| "perform w cl (ApiMemoryRead k v st r) c = snd (memory_read w cl k v st r c)"
| "perform w cl (ApiMemoryWrite k v st r) c = snd (memory_write w cl k v st r c)"
| "perform w cl (ApiStateChange t i b a re ap r) c = snd (state_change w cl t i b a re ap r c)"
| "perform w cl (ApiArtifact u h k d) c = snd (evidence_artifact w cl u h k d c)"
| "perform w cl (ApiToolEnter tc) c = snd (tool_enter w cl tc c)"
| "perform w cl (ApiToolExit tc e) c = snd (tool_exit w cl tc e c)"
| "perform w cl (ApiEmit t p eo) c = snd (run_emit w cl t p eo c)"
| "perform w cl (ApiPolicyCheck p i g v h) c = snd (sdk_policy_check w cl p i g v h c)"
| "perform w cl (ApiEnforce p i) c = snd (enforce_policy w cl p i c)"
| "perform w cl (ApiRequestApproval p i re a) c = snd (sdk_request_approval w cl p i re a c)"
| "perform w cl (ApiHumanApproval a r d re) c = snd (human_approval w cl a r d re c)"
| "perform w cl ApiCommit c = snd (commit w cl c)"
| "perform w cl (ApiRollback re) c = snd (rollback w cl re c)"
| "perform w cl (ApiFail er) c = snd (fail w cl er c)"
| "perform w cl (ApiExit e) c = snd (run_exit w cl e c)"

text \<open>A call under which the run numbers its events itself.\<close>

fun numbered_call :: "api \<Rightarrow> bool" where
  "numbered_call (ApiEmit t p eo) = (eo_step_index eo = None)"
| "numbered_call call = True"

definition perform_all :: "world \<Rightarrow> client \<Rightarrow> api list \<Rightarrow> ctx \<Rightarrow> ctx" where
  "perform_all w cl calls c = fold (perform w cl) calls c"

subsection \<open>Every call is a step of the run\<close>

lemma run_opI: "(\<And>c. run_step w c (snd (f c))) \<Longrightarrow> run_op f w"
  by unfold_locales (metis snd_conv)

lemma run_opD: "run_op f w \<Longrightarrow> run_step w c (snd (f c))"
  by (rule run_op.makes_step [where r = "fst (f c)"]) simp_all

lemmas then_op = run_op.then_op

interpretation flush: run_op "flush_run w cl" w for w cl
  by (rule flush_op)

interpretation emit: run_op "emit_event w cl (emission_of t p)" w for w cl t p
  by (rule emit_op) simp

lemma input_op: "run_op (input_event w cl u h m) w"
  unfolding input_event_def by (intro emit.then_op ok_op)

lemma model_call_op: "run_op (model_call w cl m p q pr u r s) w"
  unfolding model_call_def by (rule emit_op) simp

lemma memory_op: "run_op (memory_read w cl k v st r) w" "run_op (memory_write w cl k v st r) w"
  unfolding memory_read_def memory_write_def memory_event_def by (rule emit_op; simp)+

lemma state_change_op: "run_op (state_change w cl t i b a re ap r) w"
  unfolding state_change_def by (rule emit_op) simp

lemma artifact_op: "run_op (evidence_artifact w cl u h k d) w"
  unfolding evidence_artifact_def by (rule emit_op) simp

lemma tool_enter_op: "run_op (tool_enter w cl tc) w"
  unfolding tool_enter_def by (intro then_op emit_op ok_op) simp

lemma tool_exit_op: "run_op (tool_exit w cl tc e) w"
  unfolding tool_exit_def by (intro then_op emit_op ok_op) (simp split: option.split prod.split)

lemma human_approval_op: "run_op (human_approval w cl a r d re) w"
  unfolding human_approval_def by (simp add: throw_op emit_op)

text \<open>Calls of the transport that follow a run's own events.\<close>

lemma wire_calls_op:
  "run_op (on_wire (policy_check_call w tc b)) w" "run_op (on_wire (request_approval_call w tc b)) w"
  "run_op (on_wire (commit_run_call w tc rid)) w" "run_op (on_wire (rollback_run_call w tc rid re)) w"
  by (auto simp: policy_check_call_def request_approval_call_def commit_run_call_def rollback_run_call_def
      side_path_def commit_path_def rollback_path_def intro!: on_wire_op dest!: request_side)

lemma record_check_op: "run_op (record_check w cl p i res v h) w"
  unfolding record_check_def by (intro emit.then_op ok_op)

lemma policy_check_op: "run_op (sdk_policy_check w cl p i g v h) w"
proof (rule run_opI)
  fix c
  show "run_step w c (snd (sdk_policy_check w cl p i g v h c))"
  proof (cases g)
    case (Some res)
    then show ?thesis by (simp add: sdk_policy_check_def run_opD [OF record_check_op])
  next
    case None
    have "run_op (case policy_answer response of Inl e \<Rightarrow> throw e
        | Inr (res, v', h') \<Rightarrow> record_check w cl p i res (f v') (f' h')) w" for response f f'
      by (simp add: throw_op record_check_op split: sum.split prod.split)
    then show ?thesis
      unfolding sdk_policy_check_def None option.case by (intro run_opD then_op wire_calls_op)
  qed
qed

lemma clock_step: "run_step w (ro, sdk_tick st) c' \<Longrightarrow> run_step w (ro, st) c'"
  using run_step_trans [OF wire_step [of "(ro, st)" "sdk_tick st"], of w c']
  by (simp add: side_calls_tick sdk_tick_def)

lemma request_approval_op: "run_op (sdk_request_approval w cl p i re a) w"
proof (rule run_opI)
  fix c :: ctx
  have "run_step w c' (snd (and_then (emit_event w cl (emission_of ''approval.requested'' body)) (\<lambda>d.
        and_then (flush_run w cl) (\<lambda>u. on_wire (request_approval_call w (cl_transport cl) body))) c'))" for body c'
    by (intro run_opD emit.then_op flush.then_op wire_calls_op)
  then show "run_step w c (snd (sdk_request_approval w cl p i re a c))"
    by (cases c) (simp add: sdk_request_approval_def Let_def clock_step)
qed

lemma throw_case_op: "run_op (case v of JDict d \<Rightarrow> throw (e d) | _ \<Rightarrow> throw e') w"
  by (cases v) (simp_all add: throw_op)

lemma if_op: "run_op f w \<Longrightarrow> run_op g w \<Longrightarrow> run_op (if b then f else g) w"
  by simp

lemma enforce_op: "run_op (enforce_policy w cl p i) w"
  unfolding enforce_policy_def Let_def
  by (intro then_op if_op policy_check_op emit.run_op_axioms throw_op request_approval_op throw_case_op ok_op)

text \<open>Closing a run changes neither its events nor its buffer.\<close>

lemma close_run_op: "run_op (close_run st b) w"
proof (rule run_opI)
  fix c :: ctx
  show "run_step w c (snd (close_run st b c))"
    by (rule quiet_step) (simp_all add: same_identity_def close_run_def carries_same)
qed

lemma commit_op: "run_op (commit w cl) w"
proof (rule run_opI)
  fix c :: ctx
  show "run_step w c (snd (commit w cl c))"
    unfolding commit_def
    by (cases "ro_closed (fst c)")
      (simp_all add: run_step_refl run_opD emit.then_op flush.then_op then_op close_run_op wire_calls_op)
qed

lemma rollback_op: "run_op (rollback w cl re) w"
proof (rule run_opI)
  fix c :: ctx
  show "run_step w c (snd (rollback w cl re c))"
    unfolding rollback_def
    by (cases "ro_closed (fst c)")
      (simp_all add: run_step_refl run_opD emit.then_op flush.then_op then_op close_run_op wire_calls_op)
qed

lemma fail_op: "run_op (fail w cl er) w"
proof (rule run_opI)
  fix c :: ctx
  show "run_step w c (snd (fail w cl er c))"
    unfolding fail_def
    by (cases "ro_closed (fst c)")
      (simp_all add: run_step_refl run_opD emit.then_op flush.then_op close_run_op)
qed

lemma run_exit_op: "run_op (run_exit w cl e) w"
proof (rule run_opI)
  fix c :: ctx
  show "run_step w c (snd (run_exit w cl e c))"
    unfolding run_exit_def
    by (cases e) (simp_all add: run_step_refl run_opD fail_op then_op commit_op ok_op)
qed

lemma run_emit_step: "run_step_if (eo_step_index eo = None) w c (snd (run_emit w cl t p eo c))"
proof -
  have "run_step_if (em_step_index em = None) w c (snd (emit_event w cl em c))" for em
    by (metis emit_event_step_if prod.collapse)
  from this [of "emission_with t (JDict p) eo"] show ?thesis by (simp add: run_emit_def emission_with_def)
qed

lemma run_step_if_weak: "run_step_if k w c c' \<Longrightarrow> (k' \<Longrightarrow> k) \<Longrightarrow> run_step_if k' w c c'"
  unfolding run_step_if_def run_makes_if_def by blast

lemma perform_step: "run_step_if (numbered_call call) w c (perform w cl call c)"
  by (cases call) (simp_all add: run_opD input_op model_call_op memory_op state_change_op artifact_op tool_enter_op
      tool_exit_op human_approval_op policy_check_op request_approval_op enforce_op commit_op rollback_op fail_op
      run_exit_op run_emit_step)

text \<open>Steps one after another.\<close>

lemma fold_steps:
  assumes "\<And>x c. run_step_if (n x) w c (f x c)"
  shows "run_step_if (\<forall>x \<in> set xs. n x) w c (fold f xs c)"
proof (induction xs arbitrary: c)
  case Nil
  show ?case by (simp add: run_step_refl)
next
  case (Cons x xs)
  let ?k = "\<forall>y \<in> set (x # xs). n y"
  have "run_step_if ?k w c (f x c)" by (rule run_step_if_weak [OF assms]) simp
  moreover have "run_step_if ?k w (f x c) (fold f xs (f x c))" by (rule run_step_if_weak [OF Cons.IH]) simp
  ultimately show ?case using run_step_trans by fastforce
qed

lemma perform_all_step: "run_step_if (\<forall>call \<in> set calls. numbered_call call) w c (perform_all w cl calls c)"
  unfolding perform_all_def by (rule fold_steps [OF perform_step])

subsection \<open>Idempotency keys\<close>

lemma key_index:
  assumes "rid @ '':'' @ int_str i @ '':'' @ t = rid @ '':'' @ int_str j @ '':'' @ t'"
  shows "i = j"
  using colon_split [of "int_str i" t "int_str j" t'] assms int_str_no_colon by simp

lemma new_events_keys:
  assumes "new_events rt ro ro' new" "numbered ro ro' new"
  shows "distinct (map sdk_key new)"
proof -
  have d: "distinct (map sdk_index new)"
    using assms(2) by (simp add: numbered_def strict_sorted_iff)
  have key: "\<exists>t. sdk_key d = ro_id ro @ '':'' @ int_str (sdk_index d) @ '':'' @ t" if "d \<in> set new" for d
    using assms(1) that by (simp add: new_events_def)
  have "inj_on sdk_key (set new)"
  proof (rule inj_onI)
    fix d e
    assume de: "d \<in> set new" "e \<in> set new" "sdk_key d = sdk_key e"
    obtain t t' where "sdk_key d = ro_id ro @ '':'' @ int_str (sdk_index d) @ '':'' @ t"
      "sdk_key e = ro_id ro @ '':'' @ int_str (sdk_index e) @ '':'' @ t'" using key de by metis
    with de(3) have "sdk_index d = sdk_index e" using key_index by metis
    with d de(1,2) show "d = e" by (simp add: distinct_map inj_on_def)
  qed
  with d show ?thesis by (simp add: distinct_map)
qed

end
