(* ===== verification/Demo.thy ===== *)
theory Demo
  imports App_Laws Sdk_Calls
begin

section \<open>A concrete environment\<close>

text \<open>
  Values for the parameters of the model, on which the properties are exercised: a printer of floats
  that meets \<open>float_repr_ok\<close>, a clock that stands still in UTC, SQLite's columns, and a digest
  that is the text itself. One organisation, one project, one key and one run are set up.
\<close>

definition demo_float :: "pyfloat \<Rightarrow> string" where
  "demo_float f = (case f of
      FRat q \<Rightarrow> int_str (fst (quotient_of q)) @ '':'' @ int_str (snd (quotient_of q))
    | FNegZero \<Rightarrow> ''e''
    | _ \<Rightarrow> [])"

definition demo_repr :: "pyfloat \<Rightarrow> string" where
  "demo_repr f = map (\<lambda>c. if c = CHR '':'' then CHR ''.'' else c) (demo_float f)"

lemma quotient_of_eq: "quotient_of p = quotient_of q \<Longrightarrow> p = q"
  by (metis quotient_of_inject)

lemma colon_to_dot:
  assumes "CHR ''.'' \<notin> set s" "CHR ''.'' \<notin> set t"
    and "map (\<lambda>c. if c = CHR '':'' then CHR ''.'' else c) s = map (\<lambda>c. if c = CHR '':'' then CHR ''.'' else c) t"
  shows "s = t"
  using assms
proof (induction s arbitrary: t)
  case Nil
  then show ?case by simp
next
  case (Cons c s)
  then show ?case by (cases t) (auto split: if_splits)
qed

lemma int_str_no_dot: "CHR ''.'' \<notin> set (int_str i)" "CHR ''e'' \<notin> set (int_str i)"
  using int_str_chars [of i] by (auto simp: is_digit_def less_eq_char_def)

lemma demo_float_no_dot: "CHR ''.'' \<notin> set (demo_float f)"
  using int_str_no_dot by (auto simp: demo_float_def split: pyfloat.split)

lemma demo_float_rat: "demo_float (FRat p) = demo_float (FRat q) \<Longrightarrow> p = q"
proof -
  assume "demo_float (FRat p) = demo_float (FRat q)"
  then have "int_str (fst (quotient_of p)) @ CHR '':'' # int_str (snd (quotient_of p))
      = int_str (fst (quotient_of q)) @ CHR '':'' # int_str (snd (quotient_of q))"
    by (simp add: demo_float_def)
  from colon_split [OF this int_str_no_colon int_str_no_colon] have "quotient_of p = quotient_of q"
    by (simp add: prod_eq_iff)
  then show ?thesis by (rule quotient_of_eq)
qed

lemma demo_float_colon: "CHR '':'' \<in> set (demo_float (FRat p))" "demo_float FNegZero = ''e''"
  by (simp_all add: demo_float_def)

lemma demo_float_neq: "demo_float (FRat p) \<noteq> demo_float FNegZero"
proof
  assume "demo_float (FRat p) = demo_float FNegZero"
  with demo_float_colon(1) [of p] have "CHR '':'' \<in> set ''e''" unfolding demo_float_colon(2) by simp
  then show False by simp
qed

lemma demo_float_inj: "inj_on demo_float {f. finite_float f}"
proof (rule inj_onI)
  fix f g
  assume "f \<in> {f. finite_float f}" "g \<in> {f. finite_float f}" "demo_float f = demo_float g"
  then show "f = g"
    using demo_float_rat demo_float_neq demo_float_neq [THEN not_sym]
    by (cases f; cases g) simp_all
qed

lemma demo_repr_ok: "float_repr_ok demo_repr"
proof -
  have "inj_on demo_repr {f. finite_float f}"
    using demo_float_inj colon_to_dot [OF demo_float_no_dot demo_float_no_dot]
    unfolding inj_on_def demo_repr_def by blast
  moreover have "set (demo_repr f) \<subseteq> num_chars \<and> (CHR ''.'' \<in> set (demo_repr f) \<or> CHR ''e'' \<in> set (demo_repr f))"
    if "finite_float f" for f
  proof (cases f)
    case (FRat q)
    have "set (int_str i) \<subseteq> num_chars" for i
      using int_str_chars [of i] by (auto simp: num_chars_def)
    then show ?thesis
      using int_str_no_colon [of "fst (quotient_of q)"] int_str_no_colon [of "snd (quotient_of q)"] FRat
      by (auto simp: demo_repr_def demo_float_def num_chars_def split: if_splits)
  qed (use that in \<open>simp_all add: demo_repr_def demo_float_def num_chars_def\<close>)
  ultimately show ?thesis by (simp add: float_repr_ok_def)
qed

definition demo_now :: datetime where
  "demo_now = Datetime 2026 5 1 12 0 0 0 (Some 0)"

definition demo_rt :: runtime where
  "demo_rt = \<lparr>rt_sha256 = (\<lambda>s. s), rt_float_repr = demo_repr, rt_repr = (\<lambda>v. ''?''),
     rt_fromisoformat = (\<lambda>s. None), rt_now = (\<lambda>n. demo_now), rt_ms = (\<lambda>n. n), rt_perf = of_nat,
     rt_rand = (\<lambda>n. n), rt_real_text = demo_repr, rt_column = sqlite_column\<rparr>"

lemma demo_rt_simps [simp]:
  "rt_sha256 demo_rt s = s" "rt_float_repr demo_rt = demo_repr" "rt_fromisoformat demo_rt v = None"
  "rt_now demo_rt n = demo_now" "rt_ms demo_rt n = n" "rt_rand demo_rt n = n" "rt_column demo_rt = sqlite_column"
  by (simp_all add: demo_rt_def)

lemma demo_utc: "utc_runtime demo_rt"
  by (auto simp: utc_runtime_def demo_now_def sqlite_column_def as_utc_def with_tz_def intro!: datetime.expand)

definition demo_cfg :: settings where
  "demo_cfg = \<lparr>cfg_org = ''org_1'', cfg_project = ''proj_1'', cfg_keys = [''secret''],
     cfg_schema_version = ''2026-05-01'', cfg_object_store = ''objects''\<rparr>"

definition demo_p :: principal where
  "demo_p = \<lparr>pr_key = ''key_secret'', pr_org = ''org_1'', pr_project = ''proj_1'', pr_scopes = bootstrap_scopes\<rparr>"

definition demo_run :: agent_run where
  "demo_run = \<lparr>r_id = ''run_1'', r_org = ''org_1'', r_project = ''proj_1'', r_env = ''dev'', r_agent = ''a'',
     r_version = None, r_status = ''running'', r_metadata = [], r_started = demo_now, r_ended = None,
     r_last_hash = None, r_count = 0\<rparr>"

definition demo_db :: database where
  "demo_db = empty_db\<lparr>db_runs := [demo_run]\<rparr>"

definition demo_state :: cstate where
  "demo_state = \<lparr>st_db = demo_db, st_metrics = METRICS, st_tick = 0, st_files = []\<rparr>"

definition demo_event :: "string \<Rightarrow> event_input" where
  "demo_event i = \<lparr>i_event_id = Some i, i_type = ''model_call.completed'', i_schema = None, i_mode = ''redacted_payload'',
     i_payload = JDict [(''ssn'', JStr ''1'')], i_payload_hash = None, i_prev = None, i_hash = None, i_step_id = None,
     i_step_index = None, i_actor = None, i_occurred = None, i_ingested = None, i_trace = None, i_span = None,
     i_parent = None, i_idem = Some (''k'' @ i)\<rparr>"

lemma demo_event_id [simp]: "i_event_id (demo_event i) = Some i"
  by (simp add: demo_event_def)

lemma demo_db_ok: "db_ok demo_db"
  by (simp add: demo_db_def db_ok_def empty_db_def)

lemma demo_auth: "authorize_run demo_db demo_p ''run_1'' = Inr demo_run"
  by (simp add: authorize_run_def get_run_def demo_db_def demo_p_def demo_run_def)

lemma demo_state_simps [simp]: "st_db demo_state = demo_db" "st_metrics demo_state = METRICS"
  by (simp_all add: demo_state_def)

lemma demo_events_empty [simp]: "db_events demo_db = []"
  by (simp add: demo_db_def empty_db_def)

lemma demo_fresh: "fresh_batch demo_rt [] demo_db [demo_event ''e1'', demo_event ''e2'']"
  by (simp add: fresh_batch_def fresh_event_def demo_event_def EVENT_TYPES_def no_nan_def redact_payload_def fits_columns_def)

lemma demo_clean: "clean_event demo_rt (demo_event i)"
  by (simp add: clean_event_def demo_event_def plain_actor_def utc_date_def)

lemma demo_chain: "chain_sound demo_rt demo_db ''run_1''"
  by (simp add: chain_sound_def get_run_def demo_db_def demo_run_def run_events_def empty_db_def)

text \<open>A state with two recorded events, reached by one batch.\<close>

lemma demo_two:
  obtains s where "append_events demo_rt [] ''v'' demo_p ''run_1'' [demo_event ''e1'', demo_event ''e2''] demo_state = (Inr [''e1'', ''e2''], s)"
    and "length (db_events (st_db s)) = length (db_events demo_db) + 2"
  using append_events_all_fresh [of demo_state demo_p "''run_1''" demo_run demo_rt "[]" "[demo_event ''e1'', demo_event ''e2'']" "''v''"]
    demo_auth demo_fresh by (auto simp: demo_event_def)

subsection \<open>A run with two rows\<close>

definition demo_row :: "string \<Rightarrow> nat \<Rightarrow> string option \<Rightarrow> audit_event" where
  "demo_row i n prev = \<lparr>e_seq = n, e_id = i, e_org = ''org_1'', e_project = ''proj_1'', e_env = ''dev'', e_run = ''run_1'',
     e_step_id = None, e_step_index = None, e_type = ''model_call.completed'', e_schema = ''v'', e_actor_type = JStr ''agent'',
     e_actor_id = JStr ''a'', e_trace = None, e_span = None, e_parent = None, e_mode = ''redacted_payload'', e_payload = JNull,
     e_payload_hash = None, e_prev = prev, e_hash = [], e_occurred = demo_now, e_ingested = demo_now,
     e_idem = Some (''k'' @ i)\<rparr>"

definition sealed :: "audit_event \<Rightarrow> audit_event" where
  "sealed e = e\<lparr>e_hash := row_digest demo_rt (row_text demo_rt (demo_run, e))\<rparr>"

definition demo_row1 :: audit_event where "demo_row1 = sealed (demo_row ''e1'' 1 None)"
definition demo_row2 :: audit_event where "demo_row2 = sealed (demo_row ''e2'' 2 (Some (e_hash demo_row1)))"

definition demo_db2 :: database where
  "demo_db2 = demo_db\<lparr>db_events := [demo_row1, demo_row2]\<rparr>"

definition demo_state2 :: cstate where
  "demo_state2 = demo_state\<lparr>st_db := demo_db2\<rparr>"

lemma sealed_good: "\<not> row_nan e \<Longrightarrow> row_good demo_rt (demo_run, sealed e)"
  by (simp add: row_good_def sealed_def row_text_def verify_envelope_def row_nan_def)

lemma demo_rows [simp]:
  "e_run demo_row1 = ''run_1''" "e_run demo_row2 = ''run_1''" "e_seq demo_row1 = 1" "e_seq demo_row2 = 2"
  "e_id demo_row1 = ''e1''" "e_id demo_row2 = ''e2''" "e_prev demo_row1 = None" "e_prev demo_row2 = Some (e_hash demo_row1)"
  "e_idem demo_row1 = Some ''ke1''" "e_idem demo_row2 = Some ''ke2''"
  by (simp_all add: demo_row1_def demo_row2_def sealed_def demo_row_def)

lemma demo_rows_good: "row_good demo_rt (demo_run, demo_row1)" "row_good demo_rt (demo_run, demo_row2)"
  unfolding demo_row1_def demo_row2_def by (rule sealed_good; simp add: row_nan_def demo_row_def)+

lemma demo_db2_events [simp]: "db_events demo_db2 = [demo_row1, demo_row2]" "db_runs demo_db2 = [demo_run]"
  "db_approvals demo_db2 = []"
  by (simp_all add: demo_db2_def demo_db_def empty_db_def)

lemma demo_db2_ok: "db_ok demo_db2"
  by (simp add: db_ok_def event_of_run_def demo_run_def demo_row1_def demo_row2_def sealed_def demo_row_def)

lemma demo_run_events: "run_events demo_db2 ''run_1'' = [demo_row1, demo_row2]"
  by (simp add: run_events_filter [OF demo_db2_ok])

lemma demo_auth2: "authorize_run demo_db2 demo_p ''run_1'' = Inr demo_run"
  by (simp add: authorize_run_def get_run_def demo_p_def demo_run_def)

lemma demo_linked: "row_linked demo_rt demo_run None [demo_row1, demo_row2]"
  using demo_rows_good by (simp add: row_linked_def)

lemma demo_hashes: "e_hash demo_row1 \<noteq> e_hash demo_row2"
proof
  assume eq: "e_hash demo_row1 = e_hash demo_row2"
  have good: "row_sound demo_rt (demo_run, demo_row1)" "row_sound demo_rt (demo_run, demo_row2)"
    using demo_rows_good demo_repr_ok by (simp_all add: row_sound_def)
  have "\<not> collides (row_text demo_rt) (row_digest demo_rt) [(demo_run, demo_row1)] [(demo_run, demo_row2)]"
    by (simp add: collides_def row_digest_def sha256_hex_def)
  with coll_chain.same_hash_same_content [OF good] eq have "row_content (demo_run, demo_row1) = row_content (demo_run, demo_row2)"
    by simp
  from row_content_columns(1) [OF this] show False by simp
qed

lemma demo_verify2: "verify demo_rt demo_p ''run_1'' demo_db2
    = Inr \<lparr>v_run = ''run_1'', v_valid = True, v_count = 2, v_broken = None\<rparr>"
  using demo_linked verify_rows_linked [of demo_rt demo_run None "[demo_row1, demo_row2]"]
  by (simp add: verify_cases [OF demo_auth2] demo_run_events)

lemma demo_state2_simps [simp]: "st_db demo_state2 = demo_db2" "st_metrics demo_state2 = METRICS"
  by (simp_all add: demo_state2_def)

end
