(* ===== verification/Ledger_Properties.thy ===== *)
theory Ledger_Properties
  imports Demo
begin

section \<open>Properties of the event ledger\<close>

text \<open>
  What recording, verifying and reading a run's events guarantee, each property with a concrete
  instance of it.
\<close>

text \<open>
  C1: A batch in which every event becomes a row leaves the run's chain sound: the rows stay
  linked, the run's head is the hash of the last row and its counter the number of rows. The new rows
  are the batch, in order, with the collector's redaction applied. The clock of the collector and its date columns are in
  UTC, and so are the dates of the events; an actor that is given has the keys type and id and no other, with texts or
  nothing under them. Other actors and dates are hashed as they were sent and read back as something else.
\<close>

theorem append_keeps_chain:
  assumes "append_events rt rules schema p rid evs s = (Inr ids, s')" "db_ok (st_db s)"
    and "chain_sound rt (st_db s) rid" "utc_runtime rt" "\<forall>ev \<in> set evs. clean_event rt ev"
    and "length (db_events (st_db s')) = length (db_events (st_db s)) + length evs"
  shows "chain_sound rt (st_db s') rid
    \<and> (\<exists>rows. run_events (st_db s') rid = run_events (st_db s) rid @ rows \<and> rows_for rt rules evs ids rows)"
  by (rule append_events_chain_sound [OF assms])

theorem append_keeps_chain_witness:
  "\<exists>s. append_events demo_rt [] ''v'' demo_p ''run_1'' [demo_event ''e1'', demo_event ''e2''] demo_state = (Inr [''e1'', ''e2''], s)
     \<and> chain_sound demo_rt (st_db s) ''run_1''"
proof -
  obtain s where s: "append_events demo_rt [] ''v'' demo_p ''run_1'' [demo_event ''e1'', demo_event ''e2''] demo_state = (Inr [''e1'', ''e2''], s)"
    "length (db_events (st_db s)) = length (db_events demo_db) + 2" by (rule demo_two)
  from append_keeps_chain [OF s(1)] have "chain_sound demo_rt (st_db s) ''run_1''"
    using s(2) demo_db_ok demo_chain demo_utc demo_clean by simp
  with s(1) show ?thesis by blast
qed

text \<open>
  C2: Tamper evidence. Two histories of a run that both verify and end in the same hash
  hold the same events, column by column, or name two different texts with the same SHA-256.
\<close>

theorem verified_histories_agree:
  assumes "float_repr_ok (rt_float_repr rt)"
    and "verify rt p rid db = Inr v" "v_valid v" "verify rt p rid db' = Inr v'" "v_valid v'"
    and "authorize_run db p rid = Inr run" "authorize_run db' p rid = Inr run'"
    and "head_hash e_hash None (run_events db rid) = head_hash e_hash None (run_events db' rid)"
    and "\<not> collides (row_text rt) (row_digest rt) (map (Pair run) (run_events db rid)) (map (Pair run') (run_events db' rid))"
  shows "list_all2 (\<lambda>e e'. row_content (run, e) = row_content (run', e') \<and> e_id e = e_id e' \<and> e_type e = e_type e'
      \<and> json_equiv (e_payload e) (e_payload e')) (run_events db rid) (run_events db' rid)"
proof -
  have "row_linked rt run None (run_events db rid)" "row_linked rt run' None (run_events db' rid)"
    using assms(2-7) verify_valid_iff by blast+
  from linked_histories_agree [OF assms(1) this assms(8,9)]
  have "list_all2 (\<lambda>e e'. row_content (run, e) = row_content (run', e')) (run_events db rid) (run_events db' rid)"
    by (simp add: list_all2_conv_all_nth list_eq_iff_nth_eq)
  then show ?thesis by (rule list_all2_mono) (auto dest: row_content_columns)
qed

theorem verified_histories_agree_witness:
  "list_all2 (\<lambda>e e'. row_content (demo_run, e) = row_content (demo_run, e') \<and> e_id e = e_id e' \<and> e_type e = e_type e'
      \<and> json_equiv (e_payload e) (e_payload e')) (run_events demo_db2 ''run_1'') (run_events demo_db2 ''run_1'')"
  using verified_histories_agree [OF _ demo_verify2 _ demo_verify2 _ demo_auth2 demo_auth2] demo_repr_ok
  by (simp add: collides_def row_digest_def sha256_hex_def)

text \<open>
  C3: If a verified run is altered in one row, and the row keeps its stored hash, then
  verification of the altered run does not succeed, unless the two texts collide.
\<close>

theorem altered_row_detected:
  assumes "float_repr_ok (rt_float_repr rt)" "verify rt p rid db = Inr v" "v_valid v" "authorize_run db p rid = Inr run"
    and "run_events db rid = pre @ e # post" "run_events db' rid = pre' @ e' # post'"
    and "e_hash e' = e_hash e" "row_content (run, e') \<noteq> row_content (run, e)"
    and "row_text rt (run, e') = row_text rt (run, e) \<or> row_digest rt (row_text rt (run, e')) \<noteq> row_digest rt (row_text rt (run, e))"
    and "authorize_run db' p rid = Inr run"
  shows "\<not> (\<exists>v'. verify rt p rid db' = Inr v' \<and> v_valid v')"
proof
  assume "\<exists>v'. verify rt p rid db' = Inr v' \<and> v_valid v'"
  then have "row_linked rt run None (run_events db' rid)" using verify_valid_iff [OF assms(10)] by blast
  moreover have "row_linked rt run None (run_events db rid)" using verify_valid_iff [OF assms(4)] assms(2,3) by blast
  ultimately have "row_good rt (run, e)" "row_good rt (run, e')"
    unfolding row_linked_def assms(5,6) by (auto simp: linked_append)
  then have good: "row_sound rt (run, e)" "row_sound rt (run, e')" using assms(1) by (simp_all add: row_sound_def)
  have "row_content (run, e') = row_content (run, e)"
    using assms(7,9) by (intro coll_chain.same_hash_same_content [OF good(2,1)]) (auto simp: collides_def)
  with assms(8) show False ..
qed

theorem altered_row_detected_witness:
  "\<not> (\<exists>v'. verify demo_rt demo_p ''run_1'' (demo_db2\<lparr>db_events := [demo_row1\<lparr>e_type := ''user.login''\<rparr>, demo_row2]\<rparr>) = Inr v' \<and> v_valid v')"
proof (rule altered_row_detected [OF _ demo_verify2 _ demo_auth2, where pre = "[]" and pre' = "[]"])
  let ?db = "demo_db2\<lparr>db_events := [demo_row1\<lparr>e_type := ''user.login''\<rparr>, demo_row2]\<rparr>"
  show "run_events demo_db2 ''run_1'' = [] @ demo_row1 # [demo_row2]" by (simp add: demo_run_events)
  show "run_events ?db ''run_1'' = [] @ demo_row1\<lparr>e_type := ''user.login''\<rparr> # [demo_row2]"
    by (simp add: run_events_def)
  show "row_content (demo_run, demo_row1\<lparr>e_type := ''user.login''\<rparr>) \<noteq> row_content (demo_run, demo_row1)"
  proof
    assume "row_content (demo_run, demo_row1\<lparr>e_type := ''user.login''\<rparr>) = row_content (demo_run, demo_row1)"
    from row_content_columns(2) [OF this] show False by (simp add: demo_row1_def sealed_def demo_row_def)
  qed
  show "authorize_run ?db demo_p ''run_1'' = Inr demo_run"
    by (simp add: authorize_run_def get_run_def demo_p_def demo_run_def)
qed (use demo_repr_ok in \<open>simp_all add: row_digest_def sha256_hex_def\<close>)

text \<open>
  C17: A run verifies exactly when its rows are linked and every stored hash is that of its
  row; otherwise the id that is reported is that of the first row at which this fails, and the count is the
  number of rows.
\<close>

theorem verify_reports:
  assumes "authorize_run db p rid = Inr run" "verify rt p rid db = Inr v"
  shows "v_valid v = row_linked rt run None (run_events db rid) \<and> v_count v = length (run_events db rid)
    \<and> (v_valid v \<and> v_broken v = None
       \<or> (\<exists>pre row post. run_events db rid = pre @ row # post \<and> v_broken v = Some (e_id row)
            \<and> row_linked rt run None pre \<and> \<not> row_linked rt run None (pre @ [row])))"
proof (cases "v_broken v")
  case None
  then show ?thesis
    using assms verify_rows_linked [of rt run None "run_events db rid"]
    by (auto simp: verify_cases [OF assms(1)] split: sum.splits)
next
  case (Some i)
  then have rows: "verify_rows rt run None (run_events db rid) = Inr (Some i)"
    and v: "\<not> v_valid v" "v_count v = length (run_events db rid)"
    using assms by (auto simp: verify_cases [OF assms(1)] split: sum.splits)
  from rows have "\<not> row_linked rt run None (run_events db rid)"
    using verify_rows_linked [of rt run None "run_events db rid"] by simp
  with v verify_rows_broken [OF rows] Some show ?thesis by auto
qed

theorem verify_reports_witness:
  "row_linked demo_rt demo_run None (run_events demo_db2 ''run_1'')"
  using verify_reports [OF demo_auth2 demo_verify2] by simp

text \<open>
  A batch of events the collector has not seen, of known types and with values that can be
  hashed, is accepted whole: the answer lists their ids in order, and there is one new row per event.
\<close>

theorem fresh_batch_recorded:
  assumes "authorize_run (st_db s) p rid = Inr run" "fresh_batch rt rules (st_db s) evs"
  shows "\<exists>s'. append_events rt rules schema p rid evs s = (Inr (map (the \<circ> i_event_id) evs), s')
    \<and> length (db_events (st_db s')) = length (db_events (st_db s)) + length evs"
  by (rule append_events_all_fresh [OF assms])

theorem fresh_batch_recorded_witness:
  "\<exists>s'. append_events demo_rt [] ''v'' demo_p ''run_1'' [demo_event ''e1'', demo_event ''e2''] demo_state = (Inr [''e1'', ''e2''], s')
    \<and> length (db_events (st_db s')) = 2"
  using fresh_batch_recorded [of demo_state demo_p "''run_1''" demo_run demo_rt "[]" "[demo_event ''e1'', demo_event ''e2'']" "''v''"]
    demo_auth demo_fresh by (simp add: numeral_2_eq_2)

text \<open>
  C18: One event of an unknown type rejects its whole batch with status 422: the events before it are
  not kept, those after it are not looked at, and the failure counter goes up by one. The run is one that the principal may
  write to, and the events before it are such that the collector would accept them without it, replays included.
\<close>

theorem unknown_type_rejects_batch:
  assumes "authorize_run (st_db s) p rid = Inr run" "append_events rt rules schema p rid pre s = (Inr ids, s0)"
    and "i_type ev \<notin> set EVENT_TYPES"
  shows "\<exists>s'. append_events rt rules schema p rid (pre @ ev # post) s
      = (Inl (IngestError (''unknown event_type: '' @ i_type ev) 422), s')
    \<and> st_db s' = st_db s \<and> st_metrics s' = inc ''controldb.events.failed'' 1 (st_metrics s)"
  by (rule append_events_unknown [OF assms])

theorem unknown_type_rejects_batch_witness:
  "\<exists>s'. append_events demo_rt [] ''v'' demo_p ''run_1'' [demo_event ''e1'', (demo_event ''e2'')\<lparr>i_type := ''x''\<rparr>] demo_state
      = (Inl (IngestError ''unknown event_type: x'' 422), s') \<and> st_db s' = demo_db"
proof -
  have "fresh_batch demo_rt [] demo_db [demo_event ''e1'']" using demo_fresh by (simp add: fresh_batch_def)
  then obtain s0 where "append_events demo_rt [] ''v'' demo_p ''run_1'' [demo_event ''e1''] demo_state = (Inr [''e1''], s0)"
    using append_events_all_fresh [of demo_state demo_p "''run_1''" demo_run demo_rt "[]" "[demo_event ''e1'']" "''v''"] demo_auth
    by auto
  from unknown_type_rejects_batch [OF _ this, of demo_run "(demo_event ''e2'')\<lparr>i_type := ''x''\<rparr>" "[]"] demo_auth
  show ?thesis by (auto simp: EVENT_TYPES_def)
qed

text \<open>
  C13: A batch that raises, for whatever reason and at whatever event, leaves every table as it was; one
  that is accepted adds events of its run only, after the ones there were, and changes no other run.
\<close>

theorem append_all_or_nothing:
  assumes "append_events rt rules schema p rid evs s = (r, s')" "db_ok (st_db s)"
  shows "case r of Inl e \<Rightarrow> st_db s' = st_db s
    | Inr ids \<Rightarrow> db_ok (st_db s') \<and> (\<forall>k. k \<noteq> rid \<longrightarrow> get_run (st_db s') k = get_run (st_db s) k)
        \<and> (\<exists>new. db_events (st_db s') = db_events (st_db s) @ new \<and> (\<forall>e \<in> set new. e_run e = rid))"
proof (cases r)
  case (Inl e)
  with assms show ?thesis by (simp add: append_events_Inl)
next
  case (Inr ids)
  with append_events_session [of rt rules schema p rid evs s ids s'] assms
  have ses: "run_session (st_db s) rid (st_db s')" by simp
  then obtain new where "db_events (st_db s') = db_events (st_db s) @ new" "\<forall>e \<in> set new. e_run e = rid"
    by (rule run_session_new)
  with ses Inr show ?thesis by (auto simp: run_session_def)
qed

theorem append_all_or_nothing_witness:
  "\<exists>s. append_events demo_rt [] ''v'' demo_p ''run_2'' [demo_event ''e1''] demo_state = (Inl (IngestError ''run not found'' 404), s)
     \<and> st_db s = demo_db"
proof -
  have "get_run demo_db ''run_2'' = None"
    by (simp add: get_run_def demo_db_def demo_run_def)
  then obtain s where s: "append_events demo_rt [] ''v'' demo_p ''run_2'' [demo_event ''e1''] demo_state
      = (Inl (IngestError ''run not found'' 404), s)"
    by (simp add: append_events_def append_session_def with_session_def authorize_run_def Let_def)
  from append_all_or_nothing [OF s] demo_db_ok s show ?thesis by simp
qed

text \<open>
  C12: A replayed event rewinds the run. When the idempotency key of an event matches a row that is
  not the last of its run, the run's head becomes the old row's hash; the next event is then chained to
  the old row, and verification reports that event, in a history nobody tampered with.
\<close>

theorem replay_rewinds_chain:
  assumes "authorize_run (st_db s) p rid = Inr run" "db_ok (st_db s)" "row_linked rt run None (run_events (st_db s) rid)"
    and "i_type ev \<in> set EVENT_TYPES" "find_idempotent (st_db s) (i_idem ev) = Some old"
    and "Some (e_hash old) \<noteq> head_hash e_hash None (run_events (st_db s) rid)"
    and "fresh_batch rt rules (st_db s) [ev']"
  shows "\<exists>s1 s2. append_events rt rules schema p rid [ev] s = (Inr [e_id old], s1)
    \<and> append_events rt rules schema p rid [ev'] s1 = (Inr [the (i_event_id ev')], s2)
    \<and> verify rt p rid (st_db s2) = Inr \<lparr>v_run = rid, v_valid = False,
         v_count = Suc (length (run_events (st_db s) rid)), v_broken = i_event_id ev'\<rparr>"
  by (rule replay_breaks_chain [OF assms])

theorem replay_rewinds_chain_witness:
  "\<exists>s1 s2. append_events demo_rt [] ''v'' demo_p ''run_1'' [demo_event ''e1''] demo_state2 = (Inr [''e1''], s1)
    \<and> append_events demo_rt [] ''v'' demo_p ''run_1'' [demo_event ''e3''] s1 = (Inr [''e3''], s2)
    \<and> verify demo_rt demo_p ''run_1'' (st_db s2) = Inr \<lparr>v_run = ''run_1'', v_valid = False, v_count = 3, v_broken = Some ''e3''\<rparr>"
proof -
  have ev: "i_type (demo_event i) = ''model_call.completed''" "i_idem (demo_event i) = Some (''k'' @ i)" for i
    by (simp_all add: demo_event_def)
  have fresh: "fresh_batch demo_rt [] demo_db2 [demo_event ''e3'']"
    by (simp add: fresh_batch_def fresh_event_def ev EVENT_TYPES_def)
      (simp add: demo_event_def no_nan_def redact_payload_def fits_columns_def)
  have old: "find_idempotent demo_db2 (i_idem (demo_event ''e1'')) = Some demo_row1"
    by (simp add: find_idempotent_def ev)
  have head: "Some (e_hash demo_row1) \<noteq> head_hash e_hash None (run_events demo_db2 ''run_1'')"
    using demo_hashes by (simp add: demo_run_events head_hash_def)
  have linked: "row_linked demo_rt demo_run None (run_events demo_db2 ''run_1'')"
    using demo_linked by (simp add: demo_run_events)
  have type: "i_type (demo_event ''e1'') \<in> set EVENT_TYPES" by (simp add: ev EVENT_TYPES_def)
  note r = replay_rewinds_chain [of demo_state2 demo_p "''run_1''" demo_run demo_rt "demo_event ''e1''" demo_row1 "[]" "demo_event ''e3''" "''v''",
      unfolded demo_state2_simps demo_run_events, OF demo_auth2 demo_db2_ok linked [unfolded demo_run_events] type old head [unfolded demo_run_events] fresh]
  then show ?thesis by (simp add: numeral_3_eq_3)
qed

text \<open>
  C35: Verification does not notice a missing end. When the last rows of a verified run are removed and the
  run's own record is left as it was, the run still verifies, with fewer events: \<open>last_event_hash\<close> and
  \<open>event_count\<close> are not compared.
\<close>

theorem truncation_unnoticed:
  assumes "verify rt p rid db = Inr v" "v_valid v" "authorize_run db p rid = Inr run" "authorize_run db' p rid = Inr run"
    and "run_events db' rid = take n (run_events db rid)"
  shows "verify rt p rid db' = Inr \<lparr>v_run = rid, v_valid = True, v_count = min n (v_count v), v_broken = None\<rparr>"
proof -
  have "row_linked rt run None (run_events db rid)"
    using assms(1-3) verify_valid_iff by blast
  then have "row_linked rt run None (run_events db' rid)"
    unfolding assms(5) row_linked_def take_map [symmetric] by (rule linked_take)
  then have "verify_rows rt run None (run_events db' rid) = Inr None" by (simp add: verify_rows_linked)
  moreover have "v_count v = length (run_events db rid)"
    using assms(1) by (auto simp: verify_cases [OF assms(3)] split: sum.splits)
  ultimately show ?thesis
    by (simp add: verify_cases [OF assms(4)] assms(5) min.commute)
qed

theorem truncation_unnoticed_witness:
  "verify demo_rt demo_p ''run_1'' (demo_db2\<lparr>db_events := [demo_row1]\<rparr>)
     = Inr \<lparr>v_run = ''run_1'', v_valid = True, v_count = 1, v_broken = None\<rparr>"
proof -
  have "authorize_run (demo_db2\<lparr>db_events := [demo_row1]\<rparr>) demo_p ''run_1'' = Inr demo_run"
    by (simp add: authorize_run_def get_run_def demo_p_def demo_run_def)
  moreover have "run_events (demo_db2\<lparr>db_events := [demo_row1]\<rparr>) ''run_1'' = take 1 (run_events demo_db2 ''run_1'')"
    unfolding demo_run_events by (simp add: run_events_def)
  ultimately show ?thesis using truncation_unnoticed [OF demo_verify2 _ demo_auth2] by simp
qed

text \<open>
  A client that follows the cursors of the timeline, with any limit the endpoint accepts, gets every
  event of the run exactly once, in order.
\<close>

theorem timeline_pages_complete:
  assumes "db_ok db" "1 \<le> limit" "limit \<le> 5000" "length (run_events db rid) < fuel"
  shows "collect_pages (timeline_fetch (db, rid, limit)) fuel 0 = run_events db rid"
  using timeline_pages.collect_all [of "(db, rid, limit)" fuel] assms by simp

theorem timeline_pages_complete_witness:
  "collect_pages (timeline_fetch (demo_db2, ''run_1'', 1)) 3 0 = [demo_row1, demo_row2]"
  using timeline_pages_complete [OF demo_db2_ok, of 1 "''run_1''" 3] by (simp add: demo_run_events)

text \<open>
  C25: The same for queries: with a limit between 1 and 1000, following the cursors gives every event of the
  principal's project that the filters select, once and in order.
\<close>

theorem query_pages_complete:
  assumes "db_ok db" "1 \<le> qr_limit q" "qr_limit q \<le> 1000" "length (query_matches p q db) < fuel"
  shows "collect_pages (query_fetch (p, q, db)) fuel 0 = query_matches p q db"
  using query_pages.collect_all [of "(p, q, db)" fuel] assms by simp

theorem query_pages_complete_witness:
  "collect_pages (query_fetch (demo_p, \<lparr>qr_run = None, qr_types = None, qr_limit = 1, qr_cursor = None\<rparr>, demo_db2)) 3 0
     = [demo_row1, demo_row2]"
proof -
  have "query_matches demo_p \<lparr>qr_run = None, qr_types = None, qr_limit = 1, qr_cursor = None\<rparr> demo_db2 = [demo_row1, demo_row2]"
    by (simp add: query_matches_def project_events_filter [OF demo_db2_ok] query_filter_def demo_p_def demo_row1_def
        demo_row2_def sealed_def demo_row_def)
  then show ?thesis
    using query_pages_complete [OF demo_db2_ok, of "\<lparr>qr_run = None, qr_types = None, qr_limit = 1, qr_cursor = None\<rparr>" demo_p 3]
    by simp
qed

text \<open>
  With a limit above 1000 the page is cut at 1000 rows and carries no cursor, so that of more than 1000
  matching events the rest cannot be reached: the cursor is compared with the limit that was asked for.
\<close>

theorem query_limit_loses_rows:
  assumes "1000 < qr_limit q"
  shows "length (query_rows p q db) \<le> 1000 \<and> query_cursor q (query_rows p q db) = None"
  by (rule query_limit_cut [OF assms])

theorem query_limit_loses_rows_witness:
  "query_cursor \<lparr>qr_run = None, qr_types = None, qr_limit = 2000, qr_cursor = None\<rparr>
     (query_rows demo_p \<lparr>qr_run = None, qr_types = None, qr_limit = 2000, qr_cursor = None\<rparr> demo_db2) = None"
  using query_limit_loses_rows [of "\<lparr>qr_run = None, qr_types = None, qr_limit = 2000, qr_cursor = None\<rparr>" demo_p demo_db2]
  by simp

subsection \<open>Payloads of recorded rows\<close>

definition new_payloads :: "runtime \<Rightarrow> rule list \<Rightarrow> database \<Rightarrow> database \<Rightarrow> bool" where
  "new_payloads rt rules db0 db \<longleftrightarrow>
     (\<forall>e \<in> set (drop (length (db_events db0)) (db_events db)). \<exists>x. e_payload e = redact_payload rt rules x)"

lemma new_payloads_refl: "new_payloads rt rules db db"
  by (simp add: new_payloads_def)

lemma adds_row_payloads:
  assumes "adds_row rt rules schema p run ev prev eh s s'" "new_payloads rt rules db0 (st_db s)"
  shows "new_payloads rt rules db0 (st_db s')"
proof -
  obtain ph h where "db_events (st_db s') = db_events (st_db s)
      @ [(new_row rt rules schema p run ev prev ph h s)\<lparr>e_seq := next_seq (st_db s)\<rparr>]"
    by (rule adds_row_events [OF assms(1)])
  then have "set (drop n (db_events (st_db s'))) \<subseteq> set (drop n (db_events (st_db s)))
      \<union> {(new_row rt rules schema p run ev prev ph h s)\<lparr>e_seq := next_seq (st_db s)\<rparr>}" for n
    using set_drop_subset [of _ "[(new_row rt rules schema p run ev prev ph h s)\<lparr>e_seq := next_seq (st_db s)\<rparr>]"] by auto
  then show ?thesis using assms(2) unfolding new_payloads_def by fastforce
qed

lemma append_loop_payloads:
  assumes "append_loop rt rules schema p run db0 evs prev s = (r, s')" "new_payloads rt rules db0 (st_db s)"
  shows "new_payloads rt rules db0 (st_db s')"
  using assms
proof (induction evs arbitrary: prev s r s')
  case Nil
  then show ?case by simp
next
  case (Cons ev evs)
  obtain y s1 where pe: "persist_event rt rules schema p run db0 ev prev s = (y, s1)" by force
  have n1: "new_payloads rt rules db0 (st_db s1)"
    using persist_event_cases [OF pe] Cons.prems(2) new_payloads_refl adds_row_payloads by metis
  show ?case
  proof (cases y)
    case (Inl e)
    with pe Cons.prems(1) n1 show ?thesis by (auto split: if_splits)
  next
    case (Inr eh)
    obtain z s2 where al: "append_loop rt rules schema p run db0 evs (Some (snd eh)) s1 = (z, s2)" by force
    from Cons.IH [OF al n1] Inr pe al Cons.prems(1) show ?thesis
      by (auto split: sum.splits prod.splits)
  qed
qed

lemma append_events_payloads:
  assumes "append_events rt rules schema p rid evs s = (Inr ids, s')"
  shows "new_payloads rt rules (st_db s) (st_db s')"
proof (cases "evs = []")
  case True
  with assms show ?thesis by (simp add: append_events_def new_payloads_refl)
next
  case False
  obtain run prev' s1 where loop: "append_loop rt rules schema p run (st_db s) evs (r_last_hash run) (tick s) = (Inr (ids, prev'), s1)"
    and s': "st_db s' = update_run rid (\<lambda>r. r\<lparr>r_last_hash := prev', r_count := r_count r + int (length ids)\<rparr>) (st_db s1)"
    by (rule append_events_Inr [OF assms False])
  have "new_payloads rt rules (st_db s) (st_db s1)"
    by (rule append_loop_payloads [OF loop]) (simp add: new_payloads_refl)
  then show ?thesis by (simp add: s' new_payloads_def)
qed

text \<open>
  C19: With redaction rules configured, no payload that a batch records keeps the value of a field that
  a rule names, at any depth: the value is dropped, hashed or replaced by the mark.
\<close>

theorem recorded_payload_redacted:
  assumes "append_events rt rules schema p rid evs s = (Inr ids, s')" "rules \<noteq> []" "r \<in> set rules" "field_is k r"
    and "e \<in> set (drop (length (db_events (st_db s))) (db_events (st_db s')))" "(k, v) \<in> set (items_in (e_payload e))"
  shows "is_mark v"
proof -
  obtain x where "e_payload e = redact_payload rt rules x"
    using append_events_payloads [OF assms(1)] assms(5) by (auto simp: new_payloads_def)
  with assms(2) have "e_payload e = apply_collector_redaction rt x rules"
    by (auto simp: redact_payload_def apply_collector_redaction_def)
  with assms(3,4,6) show ?thesis
    using coll.walk_fields [of k v rt rules x r] by (auto simp: apply_collector_redaction_def split: if_splits)
qed

definition demo_rule :: rule where
  "demo_rule = \<lparr>rl_field = Some ''ssn'', rl_regex = None, rl_mode = ''redact''\<rparr>"

theorem recorded_payload_redacted_witness:
  "\<exists>s. append_events demo_rt [demo_rule] ''v'' demo_p ''run_1'' [demo_event ''e1''] demo_state = (Inr [''e1''], s)
     \<and> (\<forall>e \<in> set (db_events (st_db s)). \<forall>(k, v) \<in> set (items_in (e_payload e)). k = ''ssn'' \<longrightarrow> is_mark v)"
proof -
  have "fresh_batch demo_rt [demo_rule] demo_db [demo_event ''e1'']"
    by (simp add: fresh_batch_def fresh_event_def demo_event_def EVENT_TYPES_def no_nan_def redact_payload_def
        apply_collector_redaction_def demo_rule_def field_is_def coll_apply_def fits_columns_def)
  from append_events_all_fresh [of demo_state demo_p "''run_1''" demo_run demo_rt, OF _ this [folded demo_state_simps], of "''v''"]
  obtain s where s: "append_events demo_rt [demo_rule] ''v'' demo_p ''run_1'' [demo_event ''e1''] demo_state = (Inr [''e1''], s)"
    using demo_auth by auto
  have "is_mark v" if "e \<in> set (db_events (st_db s))" "(''ssn'', v) \<in> set (items_in (e_payload e))" for e v
    using recorded_payload_redacted [OF s, of demo_rule "''ssn''" e v] that by (simp add: demo_rule_def field_is_def)
  with s show ?thesis by blast
qed

end
