(* ===== verification/Service_Laws.thy ===== *)
theory Service_Laws
  imports App_Laws
begin

section \<open>Decisions and exports\<close>

text \<open>
  What a reviewer's decision does to the table of approvals, and what an export leaves behind: a row, the
  file it names, and the hash that ties them together until the file is written again.
\<close>

subsection \<open>Approvals\<close>

lemma get_approval_update:
  assumes "\<And>a. a_id (f a) = a_id a"
  shows "get_approval (update_approval k f db) k' = (if k = k' then map_option f (get_approval db k') else get_approval db k')"
proof -
  have "find (\<lambda>a. a_id a = k') (map (\<lambda>a. if a_id a = k then f a else a) as)
      = map_option (\<lambda>a. if a_id a = k then f a else a) (find (\<lambda>a. a_id a = k') as)" for as
    by (rule find_map_frame) (simp add: assms)
  moreover have "a_id a = k'" if "find (\<lambda>a. a_id a = k') as = Some a" for as a
    using find_Some_set [OF that] by simp
  ultimately show ?thesis
    by (auto simp: get_approval_def update_approval_def map_option_case split: option.split)
qed

lemma decided_id [simp]: "a_id (decided d r n re a) = a_id a"
  by (simp add: decided_def)

lemma decide_Inr:
  assumes "decide rt p aid decision reviewer reason s = (Inr j, s')"
  obtains a now where "get_approval (st_db s) aid = Some a" "own_approval p a" "decision \<in> set DECISIONS"
    and "st_db s' = update_approval aid (decided decision reviewer now reason) (st_db s)"
  using assms
  by (auto simp: decide_def with_session_def Let_def own_approval_def split: if_splits option.splits)

lemma pending_rows_set:
  "a \<in> set (pending_rows p db) \<longleftrightarrow> a \<in> set (db_approvals db) \<and> own_approval p a \<and> a_status a = ''requested''"
  by (auto simp: pending_rows_def own_approval_def)

lemma pending_rows_sorted: "sorted (map a_created (pending_rows p db))"
  by (simp add: pending_rows_def)

subsection \<open>Files\<close>

lemma prepare_event_files:
  "prepare_event rt rules schema p run ev prev s = (x, s') \<Longrightarrow> st_files s' = st_files s"
  by (auto simp: prepare_event_def read_occurred_def read_event_id_def Let_def split: sum.splits prod.splits if_splits)

lemma persist_event_files:
  "persist_event rt rules schema p run db0 ev prev s = (x, s') \<Longrightarrow> st_files s' = st_files s"
  by (auto simp: persist_event_def store_event_def split: if_splits option.splits sum.splits prod.splits
      dest: prepare_event_files)

lemma append_loop_files:
  "append_loop rt rules schema p run db0 evs prev s = (x, s') \<Longrightarrow> st_files s' = st_files s"
proof (induction evs arbitrary: prev s x s')
  case Nil
  then show ?case by simp
next
  case (Cons ev evs)
  obtain y s1 where pe: "persist_event rt rules schema p run db0 ev prev s = (y, s1)" by force
  note f1 = persist_event_files [OF pe]
  show ?case
  proof (cases y)
    case (Inl e)
    with pe Cons.prems f1 show ?thesis by (auto split: if_splits)
  next
    case (Inr eh)
    obtain z s2 where al: "append_loop rt rules schema p run db0 evs (Some (snd eh)) s1 = (z, s2)" by force
    from Cons.IH [OF al] Inr pe al Cons.prems f1 show ?thesis by (auto split: sum.splits prod.splits)
  qed
qed

lemma append_events_files:
  "append_events rt rules schema p rid evs s = (x, s') \<Longrightarrow> st_files s' = st_files s"
  by (auto simp: append_events_def append_session_def with_session_def Let_def
      split: if_splits sum.splits prod.splits dest!: append_loop_files)

lemma append_events_exports:
  "append_events rt rules schema p rid evs s = (x, s') \<Longrightarrow> db_ok (st_db s) \<Longrightarrow> db_exports (st_db s') = db_exports (st_db s)"
  using append_events_Inl [of rt rules schema p rid evs s _ s'] append_events_session [of rt rules schema p rid evs s _ s']
  by (cases x) (auto simp: run_session_def)

subsection \<open>Exports\<close>

lemma announce_export_frame:
  "st_files (announce_export rt rules cfg p rid payload s) = st_files s"
  "db_ok (st_db s) \<Longrightarrow> db_exports (st_db (announce_export rt rules cfg p rid payload s)) = db_exports (st_db s)"
  by (auto simp: announce_export_def Let_def append_events_files [OF surjective_pairing]
      append_events_exports [OF surjective_pairing] tick_def)

lemma finish_export_Inr:
  assumes "finish_export rt cfg p row payload s = (Inr j, s')" "db_ok (st_db s)"
  shows "\<exists>t. db_exports (st_db s') = db_exports (st_db s) @ [row\<lparr>x_at := t\<rparr>]
    \<and> x_id row \<notin> set (map x_id (db_exports (st_db s))) \<and> st_files s' = st_files s \<and> j = JDict payload"
proof -
  obtain u s1 where rec: "record_export rt row s = (Inr u, s1)"
    and s': "s' = announce_export rt [] cfg p (x_run row) payload s1" and j: "j = JDict payload"
    using assms(1) by (auto simp: finish_export_def split: prod.splits sum.splits)
  from rec have s1: "x_id row \<notin> set (map x_id (db_exports (st_db s)))" "st_files s1 = st_files s"
    "st_db s1 = (st_db s)\<lparr>db_exports := db_exports (st_db s) @ [row\<lparr>x_at := rt_column rt (now_reading rt s)\<rparr>]\<rparr>"
    by (auto simp: record_export_def with_session_def Let_def split: if_splits)
  then have "db_ok (st_db s1)" using assms(2) by (simp add: db_ok_def)
  with s1 j show ?thesis by (auto simp: s' announce_export_frame)
qed

text \<open>The row an export adds, with the run's evidence as it was before.\<close>

definition export_row_for :: "runtime \<Rightarrow> settings \<Rightarrow> principal \<Rightarrow> string \<Rightarrow> cstate \<Rightarrow> verification \<Rightarrow> string \<Rightarrow> evidence_export \<Rightarrow> bool" where
  "export_row_for rt cfg p rid s v data row \<longleftrightarrow>
     x_run row = rid \<and> x_org row = pr_org p \<and> x_project row = pr_project p \<and> x_uri row = bundle_path cfg rid
     \<and> x_hash row = ''sha256:'' @ rt_sha256 rt data
     \<and> x_count row = int (length (run_events (st_db s) rid)) \<and> x_valid row = v_valid v"

lemma export_run_Inr:
  assumes "export_run rt zip_bytes cfg p rid by s = (Inr j, s')" "db_ok (st_db s)"
  obtains run v row data where "get_run (st_db s) rid = Some run" "own_run p run"
    and "verify rt p rid (st_db s) = Inr v" "export_row_for rt cfg p rid s v data row"
    and "db_exports (st_db s') = db_exports (st_db s) @ [row]" "x_id row \<notin> set (map x_id (db_exports (st_db s)))"
    and "map_of (st_files s') = (map_of (st_files s))(bundle_path cfg rid \<mapsto> data)"
    and "\<exists>man. data = zip_bytes (bundle_members rt man run (run_events (st_db s) rid) (run_approvals (st_db s) rid) v)"
proof -
  obtain run where src: "export_source p rid (st_db s) = Inr run"
    using assms(1) by (cases "export_source p rid (st_db s)") (auto simp: export_run_def)
  obtain v where ver: "verify rt p rid (st_db s) = Inr v"
    using assms(1) src by (cases "verify rt p rid (st_db s)") (auto simp: export_run_def)
  from assms(1) src ver obtain row payload s2 man data where
    fin: "finish_export rt cfg p row payload s2 = (Inr j, s')"
    and row: "export_row_for rt cfg p rid s v data row" and s2: "st_db s2 = st_db s"
    and files: "map_of (st_files s2) = (map_of (st_files s))(bundle_path cfg rid \<mapsto> data)"
    and data: "data = zip_bytes (bundle_members rt man run (run_events (st_db s) rid) (run_approvals (st_db s) rid) v)"
    by (auto simp: export_run_def Let_def export_row_for_def write_file_def update_conv')
  have ok2: "db_ok (st_db s2)" using assms(2) s2 by simp
  from finish_export_Inr [OF fin ok2] obtain t where
    t: "db_exports (st_db s') = db_exports (st_db s) @ [row\<lparr>x_at := t\<rparr>]"
       "x_id row \<notin> set (map x_id (db_exports (st_db s)))" "st_files s' = st_files s2"
    by (auto simp: s2)
  show thesis
  proof (rule that [of run v data "row\<lparr>x_at := t\<rparr>"])
    show "get_run (st_db s) rid = Some run" "own_run p run"
      using src by (auto simp: export_source_def own_run_def split: option.splits if_splits)
  qed (use ver row t files data in \<open>auto simp: export_row_for_def\<close>)
qed

lemma find_last_new:
  "x_id row \<notin> set (map x_id xs) \<Longrightarrow> find (\<lambda>x. x_id x = x_id row) (xs @ [row]) = Some row"
  by (induction xs) auto

end
