(* ===== verification/Service_Properties.thy ===== *)
theory Service_Properties
  imports Demo Service_Laws
begin

section \<open>Properties of the services\<close>

text \<open>
  What holds of every request: tenants are kept apart, failures change no table, the tables stay
  well-formed and the history only grows; and the texts and identifiers the services rest on.
\<close>

subsection \<open>Tenants, keys and reachable states\<close>

text \<open>
  C10: Whatever a request does and however it ends, a run of a project that its key does not
  open keeps its row and its events.
\<close>

theorem tenant_isolation:
  assumes "serve rt dp auth req s = (r, s')" "db_ok (st_db s)" "run \<in> set (db_runs (st_db s))"
    and "\<And>p. current_principal rt auth (st_db s) = Inr p \<Longrightarrow> \<not> own_run p run"
  shows "get_run (st_db s') (r_id run) = Some run
    \<and> run_events (st_db s') (r_id run) = run_events (st_db s) (r_id run)"
  using serve_tenant [OF assms(1,2)]
proof
  assume "st_db s' = st_db s"
  then show ?thesis using assms(2,3) db_ok_run_unique by simp
next
  assume "\<exists>p. current_principal rt auth (st_db s) = Inr p \<and> tenant_step p (st_db s) (st_db s')"
  then obtain p where p: "\<not> own_run p run" "tenant_step p (st_db s) (st_db s')" using assms(4) by blast
  have run: "get_run (st_db s') (r_id run) = Some run"
    using tenant_step_foreign_run [OF p(2) assms(3) p(1)] .
  obtain new where new: "db_events (st_db s') = db_events (st_db s) @ new" "\<forall>e \<in> set new. own_event p e"
    and ok': "db_ok (st_db s')" using p(2) by (auto simp: tenant_step_def)
  have "e_run e \<noteq> r_id run" if "e \<in> set new" for e
  proof
    assume "e_run e = r_id run"
    with db_ok_event_run [OF ok', of e run] that new(1) run have "event_of_run e run" by simp
    with that new(2) p(1) show False by (auto simp: own_event_def own_run_def event_of_run_def)
  qed
  then have "run_events (st_db s') (r_id run) = run_events (st_db s) (r_id run)"
    using assms(2) ok' new(1) by (simp add: run_events_filter filter_empty_conv)
  with run show ?thesis ..
qed

definition demo_dp :: deployment where
  "demo_dp = \<lparr>dp_cfg = demo_cfg, dp_engine = \<lparr>en_policies = [], en_opa = None\<rparr>,
     dp_opa = (\<lambda>u b. Inl (HttpxError ''no service'')), dp_zip = (\<lambda>members. ''zip'')\<rparr>"

theorem tenant_isolation_witness:
  "get_run (st_db (snd (serve demo_rt demo_dp None (RunsCommit ''run_1'') demo_state2))) ''run_1'' = Some demo_run"
proof -
  have none: "\<And>p. current_principal demo_rt None (st_db demo_state2) = Inr p \<Longrightarrow> \<not> own_run p demo_run"
    by (simp add: current_principal_def)
  have "demo_run \<in> set (db_runs (st_db demo_state2))" "db_ok (st_db demo_state2)" "r_id demo_run = ''run_1''"
    by (simp_all add: demo_db2_ok) (simp add: demo_run_def)
  with tenant_isolation [of demo_rt demo_dp None "RunsCommit ''run_1''" demo_state2, OF surjective_pairing _ _ none]
  show ?thesis by metis
qed

text \<open>
  C14: In every state the collector can reach from its bootstrap, ids and idempotency keys are unique,
  sequence numbers grow, and every event belongs to a run of its organisation, project and environment.
\<close>

theorem reachable_well_formed:
  assumes "reachable rt dp now s"
  shows "db_ok (st_db s)"
  by (rule reachable_ok [OF assms])

lemma demo_bootstrap: "\<exists>db. bootstrap demo_rt demo_cfg demo_now empty_db = Inr db \<and> reachable demo_rt demo_dp demo_now
    \<lparr>st_db = db, st_metrics = METRICS, st_tick = 0, st_files = []\<rparr>"
proof -
  have "\<exists>db. bootstrap demo_rt demo_cfg demo_now empty_db = Inr db"
    by (simp add: bootstrap_def demo_cfg_def empty_db_def bootstrap_key_def hash_key_def Let_def)
  then show ?thesis using reachable.start [of demo_rt demo_dp demo_now] by (force simp: demo_dp_def)
qed

theorem reachable_well_formed_witness:
  "\<exists>s. reachable demo_rt demo_dp demo_now s \<and> db_ok (st_db s)"
  using demo_bootstrap reachable_well_formed by blast

text \<open>
  C16: What was recorded stays: along any sequence of requests the table of events only grows at
  its end, so that a recorded event is neither changed, moved nor removed.
\<close>

theorem history_only_grows:
  assumes "(step rt dp)\<^sup>*\<^sup>* s s'" "db_ok (st_db s)"
  shows "\<exists>new. db_events (st_db s') = db_events (st_db s) @ new"
  using steps_append_only [OF assms] by blast

theorem history_only_grows_witness:
  "\<exists>s'. step demo_rt demo_dp demo_state2 s' \<and> (\<exists>new. db_events (st_db s') = [demo_row1, demo_row2] @ new)"
proof -
  have s: "step demo_rt demo_dp demo_state2 (snd (serve demo_rt demo_dp None Healthz demo_state2))"
    by (rule step.served [of _ _ None Healthz]) (rule surjective_pairing)
  then have "(step demo_rt demo_dp)\<^sup>*\<^sup>* demo_state2 (snd (serve demo_rt demo_dp None Healthz demo_state2))" ..
  from history_only_grows [OF this] s demo_db2_ok show ?thesis by auto
qed

definition demo_key_db :: database where
  "demo_key_db = demo_db2\<lparr>db_keys := [bootstrap_key demo_rt demo_cfg demo_now ''secret'']\<rparr>"

definition demo_key_state :: cstate where
  "demo_key_state = demo_state2\<lparr>st_db := demo_key_db\<rparr>"

lemma demo_key_principal: "\<exists>p. current_principal demo_rt (Some ''Bearer secret'') demo_key_db = Inr p
    \<and> pr_org p = ''org_1'' \<and> pr_project p = ''proj_1'' \<and> pr_scopes p = bootstrap_scopes"
  using current_principal_bearer [of "''secret''" demo_rt demo_key_db]
  by (simp add: key_by_hash_def demo_key_db_def bootstrap_key_def hash_key_def demo_cfg_def)

text \<open>
  After the bootstrap of an empty database every configured key opens the configured
  project, with the five scopes the bootstrap grants.
\<close>

theorem bootstrap_keys_open:
  assumes "bootstrap rt cfg now empty_db = Inr db" "raw \<in> set (cfg_keys cfg)" "raw \<noteq> []"
  shows "\<exists>p. current_principal rt (Some (''Bearer '' @ raw)) db = Inr p \<and> pr_org p = cfg_org cfg
    \<and> pr_project p = cfg_project cfg \<and> pr_scopes p = bootstrap_scopes"
proof -
  from bootstrap_keys [OF assms(1,2)] obtain row raw' where "key_by_hash db (hash_key rt raw) = Some row"
    "row = bootstrap_key rt cfg now raw'" by (auto simp: empty_db_def)
  then show ?thesis
    using current_principal_bearer [OF assms(3), of rt db] by (simp add: bootstrap_key_def)
qed

theorem bootstrap_keys_open_witness:
  "\<exists>db p. bootstrap demo_rt demo_cfg demo_now empty_db = Inr db
     \<and> current_principal demo_rt (Some (''Bearer '' @ ''secret'')) db = Inr p \<and> pr_org p = ''org_1''"
  using demo_bootstrap bootstrap_keys_open [of demo_rt demo_cfg demo_now _ "''secret''"]
  by (fastforce simp: demo_cfg_def)

subsection \<open>Canonical JSON, identifiers, redaction\<close>

text \<open>
  C24: Two values have the same canonical text exactly when they are the same value up to the order of
  the items of dictionaries; so what is hashed determines the value.
\<close>

theorem canonical_json_unambiguous:
  assumes "float_repr_ok fr" "canonical_json fr a = Inr t" "canonical_json fr b = Inr t'"
  shows "t = t' \<longleftrightarrow> json_equiv a b"
  using enc_eq_iff [OF assms(1), of a b] assms(2,3) by (auto simp: canonical_json_def split: if_splits)

theorem canonical_json_unambiguous_witness:
  "canonical_json demo_repr (JDict [(''b'', JInt 1), (''a'', JNull)]) = canonical_json demo_repr (JDict [(''a'', JNull), (''b'', JInt 1)])"
proof -
  obtain t t' where t: "canonical_json demo_repr (JDict [(''b'', JInt 1), (''a'', JNull)]) = Inr t"
    "canonical_json demo_repr (JDict [(''a'', JNull), (''b'', JInt 1)]) = Inr t'" by (simp add: canonical_json_def)
  have "json_equiv (JDict [(''b'', JInt 1), (''a'', JNull)]) (JDict [(''a'', JNull), (''b'', JInt 1)])"
    by (simp add: json_equiv_def)
  with canonical_json_unambiguous [OF demo_repr_ok t] t show ?thesis by simp
qed

text \<open>
  Identifiers sort by time: of two readings of the clock in the 48-bit range, the earlier gives the
  smaller text, whatever the random parts; each has 26 characters of the alphabet.
\<close>

theorem ids_sort_by_time:
  assumes "m < n" "n < 2 ^ 48" "r < 2 ^ 80" "s < 2 ^ 80"
  shows "generate_event_id m r < generate_event_id n s \<and> length (ulid m r) = 26 \<and> set (ulid m r) \<subseteq> set ULID_ALPHABET"
  using ulid_less [OF assms] ulid_chars by (simp add: generate_event_id_def)

theorem ids_sort_by_time_witness:
  "generate_event_id 1 99 < generate_event_id 2 5"
  using ids_sort_by_time [of 1 2 99 5] by simp

text \<open>
  An identifier determines the reading of the clock and the random number it was made of: with different
  random parts, two identifiers differ.
\<close>

theorem ids_determine_readings:
  assumes "ulid m r = ulid n s" "m < 2 ^ 48" "n < 2 ^ 48" "r < 2 ^ 80" "s < 2 ^ 80"
  shows "m = n \<and> r = s"
  by (rule ulid_inj [OF assms])

theorem ids_determine_readings_witness:
  "ulid 1 2 \<noteq> ulid 1 3"
  using ids_determine_readings [of 1 2 1 3] by auto

text \<open>
  The SDK's redaction and the collector's are the same function of the rules and the payload.
\<close>

theorem redactions_agree:
  "apply_redaction rt payload rules [] = apply_collector_redaction rt payload rules"
  by (simp add: apply_redaction_def apply_collector_redaction_def redact_value_coll)

end
