(* ===== verification/Decision_Properties.thy ===== *)
theory Decision_Properties
  imports Demo Service_Laws
begin

section \<open>Properties of policies, approvals and evidence\<close>

text \<open>
  What policies, approvals and exports promise: which rule decides, what a reviewer's decision changes,
  and what an export leaves as evidence; each property with a concrete instance.
\<close>

subsection \<open>Policies\<close>

text \<open>
  The first rule that fires decides: when no rule before it fires, its result is the decision, under the
  id, version and hash of the policy, whatever rules follow.
\<close>

theorem first_rule_decides:
  assumes "\<not> str_truthy (en_opa en)" "find_policy en pid = Some policy" "policy \<noteq> []"
    and "py_iter (dict_get_or policy ''rules'' (JList [])) = Inr (pre @ r # post)"
    and "\<forall>q \<in> set pre. rule_fires q input = Inr False" "rule_fires r input = Inr True" "rule_result r = Inr d"
  shows "evaluate rt opa en pid input = Inr (wrap rt policy d)"
  using assms run_rules_first [OF assms(5-7)] by (simp add: evaluate_def)

text \<open>The refund policy of \<open>deploy/policies\<close>, as the YAML parser reads it.\<close>

definition big_refund :: pydict where
  "big_refund = [(''allowed'', JBool False), (''requires_approval'', JBool True), (''reason'', JStr ''Refund amount exceeds threshold'')]"

definition small_refund :: pydict where
  "small_refund = [(''allowed'', JBool True), (''requires_approval'', JBool False), (''reason'', JStr ''Within auto-approve threshold'')]"

definition refund_rules :: "json list" where
  "refund_rules = [
     JDict [(''when'', JDict [(''action'', JStr ''approve_refund''), (''amount'', JDict [(''gt'', JInt 5000)])]),
            (''result'', JDict big_refund)],
     JDict [(''when'', JDict [(''action'', JStr ''approve_refund'')]), (''result'', JDict small_refund)],
     JDict [(''default'', JBool True), (''result'', JDict [(''allowed'', JBool True)])]]"

definition refund_items :: pydict where
  "refund_items = [
     (''policy_id'', JStr ''refund_requires_approval''),
     (''policy_version'', JStr ''2026-05-01''),
     (''description'', JStr ''Refund amounts greater than 5000 require human approval.''),
     (''rules'', JList refund_rules)]"

definition refund_engine :: "runtime \<Rightarrow> engine" where
  "refund_engine rt =
     \<lparr>en_policies = [(JStr ''refund_requires_approval'', stored_policy rt (JDict refund_items))], en_opa = None\<rparr>"

definition refund_request :: "json \<Rightarrow> pydict" where
  "refund_request amount = [(''action'', JStr ''approve_refund''), (''amount'', amount)]"

lemma refund_id: "map_of refund_items ''policy_id'' = Some (JStr ''refund_requires_approval'')"
  by (simp add: refund_items_def)

lemma refund_stored:
  obtains h where "hash_json (rt_sha256 rt) (rt_float_repr rt) (JDict refund_items) = Inr h"
    "stored_policy rt (JDict refund_items) = dict_set refund_items ''_policy_hash'' (JStr h)"
proof -
  have "\<not> has_nan (JDict refund_items)"
    by (simp add: refund_items_def refund_rules_def big_refund_def small_refund_def)
  then obtain h where h: "hash_json (rt_sha256 rt) (rt_float_repr rt) (JDict refund_items) = Inr h"
    by (simp add: hash_json_def canonical_json_def)
  then show thesis by (intro that) (simp_all add: stored_policy_def)
qed

lemma refund_loaded: "load_engine rt (Some [JDict refund_items]) None = Inr (refund_engine rt)"
  by (rule refund_stored [of rt])
    (simp add: load_engine_def refund_engine_def hashable_def refund_id)

lemma refund_found: "find_policy (refund_engine rt) ''refund_requires_approval'' = Some (stored_policy rt (JDict refund_items))"
  "\<not> str_truthy (en_opa (refund_engine rt))" "stored_policy rt (JDict refund_items) \<noteq> []"
  by (simp_all add: find_policy_def refund_engine_def entry_is_def)
    (rule refund_stored [of rt], simp add: refund_items_def)

lemma refund_rules_read:
  "py_iter (dict_get_or (stored_policy rt (JDict refund_items)) ''rules'' (JList [])) = Inr refund_rules"
  by (rule refund_stored [of rt]) (simp add: refund_items_def py_iter_def)

lemma refund_action: "item_holds (refund_request amount) ''action'' (JStr ''approve_refund'') = Inr True"
  by (simp add: item_holds_def refund_request_def)

lemma refund_amount: "item_holds (refund_request amount) ''amount'' (JDict [(''gt'', JInt 5000)])
    = compare_num (\<lambda>a b. num_lt b a) amount (JInt 5000)"
  by (simp add: item_holds_def refund_request_def operators_def compare_num_def split: option.split)

lemma refund_fires:
  "rule_fires (refund_rules ! 0) (refund_request amount) = compare_num (\<lambda>a b. num_lt b a) amount (JInt 5000)"
  "rule_fires (refund_rules ! 1) (refund_request amount) = Inr True"
  by (simp_all add: refund_rules_def rule_fires_def match_cond_def refund_action refund_amount compare_num_def split: option.split)

lemma refund_results: "rule_result (refund_rules ! 0) = Inr big_refund" "rule_result (refund_rules ! 1) = Inr small_refund"
  by (simp_all add: refund_rules_def rule_result_def py_get_def py_dict_def)

lemma refund_rules_split: "refund_rules = [refund_rules ! 0, refund_rules ! 1, refund_rules ! 2]"
  by (simp add: refund_rules_def)

theorem first_rule_decides_witness:
  "evaluate demo_rt (\<lambda>url body. Inr JNull) (refund_engine demo_rt) ''refund_requires_approval'' (refund_request (JInt 9000))
     = Inr (wrap demo_rt (stored_policy demo_rt (JDict refund_items)) big_refund)"
proof -
  have "py_iter (dict_get_or (stored_policy demo_rt (JDict refund_items)) ''rules'' (JList []))
      = Inr ([] @ refund_rules ! 0 # [refund_rules ! 1, refund_rules ! 2])"
    using refund_rules_split by (simp add: refund_rules_read)
  note rules = this
  have fires: "rule_fires (refund_rules ! 0) (refund_request (JInt 9000)) = Inr True"
    by (simp add: refund_fires compare_num_def)
  from first_rule_decides [OF refund_found(2,1,3) rules _ fires refund_results(1)] show ?thesis by simp
qed

text \<open>
  The deployed refund policy asks for approval exactly when the amount is a number above 5000: an amount
  that is absent or is text is within the threshold and is allowed.
\<close>

theorem refund_threshold:
  "\<exists>d. evaluate rt opa (refund_engine rt) ''refund_requires_approval'' (refund_request amount) = Inr d
    \<and> de_requires d = (\<exists>n. num_of amount = Some n \<and> num_lt (NumRat 5000) n) \<and> de_allowed d = (\<not> de_requires d)"
proof -
  let ?p = "stored_policy rt (JDict refund_items)"
  have "evaluate rt opa (refund_engine rt) ''refund_requires_approval'' (refund_request amount)
      = run_rules rt ?p [refund_rules ! 0, refund_rules ! 1, refund_rules ! 2] (refund_request amount)"
    using refund_rules_split by (simp add: evaluate_def refund_found refund_rules_read)
  also have "\<dots> = Inr (wrap rt ?p (if \<exists>n. num_of amount = Some n \<and> num_lt (NumRat 5000) n then big_refund else small_refund))"
    by (simp only: run_rules.simps refund_fires refund_results) (simp add: compare_num_def split: option.split)
  finally show ?thesis by (simp add: wrap_def big_refund_def small_refund_def)
qed

text \<open>
  A condition holds exactly when each of its items does, so that the order of the items matters only for
  which type error is raised first.
\<close>

theorem condition_is_conjunction:
  "match_cond (JDict cond) input = Inr True \<longleftrightarrow> (\<forall>(k, e) \<in> set cond. item_holds input k e = Inr True)"
  by (simp add: match_cond_def match_items_iff)

theorem condition_is_conjunction_witness:
  "match_cond (JDict [(''a'', JInt 1), (''b'', JInt 2)]) [(''b'', JInt 2), (''a'', JInt 1)] = Inr True"
  unfolding condition_is_conjunction by (simp add: item_holds_def)

text \<open>
  Loading: the policy in force under an id is that of the last file with this id, stored with the hash of
  the file's canonical form; the engine knows no policy that no file has.
\<close>

theorem last_file_in_force:
  assumes "load_engine rt (Some files) opa_url = Inr en"
  shows "find_policy en pid = map_option (stored_policy rt) (find (\<lambda>f. file_id f = Some (JStr pid)) (rev files))"
proof -
  from assms obtain ps where "load_files rt files [] = Inr ps" "en_policies en = ps"
    by (auto simp: load_engine_def split: sum.splits)
  with load_files_find [of rt files "[]" ps pid] show ?thesis
    by (simp add: find_policy_def split: option.splits)
qed

theorem last_file_in_force_witness:
  "find_policy (refund_engine demo_rt) ''refund_requires_approval'' = Some (stored_policy demo_rt (JDict refund_items))"
  using last_file_in_force [OF refund_loaded [of demo_rt], of "''refund_requires_approval''"]
  by (simp add: file_id_def refund_id)

text \<open>
  A policy nobody registered allows, without approval, and counts as allowed: the engine fails open on a
  misspelt id.
\<close>

theorem unknown_policy_allows:
  assumes "\<not> str_truthy (en_opa en)" "find_policy en pid = None"
  shows "evaluate rt opa en pid input = Inr (no_policy pid) \<and> de_allowed (no_policy pid) \<and> \<not> de_requires (no_policy pid)
    \<and> st_metrics (snd (policy_check rt opa en pid input s)) = inc ''controldb.policy.allowed'' 1 (st_metrics s)"
  using assms by (simp add: evaluate_def policy_check_def no_policy_def)

theorem unknown_policy_allows_witness:
  "evaluate demo_rt (\<lambda>url body. Inr JNull) (refund_engine demo_rt) ''refund'' [] = Inr (no_policy ''refund'')"
  using unknown_policy_allows [of "refund_engine demo_rt" "''refund''" demo_rt "\<lambda>url body. Inr JNull" "[]"]
  by (simp add: find_policy_def refund_engine_def entry_is_def)

subsection \<open>Approvals\<close>

definition demo_approval :: approval where
  "demo_approval = \<lparr>a_id = ''ap_1'', a_run = ''run_1'', a_org = ''org_1'', a_project = ''proj_1'', a_policy = None,
     a_requested_by = None, a_reviewer = None, a_status = ''requested'', a_reason = None, a_input = JNull,
     a_created = demo_now, a_decided = None\<rparr>"

definition demo_approval_state :: cstate where
  "demo_approval_state = demo_state\<lparr>st_db := demo_db\<lparr>db_approvals := [demo_approval]\<rparr>\<rparr>"

lemma demo_approval_simps [simp]: "db_approvals (st_db demo_approval_state) = [demo_approval]"
  "get_approval (st_db demo_approval_state) ''ap_1'' = Some demo_approval"
  by (simp_all add: demo_approval_state_def get_approval_def demo_approval_def)

lemma demo_decided:
  obtains j s where "decide demo_rt demo_p ''ap_1'' ''approved'' ''alice'' None demo_approval_state = (Inr j, s)"
proof -
  have "a_org demo_approval = pr_org demo_p" "a_project demo_approval = pr_project demo_p" "''approved'' \<in> set DECISIONS"
    by (simp_all add: demo_approval_def demo_p_def DECISIONS_def)
  then have "\<exists>j s. decide demo_rt demo_p ''ap_1'' ''approved'' ''alice'' None demo_approval_state = (Inr j, s)"
    by (simp add: decide_def with_session_def Let_def)
  then show thesis using that by blast
qed

text \<open>
  A decision is one of the four words, about an approval of the reviewer's own project; it is written over
  that row with the reviewer's name and the time, and every other row of the table stays. The row's status
  before is not asked for: a decided approval can be decided again.
\<close>

theorem decision_recorded:
  assumes "decide rt p aid decision reviewer reason s = (Inr j, s')"
  shows "decision \<in> set DECISIONS \<and> (\<exists>a now. get_approval (st_db s) aid = Some a \<and> own_approval p a
    \<and> get_approval (st_db s') aid = Some (decided decision reviewer now reason a)
    \<and> (\<forall>k. k \<noteq> aid \<longrightarrow> get_approval (st_db s') k = get_approval (st_db s) k))"
proof -
  obtain a now where *: "get_approval (st_db s) aid = Some a" "own_approval p a" "decision \<in> set DECISIONS"
    "st_db s' = update_approval aid (decided decision reviewer now reason) (st_db s)"
    by (rule decide_Inr [OF assms])
  then show ?thesis by (auto simp: get_approval_update)
qed

theorem decision_recorded_witness:
  "\<exists>s j. decide demo_rt demo_p ''ap_1'' ''approved'' ''alice'' None demo_approval_state = (Inr j, s)
     \<and> map_option a_status (get_approval (st_db s) ''ap_1'') = Some ''approved''"
proof -
  obtain j s where d: "decide demo_rt demo_p ''ap_1'' ''approved'' ''alice'' None demo_approval_state = (Inr j, s)"
    by (rule demo_decided)
  from decision_recorded [OF d] have "map_option a_status (get_approval (st_db s) ''ap_1'') = Some ''approved''"
    by (auto simp: decided_def)
  with d show ?thesis by blast
qed

text \<open>
  A request with the id of an approval that exists changes nothing and answers with the row as it is stored,
  whoever owns it: the caller's project is not compared with the row's.
\<close>

theorem approval_request_by_any_tenant:
  assumes "get_approval (st_db s) k = Some a" "q_approval_id q = Some k" "k \<noteq> []"
  shows "request_approval rt p q s = (Inr (stored_approval a), s)"
  using assms by (simp add: request_approval_def with_session_def)

theorem approval_request_by_any_tenant_witness:
  "request_approval demo_rt (demo_p\<lparr>pr_org := ''org_2''\<rparr>) \<lparr>q_approval_id = Some ''ap_1'', q_run = [], q_policy = None,
     q_requested_by = None, q_reason = None, q_input = JNull\<rparr> demo_approval_state
   = (Inr (stored_approval demo_approval), demo_approval_state)"
  using approval_request_by_any_tenant [of demo_approval_state "''ap_1''" demo_approval] by simp

lemma pending_after_update:
  assumes "\<And>a. a_status (f a) \<noteq> ''requested''" "\<And>a. a_id (f a) = a_id a"
  shows "set (pending_rows p (update_approval k f db)) = {a \<in> set (pending_rows p db). a_id a \<noteq> k}"
proof -
  have *: "a' \<in> set (db_approvals (update_approval k f db))
      \<longleftrightarrow> (\<exists>a \<in> set (db_approvals db). a' = (if a_id a = k then f a else a))" for a'
    unfolding update_approval_def by force
  show ?thesis
  proof (intro set_eqI iffI)
    fix x
    assume "x \<in> set (pending_rows p (update_approval k f db))"
    then obtain a where a: "a \<in> set (db_approvals db)" "x = (if a_id a = k then f a else a)"
      "own_approval p x" "a_status x = ''requested''"
      unfolding pending_rows_set * by (elim conjE bexE) (rule that)
    have "a_id a \<noteq> k"
    proof
      assume "a_id a = k"
      then have "x = f a" using a(2) by simp
      with a(4) assms(1) [of a] show False by simp
    qed
    with a show "x \<in> {a \<in> set (pending_rows p db). a_id a \<noteq> k}" by (simp add: pending_rows_set)
  next
    fix x
    assume "x \<in> {a \<in> set (pending_rows p db). a_id a \<noteq> k}"
    then have "x \<in> set (db_approvals db)" "a_id x \<noteq> k" "own_approval p x" "a_status x = ''requested''"
      by (simp_all add: pending_rows_set)
    then show "x \<in> set (pending_rows p (update_approval k f db))"
      unfolding pending_rows_set * by (intro conjI bexI [of _ x]) simp_all
  qed
qed

text \<open>
  The list of pending approvals holds exactly the undecided ones of the principal's project, oldest
  first; one that was just decided is no longer in it.
\<close>

theorem pending_is_open:
  assumes "decide rt p aid decision reviewer reason s = (Inr j, s')"
  shows "sorted (map a_created (pending_rows p (st_db s')))
    \<and> set (pending_rows p (st_db s')) = {a \<in> set (pending_rows p (st_db s)). a_id a \<noteq> aid}"
proof -
  obtain a now where *: "decision \<in> set DECISIONS"
    "st_db s' = update_approval aid (decided decision reviewer now reason) (st_db s)"
    by (rule decide_Inr [OF assms])
  have "decision \<noteq> ''requested''" using *(1) by (auto simp: DECISIONS_def)
  then have "set (pending_rows p (st_db s')) = {a \<in> set (pending_rows p (st_db s)). a_id a \<noteq> aid}"
    unfolding *(2) by (intro pending_after_update) (simp_all add: decided_def)
  then show ?thesis by (simp add: pending_rows_sorted)
qed

theorem pending_is_open_witness:
  "\<exists>s j. decide demo_rt demo_p ''ap_1'' ''approved'' ''alice'' None demo_approval_state = (Inr j, s)
     \<and> pending_rows demo_p (st_db s) = []"
proof -
  obtain j s where d: "decide demo_rt demo_p ''ap_1'' ''approved'' ''alice'' None demo_approval_state = (Inr j, s)"
    by (rule demo_decided)
  from pending_is_open [OF d] have "set (pending_rows demo_p (st_db s)) = {}"
    by (auto simp: pending_rows_set demo_approval_def)
  with d show ?thesis by auto
qed

subsection \<open>Evidence\<close>

text \<open>
  C36: An export leaves a row of the caller's project with the number of events of the run and the outcome of
  verification, and a file in the object store whose SHA-256 is the row's hash; downloading the export
  gives that file.
\<close>

theorem export_is_evidence:
  assumes "export_run rt zip_bytes cfg p rid by s = (Inr j, s')" "db_ok (st_db s)"
  shows "\<exists>v row data. verify rt p rid (st_db s) = Inr v \<and> db_exports (st_db s') = db_exports (st_db s) @ [row]
    \<and> x_count row = int (length (run_events (st_db s) rid)) \<and> x_valid row = v_valid v
    \<and> x_hash row = ''sha256:'' @ rt_sha256 rt data \<and> export_download p (x_id row) s' = Inr data"
proof -
  obtain run v row data where *: "verify rt p rid (st_db s) = Inr v" "export_row_for rt cfg p rid s v data row"
    "db_exports (st_db s') = db_exports (st_db s) @ [row]" "x_id row \<notin> set (map x_id (db_exports (st_db s)))"
    "map_of (st_files s') = (map_of (st_files s))(bundle_path cfg rid \<mapsto> data)"
    by (rule export_run_Inr [OF assms])
  have "export_download p (x_id row) s' = Inr data"
    using *(2,3,5) find_last_new [OF *(4)] by (simp add: export_download_def export_row_for_def)
  with * show ?thesis by (auto simp: export_row_for_def)
qed

lemma demo_export: "\<exists>j s. export_run demo_rt zip_bytes demo_cfg demo_p ''run_1'' None demo_state2 = (Inr j, s)"
proof -
  have src: "export_source demo_p ''run_1'' demo_db2 = Inr demo_run"
    by (simp add: export_source_def get_run_def demo_p_def demo_run_def)
  have "db_exports demo_db2 = []" by (simp add: demo_db2_def demo_db_def empty_db_def)
  then show ?thesis
    using demo_verify2 src
    by (simp add: export_run_def finish_export_def record_export_def with_session_def Let_def write_file_def tick_def)
qed

theorem export_is_evidence_witness:
  "\<exists>j s (row :: evidence_export) data. export_run demo_rt (\<lambda>m. ''zip'') demo_cfg demo_p ''run_1'' None demo_state2 = (Inr j, s)
     \<and> x_count row = 2 \<and> x_valid row \<and> export_download demo_p (x_id row) s = Inr data"
proof -
  obtain j s where e: "export_run demo_rt (\<lambda>m. ''zip'') demo_cfg demo_p ''run_1'' None demo_state2 = (Inr j, s)"
    using demo_export by blast
  have ok: "db_ok (st_db demo_state2)" by (simp add: demo_db2_ok)
  have two: "length (run_events (st_db demo_state2) ''run_1'') = 2" by (simp add: demo_run_events)
  from export_is_evidence [OF e ok] obtain v row data
    where r: "verify demo_rt demo_p ''run_1'' (st_db demo_state2) = Inr v \<and> db_exports (st_db s) = db_exports (st_db demo_state2) @ [row]
      \<and> x_count row = int (length (run_events (st_db demo_state2) ''run_1'')) \<and> x_valid row = v_valid v
      \<and> x_hash row = ''sha256:'' @ rt_sha256 demo_rt data \<and> export_download demo_p (x_id row) s = Inr data"
    by (elim exE) (rule that)
  have "v_valid v" using r demo_verify2 by auto
  then have "x_count row = 2" "x_valid row" "export_download demo_p (x_id row) s = Inr data" using r two by simp_all
  with e show ?thesis by blast
qed

text \<open>
  Exporting a run again overwrites the bundle of its earlier exports: they share one path, so that the
  download of an earlier export gives the new file, whatever hash its row recorded.
\<close>

theorem reexport_replaces_bundle:
  assumes "export_run rt zip_bytes cfg p rid by s = (Inr j, s')" "db_ok (st_db s)"
    and "find (\<lambda>x. x_id x = old) (db_exports (st_db s)) = Some row0" "own_export p row0" "x_uri row0 = bundle_path cfg rid"
  shows "\<exists>row data. last (db_exports (st_db s')) = row \<and> x_hash row = ''sha256:'' @ rt_sha256 rt data
    \<and> export_download p old s' = Inr data \<and> find (\<lambda>x. x_id x = old) (db_exports (st_db s')) = Some row0"
proof -
  obtain run v row data where *: "export_row_for rt cfg p rid s v data row"
    "db_exports (st_db s') = db_exports (st_db s) @ [row]"
    "map_of (st_files s') = (map_of (st_files s))(bundle_path cfg rid \<mapsto> data)"
    by (rule export_run_Inr [OF assms(1,2)])
  have f: "find (\<lambda>x. x_id x = old) (db_exports (st_db s')) = Some row0"
    using assms(3) by (simp add: *(2) find_append)
  then have "export_download p old s' = Inr data"
    using assms(4,5) *(3) by (simp add: export_download_def own_export_def)
  with f * show ?thesis by (auto simp: export_row_for_def)
qed

definition demo_old_export :: evidence_export where
  "demo_old_export = \<lparr>x_id = ''old'', x_run = ''run_1'', x_org = ''org_1'', x_project = ''proj_1'',
     x_uri = bundle_path demo_cfg ''run_1'', x_hash = ''sha256:1'', x_count = 1, x_valid = True, x_by = None, x_at = demo_now\<rparr>"

definition demo_exported :: cstate where
  "demo_exported = demo_state2\<lparr>st_db := demo_db2\<lparr>db_exports := [demo_old_export]\<rparr>\<rparr>"

lemma demo_exported_ok: "db_ok (st_db demo_exported)"
  using demo_db2_ok by (simp add: demo_exported_def db_ok_def)

lemma exp_not_old: "generate_export_id m r \<noteq> ''old''"
  by (simp add: generate_export_id_def)

lemma demo_export_again: "\<exists>j s. export_run demo_rt zip_bytes demo_cfg demo_p ''run_1'' None demo_exported = (Inr j, s)"
proof -
  have src: "export_source demo_p ''run_1'' (st_db demo_exported) = Inr demo_run"
    by (simp add: export_source_def get_run_def demo_p_def demo_run_def demo_exported_def)
  have db: "st_db demo_exported = demo_db2\<lparr>db_exports := [demo_old_export]\<rparr>"
    by (simp add: demo_exported_def)
  have ev: "run_events (demo_db2\<lparr>db_exports := [demo_old_export]\<rparr>) = run_events demo_db2"
    by (rule ext) (simp add: run_events_def)
  have ver: "verify demo_rt demo_p ''run_1'' (st_db demo_exported) = verify demo_rt demo_p ''run_1'' demo_db2"
    unfolding verify_def authorize_run_def db ev get_run_cong ..
  show ?thesis
    using demo_verify2 src ver exp_not_old
    by (simp add: export_run_def finish_export_def record_export_def with_session_def Let_def write_file_def tick_def
        demo_exported_def demo_old_export_def)
qed

theorem reexport_replaces_bundle_witness:
  "\<exists>j s data. export_run demo_rt (\<lambda>m. ''zip'') demo_cfg demo_p ''run_1'' None demo_exported = (Inr j, s)
     \<and> export_download demo_p ''old'' s = Inr data
     \<and> x_hash (last (db_exports (st_db s))) = ''sha256:'' @ data"
proof -
  obtain j s where e: "export_run demo_rt (\<lambda>m. ''zip'') demo_cfg demo_p ''run_1'' None demo_exported = (Inr j, s)"
    using demo_export_again by blast
  from reexport_replaces_bundle [OF e demo_exported_ok, of "''old''" demo_old_export] e show ?thesis
    by (auto simp: demo_exported_def demo_old_export_def own_export_def demo_p_def)
qed

end
