(* ===== verification/Sdk_Properties.thy ===== *)
theory Sdk_Properties
  imports Demo Sdk_Calls
begin

section \<open>Properties of the SDK\<close>

text \<open>
  What the SDK promises its user and the collector: the chain over a whole run, the retries of the
  transport, what survives an unreachable collector, and what enforcement lets through.
\<close>

subsection \<open>A world for the witnesses\<close>

text \<open>A transport that tries twice; a wire that answers every call with one status and one body.\<close>

definition demo_transport :: transport where
  "demo_transport = \<lparr>tc_max_retries = 2, tc_backoff_initial = 1, tc_backoff_max = 5, tc_fail_open = False,
     tc_spooling = True\<rparr>"

definition answering :: "nat \<Rightarrow> json \<Rightarrow> world" where
  "answering status v = \<lparr>wo_rt = demo_rt, wo_net = (\<lambda>n call. Answer status (JsonBody v)), wo_jitter = (\<lambda>n. 0)\<rparr>"

definition demo_client :: client where
  "demo_client = \<lparr>cl_org = ''org_1'', cl_project = ''proj_1'', cl_env = ''dev'', cl_mode = ''metadata_only'', cl_rules = [],
     cl_callbacks = [], cl_batch = 16, cl_transport = demo_transport\<rparr>"

definition fresh_sdk :: sdk_state where
  "fresh_sdk = \<lparr>sd_tick = 0, sd_sent = [], sd_slept = [], sd_spool = []\<rparr>"

definition demo_call :: http_call where
  "demo_call = \<lparr>hc_method = ''GET'', hc_path = ''/healthz'', hc_body = None, hc_key = None\<rparr>"

definition sdk_run :: run where
  "sdk_run = new_run demo_client ''run_1'' ''agent'' None None [] None"

lemma sdk_run_buffer: "ro_buffer sdk_run = []"
  by (simp add: sdk_run_def new_run_def)

lemma nth_attempt_answering: "nth_attempt (answering status v) call st i
    = (case raise_for_status demo_rt status (JsonBody v) of Some e \<Rightarrow> Inl e
       | None \<Rightarrow> if status = 204 then Inr (JDict []) else Inr v)"
  by (simp add: nth_attempt_def attempt_result_def answering_def split: option.split)

subsection \<open>Whole runs\<close>

text \<open>
  Whatever calls a user makes on a new run, and whatever each returns or raises: the events made so far
  form one hash chain that starts without a predecessor, and they are, in order, those that went out in a call of this
  run followed by those still in the buffer. Where the run numbers them, their idempotency keys are distinct.
\<close>

theorem run_is_one_chain:
  "\<exists>events out. sdk_linked (wo_rt w) None events
     \<and> ((\<forall>call \<in> set calls. numbered_call call) \<longrightarrow> distinct (map sdk_key events))
     \<and> events = out @ ro_buffer (fst (perform_all w cl calls (new_run cl rid agent version env meta trace, st)))
     \<and> (\<forall>d \<in> set out. sent_since st (snd (perform_all w cl calls (new_run cl rid agent version env meta trace, st))) d)"
proof -
  let ?ro = "new_run cl rid agent version env meta trace"
  let ?c = "perform_all w cl calls (?ro, st)"
  have ro: "ro_buffer ?ro = []" "ro_prev ?ro = None" by (simp_all add: new_run_def)
  from perform_all_step [of calls w "(?ro, st)" cl] obtain new out where
    *: "new_events (wo_rt w) ?ro (fst ?c) new" "ro_buffer ?ro @ new = out @ ro_buffer (fst ?c)"
      "\<forall>d \<in> set out. sent_since st (snd ?c) d" "(\<forall>call \<in> set calls. numbered_call call) \<longrightarrow> numbered ?ro (fst ?c) new"
    unfolding run_step_if_def run_makes_if_def fst_conv snd_conv by blast
  from *(1) have "sdk_linked (wo_rt w) None new" by (simp add: new_events_def ro)
  moreover have "(\<forall>call \<in> set calls. numbered_call call) \<longrightarrow> distinct (map sdk_key new)"
    using new_events_keys [OF *(1)] *(4) by blast
  ultimately show ?thesis using *(2,3) by (auto simp: ro)
qed

theorem run_is_one_chain_witness:
  "\<exists>events. sdk_linked demo_rt None events \<and> distinct (map sdk_key events)
     \<and> set (ro_buffer (fst (perform_all (answering 200 (JDict [])) demo_client [ApiEmit ''memory.read'' [] no_options] (sdk_run, fresh_sdk))))
       \<subseteq> set events"
  using run_is_one_chain [of "answering 200 (JDict [])" "[ApiEmit ''memory.read'' [] no_options]" demo_client "''run_1''" "''agent''"
    None None "[]" None fresh_sdk]
  by (auto simp: sdk_run_def answering_def no_options_def)

subsection \<open>The transport\<close>

text \<open>
  C27: A request with at least one allowed attempt is sent between one and that many times; all attempts but
  the last failed in a way that is retried, and the answer to the last is the result; there is one pause less than
  attempts at most, none longer than one and a half times the largest backoff.
\<close>

theorem request_outcome:
  fixes n w call st
  assumes "0 < n" "0 \<le> tc_backoff_initial tc" "0 \<le> tc_backoff_max tc" "\<forall>i. 0 \<le> wo_jitter w i \<and> wo_jitter w i \<le> 1"
  shows "\<exists>k ps. k < n \<and> (\<forall>i < k. retried (nth_attempt w call st i)) \<and> (k = n - 1 \<or> \<not> retried (nth_attempt w call st k))
    \<and> fst (request_loop w tc call n 0 None st) = nth_attempt w call st k
    \<and> sd_sent (snd (request_loop w tc call n 0 None st)) = sd_sent st @ replicate (Suc k) call
    \<and> sd_slept (snd (request_loop w tc call n 0 None st)) = sd_slept st @ ps
    \<and> length ps \<le> n - 1 \<and> (\<forall>p \<in> set ps. 0 \<le> p \<and> p \<le> 3 / 2 * tc_backoff_max tc)"
proof -
  obtain k where "k < n \<and> (\<forall>i < k. retried (nth_attempt w call st i)) \<and> (k = n - 1 \<or> \<not> retried (nth_attempt w call st k))
    \<and> fst (request_loop w tc call n 0 None st) = nth_attempt w call st k
    \<and> sd_sent (snd (request_loop w tc call n 0 None st)) = sd_sent st @ replicate (Suc k) call"
    using request_loop_spec [OF assms(1), of w call st tc 0 None] by auto
  moreover obtain ps where "sd_slept (snd (request_loop w tc call n 0 None st)) = sd_slept st @ ps
    \<and> length ps \<le> n - 1 \<and> (\<forall>p \<in> set ps. 0 \<le> p \<and> p \<le> 3 / 2 * tc_backoff_max tc)"
    using request_loop_slept [OF assms(2-4), of call n 0 None st] by auto
  ultimately show ?thesis by (intro exI [of _ k] exI [of _ ps]) simp
qed

theorem request_outcome_witness:
  "\<exists>k < (2 :: nat). fst (request_loop (answering 503 (JDict [])) demo_transport demo_call 2 0 None fresh_sdk)
     = nth_attempt (answering 503 (JDict [])) demo_call fresh_sdk k"
  using request_outcome [of 2 demo_transport "answering 503 (JDict [])" demo_call fresh_sdk]
  by (auto simp: demo_transport_def answering_def)

text \<open>
  C26: With a spool, posting a batch never fails because the collector is away: either the collector answered
  it, or the batch is the last entry of the spool file, in the form that a later flush sends as the same request.
\<close>

theorem batch_survives:
  assumes "tc_spooling tc" "post_events w tc rid events key st = (r, st')" "\<forall>e. r = Inl e \<longrightarrow> retryable e"
  shows "(\<exists>v. request w tc ''POST'' (events_path rid) (Some (events_body events)) key True st = (Inr v, st') \<and> r = Inr v)
    \<or> (\<exists>v. r = Inr v \<and> sd_spool st' = sd_spool st @ [spool_entry rid events key]
        \<and> (\<forall>st2. flush_entry w tc (spool_entry rid events key) st2
              = request w tc ''POST'' (events_path rid) (Some (events_body events)) key True st2))"
  using post_events_spooled [OF assms(1,2)] assms(3) flush_entry_written by blast

lemma demo_post: "\<exists>v st'. post_events (answering 503 (JDict [])) demo_transport rid events key st = (Inr v, st')"
proof -
  have "\<exists>m. nth_attempt (answering 503 (JDict [])) call st i = Inl (CollectorUnavailableError m)" for call st i
    by (simp add: nth_attempt_answering raise_for_status_def)
  then have "\<exists>m. fst (request (answering 503 (JDict [])) demo_transport a b c d True st) = Inl (CollectorUnavailableError m)" for a b c d
    using request_loop_spec [of 2 "answering 503 (JDict [])" _ st demo_transport 0 None]
    unfolding request_def by (metis demo_transport_def transport.select_convs(1) zero_less_numeral)
  then obtain m st1 where "request (answering 503 (JDict [])) demo_transport ''POST'' (events_path rid) (Some (events_body events)) key True st
      = (Inl (CollectorUnavailableError m), st1)" by (metis prod.collapse)
  then show ?thesis by (simp add: post_events_def demo_transport_def)
qed

theorem batch_survives_witness:
  "\<exists>r st'. post_events (answering 503 (JDict [])) demo_transport ''run_1'' [] None fresh_sdk = (r, st')
     \<and> ((\<exists>v. request (answering 503 (JDict [])) demo_transport ''POST'' (events_path ''run_1'') (Some (events_body [])) None True fresh_sdk
            = (Inr v, st'))
        \<or> sd_spool st' = sd_spool fresh_sdk @ [spool_entry ''run_1'' [] None])"
proof -
  obtain v st' where p: "post_events (answering 503 (JDict [])) demo_transport ''run_1'' [] None fresh_sdk = (Inr v, st')"
    using demo_post by blast
  have "tc_spooling demo_transport" by (simp add: demo_transport_def)
  from batch_survives [OF this p] p show ?thesis by auto
qed

text \<open>
  C28: Flushing the spool stops at the first entry that fails and writes that one back; the entries after it
  are no longer on disk.
\<close>

theorem flush_loses_tail:
  assumes "tc_spooling tc" "flush_spool w tc st = (n, st')"
  shows "n \<le> length (sd_spool st) \<and> sd_spool st' = (if n < length (sd_spool st) then [sd_spool st ! n] else [])"
proof -
  have "flush_loop w tc (sd_spool st) (st\<lparr>sd_spool := []\<rparr>) = (n, st')"
    using assms by (simp add: flush_spool_def drain_def)
  from flush_loop_spool [OF this] show ?thesis by simp
qed

theorem flush_loses_tail_witness:
  "sd_spool (snd (flush_spool (answering 200 JNull) demo_transport (fresh_sdk\<lparr>sd_spool := [JNull, spool_entry ''run_1'' [] None]\<rparr>))) = [JNull]"
proof -
  let ?st = "fresh_sdk\<lparr>sd_spool := [JNull, spool_entry ''run_1'' [] None]\<rparr>"
  obtain n st' where f: "flush_spool (answering 200 JNull) demo_transport ?st = (n, st')" by (cases "flush_spool (answering 200 JNull) demo_transport ?st")
  have "n = 0" using f by (simp add: flush_spool_def demo_transport_def drain_def flush_entry_def)
  with flush_loses_tail [OF _ f] f show ?thesis by (simp add: demo_transport_def)
qed

subsection \<open>Privacy\<close>

text \<open>
  C32: In the modes that keep the payload on the client, no event carries one, whatever it was made of.
\<close>

theorem payload_withheld:
  assumes "emit_event w cl em c = (Inr d, c')" "str_or (em_mode em) (cl_mode cl) \<in> {''metadata_only'', ''hash_only''}"
  shows "dict_get d ''payload'' = JNull"
proof -
  from assms(1) obtain en c1 where b: "build_envelope w cl em c = (Inr en, c1)"
    and d: "\<exists>ro key. d = envelope_dict cl ro en key"
    by (auto simp: emit_event_def and_then_def ok_def Let_def split: prod.splits sum.splits if_splits)
  have modes: "payload_mode_of ''metadata_only'' = Inr METADATA_ONLY" "payload_mode_of ''hash_only'' = Inr HASH_ONLY"
    by (simp_all add: payload_mode_of_def payload_modes_def)
  have cap: "capture rt cl mode p redact = Inr (payload, ph) \<Longrightarrow> mode = METADATA_ONLY \<or> mode = HASH_ONLY \<Longrightarrow> payload = JNull"
    for rt mode p redact payload ph
    by (auto simp: capture_def split: if_splits sum.splits)
  from assms(2) modes obtain mode where mode: "payload_mode_of (str_or (em_mode em) (cl_mode cl)) = Inr mode"
    "mode = METADATA_ONLY \<or> mode = HASH_ONLY" by auto
  from b mode(1) obtain payload ph where c: "capture (wo_rt w) cl mode (em_payload em) (em_redact em) = Inr (payload, ph)"
    by (auto simp: build_envelope_def Let_def split: if_splits sum.splits)
  from b mode(1) c have "en_payload en = payload"
    by (auto simp: build_envelope_def Let_def unsigned_envelope_def split: if_splits sum.splits)
  with cap [OF c mode(2)] d show ?thesis by (auto simp: envelope_dict_def)
qed

lemma demo_hash: "\<exists>h. sdk_event_hash rt (envelope_dict cl ro (unsigned_envelope rt ro em mode JNull ph t) None) = Inr h"
  by (simp add: sdk_event_hash_def compute_event_hash_def hash_json_def canonical_json_def envelope_dict_def
      unsigned_envelope_def actor_dict_def js_str_def split: option.split)

lemma demo_build:
  assumes "t \<in> set SDK_EVENT_TYPES" "p \<noteq> JNull" "\<not> has_nan p"
  shows "\<exists>en c'. build_envelope w demo_client (emission_of t p) (ro, st) = (Inr en, c')
    \<and> ro_buffer (fst c') = ro_buffer ro"
proof -
  obtain h where "capture (wo_rt w) demo_client METADATA_ONLY p True = Inr (JNull, Some h)"
    using assms(2,3) by (simp add: capture_def sdk_payload_hash_def compute_payload_hash_def hash_json_def canonical_json_def
        redacted_of_def demo_client_def apply_redaction_def sdk.walk_no_rules)
  moreover have "payload_mode_of ''metadata_only'' = Inr METADATA_ONLY"
    by (simp add: payload_mode_of_def payload_modes_def)
  moreover obtain h' where "sdk_event_hash (wo_rt w) (envelope_dict demo_client ro
      (unsigned_envelope (wo_rt w) ro (emission_of t p) METADATA_ONLY JNull (Some h) (sd_tick st)) None) = Inr h'"
    using demo_hash by blast
  ultimately show ?thesis
    using assms(1) by (simp add: build_envelope_def Let_def emission_of_def demo_client_def)
qed

lemma demo_emit:
  assumes "t \<in> set SDK_EVENT_TYPES" "p \<noteq> JNull" "\<not> has_nan p" "length (ro_buffer ro) < 15"
  shows "\<exists>d ro' st'. emit_event w demo_client (emission_of t p) (ro, st) = (Inr d, (ro', st'))
    \<and> length (ro_buffer ro') = Suc (length (ro_buffer ro))"
proof -
  from demo_build [OF assms(1-3), of w ro st] obtain en ro1 st1 where
    b: "build_envelope w demo_client (emission_of t p) (ro, st) = (Inr en, (ro1, st1))" "ro_buffer ro1 = ro_buffer ro" by auto
  have "cl_batch demo_client = 16" by (simp add: demo_client_def)
  then show ?thesis
    using assms(4) b
    unfolding emit_event_def and_then_def [of "build_envelope w demo_client (emission_of t p)"] by (simp add: Let_def)
qed

theorem payload_withheld_witness:
  "\<exists>d c'. emit_event (answering 200 JNull) demo_client (emission_of ''memory.read'' (JDict [])) (sdk_run, fresh_sdk) = (Inr d, c')
     \<and> dict_get d ''payload'' = JNull"
proof -
  have "''memory.read'' \<in> set SDK_EVENT_TYPES" by (simp add: SDK_EVENT_TYPES_def)
  from demo_emit [OF this, of "JDict []" sdk_run "answering 200 JNull" fresh_sdk] obtain d ro' st' where e: "emit_event (answering 200 JNull) demo_client (emission_of ''memory.read'' (JDict [])) (sdk_run, fresh_sdk)
      = (Inr d, (ro', st'))" by (auto simp: sdk_run_buffer)
  from payload_withheld [OF e] e show ?thesis by (simp add: emission_of_def demo_client_def)
qed

subsection \<open>Enforcement and the end of a run\<close>

lemma no_throw: "and_then f (\<lambda>a. throw (g a)) k \<noteq> (Inr y, k')"
  by (auto simp: and_then_def throw_def split: prod.split sum.split)

lemma no_throw_case: "and_then f (\<lambda>a. case a of JDict d \<Rightarrow> throw (g d) | _ \<Rightarrow> throw e) k \<noteq> (Inr y, k')"
  by (auto simp: and_then_def throw_def split: prod.split sum.split json.split)

text \<open>
  C33: \<open>enforce_policy\<close> returns only with the result of a check that neither denies nor asks for approval.
  A check whose \<open>allowed\<close> counts as false without being \<open>False\<close> (0, \<open>None\<close>, an empty text) is
  recorded as failed and yet is not a denial.
\<close>

theorem enforcement_gate:
  assumes "enforce_policy w cl pid input c = (Inr res, c')"
  shows "(\<exists>c1. sdk_policy_check w cl pid input None None None c = (Inr res, c1))
    \<and> dict_get res ''allowed'' \<noteq> JBool False \<and> \<not> truthy (dict_get res ''requires_approval'')
    \<and> (\<forall>v. (\<not> check_passed [(''allowed'', v)] \<and> \<not> denied [(''allowed'', v)]) = (\<not> truthy v \<and> v \<noteq> JBool False))"
proof -
  obtain x c1 where check: "sdk_policy_check w cl pid input None None None c = (x, c1)"
    by (cases "sdk_policy_check w cl pid input None None None c")
  from assms check obtain r where r: "x = Inr r"
    by (cases x) (simp_all add: enforce_policy_def and_then_def [of "sdk_policy_check w cl pid input None None None"])
  have open': "\<not> denied r \<and> \<not> truthy (dict_get r ''requires_approval'')"
    using assms check r
    by (auto simp: no_throw no_throw_case enforce_policy_def and_then_def [of "sdk_policy_check w cl pid input None None None"] Let_def split: if_splits)
  then have "res = r"
    using assms check r
    by (auto simp: enforce_policy_def and_then_def ok_def Let_def split: prod.splits sum.splits)
  with check r open' show ?thesis by (auto simp: denied_def check_passed_def)
qed

definition allowing :: world where
  "allowing = answering 200 (JDict [(''result'', JDict [(''allowed'', JBool True)])])"

lemma demo_check:
  obtains ro st where "sdk_policy_check allowing demo_client ''p'' (JDict []) None None None (sdk_run, fresh_sdk)
      = (Inr [(''allowed'', JBool True)], (ro, st))" "length (ro_buffer ro) = 1"
proof -
  let ?v = "JDict [(''result'', JDict [(''allowed'', JBool True)])]"
  have n: "nth_attempt allowing call st i = Inr ?v" for call st i
    by (simp add: allowing_def nth_attempt_answering raise_for_status_def)
  have r: "\<exists>st'. policy_check_call allowing demo_transport b st = (Inr ?v, st')" for b st
    by (simp add: policy_check_call_def request_def demo_transport_def eval_nat_numeral send_simps n)
  have ans: "policy_answer ?v = Inr ([(''allowed'', JBool True)], JNull, JNull)" by (simp add: policy_answer_def)
  have tc: "cl_transport demo_client = demo_transport" by (simp add: demo_client_def)
  obtain st1 where st1: "policy_check_call allowing demo_transport (JDict [(''policy_id'', JStr ''p''), (''input'', JDict []),
      (''run_id'', JStr (ro_id sdk_run))]) fresh_sdk = (Inr ?v, st1)" using r by blast
  have passed: "check_passed [(''allowed'', JBool True)]" by (simp add: check_passed_def)
  have "''policy.check.passed'' \<in> set SDK_EVENT_TYPES" by (simp add: SDK_EVENT_TYPES_def)
  from demo_emit [OF this, of "JDict [(''policy_id'', JStr ''p''),
      (''policy_version'', JNull), (''policy_hash'', JNull), (''input'', JDict []), (''result'', JDict [(''allowed'', JBool True)])]" sdk_run
      allowing st1]
  obtain d ro' st' where e: "emit_event allowing demo_client (emission_of ''policy.check.passed'' (JDict [(''policy_id'', JStr ''p''),
      (''policy_version'', JNull), (''policy_hash'', JNull), (''input'', JDict []), (''result'', JDict [(''allowed'', JBool True)])]))
      (sdk_run, st1) = (Inr d, (ro', st'))" "length (ro_buffer ro') = Suc (length (ro_buffer sdk_run))"
    by (auto simp: sdk_run_buffer)
  then show thesis
    by (intro that [of ro' st']) (simp_all add: sdk_policy_check_def and_then_def on_wire_def tc st1 ans record_check_def passed
        js_str_def ok_def sdk_run_buffer)
qed

theorem enforcement_gate_witness:
  "\<exists>res c'. enforce_policy allowing demo_client ''p'' (JDict []) (sdk_run, fresh_sdk) = (Inr res, c')
     \<and> dict_get res ''allowed'' \<noteq> JBool False"
proof -
  obtain ro st where c: "sdk_policy_check allowing demo_client ''p'' (JDict []) None None None (sdk_run, fresh_sdk)
      = (Inr [(''allowed'', JBool True)], (ro, st))" "length (ro_buffer ro) = 1" by (rule demo_check)
  have "''policy.enforcement.allowed'' \<in> set SDK_EVENT_TYPES" by (simp add: SDK_EVENT_TYPES_def)
  then obtain d ro' st' where "emit_event allowing demo_client (emission_of ''policy.enforcement.allowed''
      (enforcement ''p'' (JDict []) [(''allowed'', JBool True)])) (ro, st) = (Inr d, (ro', st'))"
    using demo_emit [of "''policy.enforcement.allowed''" "enforcement ''p'' (JDict []) [(''allowed'', JBool True)]" ro allowing st]
    by (auto simp: enforcement_def c(2))
  then have e: "enforce_policy allowing demo_client ''p'' (JDict []) (sdk_run, fresh_sdk) = (Inr [(''allowed'', JBool True)], (ro', st'))"
    by (simp add: enforce_policy_def and_then_def c denied_def ok_def Let_def)
  from enforcement_gate [OF e] e show ?thesis by blast
qed

text \<open>
  A run that was committed, rolled back or failed cannot be committed or rolled back again: both raise
  before anything is sent. Leaving the \<open>with\<close> block after a rollback raises too, because only a commit
  counts as finished.
\<close>

theorem closed_run_refuses:
  assumes "ro_closed (fst c)"
  shows "commit w cl c = (Inl (ValidationError ''run already closed''), c)
    \<and> rollback w cl reason c = (Inl (ValidationError ''run already closed''), c)
    \<and> run_exit w cl None c = (if ro_committed (fst c) then Inr False else Inl (ValidationError ''run already closed''), c)"
  using assms by (simp add: commit_def rollback_def run_exit_def and_then_def)

theorem closed_run_refuses_witness:
  "run_exit (answering 200 JNull) demo_client None (sdk_run\<lparr>ro_closed := True\<rparr>, fresh_sdk) = (Inl (ValidationError ''run already closed''), (sdk_run\<lparr>ro_closed := True\<rparr>, fresh_sdk))"
  using closed_run_refuses [of "(sdk_run\<lparr>ro_closed := True\<rparr>, fresh_sdk)"] by (simp add: sdk_run_def new_run_def)

end
