(* ===== verification/Rocks_Shim.thy ===== *)
theory Rocks_Shim
  imports Py_Runtime
begin

section \<open>Column families behind the compatibility shim\<close>

text \<open>
  \<open>storage/_rocksdict_compat.py\<close>: batches, lookups and iterators over column families, in the
  shape of python-rocksdb and implemented with rocksdict. The rocksdict library is a parameter:
  \<open>rocksdict\<close> holds its lookup, its atomic write and the contents of a column family in iteration
  order; \<open>rd_laws\<close> is what RocksDB documents of them. A value is kept as the JSON object that
  \<open>json.dumps\<close> wrote and \<open>json.loads\<close> will read, or as plain bytes.
\<close>

datatype cell = Json pydict | Bytes string

type_synonym rd_op = "string \<times> string \<times> cell option"  \<comment> \<open>column family, key, value or deletion\<close>

record 'kv rocksdict =
  rd_get :: "'kv \<Rightarrow> string \<Rightarrow> string \<Rightarrow> cell option"
  rd_write :: "'kv \<Rightarrow> rd_op list \<Rightarrow> 'kv"
  rd_items :: "'kv \<Rightarrow> string \<Rightarrow> (string \<times> cell) list"

fun op_effect :: "string \<Rightarrow> string \<Rightarrow> rd_op \<Rightarrow> cell option \<Rightarrow> cell option" where
  "op_effect cf k (cf', k', v) old = (if cf' = cf \<and> k' = k then v else old)"

definition after_ops :: "rd_op list \<Rightarrow> string \<Rightarrow> string \<Rightarrow> cell option \<Rightarrow> cell option" where
  "after_ops ops cf k old = fold (op_effect cf k) ops old"

text \<open>The operations of a batch take effect together and in order; a family is iterated in the order of its keys.\<close>

definition rd_laws :: "'kv rocksdict \<Rightarrow> bool" where
  "rd_laws L \<longleftrightarrow>
     (\<forall>s ops cf k. rd_get L (rd_write L s ops) cf k = after_ops ops cf k (rd_get L s cf k))
     \<and> (\<forall>s cf. sorted_wrt (<) (map fst (rd_items L s cf)))
     \<and> (\<forall>s cf k. map_of (rd_items L s cf) k = rd_get L s cf k)"

subsection \<open>Batches\<close>

type_synonym batch = "rd_op list"

definition batch_put :: "string \<Rightarrow> string \<Rightarrow> cell \<Rightarrow> batch \<Rightarrow> batch" where
  "batch_put cf k v b = b @ [(cf, k, Some v)]"

definition batch_delete :: "string \<Rightarrow> string \<Rightarrow> batch \<Rightarrow> batch" where
  "batch_delete cf k b = b @ [(cf, k, None)]"

subsection \<open>The database\<close>

record 'kv shim_db =
  sh_kv :: 'kv
  sh_handles :: "string list"

text \<open>\<open>_init\<close>: one handle per name that was asked for.\<close>

definition shim_open :: "'kv \<Rightarrow> string list \<Rightarrow> 'kv shim_db" where
  "shim_open kv names = \<lparr>sh_kv = kv, sh_handles = names\<rparr>"

text \<open>A name without a handle reads the default family; an operation on it is left out of the batch.\<close>

definition resolve_cf :: "'kv shim_db \<Rightarrow> string \<Rightarrow> string" where
  "resolve_cf db cf = (if cf \<in> set (sh_handles db) then cf else ''default'')"

definition db_get :: "'kv rocksdict \<Rightarrow> 'kv shim_db \<Rightarrow> string \<Rightarrow> string \<Rightarrow> cell option" where
  "db_get L db cf k = rd_get L (sh_kv db) (resolve_cf db cf) k"

definition db_write :: "'kv rocksdict \<Rightarrow> batch \<Rightarrow> 'kv shim_db \<Rightarrow> 'kv shim_db" where
  "db_write L b db = db\<lparr>sh_kv := rd_write L (sh_kv db) (filter (\<lambda>(cf, k, v). cf \<in> set (sh_handles db)) b)\<rparr>"

subsection \<open>Iterators\<close>

text \<open>
  An iterator is what it will still yield: the items of a family from a position on, forwards after
  \<open>seek\<close> and \<open>seek_to_first\<close>, backwards after \<open>seek_to_last\<close>. A fresh one is not positioned.
\<close>

record kv_iterator =
  it_all :: "(string \<times> cell) list"
  it_rest :: "(string \<times> cell) list"

definition iteritems :: "'kv rocksdict \<Rightarrow> 'kv shim_db \<Rightarrow> string \<Rightarrow> kv_iterator" where
  "iteritems L db cf = \<lparr>it_all = rd_items L (sh_kv db) (resolve_cf db cf), it_rest = []\<rparr>"

definition it_seek :: "string \<Rightarrow> kv_iterator \<Rightarrow> kv_iterator" where
  "it_seek k it = it\<lparr>it_rest := dropWhile (\<lambda>(k', v). k' < k) (it_all it)\<rparr>"

definition seek_to_first :: "kv_iterator \<Rightarrow> kv_iterator" where
  "seek_to_first it = it\<lparr>it_rest := it_all it\<rparr>"

definition seek_to_last :: "kv_iterator \<Rightarrow> kv_iterator" where
  "seek_to_last it = it\<lparr>it_rest := rev (it_all it)\<rparr>"

definition it_values :: "kv_iterator \<Rightarrow> cell list" where
  "it_values it = map snd (it_rest it)"

subsection \<open>What the laws give\<close>

lemma after_ops_simps [simp]:
  "after_ops [] cf k old = old"
  "after_ops (ops @ [(cf', k', v)]) cf k old = (if cf' = cf \<and> k' = k then v else after_ops ops cf k old)"
  by (simp_all add: after_ops_def)

lemma after_ops_append: "after_ops (xs @ ys) cf k old = after_ops ys cf k (after_ops xs cf k old)"
  by (simp add: after_ops_def)

lemma after_ops_Cons: "after_ops ((cf', k', v) # ops) cf k old = after_ops ops cf k (if cf' = cf \<and> k' = k then v else old)"
  by (simp add: after_ops_def)

lemma rd_get_write: "rd_laws L \<Longrightarrow> rd_get L (rd_write L s ops) cf k = after_ops ops cf k (rd_get L s cf k)"
  by (simp add: rd_laws_def)

lemma rd_items_sorted: "rd_laws L \<Longrightarrow> sorted_wrt (<) (map fst (rd_items L s cf))"
  by (simp add: rd_laws_def)

lemma rd_items_get: "rd_laws L \<Longrightarrow> (k, v) \<in> set (rd_items L s cf) \<longleftrightarrow> rd_get L s cf k = Some v"
proof -
  assume L: "rd_laws L"
  have "distinct (map fst (rd_items L s cf))" using rd_items_sorted [OF L] by (simp add: strict_sorted_iff)
  with L show ?thesis by (simp add: rd_laws_def flip: map_of_eq_Some_iff)
qed

text \<open>
  Scanning from a key to the first one without a prefix: in a sorted list the items from the key on
  whose key has the prefix, when nothing with the prefix is smaller than what does not have it and follows.
\<close>

lemma dropWhile_sorted:
  assumes "sorted_wrt (<) (map fst xs)"
  shows "dropWhile (\<lambda>(k', v). k' < k) xs = filter (\<lambda>(k', v). \<not> k' < (k :: 'a :: linorder)) xs"
  using assms
proof (induction xs)
  case Nil
  then show ?case by simp
next
  case (Cons x xs)
  show ?case
  proof (cases "fst x < k")
    case True
    with Cons show ?thesis by (cases x) simp
  next
    case False
    then have "\<forall>y \<in> set xs. \<not> fst y < k" using Cons.prems by force
    then have "filter (\<lambda>(k', v). \<not> k' < k) xs = xs" by (intro filter_True) auto
    with False show ?thesis by (cases x) simp
  qed
qed

end
