(* ===== verification/Rocks_Rows.thy ===== *)
theory Rocks_Rows
  imports Rocks_Shim
begin

section \<open>The rows of the RocksDB backend\<close>

text \<open>
  The classes \<open>AgentRunRow\<close>, \<open>AuditEventRow\<close> and \<open>ApprovalRow\<close> of
  \<open>storage/rocksdb_backend.py\<close>. A row is an object with a fixed list of attributes, set from keyword
  arguments or defaults; it is the list of its attributes here. Rows are written with \<open>json.dumps\<close>
  and read back with \<open>json.loads\<close>: a date of an event or approval comes back as the text \<open>str\<close> gave
  for it, that of a run is parsed again.
\<close>

datatype attr = Val json | Date datetime

type_synonym row = "(string \<times> attr) list"

datatype orm = AgentRunRow row | AuditEventRow row | ApprovalRow row

definition row_init :: "(string \<times> json) list \<Rightarrow> row \<Rightarrow> row" where
  "row_init defaults kw = map (\<lambda>(k, d). (k, case map_of kw k of None \<Rightarrow> Val d | Some a \<Rightarrow> a)) defaults"

definition row_get :: "row \<Rightarrow> string \<Rightarrow> attr" where
  "row_get r k = (case map_of r k of None \<Rightarrow> Val JNull | Some a \<Rightarrow> a)"

subsection \<open>Attributes and their defaults\<close>

definition run_defaults :: "(string \<times> json) list" where
  "run_defaults = [(''run_id'', JStr []), (''org_id'', JStr []), (''project_id'', JStr []), (''environment'', JStr ''dev''),
     (''agent_id'', JStr []), (''agent_version'', JNull), (''status'', JStr ''running''), (''metadata_json'', JDict []),
     (''started_at'', JNull), (''ended_at'', JNull), (''last_event_hash'', JNull), (''event_count'', JInt 0)]"

definition event_defaults :: "(string \<times> json) list" where
  "event_defaults = [(''sequence'', JInt 0), (''event_id'', JStr []), (''org_id'', JStr []), (''project_id'', JStr []),
     (''environment'', JStr []), (''run_id'', JStr []), (''step_id'', JNull), (''step_index'', JNull), (''event_type'', JStr []),
     (''schema_version'', JStr ''2026-05-01''), (''actor_type'', JNull), (''actor_id'', JNull), (''trace_id'', JNull),
     (''span_id'', JNull), (''parent_span_id'', JNull), (''payload_mode'', JStr ''metadata_only''), (''payload'', JNull),
     (''payload_hash'', JNull), (''previous_event_hash'', JNull), (''event_hash'', JStr []), (''occurred_at'', JNull),
     (''ingested_at'', JNull), (''idempotency_key'', JNull)]"

definition approval_defaults :: "(string \<times> json) list" where
  "approval_defaults = [(''approval_id'', JStr []), (''run_id'', JStr []), (''org_id'', JStr []), (''project_id'', JStr []),
     (''policy_id'', JNull), (''requested_by'', JNull), (''reviewer_id'', JNull), (''status'', JStr ''requested''),
     (''reason'', JNull), (''input_json'', JNull), (''created_at'', JNull), (''decided_at'', JNull)]"

subsection \<open>Writing and reading\<close>

text \<open>\<open>str(date)\<close>: the text of \<open>isoformat\<close> with a blank between date and time.\<close>

definition date_str :: "datetime \<Rightarrow> string" where
  "date_str d = map (\<lambda>c. if c = CHR ''T'' then CHR '' '' else c) (isoformat d)"

definition attr_str :: "runtime \<Rightarrow> attr \<Rightarrow> string" where
  "attr_str rt a = (case a of Val (JStr s) \<Rightarrow> s | Val v \<Rightarrow> rt_repr rt v | Date d \<Rightarrow> date_str d)"

text \<open>\<open>json.dumps(d, default=str)\<close>, as the object that will be read back.\<close>

definition dump_row :: "row \<Rightarrow> pydict" where
  "dump_row r = map (\<lambda>(k, a). (k, case a of Val v \<Rightarrow> v | Date d \<Rightarrow> JStr (date_str d))) r"

definition load_row :: "(string \<times> json) list \<Rightarrow> pydict \<Rightarrow> row" where
  "load_row defaults d = row_init defaults (map (\<lambda>(k, v). (k, Val v)) d)"

text \<open>\<open>AgentRunRow.to_dict\<close> and \<open>json.dumps\<close> without a default: another date is a type error.\<close>

definition iso_attr :: "runtime \<Rightarrow> attr \<Rightarrow> attr" where
  "iso_attr rt a = (case a of Val JNull \<Rightarrow> Val JNull | Date d \<Rightarrow> Val (JStr (isoformat d)) | Val v \<Rightarrow> Val (JStr (attr_str rt (Val v))))"

definition run_to_dict_row :: "runtime \<Rightarrow> row \<Rightarrow> row" where
  "run_to_dict_row rt r = map (\<lambda>(k, a). (k, if k = ''started_at'' \<or> k = ''ended_at'' then iso_attr rt a else a)) r"

definition dump_run :: "runtime \<Rightarrow> row \<Rightarrow> pydict result" where
  "dump_run rt r =
    (if list_all (\<lambda>(k, a). case a of Val v \<Rightarrow> True | Date d \<Rightarrow> False) (run_to_dict_row rt r)
     then Inr (dump_row (run_to_dict_row rt r)) else Inl (TypeError ''Object of type datetime is not JSON serializable''))"

definition parse_date :: "runtime \<Rightarrow> json \<Rightarrow> attr result" where
  "parse_date rt v = (case v of
      JNull \<Rightarrow> Inr (Val JNull)
    | _ \<Rightarrow> (case rt_fromisoformat rt (attr_str rt (Val v)) of
        None \<Rightarrow> Inl (ValueError ''Invalid isoformat string'') | Some d \<Rightarrow> Inr (Date d)))"

text \<open>\<open>AgentRunRow.from_dict\<close>\<close>

definition load_run :: "runtime \<Rightarrow> pydict \<Rightarrow> row result" where
  "load_run rt d =
    (case (parse_date rt (dict_get d ''started_at''), parse_date rt (dict_get d ''ended_at'')) of
       (Inr st, Inr en) \<Rightarrow>
         Inr (map (\<lambda>(k, a). (k, if k = ''started_at'' then st else if k = ''ended_at'' then en else a)) (load_row run_defaults d))
     | (Inl e, _) \<Rightarrow> Inl e
     | (_, Inl e) \<Rightarrow> Inl e)"

subsection \<open>Round trips\<close>

definition has_attrs :: "(string \<times> json) list \<Rightarrow> row \<Rightarrow> bool" where
  "has_attrs defaults r \<longleftrightarrow> map fst r = map fst defaults"

lemma row_init_keys [simp]: "map fst (row_init defaults kw) = map fst defaults"
  by (simp add: row_init_def comp_def case_prod_beta')

lemma has_attrs_init [simp]: "has_attrs defaults (row_init defaults kw)"
  by (simp add: has_attrs_def)

lemma row_init_same: "has_attrs defaults r \<Longrightarrow> distinct (map fst defaults) \<Longrightarrow> row_init defaults r = r"
proof -
  assume a: "has_attrs defaults r" "distinct (map fst defaults)"
  then have len: "length r = length defaults" unfolding has_attrs_def by (metis length_map)
  have keys: "fst (r ! i) = fst (defaults ! i)" if "i < length r" for i
    using a(1) that len unfolding has_attrs_def by (metis nth_map)
  have dist: "distinct (map fst r)" using a by (simp add: has_attrs_def)
  show ?thesis
  proof (rule nth_equalityI)
    show "length (row_init defaults r) = length r" using len by (simp add: row_init_def)
  next
    fix i
    assume "i < length (row_init defaults r)"
    then have i: "i < length r" using len by (simp add: row_init_def)
    have "map_of r (fst (r ! i)) = Some (snd (r ! i))"
      using dist i by (intro map_of_is_SomeI) simp_all
    with i len keys [OF i] show "row_init defaults r ! i = r ! i"
      by (simp add: row_init_def case_prod_beta') (metis prod.collapse)
  qed
qed

text \<open>What a row is after it was written and read: its dates became text.\<close>

definition stored_row :: "row \<Rightarrow> row" where
  "stored_row r = map (\<lambda>(k, a). (k, case a of Val v \<Rightarrow> Val v | Date d \<Rightarrow> Val (JStr (date_str d)))) r"

lemma load_dump:
  assumes "has_attrs defaults r" "distinct (map fst defaults)"
  shows "load_row defaults (dump_row r) = stored_row r"
proof -
  have "map (\<lambda>(k, v). (k, Val v)) (dump_row r) = stored_row r"
    by (auto simp: dump_row_def stored_row_def split: attr.split)
  moreover have "has_attrs defaults (stored_row r)"
    using assms(1) by (simp add: has_attrs_def stored_row_def comp_def case_prod_beta')
  ultimately show ?thesis using row_init_same assms(2) by (simp add: load_row_def)
qed

lemma defaults_distinct [simp]: "distinct (map fst event_defaults)" "distinct (map fst run_defaults)" "distinct (map fst approval_defaults)"
  by (simp_all add: event_defaults_def run_defaults_def approval_defaults_def)

lemma dict_get_dump [row_simps]: "dict_get (dump_row r) k = (case row_get r k of Val v \<Rightarrow> v | Date d \<Rightarrow> JStr (date_str d))"
  unfolding dump_row_def row_get_def by (induction r) (auto split: attr.split)

lemma row_get_stored [row_simps]: "row_get (stored_row r) k = (case row_get r k of Val v \<Rightarrow> Val v | Date d \<Rightarrow> Val (JStr (date_str d)))"
  unfolding stored_row_def row_get_def by (induction r) (auto split: attr.split)

end
