(* ===== verification/Byte_Keys.thy ===== *)
theory Byte_Keys
  imports Positional Text_Format
begin

section \<open>Sequence numbers as bytes\<close>

text \<open>
  \<open>struct.pack\<close> and \<open>struct.unpack\<close> as \<open>storage/rocksdb_backend.py\<close> uses them: \<open>">q"\<close>, a
  signed number in eight bytes, most significant first, and \<open>">I"\<close>, an unsigned one in four. A
  byte string is a \<open>string\<close> of 8-bit characters. The keys of the store are compared as byte strings,
  so that the order of the keys is the order of the numbers only where the sign bit is clear.
\<close>

definition byte_char :: "nat \<Rightarrow> char" where
  "byte_char n = char_of n"

definition byte_val :: "char \<Rightarrow> nat" where
  "byte_val c = of_char c"

definition bytes_val :: "string \<Rightarrow> nat" where
  "bytes_val s = foldl (\<lambda>a c. 256 * a + byte_val c) 0 s"

definition be_bytes :: "nat \<Rightarrow> nat \<Rightarrow> string" where
  "be_bytes w n = pos 256 byte_char w n"

lemma byte_val_char [simp]: "n < 256 \<Longrightarrow> byte_val (byte_char n) = n"
  by (simp add: byte_val_def byte_char_def)

lemma byte_val_less: "byte_val c < 256"
  by (simp add: byte_val_def)

interpretation base256: positional 256 byte_char
  by unfold_locales (simp_all add: byte_char_def less_char_def)

lemma bytes_val_snoc [simp]: "bytes_val (s @ [c]) = 256 * bytes_val s + byte_val c"
  by (simp add: bytes_val_def)

lemma bytes_val_be [simp]: "n < 256 ^ w \<Longrightarrow> bytes_val (be_bytes w n) = n"
proof (induction w arbitrary: n)
  case 0
  then show ?case by (simp add: be_bytes_def bytes_val_def)
next
  case (Suc w)
  have "n div 256 < 256 ^ w" using Suc.prems by (simp add: less_mult_imp_div_less)
  then have "bytes_val (be_bytes w (n div 256)) = n div 256" by (rule Suc.IH)
  then show ?case by (simp add: be_bytes_def)
qed

lemma length_be [simp]: "length (be_bytes w n) = w"
  by (simp add: be_bytes_def)

lemma bytes_val_bound: "bytes_val s < 256 ^ length s"
proof (induction s rule: rev_induct)
  case Nil
  then show ?case by (simp add: bytes_val_def)
next
  case (snoc c s)
  have "256 * bytes_val s + byte_val c < 256 * (bytes_val s + 1)" using byte_val_less [of c] by simp
  also have "\<dots> \<le> 256 * 256 ^ length s" using snoc by (intro mult_le_mono) simp_all
  finally show ?case by simp
qed

subsection \<open>Signed eight-byte keys\<close>

definition pack_q :: "int \<Rightarrow> string result" where
  "pack_q n = (if - (2 ^ 63) \<le> n \<and> n < 2 ^ 63 then Inr (be_bytes 8 (nat (n mod 2 ^ 64)))
     else Inl (StructError ''argument out of range''))"

definition unpack_q :: "string \<Rightarrow> int result" where
  "unpack_q b = (if length b = 8
     then (let v = int (bytes_val b) in Inr (if v < 2 ^ 63 then v else v - 2 ^ 64))
     else Inl (StructError ''unpack requires a buffer of 8 bytes''))"

definition seq_key :: "int \<Rightarrow> string result" where
  "seq_key n = pack_q n"

definition key_seq :: "string \<Rightarrow> int result" where
  "key_seq b = unpack_q b"

text \<open>The key of a number that is in range, which is what stored rows have.\<close>

definition seq_bytes :: "int \<Rightarrow> string" where
  "seq_bytes n = be_bytes 8 (nat (n mod 2 ^ 64))"

lemma seq_key_Inr: "0 \<le> n \<Longrightarrow> n < 2 ^ 63 \<Longrightarrow> seq_key n = Inr (seq_bytes n)"
  by (simp add: seq_key_def pack_q_def seq_bytes_def)

lemma length_seq_bytes [simp]: "length (seq_bytes n) = 8"
  by (simp add: seq_bytes_def)

lemma twos_complement:
  assumes "- (2 ^ 63) \<le> n" "n < 0"
  shows "n mod 2 ^ 64 = n + (2 ^ 64 :: int)"
proof -
  have "n mod 2 ^ 64 = (n + 2 ^ 64) mod 2 ^ 64" by (rule mod_add_self2 [symmetric])
  also have "\<dots> = n + 2 ^ 64" using assms by (intro mod_pos_pos_trivial) simp_all
  finally show ?thesis .
qed

lemma key_seq_bytes:
  assumes "- (2 ^ 63) \<le> n" "n < 2 ^ 63"
  shows "key_seq (seq_bytes n) = Inr n"
proof -
  have "nat (n mod 2 ^ 64) < 256 ^ 8" by (simp add: nat_less_iff)
  then have v: "int (bytes_val (seq_bytes n)) = n mod 2 ^ 64" by (simp add: seq_bytes_def)
  show ?thesis
  proof (cases "0 \<le> n")
    case True
    with assms have "n mod 2 ^ 64 = n" by simp
    with assms True v show ?thesis by (simp add: key_seq_def unpack_q_def)
  next
    case False
    with assms have "n mod 2 ^ 64 = n + 2 ^ 64" by (intro twos_complement) simp_all
    with assms False v show ?thesis by (simp add: key_seq_def unpack_q_def)
  qed
qed

lemma seq_bytes_nonneg: "0 \<le> n \<Longrightarrow> n < 2 ^ 63 \<Longrightarrow> seq_bytes n = be_bytes 8 (nat n)"
  by (simp add: seq_bytes_def)

lemma seq_bytes_less:
  assumes "0 \<le> m" "0 \<le> n" "m < 2 ^ 63" "n < 2 ^ 63"
  shows "seq_bytes m < seq_bytes n \<longleftrightarrow> m < n"
proof -
  have "nat m < 256 ^ 8" "nat n < 256 ^ 8" using assms by (simp_all add: nat_less_iff)
  then have "be_bytes 8 (nat m) < be_bytes 8 (nat n) \<longleftrightarrow> nat m < nat n"
    unfolding be_bytes_def by (rule base256.pos_less_iff)
  with assms show ?thesis by (simp add: seq_bytes_nonneg nat_less_eq_zless del: zless_nat_conj)
qed

lemma seq_bytes_inj: "0 \<le> m \<Longrightarrow> 0 \<le> n \<Longrightarrow> m < 2 ^ 63 \<Longrightarrow> n < 2 ^ 63 \<Longrightarrow> seq_bytes m = seq_bytes n \<longleftrightarrow> m = n"
  using seq_bytes_less [of m n] seq_bytes_less [of n m] by force

text \<open>A negative number has a key above every non-negative one.\<close>

lemma seq_bytes_negative:
  assumes "- (2 ^ 63) \<le> m" "m < 0" "0 \<le> n" "n < 2 ^ 63"
  shows "seq_bytes n < seq_bytes m"
proof -
  note m = twos_complement [OF assms(1,2)]
  have "nat (n mod 2 ^ 64) < nat (m mod 2 ^ 64)" unfolding m using assms by simp
  moreover have "nat (m mod 2 ^ 64) < 256 ^ 8" by (simp add: nat_less_iff)
  ultimately show ?thesis unfolding seq_bytes_def be_bytes_def by (rule base256.pos_less)
qed

lemma seq_key_range: "- (2 ^ 63) \<le> n \<Longrightarrow> n < 2 ^ 63 \<Longrightarrow> seq_key n = Inr (seq_bytes n)"
  by (simp add: seq_key_def pack_q_def seq_bytes_def)

lemma seq_key_out: "\<not> (- (2 ^ 63) \<le> n \<and> n < 2 ^ 63) \<Longrightarrow> \<exists>e. seq_key n = Inl e"
  by (simp add: seq_key_def pack_q_def)

lemma seq_bytes_order:
  assumes "- (2 ^ 63) \<le> m" "m < 2 ^ 63" "- (2 ^ 63) \<le> n" "n < 2 ^ 63"
  shows "seq_bytes m < seq_bytes n \<longleftrightarrow> (if (m < 0) = (n < 0) then m < n else 0 \<le> m)"
proof -
  have less: "seq_bytes m < seq_bytes n \<longleftrightarrow> nat (m mod 2 ^ 64) < nat (n mod 2 ^ 64)"
    unfolding seq_bytes_def be_bytes_def by (rule base256.pos_less_iff) (simp_all add: nat_less_iff)
  have val: "k mod 2 ^ 64 = (if k < 0 then k + 2 ^ 64 else k)" if "- (2 ^ 63) \<le> k" "k < 2 ^ 63" for k :: int
    using twos_complement [of k] that by simp
  show ?thesis unfolding less val [OF assms(1,2)] val [OF assms(3,4)] using assms by auto
qed

subsection \<open>Unsigned four-byte lengths\<close>

definition pack_I :: "nat \<Rightarrow> string result" where
  "pack_I n = (if n < 2 ^ 32 then Inr (be_bytes 4 n) else Inl (StructError ''argument out of range''))"

lemma pack_I_val: "pack_I n = Inr b \<Longrightarrow> length b = 4 \<and> bytes_val b = n"
  by (auto simp: pack_I_def split: if_splits)

end
