(* ===== verification/Wal.thy ===== *)
theory Wal
  imports Byte_Keys Py_Runtime
begin

section \<open>The write-ahead log of the RocksDB backend\<close>

text \<open>
  \<open>_PythonWAL\<close> of \<open>storage/rocksdb_backend.py\<close>: a file of records, each a header of 21 bytes
  (sequence number, kind, time, length of the payload), the payload and a checksum of four bytes, and
  a small file with the last sequence number that was applied. Opening the log reads the headers to
  find the last sequence number. Files are their contents; \<open>md5\<close> gives the hexadecimal digest that
  \<open>hashlib\<close> computes, of which only the first eight digits are used.
\<close>

record wal =
  wa_log :: string
  wa_applied_file :: "string option"
  wa_last :: int
  wa_applied :: int

subsection \<open>Opening\<close>

text \<open>
  \<open>int(text.strip() or "0")\<close>, for the texts \<open>mark_applied\<close> writes: digits, with a sign perhaps.
\<close>

definition read_int :: "string \<Rightarrow> int" where
  "read_int s = (case s of
      [] \<Rightarrow> 0
    | c # ds \<Rightarrow> if c = CHR ''-'' then - int (digits_val ds) else int (digits_val s))"

text \<open>The sequence number of a record, read from the first eight bytes of its header.\<close>

definition header_seq :: "string \<Rightarrow> int" where
  "header_seq s = (case key_seq (take 8 s) of Inr n \<Rightarrow> n | Inl e \<Rightarrow> 0)"

function wal_scan :: "string \<Rightarrow> int \<Rightarrow> int" where
  "wal_scan s last_seq =
    (if length s < 21 then last_seq
     else wal_scan (drop (21 + bytes_val (take 4 (drop 17 s)) + 4) s)
       (if header_seq s > last_seq then header_seq s else last_seq))"
  by auto
termination by (relation "measure (\<lambda>(s, l). length s)") auto

declare wal_scan.simps [simp del]

definition wal_open :: "string \<Rightarrow> string option \<Rightarrow> wal" where
  "wal_open content applied = \<lparr>wa_log = content, wa_applied_file = applied, wa_last = wal_scan content 0,
     wa_applied = (case applied of None \<Rightarrow> 0 | Some t \<Rightarrow> read_int t)\<rparr>"

subsection \<open>Appending\<close>

definition hex_number :: "string \<Rightarrow> nat" where
  "hex_number s = foldl (\<lambda>a c. 16 * a + hex_val c) 0 s"

definition wal_crc :: "(string \<Rightarrow> string) \<Rightarrow> string \<Rightarrow> string result" where
  "wal_crc md5 buf = pack_I (hex_number (take 8 (md5 buf)))"

text \<open>\<open>bytes([op_type])\<close>\<close>

definition op_byte :: "int \<Rightarrow> string result" where
  "op_byte k = (if 0 \<le> k \<and> k < 256 then Inr [byte_char (nat k)] else Inl (ValueError ''bytes must be in range(0, 256)''))"

definition wal_record :: "(string \<Rightarrow> string) \<Rightarrow> int \<Rightarrow> int \<Rightarrow> int \<Rightarrow> string \<Rightarrow> string result" where
  "wal_record md5 seq op_type ts_ms raw =
    (case (seq_key seq, op_byte op_type, seq_key ts_ms, pack_I (length raw)) of
       (Inr s, Inr k, Inr t, Inr n) \<Rightarrow>
         (let buf = s @ k @ t @ n @ raw in
          case wal_crc md5 buf of Inl e \<Rightarrow> Inl e | Inr crc \<Rightarrow> Inr (buf @ crc))
     | (Inl e, _) \<Rightarrow> Inl e
     | (_, Inl e, _) \<Rightarrow> Inl e
     | (_, _, Inl e, _) \<Rightarrow> Inl e
     | (_, _, _, Inl e) \<Rightarrow> Inl e)"

text \<open>The number is taken before the record is built: an append that raises uses it up.\<close>

definition wal_append :: "(string \<Rightarrow> string) \<Rightarrow> int \<Rightarrow> int \<Rightarrow> string \<Rightarrow> wal \<Rightarrow> int result \<times> wal" where
  "wal_append md5 ts_ms op_type payload w =
    (let seq = wa_last w + 1; w1 = w\<lparr>wa_last := seq\<rparr> in
     case wal_record md5 seq op_type ts_ms payload of
       Inl e \<Rightarrow> (Inl e, w1)
     | Inr r \<Rightarrow> (Inr seq, w1\<lparr>wa_log := wa_log w @ r\<rparr>))"

definition mark_applied :: "int \<Rightarrow> wal \<Rightarrow> wal" where
  "mark_applied seq w =
    (if seq > wa_applied w then w\<lparr>wa_applied := seq, wa_applied_file := Some (int_str seq)\<rparr> else w)"

text \<open>Appends in sequence, of kind and payload, at the times of the clock.\<close>

fun wal_append_all :: "(string \<Rightarrow> string) \<Rightarrow> (nat \<Rightarrow> int) \<Rightarrow> nat \<Rightarrow> (int \<times> string) list \<Rightarrow> wal \<Rightarrow> int list result \<times> wal" where
  "wal_append_all md5 clock t [] w = (Inr [], w)"
| "wal_append_all md5 clock t ((k, payload) # rs) w =
    (case wal_append md5 (clock t) k payload w of
       (Inl e, w') \<Rightarrow> (Inl e, w')
     | (Inr n, w') \<Rightarrow>
         (case wal_append_all md5 clock (Suc t) rs w' of
            (Inl e, w'') \<Rightarrow> (Inl e, w'')
          | (Inr ns, w'') \<Rightarrow> (Inr (n # ns), w'')))"

subsection \<open>Reading what was appended\<close>

lemma wal_record_Inr:
  assumes "wal_record md5 seq k ts raw = Inr r"
  obtains h c where "r = h @ raw @ c" "length h = 21" "length c = 4" "take 8 h = seq_bytes seq"
    "bytes_val (take 4 (drop 17 h)) = length raw" "- (2 ^ 63) \<le> seq" "seq < 2 ^ 63"
proof -
  from assms obtain s kb t n where f: "seq_key seq = Inr s" "op_byte k = Inr kb" "seq_key ts = Inr t" "pack_I (length raw) = Inr n"
    unfolding wal_record_def by (simp split: sum.splits)
  with assms obtain c where c: "wal_crc md5 (s @ kb @ t @ n @ raw) = Inr c" "r = s @ kb @ t @ n @ raw @ c"
    by (auto simp: wal_record_def Let_def split: sum.splits)
  have s: "s = seq_bytes seq" "- (2 ^ 63) \<le> seq" "seq < 2 ^ 63" and t: "length t = 8" and kb: "length kb = 1"
    using f by (auto simp: seq_key_def pack_q_def seq_bytes_def op_byte_def split: if_splits)
  have n: "length n = 4" "bytes_val n = length raw" using pack_I_val [OF f(4)] by simp_all
  have "length c = 4" using c(1) pack_I_val unfolding wal_crc_def by blast
  with c(2) s t kb n show thesis by (intro that [of "s @ kb @ t @ n" c]) simp_all
qed

lemma wal_scan_short: "length s < 21 \<Longrightarrow> wal_scan s l = l"
  by (subst wal_scan.simps) simp

lemma header_seq_append: "8 \<le> length h \<Longrightarrow> header_seq (h @ s) = header_seq h"
  by (simp add: header_seq_def)

lemma wal_scan_record:
  assumes "wal_record md5 seq k ts raw = Inr r" "l < seq"
  shows "wal_scan (r @ rest) l = wal_scan rest seq"
proof -
  obtain h c where h: "r = h @ raw @ c" "length h = 21" "length c = 4" "take 8 h = seq_bytes seq"
    "bytes_val (take 4 (drop 17 h)) = length raw" "- (2 ^ 63) \<le> seq" "seq < 2 ^ 63"
    by (rule wal_record_Inr [OF assms(1)])
  have "header_seq (r @ rest) = seq" using h by (simp add: header_seq_def key_seq_bytes)
  moreover have "bytes_val (take 4 (drop 17 (r @ rest))) = length raw" using h by simp
  moreover have "drop (21 + length raw + 4) (r @ rest) = rest" using h by simp
  ultimately show ?thesis using assms(2) h by (subst wal_scan.simps) simp
qed

text \<open>A record cut off in its payload or checksum still counts, and one cut off in its header does not.\<close>

lemma wal_scan_torn:
  assumes "wal_record md5 seq k ts raw = Inr r" "l < seq" "n < length r"
  shows "wal_scan (take n r) l = (if n < 21 then l else seq)"
proof -
  obtain h c where h: "r = h @ raw @ c" "length h = 21" "length c = 4" "take 8 h = seq_bytes seq"
    "bytes_val (take 4 (drop 17 h)) = length raw" "- (2 ^ 63) \<le> seq" "seq < 2 ^ 63"
    by (rule wal_record_Inr [OF assms(1)])
  show ?thesis
  proof (cases "n < 21")
    case True
    then show ?thesis using assms(3) by (simp add: wal_scan_short)
  next
    case False
    have "header_seq (take n r) = seq" using False h by (simp add: header_seq_def key_seq_bytes)
    moreover have "bytes_val (take 4 (drop 17 (take n r))) = length raw" using False h by simp
    moreover have "drop (21 + length raw + 4) (take n r) = []" using h assms(3) by simp
    ultimately show ?thesis using False assms(2,3) by (subst wal_scan.simps) (simp add: wal_scan_short)
  qed
qed

lemma wal_append_all_scan:
  assumes "wal_append_all md5 clock t rs w = (Inr ns, w')" "\<And>rest. wal_scan (wa_log w @ rest) 0 = wal_scan rest (wa_last w)"
    and "0 \<le> wa_last w"
  shows "(\<forall>rest. wal_scan (wa_log w' @ rest) 0 = wal_scan rest (wa_last w'))
    \<and> wa_last w' = wa_last w + int (length rs) \<and> ns = map (\<lambda>i. wa_last w + int i + 1) [0..<length rs]
    \<and> wa_applied_file w' = wa_applied_file w \<and> wa_applied w' = wa_applied w"
  using assms
proof (induction rs arbitrary: t w ns)
  case Nil
  then show ?case by simp
next
  case (Cons r rs)
  obtain k payload where r: "r = (k, payload)" by (cases r)
  obtain n w1 where a: "wal_append md5 (clock t) k payload w = (Inr n, w1)"
    using Cons.prems(1) r by (auto split: prod.splits sum.splits)
  then obtain rec where rec: "wal_record md5 (wa_last w + 1) k (clock t) payload = Inr rec"
    and w1: "n = wa_last w + 1" "w1 = w\<lparr>wa_last := wa_last w + 1, wa_log := wa_log w @ rec\<rparr>"
    by (auto simp: wal_append_def Let_def split: sum.splits)
  obtain ns' where rest: "wal_append_all md5 clock (Suc t) rs w1 = (Inr ns', w')" "ns = n # ns'"
    using Cons.prems(1) r a by (auto split: prod.splits sum.splits)
  have scan: "wal_scan (wa_log w1 @ x) 0 = wal_scan x (wa_last w1)" for x
    using Cons.prems(2) [of "rec @ x"] wal_scan_record [OF rec, of "wa_last w" x] by (simp add: w1(2))
  from Cons.IH [OF rest(1) scan] Cons.prems(3)
  have *: "(\<forall>x. wal_scan (wa_log w' @ x) 0 = wal_scan x (wa_last w'))" "wa_last w' = wa_last w1 + int (length rs)"
    "ns' = map (\<lambda>i. wa_last w1 + int i + 1) [0..<length rs]" "wa_applied_file w' = wa_applied_file w1" "wa_applied w' = wa_applied w1"
    by (simp_all add: w1(2))
  have "ns = map (\<lambda>i. wa_last w + int i + 1) [0..<length (r # rs)]"
    unfolding rest(2) *(3) using w1 by (simp add: upt_conv_Cons map_Suc_upt [symmetric] del: upt_Suc)
  with * w1 show ?case by simp
qed

lemma read_int_str [simp]: "0 \<le> n \<Longrightarrow> read_int (int_str n) = n"
proof -
  assume n: "0 \<le> n"
  have "hd (nat_str (nat n)) \<noteq> CHR ''-''"
    using nat_str_digits [of "nat n"] dash_not_digit nat_str_nonempty [of "nat n"] by (metis list.set_sel(1))
  then obtain c ds where "nat_str (nat n) = c # ds" "c \<noteq> CHR ''-''"
    using nat_str_nonempty [of "nat n"] by (cases "nat_str (nat n)") auto
  with n show ?thesis using digits_val_nat_str [of "nat n"] by (simp add: read_int_def int_str_def)
qed

end
