(* ===== verification/Rocks_Backend.thy ===== *)
theory Rocks_Backend
  imports Rocks_Rows Auth Wal
begin

section \<open>The RocksDB backend\<close>

text \<open>
  \<open>RocksDBDatabase\<close> and its sessions, of \<open>storage/rocksdb_backend.py\<close>: rows in column families, with
  an index of the events by run, one by tenant and type, and one of the idempotency keys. A session
  collects rows, turns them into a batch when it is flushed, and writes the batch when it commits. The
  library below the shim, the run time and the conversion of a date to milliseconds are parameters.
\<close>

record 'kv rocks_env =
  re_lib :: "'kv rocksdict"
  re_rt :: runtime
  re_timestamp :: "datetime \<Rightarrow> int"   \<comment> \<open>\<open>int(d.timestamp() * 1000)\<close>\<close>

text \<open>The database object: the open store, the sequence counter, and the readings of the clock so far.\<close>

record 'kv rocks =
  rk_db :: "'kv shim_db"
  rk_seq :: int
  rk_tick :: nat

definition CF_NAMES :: "string list" where
  "CF_NAMES = [''default'', ''meta'', ''runs'', ''runs_by_org'', ''events'', ''ev_by_run'', ''ev_by_type'', ''idempotency'',
     ''approvals'', ''exports'', ''api_keys'', ''orgs'', ''projects'']"

definition get_raw :: "'kv rocks_env \<Rightarrow> 'kv rocks \<Rightarrow> string \<Rightarrow> string \<Rightarrow> cell option" where
  "get_raw en s cf k = db_get (re_lib en) (rk_db s) cf k"

text \<open>\<open>if v\<close>: a value that is there and not empty.\<close>

definition present :: "cell option \<Rightarrow> bool" where
  "present v = (case v of None \<Rightarrow> False | Some (Bytes b) \<Rightarrow> b \<noteq> [] | Some (Json d) \<Rightarrow> True)"

subsection \<open>Opening\<close>

definition rocks_open :: "'kv rocks_env \<Rightarrow> 'kv \<Rightarrow> 'kv rocks result" where
  "rocks_open en kv =
    (let s = \<lparr>rk_db = shim_open kv CF_NAMES, rk_seq = 0, rk_tick = 0\<rparr>; v = get_raw en s ''meta'' ''global_seq'' in
     if present v then (case v of
         Some (Bytes b) \<Rightarrow> (case key_seq b of Inl e \<Rightarrow> Inl e | Inr n \<Rightarrow> Inr (s\<lparr>rk_seq := n\<rparr>))
       | _ \<Rightarrow> Inl (StructError ''unpack requires a buffer of 8 bytes''))
     else Inr s)"

definition now_ms :: "'kv rocks_env \<Rightarrow> 'kv rocks \<Rightarrow> json" where
  "now_ms en s = JInt (int (rt_ms (re_rt en) (rk_tick s)))"

definition rocks_tick :: "'kv rocks \<Rightarrow> 'kv rocks" where
  "rocks_tick s = s\<lparr>rk_tick := Suc (rk_tick s)\<rparr>"

definition rocks_write :: "'kv rocks_env \<Rightarrow> batch \<Rightarrow> 'kv rocks \<Rightarrow> 'kv rocks" where
  "rocks_write en b s = s\<lparr>rk_db := db_write (re_lib en) b (rk_db s)\<rparr>"

definition key_entry :: "'kv rocks_env \<Rightarrow> settings \<Rightarrow> 'kv rocks \<Rightarrow> string \<Rightarrow> string \<times> pydict" where
  "key_entry en cfg s raw_key =
    (let h = ''sha256:'' @ rt_sha256 (re_rt en) raw_key in
     (h, [(''key_id'', JStr h), (''api_key_hash'', JStr h), (''org_id'', JStr (cfg_org cfg)), (''project_id'', JStr (cfg_project cfg)),
          (''name'', JStr ''bootstrap''), (''scopes'', JDict bootstrap_scopes), (''created_at_ms'', now_ms en s),
          (''revoked_at_ms'', JInt 0)]))"

text \<open>The keys' entries, each with its own reading of the clock.\<close>

fun put_keys :: "'kv rocks_env \<Rightarrow> settings \<Rightarrow> string list \<Rightarrow> batch \<Rightarrow> 'kv rocks \<Rightarrow> batch \<times> 'kv rocks" where
  "put_keys en cfg [] b s = (b, s)"
| "put_keys en cfg (raw # raws) b s =
    (case key_entry en cfg s raw of (h, d) \<Rightarrow> put_keys en cfg raws (batch_put ''api_keys'' h (Json d) b) (rocks_tick s))"

definition rocks_bootstrap :: "'kv rocks_env \<Rightarrow> settings \<Rightarrow> 'kv rocks \<Rightarrow> 'kv rocks" where
  "rocks_bootstrap en cfg s =
    (if present (get_raw en s ''orgs'' (cfg_org cfg)) then s
     else (let b1 = batch_put ''orgs'' (cfg_org cfg) (Json [(''org_id'', JStr (cfg_org cfg)), (''name'', JStr ''default''),
                 (''created_at_ms'', now_ms en s)]) [];
               s1 = rocks_tick s;
               b2 = batch_put ''projects'' (cfg_project cfg) (Json [(''project_id'', JStr (cfg_project cfg)),
                 (''org_id'', JStr (cfg_org cfg)), (''name'', JStr ''default''), (''created_at_ms'', now_ms en s1)]) b1;
               (b3, s2) = put_keys en cfg (cfg_keys cfg) b2 (rocks_tick s1)
           in rocks_write en b3 s2))"

subsection \<open>Writing rows\<close>

text \<open>\<open>value.encode()\<close>\<close>

definition encode :: "attr \<Rightarrow> string result" where
  "encode a = (case a of Val (JStr s) \<Rightarrow> Inr s | _ \<Rightarrow> Inl (AttributeError ''encode''))"

definition attr_truthy :: "attr \<Rightarrow> bool" where
  "attr_truthy a = (case a of Val v \<Rightarrow> truthy v | Date d \<Rightarrow> True)"

text \<open>An integer that \<open>struct.pack\<close> takes.\<close>

definition attr_int :: "attr \<Rightarrow> int result" where
  "attr_int a = (case a of
      Val (JInt n) \<Rightarrow> Inr n | Val (JBool b) \<Rightarrow> Inr (if b then 1 else 0)
    | _ \<Rightarrow> Inl (StructError ''required argument is not an integer''))"

definition is_zero :: "attr \<Rightarrow> bool" where
  "is_zero a = (case a of Val v \<Rightarrow> py_eq v (JInt 0) | Date d \<Rightarrow> False)"

definition started_ms :: "'kv rocks_env \<Rightarrow> row \<Rightarrow> 'kv rocks \<Rightarrow> int result \<times> 'kv rocks" where
  "started_ms en r s =
    (let a = row_get r ''started_at'' in
     if attr_truthy a then (case a of Date d \<Rightarrow> (Inr (re_timestamp en d), s) | Val v \<Rightarrow> (Inl (AttributeError ''timestamp''), s))
     else (Inr (int (rt_ms (re_rt en) (rk_tick s))), rocks_tick s))"

definition org_prefix :: "runtime \<Rightarrow> row \<Rightarrow> string" where
  "org_prefix rt r = attr_str rt (row_get r ''org_id'') @ '':'' @ attr_str rt (row_get r ''project_id'') @ '':''"

definition write_run :: "'kv rocks_env \<Rightarrow> batch \<Rightarrow> row \<Rightarrow> 'kv rocks \<Rightarrow> batch result \<times> 'kv rocks" where
  "write_run en b r s =
    (case (encode (row_get r ''run_id''), dump_run (re_rt en) r) of
       (Inr rid, Inr d) \<Rightarrow>
         (case started_ms en r s of
            (Inl e, s') \<Rightarrow> (Inl e, s')
          | (Inr ms, s') \<Rightarrow>
              (case seq_key ms of
                 Inl e \<Rightarrow> (Inl e, s')
               | Inr t \<Rightarrow>
                   (Inr (batch_put ''runs_by_org'' (org_prefix (re_rt en) r @ t @ '':'' @ rid) (Bytes rid)
                     (batch_put ''runs'' rid (Json d) b)), s')))
     | (Inl e, _) \<Rightarrow> (Inl e, s)
     | (_, Inl e) \<Rightarrow> (Inl e, s))"

definition next_seq :: "'kv rocks \<Rightarrow> int \<times> 'kv rocks" where
  "next_seq s = (rk_seq s + 1, s\<lparr>rk_seq := rk_seq s + 1\<rparr>)"

text \<open>A row without a number takes the next one, and keeps it whatever becomes of the batch.\<close>

definition number_event :: "row \<Rightarrow> 'kv rocks \<Rightarrow> row \<times> 'kv rocks" where
  "number_event r s =
    (if is_zero (row_get r ''sequence'')
     then (case next_seq s of (n, s') \<Rightarrow> (map (\<lambda>(k, a). (k, if k = ''sequence'' then Val (JInt n) else a)) r, s'))
     else (r, s))"

definition put_idem :: "row \<Rightarrow> batch \<Rightarrow> batch result" where
  "put_idem r b =
    (if \<not> attr_truthy (row_get r ''idempotency_key'') then Inr b
     else (case (encode (row_get r ''idempotency_key''), encode (row_get r ''event_id''), encode (row_get r ''event_hash'')) of
         (Inr k, Inr eid, Inr h) \<Rightarrow>
           Inr (batch_put ''idempotency'' (k @ '':hash'') (Bytes h) (batch_put ''idempotency'' k (Bytes eid) b))
       | (Inl e, _) \<Rightarrow> Inl e
       | (_, Inl e, _) \<Rightarrow> Inl e
       | (_, _, Inl e) \<Rightarrow> Inl e))"

definition persist_seq :: "'kv rocks \<Rightarrow> batch \<Rightarrow> batch result" where
  "persist_seq s b = (case pack_q (rk_seq s) of Inl e \<Rightarrow> Inl e | Inr k \<Rightarrow> Inr (batch_put ''meta'' ''global_seq'' (Bytes k) b))"

text \<open>The entries of a numbered event, in the order they are put.\<close>

definition event_batch :: "runtime \<Rightarrow> 'kv rocks \<Rightarrow> row \<Rightarrow> batch \<Rightarrow> batch result" where
  "event_batch rt s r b =
    (case attr_int (row_get r ''sequence'') of
       Inl e \<Rightarrow> Inl e
     | Inr n \<Rightarrow>
         (case (seq_key n, encode (row_get r ''run_id'')) of
            (Inr k, Inr rid) \<Rightarrow>
              (let type_key = org_prefix rt r @ attr_str rt (row_get r ''event_type'') @ '':'' @ k;
                   b1 = batch_put ''events'' k (Json (dump_row r)) b;
                   b2 = batch_put ''ev_by_run'' (rid @ '':'' @ k) (Bytes []) b1;
                   b3 = batch_put ''ev_by_type'' type_key (Bytes []) b2
               in case put_idem r b3 of Inl e \<Rightarrow> Inl e | Inr b4 \<Rightarrow> persist_seq s b4)
          | (Inl e, _) \<Rightarrow> Inl e
          | (_, Inl e) \<Rightarrow> Inl e))"

definition write_event :: "'kv rocks_env \<Rightarrow> batch \<Rightarrow> row \<Rightarrow> 'kv rocks \<Rightarrow> (row \<times> batch) result \<times> 'kv rocks" where
  "write_event en b r s =
    (case number_event r s of
       (r', s') \<Rightarrow> (case event_batch (re_rt en) s' r' b of Inl e \<Rightarrow> (Inl e, s') | Inr b' \<Rightarrow> (Inr (r', b'), s')))"

definition write_approval :: "batch \<Rightarrow> row \<Rightarrow> batch result" where
  "write_approval b r =
    (case encode (row_get r ''approval_id'') of
       Inl e \<Rightarrow> Inl e | Inr aid \<Rightarrow> Inr (batch_put ''approvals'' aid (Json (dump_row r)) b))"

definition write_obj :: "'kv rocks_env \<Rightarrow> batch \<Rightarrow> orm \<Rightarrow> 'kv rocks \<Rightarrow> batch result \<times> 'kv rocks" where
  "write_obj en b obj s =
    (case obj of
       AgentRunRow r \<Rightarrow> write_run en b r s
     | AuditEventRow r \<Rightarrow> (case write_event en b r s of (Inl e, s') \<Rightarrow> (Inl e, s') | (Inr (r', b'), s') \<Rightarrow> (Inr b', s'))
     | ApprovalRow r \<Rightarrow> (write_approval b r, s))"

subsection \<open>Sessions\<close>

record session =
  se_batch :: batch
  se_pending :: "orm list"

definition new_session :: session where
  "new_session = \<lparr>se_batch = [], se_pending = []\<rparr>"

definition session_add :: "orm \<Rightarrow> session \<Rightarrow> session" where
  "session_add obj se = se\<lparr>se_pending := se_pending se @ [obj]\<rparr>"

fun write_objs :: "'kv rocks_env \<Rightarrow> orm list \<Rightarrow> batch \<Rightarrow> 'kv rocks \<Rightarrow> batch result \<times> 'kv rocks" where
  "write_objs en [] b s = (Inr b, s)"
| "write_objs en (obj # objs) b s =
    (case write_obj en b obj s of (Inl e, s') \<Rightarrow> (Inl e, s') | (Inr b', s') \<Rightarrow> write_objs en objs b' s')"

definition session_flush :: "'kv rocks_env \<Rightarrow> session \<Rightarrow> 'kv rocks \<Rightarrow> session result \<times> 'kv rocks" where
  "session_flush en se s =
    (case write_objs en (se_pending se) (se_batch se) s of
       (Inl e, s') \<Rightarrow> (Inl e, s')
     | (Inr b, s') \<Rightarrow> (Inr \<lparr>se_batch = b, se_pending = []\<rparr>, s'))"

definition session_commit :: "'kv rocks_env \<Rightarrow> session \<Rightarrow> 'kv rocks \<Rightarrow> unit result \<times> 'kv rocks" where
  "session_commit en se s =
    (case session_flush en se s of
       (Inl e, s') \<Rightarrow> (Inl e, s')
     | (Inr se', s') \<Rightarrow> (Inr (), rocks_write en (se_batch se') s'))"

definition session_rollback :: "session \<Rightarrow> session" where
  "session_rollback se = new_session"

text \<open>
  \<open>with db.session() as session\<close>: the body works on the session, and its end commits. A batch that is
  rolled back was never written; the numbers its events took stay taken.
\<close>

definition rocks_session :: "'kv rocks_env \<Rightarrow> (session \<times> 'kv rocks \<Rightarrow> 'a result \<times> session \<times> 'kv rocks) \<Rightarrow> 'kv rocks \<Rightarrow> 'a result \<times> 'kv rocks" where
  "rocks_session en body s =
    (case body (new_session, s) of
       (Inl e, se, s') \<Rightarrow> (Inl e, s')
     | (Inr x, se, s') \<Rightarrow> (case session_commit en se s' of (Inl e, s'') \<Rightarrow> (Inl e, s'') | (Inr u, s'') \<Rightarrow> (Inr x, s'')))"

text \<open>A body that only adds rows.\<close>

definition add_all :: "orm list \<Rightarrow> session \<times> 'kv rocks \<Rightarrow> unit result \<times> session \<times> 'kv rocks" where
  "add_all objs = (\<lambda>(se, s). (Inr (), fold session_add objs se, s))"

end
