(* ===== verification/Rocks_Query.thy ===== *)
theory Rocks_Query
  imports Rocks_Backend
begin

section \<open>Queries of the RocksDB backend\<close>

text \<open>
  \<open>_execute_query\<close> and what it calls: the filters of a statement become a dictionary, the events are
  scanned along one of the two indexes, the other tables along their keys, and the rows are sorted and
  cut at the end. The filters are \<open>as_dict\<close> of the conditions; the limit is the statement's.
\<close>

datatype model = MAgentRun | MAuditEvent | MApproval | MEvidenceExport | MApiKey | MOther

text \<open>What a lookup or a query gives: a row object, or a dictionary where the code returns one.\<close>

datatype found = FRow orm | FDict pydict

fun found_attr :: "found \<Rightarrow> string \<Rightarrow> attr" where
  "found_attr (FRow (AgentRunRow r)) k = row_get r k"
| "found_attr (FRow (AuditEventRow r)) k = row_get r k"
| "found_attr (FRow (ApprovalRow r)) k = row_get r k"
| "found_attr (FDict d) k = Val (JInt 0)"

text \<open>\<open>json.loads(v)\<close>\<close>

definition loads :: "cell \<Rightarrow> pydict result" where
  "loads c = (case c of Json d \<Rightarrow> Inr d | Bytes b \<Rightarrow> Inl (ValueError ''Expecting value''))"

definition load_event :: "cell \<Rightarrow> row result" where
  "load_event c = (case loads c of Inl e \<Rightarrow> Inl e | Inr d \<Rightarrow> Inr (load_row event_defaults d))"

definition load_approval :: "cell \<Rightarrow> row result" where
  "load_approval c = (case loads c of Inl e \<Rightarrow> Inl e | Inr d \<Rightarrow> Inr (load_row approval_defaults d))"

definition load_agent_run :: "runtime \<Rightarrow> cell \<Rightarrow> row result" where
  "load_agent_run rt c = (case loads c of Inl e \<Rightarrow> Inl e | Inr d \<Rightarrow> load_run rt d)"

subsection \<open>By primary key\<close>

definition fetch_by_pk :: "'kv rocks_env \<Rightarrow> string \<Rightarrow> (cell \<Rightarrow> found result) \<Rightarrow> string \<Rightarrow> 'kv rocks \<Rightarrow> found option result" where
  "fetch_by_pk en cf load pk s =
    (let v = get_raw en s cf pk in
     if \<not> present v then Inr None else (case load (the v) of Inl e \<Rightarrow> Inl e | Inr x \<Rightarrow> Inr (Some x)))"

definition get_by_pk :: "'kv rocks_env \<Rightarrow> model \<Rightarrow> string \<Rightarrow> 'kv rocks \<Rightarrow> found option result" where
  "get_by_pk en m pk s =
    (case m of
       MAgentRun \<Rightarrow> fetch_by_pk en ''runs'' (\<lambda>c. map_sum id (FRow \<circ> AgentRunRow) (load_agent_run (re_rt en) c)) pk s
     | MApproval \<Rightarrow> fetch_by_pk en ''approvals'' (\<lambda>c. map_sum id (FRow \<circ> ApprovalRow) (load_approval c)) pk s
     | MApiKey \<Rightarrow> fetch_by_pk en ''api_keys'' (\<lambda>c. map_sum id FDict (loads c)) pk s
     | _ \<Rightarrow> Inr None)"

subsection \<open>Events\<close>

text \<open>\<open>event_types and ev.event_type not in event_types\<close>: whether a row is passed over.\<close>

definition type_excluded :: "json \<Rightarrow> row \<Rightarrow> bool result" where
  "type_excluded types r =
    (if \<not> truthy types then Inr False
     else (case row_get r ''event_type'' of
         Val v \<Rightarrow> (case py_in v types of Inl e \<Rightarrow> Inl e | Inr b \<Rightarrow> Inr (\<not> b))
       | Date d \<Rightarrow> Inr True))"

text \<open>Looking up the event behind an index entry; \<open>None\<close> where the loop goes on to the next entry.\<close>

definition fetch_event :: "'kv rocks_env \<Rightarrow> 'kv rocks \<Rightarrow> json \<Rightarrow> int \<Rightarrow> row option result" where
  "fetch_event en s types n =
    (case seq_key n of
       Inl e \<Rightarrow> Inl e
     | Inr k \<Rightarrow>
         (let v = get_raw en s ''events'' k in
          if \<not> present v then Inr None
          else (case load_event (the v) of
              Inl e \<Rightarrow> Inl e
            | Inr ev \<Rightarrow> (case type_excluded types ev of Inl e \<Rightarrow> Inl e | Inr b \<Rightarrow> Inr (if b then None else Some ev)))))"

definition is_prefix :: "string \<Rightarrow> string \<Rightarrow> bool" where
  "is_prefix p k = (take (length p) k = p)"

text \<open>
  The two loops. \<open>left\<close> is the number of rows still wanted, which the code checks after a row was added:
  a limit below one lets one row through.
\<close>

fun scan_run :: "'kv rocks_env \<Rightarrow> 'kv rocks \<Rightarrow> json \<Rightarrow> string \<Rightarrow> nat \<Rightarrow> (string \<times> cell) list \<Rightarrow> row list result" where
  "scan_run en s types pre left [] = Inr []"
| "scan_run en s types pre left ((k, c) # items) =
    (if \<not> is_prefix pre k then Inr []
     else (case key_seq (take 8 (drop (length pre) k)) of
         Inl e \<Rightarrow> Inl e
       | Inr n \<Rightarrow>
           (case fetch_event en s types n of
              Inl e \<Rightarrow> Inl e
            | Inr None \<Rightarrow> scan_run en s types pre left items
            | Inr (Some ev) \<Rightarrow>
                (if left \<le> 1 then Inr [ev]
                 else (case scan_run en s types pre (left - 1) items of Inl e \<Rightarrow> Inl e | Inr rows \<Rightarrow> Inr (ev # rows))))))"

definition count_char :: "char \<Rightarrow> string \<Rightarrow> nat" where
  "count_char c s = length (filter (\<lambda>x. x = c) s)"

fun scan_org :: "'kv rocks_env \<Rightarrow> 'kv rocks \<Rightarrow> json \<Rightarrow> string \<Rightarrow> int \<Rightarrow> nat \<Rightarrow> (string \<times> cell) list \<Rightarrow> row list result" where
  "scan_org en s types pre cursor left [] = Inr []"
| "scan_org en s types pre cursor left ((k, c) # items) =
    (if \<not> is_prefix pre k then Inr []
     else if count_char (CHR '':'') k < 3 then scan_org en s types pre cursor left items
     else (case key_seq (drop (length k - 8) k) of
         Inl e \<Rightarrow> Inl e
       | Inr n \<Rightarrow>
           if cursor \<noteq> 0 \<and> n \<le> cursor then scan_org en s types pre cursor left items
           else (case fetch_event en s types n of
              Inl e \<Rightarrow> Inl e
            | Inr None \<Rightarrow> scan_org en s types pre cursor left items
            | Inr (Some ev) \<Rightarrow>
                (if left \<le> 1 then Inr [ev]
                 else (case scan_org en s types pre cursor (left - 1) items of Inl e \<Rightarrow> Inl e | Inr rows \<Rightarrow> Inr (ev # rows))))))"

text \<open>The filters \<open>_query_events\<close> reads, as the services build them: absent ones are \<open>None\<close>.\<close>

record event_filter =
  ef_run :: "string option"
  ef_org :: string
  ef_project :: string
  ef_types :: json
  ef_cursor :: int

definition query_events :: "'kv rocks_env \<Rightarrow> event_filter \<Rightarrow> nat \<Rightarrow> 'kv rocks \<Rightarrow> row list result" where
  "query_events en f limit s =
    (if str_truthy (ef_run f)
     then (let pre = the (ef_run f) @ '':''; it = iteritems (re_lib en) (rk_db s) ''ev_by_run'' in
        if ef_cursor f \<noteq> 0
        then (case seq_key (ef_cursor f + 1) of
                Inl e \<Rightarrow> Inl e
              | Inr k \<Rightarrow> scan_run en s (ef_types f) pre limit (it_rest (it_seek (pre @ k) it)))
        else scan_run en s (ef_types f) pre limit (it_rest (it_seek pre it)))
     else (let pre = ef_org f @ '':'' @ ef_project f @ '':'' in
        scan_org en s (ef_types f) pre (ef_cursor f) limit
          (it_rest (it_seek pre (iteritems (re_lib en) (rk_db s) ''ev_by_type'')))))"

subsection \<open>Runs, approvals, exports\<close>

fun collect_runs :: "'kv rocks_env \<Rightarrow> 'kv rocks \<Rightarrow> json \<Rightarrow> json \<Rightarrow> nat \<Rightarrow> cell list \<Rightarrow> row list result" where
  "collect_runs en s org project left [] = Inr []"
| "collect_runs en s org project left (c # cs) =
    (if left = 0 then Inr []
     else (case c of
         Json d \<Rightarrow> Inl (TypeError ''a bytes-like object is required'')
       | Bytes rid \<Rightarrow>
           (let v = get_raw en s ''runs'' rid in
            if \<not> present v then collect_runs en s org project left cs
            else (case load_agent_run (re_rt en) (the v) of
                Inl e \<Rightarrow> Inl e
              | Inr r \<Rightarrow>
                  if row_get r ''org_id'' = Val org \<and> row_get r ''project_id'' = Val project
                  then (case collect_runs en s org project (left - 1) cs of Inl e \<Rightarrow> Inl e | Inr rs \<Rightarrow> Inr (r # rs))
                  else collect_runs en s org project left cs))))"

definition query_runs :: "'kv rocks_env \<Rightarrow> json \<Rightarrow> json \<Rightarrow> nat \<Rightarrow> 'kv rocks \<Rightarrow> row list result" where
  "query_runs en org project limit s =
     collect_runs en s org project limit (it_values (seek_to_last (iteritems (re_lib en) (rk_db s) ''runs_by_org'')))"

text \<open>A filter that is absent or empty selects everything.\<close>

definition filter_ok :: "string option \<Rightarrow> row \<Rightarrow> string \<Rightarrow> bool" where
  "filter_ok wanted r k = (\<not> str_truthy wanted \<or> row_get r k = Val (JStr (the wanted)))"

fun collect_approvals :: "string option \<Rightarrow> string option \<Rightarrow> string option \<Rightarrow> nat \<Rightarrow> cell list \<Rightarrow> row list result" where
  "collect_approvals org project status left [] = Inr []"
| "collect_approvals org project status left (c # cs) =
    (if left = 0 then Inr []
     else (case load_approval c of
         Inl e \<Rightarrow> Inl e
       | Inr r \<Rightarrow>
           if filter_ok org r ''org_id'' \<and> filter_ok project r ''project_id'' \<and> filter_ok status r ''status''
           then (case collect_approvals org project status (left - 1) cs of Inl e \<Rightarrow> Inl e | Inr rs \<Rightarrow> Inr (r # rs))
           else collect_approvals org project status left cs))"

definition query_approvals :: "'kv rocks_env \<Rightarrow> string option \<Rightarrow> string option \<Rightarrow> string option \<Rightarrow> nat \<Rightarrow> 'kv rocks \<Rightarrow> row list result" where
  "query_approvals en org project status limit s =
     collect_approvals org project status limit (it_values (seek_to_first (iteritems (re_lib en) (rk_db s) ''approvals'')))"

fun collect_exports :: "json \<Rightarrow> json \<Rightarrow> nat \<Rightarrow> cell list \<Rightarrow> pydict list result" where
  "collect_exports org project left [] = Inr []"
| "collect_exports org project left (c # cs) =
    (if left = 0 then Inr []
     else (case loads c of
         Inl e \<Rightarrow> Inl e
       | Inr d \<Rightarrow>
           if dict_get d ''org_id'' = org \<and> dict_get d ''project_id'' = project
           then (case collect_exports org project (left - 1) cs of Inl e \<Rightarrow> Inl e | Inr ds \<Rightarrow> Inr (d # ds))
           else collect_exports org project left cs))"

definition query_exports :: "'kv rocks_env \<Rightarrow> json \<Rightarrow> json \<Rightarrow> nat \<Rightarrow> 'kv rocks \<Rightarrow> pydict list result" where
  "query_exports en org project limit s =
     collect_exports org project limit (it_values (seek_to_first (iteritems (re_lib en) (rk_db s) ''exports'')))"

subsection \<open>Sorting and cutting\<close>

text \<open>
  \<open>result.sort(key=..., reverse=...)\<close>: the keys are attributes, 0 where they are false. Numbers sort as
  numbers and texts as texts; a mixture of the two cannot be compared.
\<close>

definition sort_attr :: "string \<Rightarrow> found \<Rightarrow> attr" where
  "sort_attr k x = (let a = found_attr x k in if attr_truthy a then a else Val (JInt 0))"

definition int_of_attr :: "attr \<Rightarrow> int option" where
  "int_of_attr a = (case a of Val (JInt n) \<Rightarrow> Some n | _ \<Rightarrow> None)"

definition str_of_attr :: "attr \<Rightarrow> string option" where
  "str_of_attr a = (case a of Val (JStr s) \<Rightarrow> Some s | _ \<Rightarrow> None)"

text \<open>Python sorts descending without reordering equal elements.\<close>

definition sort_dir :: "bool \<Rightarrow> ('a \<Rightarrow> 'b :: linorder) \<Rightarrow> 'a list \<Rightarrow> 'a list" where
  "sort_dir asc f xs = (if asc then sort_key f xs else rev (sort_key f (rev xs)))"

definition sort_found :: "string \<Rightarrow> bool \<Rightarrow> found list \<Rightarrow> found list result" where
  "sort_found k asc xs =
    (if list_all (\<lambda>x. int_of_attr (sort_attr k x) \<noteq> None) xs then Inr (sort_dir asc (\<lambda>x. the (int_of_attr (sort_attr k x))) xs)
     else if list_all (\<lambda>x. str_of_attr (sort_attr k x) \<noteq> None) xs then Inr (sort_dir asc (\<lambda>x. the (str_of_attr (sort_attr k x))) xs)
     else if length xs \<le> 1 then Inr xs
     else Inl (TypeError ''not supported between instances''))"

fun sort_all :: "(string \<times> bool) list \<Rightarrow> found list \<Rightarrow> found list result" where
  "sort_all [] xs = Inr xs"
| "sort_all ((k, asc) # os) xs = (case sort_found k asc xs of Inl e \<Rightarrow> Inl e | Inr ys \<Rightarrow> sort_all os ys)"

record stmt =
  sm_model :: model
  sm_filters :: "(string \<times> json) list"
  sm_order :: "(string \<times> bool) list"
  sm_limit :: "nat option"

definition select :: "model \<Rightarrow> stmt" where
  "select m = \<lparr>sm_model = m, sm_filters = [], sm_order = [], sm_limit = None\<rparr>"

definition stmt_where :: "string \<Rightarrow> json \<Rightarrow> stmt \<Rightarrow> stmt" where
  "stmt_where k v st = st\<lparr>sm_filters := sm_filters st @ [(k, v)]\<rparr>"

definition stmt_order_by :: "string \<Rightarrow> bool \<Rightarrow> stmt \<Rightarrow> stmt" where
  "stmt_order_by k asc st = st\<lparr>sm_order := sm_order st @ [(k, asc)]\<rparr>"

definition stmt_limit :: "nat \<Rightarrow> stmt \<Rightarrow> stmt" where
  "stmt_limit n st = st\<lparr>sm_limit := Some n\<rparr>"

text \<open>\<open>fmap.update\<close> over the conditions: the last one on a key counts.\<close>

definition fmap_of :: "(string \<times> json) list \<Rightarrow> pydict" where
  "fmap_of fs = fold (\<lambda>(k, v) d. dict_set d k v) fs []"

definition opt_str :: "json \<Rightarrow> string option" where
  "opt_str v = (case v of JStr s \<Rightarrow> Some s | _ \<Rightarrow> None)"

definition event_filter_of :: "runtime \<Rightarrow> pydict \<Rightarrow> event_filter" where
  "event_filter_of rt d = \<lparr>ef_run = opt_str (dict_get d ''run_id''), ef_org = attr_str rt (Val (dict_get d ''org_id'')),
     ef_project = attr_str rt (Val (dict_get d ''project_id'')), ef_types = dict_get d ''event_type_in'',
     ef_cursor = (case dict_get d ''sequence_gt'' of JInt n \<Rightarrow> n | _ \<Rightarrow> 0)\<rparr>"

definition limit_or :: "nat option \<Rightarrow> nat \<Rightarrow> nat" where
  "limit_or l d = (case l of None \<Rightarrow> d | Some n \<Rightarrow> if n = 0 then d else n)"

definition cut :: "nat option \<Rightarrow> 'a list \<Rightarrow> 'a list" where
  "cut l xs = (case l of None \<Rightarrow> xs | Some n \<Rightarrow> if n = 0 then xs else take n xs)"

definition run_query :: "'kv rocks_env \<Rightarrow> stmt \<Rightarrow> 'kv rocks \<Rightarrow> found list result" where
  "run_query en st s =
    (let d = fmap_of (sm_filters st); rt = re_rt en; l = limit_or (sm_limit st) in
     case sm_model st of
       MAuditEvent \<Rightarrow> map_sum id (map (FRow \<circ> AuditEventRow)) (query_events en (event_filter_of rt d) (l 1000) s)
     | MAgentRun \<Rightarrow> map_sum id (map (FRow \<circ> AgentRunRow))
         (query_runs en (dict_get d ''org_id'') (dict_get d ''project_id'') (l 50) s)
     | MApproval \<Rightarrow> map_sum id (map (FRow \<circ> ApprovalRow)) (query_approvals en (opt_str (dict_get d ''org_id''))
         (opt_str (dict_get d ''project_id'')) (opt_str (dict_get d ''status'')) (l 500) s)
     | MEvidenceExport \<Rightarrow> map_sum id (map FDict) (query_exports en (dict_get d ''org_id'') (dict_get d ''project_id'') (l 50) s)
     | _ \<Rightarrow> Inr [])"

definition execute_query :: "'kv rocks_env \<Rightarrow> stmt \<Rightarrow> 'kv rocks \<Rightarrow> found list result" where
  "execute_query en st s =
    (case run_query en st s of
       Inl e \<Rightarrow> Inl e
     | Inr xs \<Rightarrow> (case sort_all (rev (sm_order st)) xs of Inl e \<Rightarrow> Inl e | Inr ys \<Rightarrow> Inr (cut (sm_limit st) ys)))"

definition scalars_first :: "found list \<Rightarrow> found option" where
  "scalars_first rows = (case rows of [] \<Rightarrow> None | x # xs \<Rightarrow> Some x)"

subsection \<open>By idempotency key\<close>

text \<open>\<open>d.get("event_id") == event_id\<close> along the events, in the order of their keys.\<close>

fun find_event_id :: "string \<Rightarrow> cell list \<Rightarrow> row option result" where
  "find_event_id eid [] = Inr None"
| "find_event_id eid (c # cs) =
    (case loads c of
       Inl e \<Rightarrow> Inl e
     | Inr d \<Rightarrow> if dict_get d ''event_id'' = JStr eid then Inr (Some (load_row event_defaults d)) else find_event_id eid cs)"

definition get_event_by_idempotency_key :: "'kv rocks_env \<Rightarrow> string \<Rightarrow> 'kv rocks \<Rightarrow> row option result" where
  "get_event_by_idempotency_key en key s =
    (let v = get_raw en s ''idempotency'' key in
     if \<not> present v then Inr None
     else (case the v of
         Json d \<Rightarrow> Inl (AttributeError ''decode'')
       | Bytes eid \<Rightarrow> find_event_id eid (it_values (seek_to_first (iteritems (re_lib en) (rk_db s) ''events'')))))"

end
