(* ===== verification/Rocks_Laws.thy ===== *)
theory Rocks_Laws
  imports Rocks_Query
begin

section \<open>Laws of the RocksDB backend\<close>

text \<open>
  The index of the events by run mirrors the events, through every committed batch; scanning it gives
  the rows that filtering the events by run would give, in the order of their numbers.
\<close>

subsection \<open>Byte strings in order\<close>

lemma append_less_iff [simp]: "pre @ a < pre @ b \<longleftrightarrow> a < (b :: 'a :: linorder list)"
  by (induction pre) simp_all

lemma append_le: "pre \<le> pre @ (a :: 'a :: linorder list)"
  by (induction pre) simp_all

lemma between_prefix:
  assumes "(pre :: string) \<le> k" "k < pre @ x"
  shows "is_prefix pre k"
  using assms
proof (induction pre arbitrary: k)
  case Nil
  then show ?case by (simp add: is_prefix_def)
next
  case (Cons c pre)
  then obtain c' k' where k: "k = c' # k'" by (cases k) auto
  with Cons.prems have "c' = c" "pre \<le> k'" "k' < pre @ x" by auto
  with Cons.IH k show ?case by (simp add: is_prefix_def)
qed

lemma is_prefix_iff: "is_prefix pre k \<longleftrightarrow> (\<exists>x. k = pre @ x)"
  unfolding is_prefix_def by (metis append_eq_conv_conj append_take_drop_id)

lemma takeWhile_prefix:
  assumes "sorted_wrt (<) (map fst xs)" "\<forall>(k, c) \<in> set xs. pre \<le> k"
  shows "takeWhile (\<lambda>(k, c). is_prefix pre k) xs = filter (\<lambda>(k, c). is_prefix pre k) (xs :: (string \<times> cell) list)"
  using assms
proof (induction xs)
  case Nil
  then show ?case by simp
next
  case (Cons x xs)
  show ?case
  proof (cases "is_prefix pre (fst x)")
    case True
    with Cons show ?thesis by (cases x) auto
  next
    case False
    have "\<not> is_prefix pre (fst y)" if "y \<in> set xs" for y
    proof
      assume "is_prefix pre (fst y)"
      then obtain z where "fst y = pre @ z" by (auto simp: is_prefix_iff)
      moreover have "fst x < fst y" using Cons.prems(1) that by auto
      moreover have "pre \<le> fst x" using Cons.prems(2) by auto
      ultimately show False using between_prefix [of pre "fst x" z] False by simp
    qed
    then have "filter (\<lambda>(k, c). is_prefix pre k) xs = []" by (intro filter_False) auto
    with False show ?thesis by (cases x) simp
  qed
qed

subsection \<open>The index\<close>

text \<open>
  A lookup function \<open>g\<close> and the highest number \<open>m\<close> given out so far: every stored event has a number up
  to \<open>m\<close>, sits under the key of this number and is in the index of its run; every entry of the index
  stands for a stored event; and the stored counter covers all of them.
\<close>

definition event_entry :: "(string \<Rightarrow> string \<Rightarrow> cell option) \<Rightarrow> int \<Rightarrow> pydict \<Rightarrow> string \<Rightarrow> bool" where
  "event_entry g n d rid \<longleftrightarrow> g ''events'' (seq_bytes n) = Some (Json d) \<and> map_of d ''sequence'' = Some (JInt n)
     \<and> map_of d ''run_id'' = Some (JStr rid) \<and> CHR '':'' \<notin> set rid"

definition index_ok :: "(string \<Rightarrow> string \<Rightarrow> cell option) \<Rightarrow> int \<Rightarrow> bool" where
  "index_ok g m \<longleftrightarrow> 0 \<le> m \<and> m < 2 ^ 63
     \<and> (\<forall>k v. g ''events'' k = Some v \<longrightarrow> (\<exists>n d rid. 1 \<le> n \<and> n \<le> m \<and> k = seq_bytes n \<and> v = Json d \<and> event_entry g n d rid
           \<and> g ''ev_by_run'' (rid @ '':'' @ k) = Some (Bytes [])))
     \<and> (\<forall>k v. g ''ev_by_run'' k = Some v \<longrightarrow> (\<exists>n d rid. 1 \<le> n \<and> n \<le> m \<and> k = rid @ '':'' @ seq_bytes n \<and> event_entry g n d rid))
     \<and> (case g ''meta'' ''global_seq'' of
          None \<Rightarrow> (\<forall>k. g ''events'' k = None)
        | Some v \<Rightarrow> (\<exists>c. 0 \<le> c \<and> c \<le> m \<and> v = Bytes (seq_bytes c)
              \<and> (\<forall>n. 1 \<le> n \<and> n \<le> m \<and> g ''events'' (seq_bytes n) \<noteq> None \<longrightarrow> n \<le> c)))"

lemma index_ok_empty: "index_ok (\<lambda>cf k. None) 0"
  by (simp add: index_ok_def)

text \<open>Raising the counter alone, as a session that is rolled back does.\<close>

lemma index_ok_skip:
  assumes "index_ok g m" "m \<le> m'" "m' < 2 ^ 63"
  shows "index_ok g m'"
proof -
  have e: "\<exists>n d rid. 1 \<le> n \<and> n \<le> m' \<and> k = seq_bytes n \<and> v = Json d \<and> event_entry g n d rid
      \<and> g ''ev_by_run'' (rid @ '':'' @ k) = Some (Bytes [])" if "g ''events'' k = Some v" for k v
    using assms that unfolding index_ok_def by (meson order_trans)
  have r: "\<exists>n d rid. 1 \<le> n \<and> n \<le> m' \<and> k = rid @ '':'' @ seq_bytes n \<and> event_entry g n d rid"
    if "g ''ev_by_run'' k = Some v" for k v
    using assms that unfolding index_ok_def by (meson order_trans)
  have old: "n \<le> m" if "1 \<le> n" "n \<le> m'" "g ''events'' (seq_bytes n) \<noteq> None" for n
  proof -
    note n = that
    obtain v where "g ''events'' (seq_bytes n) = Some v" using n(3) by blast
    then obtain n' where "1 \<le> n'" "n' \<le> m" "seq_bytes n = seq_bytes n'"
      using assms(1) unfolding index_ok_def by blast
    then show ?thesis using seq_bytes_inj [of n n'] n(1,2) assms(2,3) by simp
  qed
  have "0 \<le> m'" using assms by (simp add: index_ok_def)
  moreover have "case g ''meta'' ''global_seq'' of
          None \<Rightarrow> (\<forall>k. g ''events'' k = None)
        | Some v \<Rightarrow> (\<exists>c. 0 \<le> c \<and> c \<le> m' \<and> v = Bytes (seq_bytes c)
              \<and> (\<forall>n. 1 \<le> n \<and> n \<le> m' \<and> g ''events'' (seq_bytes n) \<noteq> None \<longrightarrow> n \<le> c))"
  proof (cases "g ''meta'' ''global_seq''")
    case None
    then show ?thesis using assms(1) by (simp add: index_ok_def)
  next
    case (Some v)
    then obtain c where c: "0 \<le> c" "c \<le> m" "v = Bytes (seq_bytes c)"
      "\<And>n. 1 \<le> n \<Longrightarrow> n \<le> m \<Longrightarrow> g ''events'' (seq_bytes n) \<noteq> None \<Longrightarrow> n \<le> c"
      using assms(1) unfolding index_ok_def by auto
    then have "n \<le> c" if "1 \<le> n" "n \<le> m'" "g ''events'' (seq_bytes n) \<noteq> None" for n
      using old [OF that] that by blast
    with Some c assms(2) show ?thesis by auto
  qed
  ultimately show ?thesis using e r assms(3) unfolding index_ok_def by blast
qed

text \<open>Falling back to the stored counter, as opening the store again does.\<close>

lemma index_ok_lower:
  assumes "index_ok g m" "0 \<le> c" "c \<le> m" "g ''meta'' ''global_seq'' = Some (Bytes (seq_bytes c))"
    and old: "\<And>n. 1 \<le> n \<Longrightarrow> n \<le> m \<Longrightarrow> g ''events'' (seq_bytes n) \<noteq> None \<Longrightarrow> n \<le> c"
  shows "index_ok g c"
proof -
  have e: "\<exists>n d rid. 1 \<le> n \<and> n \<le> c \<and> k = seq_bytes n \<and> v = Json d \<and> event_entry g n d rid
      \<and> g ''ev_by_run'' (rid @ '':'' @ k) = Some (Bytes [])" if k: "g ''events'' k = Some v" for k v
  proof -
    obtain n d rid where n: "1 \<le> n" "n \<le> m" "k = seq_bytes n" "v = Json d" "event_entry g n d rid"
      "g ''ev_by_run'' (rid @ '':'' @ k) = Some (Bytes [])" using assms(1) k unfolding index_ok_def by blast
    then have "n \<le> c" using old k by simp
    with n show ?thesis by blast
  qed
  have r: "\<exists>n d rid. 1 \<le> n \<and> n \<le> c \<and> k = rid @ '':'' @ seq_bytes n \<and> event_entry g n d rid"
    if k: "g ''ev_by_run'' k = Some v" for k v
  proof -
    obtain n d rid where n: "1 \<le> n" "n \<le> m" "k = rid @ '':'' @ seq_bytes n" "event_entry g n d rid"
      using assms(1) k unfolding index_ok_def by blast
    then have "n \<le> c" using old by (simp add: event_entry_def)
    with n show ?thesis by blast
  qed
  have "\<exists>c'. 0 \<le> c' \<and> c' \<le> c \<and> Bytes (seq_bytes c) = Bytes (seq_bytes c')
      \<and> (\<forall>n. 1 \<le> n \<and> n \<le> c \<and> g ''events'' (seq_bytes n) \<noteq> None \<longrightarrow> n \<le> c')"
    using assms(2) by (intro exI [of _ c]) simp
  moreover have "0 \<le> c" "c < 2 ^ 63" using assms(1-3) by (simp_all add: index_ok_def)
  ultimately show ?thesis using e r unfolding index_ok_def assms(4) option.case by blast
qed

text \<open>One more event.\<close>

lemma index_ok_insert:
  assumes ok: "index_ok g m" and m: "m + 1 < 2 ^ 63"
    and d: "map_of d ''sequence'' = Some (JInt (m + 1))" "map_of d ''run_id'' = Some (JStr rid)" "CHR '':'' \<notin> set rid"
    and events: "\<And>k. g' ''events'' k = (if k = seq_bytes (m + 1) then Some (Json d) else g ''events'' k)"
    and runs: "\<And>k. g' ''ev_by_run'' k = (if k = rid @ '':'' @ seq_bytes (m + 1) then Some (Bytes []) else g ''ev_by_run'' k)"
    and meta: "g' ''meta'' ''global_seq'' = Some (Bytes (seq_bytes (m + 1)))"
  shows "index_ok g' (m + 1)"
proof -
  have pos: "0 \<le> m" using ok by (simp add: index_ok_def)
  have fresh: "seq_bytes n \<noteq> seq_bytes (m + 1)" if "1 \<le> n" "n \<le> m" for n
    using seq_bytes_inj [of n "m + 1"] that m by simp
  have keep: "event_entry g' n d' rid'" if "1 \<le> n" "n \<le> m" "event_entry g n d' rid'" for n d' rid'
    using that fresh [OF that(1,2)] by (simp add: event_entry_def events)
  have new: "event_entry g' (m + 1) d rid" using d by (simp add: event_entry_def events)
  have old: "\<exists>n d rid. 1 \<le> n \<and> n \<le> m \<and> k = seq_bytes n \<and> v = Json d \<and> event_entry g n d rid
      \<and> g ''ev_by_run'' (rid @ '':'' @ k) = Some (Bytes [])" if "g ''events'' k = Some v" for k v
    using ok that unfolding index_ok_def by blast
  have old': "\<exists>n d rid. 1 \<le> n \<and> n \<le> m \<and> k = rid @ '':'' @ seq_bytes n \<and> event_entry g n d rid"
    if "g ''ev_by_run'' k = Some v" for k v
    using ok that unfolding index_ok_def by blast
  have e: "\<exists>n d rid. 1 \<le> n \<and> n \<le> m + 1 \<and> k = seq_bytes n \<and> v = Json d \<and> event_entry g' n d rid
      \<and> g' ''ev_by_run'' (rid @ '':'' @ k) = Some (Bytes [])" if "g' ''events'' k = Some v" for k v
  proof (cases "k = seq_bytes (m + 1)")
    case True
    with that have "v = Json d" by (simp add: events)
    with True new pos show ?thesis by (intro exI [of _ "m + 1"] exI [of _ d] exI [of _ rid]) (simp add: runs)
  next
    case False
    with that have "g ''events'' k = Some v" by (simp add: events)
    from old [OF this] obtain n d' rid' where n: "1 \<le> n" "n \<le> m" "k = seq_bytes n" "v = Json d'" "event_entry g n d' rid'"
      "g ''ev_by_run'' (rid' @ '':'' @ k) = Some (Bytes [])" by blast
    with keep [OF n(1,2,5)] show ?thesis
      by (intro exI [of _ n] exI [of _ d'] exI [of _ rid']) (simp add: runs)
  qed
  have r: "\<exists>n d rid. 1 \<le> n \<and> n \<le> m + 1 \<and> k = rid @ '':'' @ seq_bytes n \<and> event_entry g' n d rid"
    if "g' ''ev_by_run'' k = Some v" for k v
  proof (cases "k = rid @ '':'' @ seq_bytes (m + 1)")
    case True
    with new pos show ?thesis by (intro exI [of _ "m + 1"] exI [of _ d] exI [of _ rid]) simp
  next
    case False
    with that have "g ''ev_by_run'' k = Some v" by (simp add: runs)
    from old' [OF this] obtain n d' rid' where n: "1 \<le> n" "n \<le> m" "k = rid' @ '':'' @ seq_bytes n" "event_entry g n d' rid'"
      by blast
    with keep [OF n(1,2,4)] show ?thesis by (intro exI [of _ n] exI [of _ d'] exI [of _ rid']) simp
  qed
  have "0 \<le> m + 1" using pos by simp
  moreover have "case g' ''meta'' ''global_seq'' of
          None \<Rightarrow> (\<forall>k. g' ''events'' k = None)
        | Some v \<Rightarrow> (\<exists>c. 0 \<le> c \<and> c \<le> m + 1 \<and> v = Bytes (seq_bytes c)
              \<and> (\<forall>n. 1 \<le> n \<and> n \<le> m + 1 \<and> g' ''events'' (seq_bytes n) \<noteq> None \<longrightarrow> n \<le> c))"
    unfolding meta option.case using pos by (intro exI [of _ "m + 1"]) simp
  ultimately show ?thesis using e r m unfolding index_ok_def by blast
qed

text \<open>What does not touch the three families keeps the index.\<close>

lemma index_ok_cong:
  assumes "g' ''events'' = g ''events''" "g' ''ev_by_run'' = g ''ev_by_run''" "g' ''meta'' = g ''meta''"
  shows "index_ok g' m = index_ok g m"
  unfolding index_ok_def event_entry_def assms ..

subsection \<open>Writing a session\<close>

text \<open>The lookup a batch would give once it is written.\<close>

definition with_batch :: "batch \<Rightarrow> (string \<Rightarrow> string \<Rightarrow> cell option) \<Rightarrow> string \<Rightarrow> string \<Rightarrow> cell option" where
  "with_batch b g cf k = after_ops b cf k (g cf k)"

lemma with_batch_put [frame_simps]:
  "with_batch (batch_put cf' k' v b) g = (\<lambda>cf k. if cf' = cf \<and> k' = k then Some v else with_batch b g cf k)"
  by (intro ext) (simp add: with_batch_def batch_put_def)

definition numbered :: "int \<Rightarrow> row \<Rightarrow> row" where
  "numbered n r = map (\<lambda>(k, a). (k, if k = ''sequence'' then Val (JInt n) else a)) r"

text \<open>The rows the services add: an event without a number, whose run has no colon in its id.\<close>

definition plain_event :: "row \<Rightarrow> bool" where
  "plain_event r \<longleftrightarrow> has_attrs event_defaults r \<and> row_get r ''sequence'' = Val (JInt 0)
     \<and> (\<exists>rid. row_get r ''run_id'' = Val (JStr rid) \<and> CHR '':'' \<notin> set rid)"

definition plain_orm :: "orm \<Rightarrow> bool" where
  "plain_orm obj = (case obj of AuditEventRow r \<Rightarrow> plain_event r | _ \<Rightarrow> True)"

lemma map_of_numbered [row_simps]: "map_of (numbered n r) k = (if k = ''sequence'' then map_option (\<lambda>a. Val (JInt n)) (map_of r k) else map_of r k)"
  unfolding numbered_def by (induction r) auto

lemma map_of_dump: "map_of (dump_row r) k = map_option (\<lambda>a. case a of Val v \<Rightarrow> v | Date d \<Rightarrow> JStr (date_str d)) (map_of r k)"
  unfolding dump_row_def by (induction r) auto

lemma has_attrs_map_of: "has_attrs defaults r \<Longrightarrow> k \<in> set (map fst defaults) \<Longrightarrow> \<exists>a. map_of r k = Some a"
  unfolding has_attrs_def by (metis map_of_eq_None_iff not_None_eq list.set_map)

lemma put_idem_other: "put_idem r b = Inr b' \<Longrightarrow> cf \<noteq> ''idempotency'' \<Longrightarrow> with_batch b' g cf k = with_batch b g cf k"
  unfolding put_idem_def by (auto simp: frame_simps split: if_splits sum.splits)

lemma plain_event_write:
  assumes "plain_event r" "write_event en b r s = (Inr (r', b'), s')" "index_ok (with_batch b g) (rk_seq s)" "rk_seq s + 1 < 2 ^ 63"
  shows "index_ok (with_batch b' g) (rk_seq s') \<and> rk_seq s' = rk_seq s + 1 \<and> rk_db s' = rk_db s
    \<and> with_batch b' g ''events'' = (with_batch b g ''events'')
        (seq_bytes (rk_seq s + 1) \<mapsto> Json (dump_row (numbered (rk_seq s + 1) r)))"
proof -
  let ?n = "rk_seq s + 1" and ?k = "seq_bytes (rk_seq s + 1)"
  obtain rid where rid: "row_get r ''run_id'' = Val (JStr rid)" "CHR '':'' \<notin> set rid" and seq: "row_get r ''sequence'' = Val (JInt 0)"
    and attrs: "has_attrs event_defaults r" using assms(1) by (auto simp: plain_event_def)
  have num: "number_event r s = (numbered ?n r, s\<lparr>rk_seq := ?n\<rparr>)"
    using seq by (simp add: number_event_def is_zero_def next_seq_def numbered_def num_eq.simps)
  obtain a where "map_of r ''sequence'' = Some a"
    using has_attrs_map_of [OF attrs, of "''sequence''"] by (auto simp: event_defaults_def)
  then have mseq: "map_of (numbered ?n r) ''sequence'' = Some (Val (JInt ?n))" by (simp add: map_of_numbered)
  have mrid: "map_of (numbered ?n r) ''run_id'' = Some (Val (JStr rid))"
    using rid(1) by (auto simp: map_of_numbered row_get_def split: option.splits)
  have pos: "0 \<le> rk_seq s" using assms(3) by (simp add: index_ok_def)
  have key: "seq_key ?n = Inr ?k" using pos assms(4) by (intro seq_key_Inr) simp_all
  have pq: "pack_q ?n = Inr ?k" using key by (simp add: seq_key_def)
  have fields: "attr_int (row_get (numbered ?n r) ''sequence'') = Inr ?n" "encode (row_get (numbered ?n r) ''run_id'') = Inr rid"
    using mseq mrid by (simp_all add: row_get_def attr_int_def encode_def)
  let ?t = "org_prefix (re_rt en) (numbered ?n r) @ attr_str (re_rt en) (row_get (numbered ?n r) ''event_type'') @ '':'' @ ?k"
  let ?b3 = "batch_put ''ev_by_type'' ?t (Bytes []) (batch_put ''ev_by_run'' (rid @ '':'' @ ?k) (Bytes [])
      (batch_put ''events'' ?k (Json (dump_row (numbered ?n r))) b))"
  have "event_batch (re_rt en) (s\<lparr>rk_seq := ?n\<rparr>) (numbered ?n r) b = Inr b' \<and> s' = s\<lparr>rk_seq := ?n\<rparr>"
    using assms(2) num by (auto simp: write_event_def split: sum.splits)
  then obtain b4 where b4: "put_idem (numbered ?n r) ?b3 = Inr b4" "b' = batch_put ''meta'' ''global_seq'' (Bytes ?k) b4"
    and s': "s' = s\<lparr>rk_seq := ?n\<rparr>"
    using key fields pq by (auto simp: event_batch_def persist_seq_def Let_def split: sum.splits)
  have idem: "with_batch b4 g cf k = with_batch ?b3 g cf k" if "cf \<noteq> ''idempotency''" for cf k
    using b4(1) that by (rule put_idem_other)
  have events: "with_batch b' g ''events'' k = (if k = ?k then Some (Json (dump_row (numbered ?n r))) else with_batch b g ''events'' k)" for k
    by (auto simp: b4(2) frame_simps idem)
  have "index_ok (with_batch b' g) ?n"
  proof (rule index_ok_insert [OF assms(3,4), where d = "dump_row (numbered ?n r)" and rid = rid])
    show "map_of (dump_row (numbered ?n r)) ''sequence'' = Some (JInt ?n)"
      "map_of (dump_row (numbered ?n r)) ''run_id'' = Some (JStr rid)"
      using mseq mrid by (simp_all add: map_of_dump)
    show "CHR '':'' \<notin> set rid" by (rule rid(2))
    show "with_batch b' g ''events'' k = (if k = ?k then Some (Json (dump_row (numbered ?n r))) else with_batch b g ''events'' k)" for k
      by (rule events)
    show "with_batch b' g ''ev_by_run'' k = (if k = rid @ '':'' @ ?k then Some (Bytes []) else with_batch b g ''ev_by_run'' k)" for k
      by (auto simp: b4(2) frame_simps idem)
    show "with_batch b' g ''meta'' ''global_seq'' = Some (Bytes ?k)" by (simp add: b4(2) frame_simps)
  qed
  then show ?thesis by (auto simp: s' events)
qed

end
