(* ===== verification/Rocks_Session.thy ===== *)
theory Rocks_Session
  imports Rocks_Laws
begin

section \<open>Laws of RocksDB sessions\<close>

text \<open>
  A session that adds rows keeps the index of the events by run, whether it commits or is rolled back,
  and a database that is opened again continues behind every number in the store.
\<close>

subsection \<open>Batches of objects\<close>

text \<open>The families the index is about.\<close>

definition INDEXED :: "string set" where
  "INDEXED = {''events'', ''ev_by_run'', ''meta''}"

lemma index_ok_same: "(\<And>cf. cf \<in> INDEXED \<Longrightarrow> g' cf = g cf) \<Longrightarrow> index_ok g' m = index_ok g m"
  by (rule index_ok_cong) (simp_all add: INDEXED_def)

lemma with_batch_other [frame_simps]: "cf' \<noteq> cf \<Longrightarrow> with_batch (batch_put cf' k v b) g cf = with_batch b g cf"
  by (intro ext) (simp add: frame_simps)

lemma started_ms_frame: "started_ms en r s = (x, s') \<Longrightarrow> rk_seq s' = rk_seq s \<and> rk_db s' = rk_db s"
  by (auto simp: started_ms_def rocks_tick_def Let_def split: if_splits attr.splits)

lemma write_run_frame: "write_run en b r s = (x, s') \<Longrightarrow> rk_seq s' = rk_seq s \<and> rk_db s' = rk_db s"
  unfolding write_run_def by (auto split: sum.splits prod.splits dest: started_ms_frame)

lemma write_run_batch:
  assumes "write_run en b r s = (Inr b', s')" "cf \<in> INDEXED"
  shows "with_batch b' g cf = with_batch b g cf"
proof -
  obtain i t rid d where "b' = batch_put ''runs_by_org'' i t (batch_put ''runs'' rid d b)"
    using assms(1) unfolding write_run_def by (auto split: sum.splits prod.splits)
  then show ?thesis using assms(2) by (auto simp: INDEXED_def frame_simps)
qed

lemma write_approval_batch:
  assumes "write_approval b r = Inr b'" "cf \<in> INDEXED"
  shows "with_batch b' g cf = with_batch b g cf"
  using assms by (auto simp: write_approval_def INDEXED_def frame_simps split: sum.splits)

lemma number_event_frame:
  "number_event r s = (r', s') \<Longrightarrow> rk_db s' = rk_db s \<and> rk_seq s \<le> rk_seq s' \<and> rk_seq s' \<le> rk_seq s + 1"
  by (auto simp: number_event_def next_seq_def split: if_splits)

lemma write_event_frame:
  assumes "write_event en b r s = (x, s')"
  shows "rk_db s' = rk_db s \<and> rk_seq s \<le> rk_seq s' \<and> rk_seq s' \<le> rk_seq s + 1"
proof -
  obtain r' s1 where n: "number_event r s = (r', s1)" by (cases "number_event r s")
  with assms have "s' = s1" unfolding write_event_def by (auto split: sum.splits)
  with number_event_frame [OF n] show ?thesis by simp
qed

lemma write_obj_frame:
  assumes "write_obj en b obj s = (x, s')"
  shows "rk_db s' = rk_db s \<and> rk_seq s \<le> rk_seq s' \<and> rk_seq s' \<le> rk_seq s + 1"
proof (cases obj)
  case (AgentRunRow r)
  with assms have "write_run en b r s = (x, s')" by (simp add: write_obj_def)
  then show ?thesis using write_run_frame by fastforce
next
  case (AuditEventRow r)
  with assms obtain y where "write_event en b r s = (y, s')" by (auto simp: write_obj_def split: prod.splits sum.splits)
  then show ?thesis by (rule write_event_frame)
next
  case (ApprovalRow r)
  with assms show ?thesis by (simp add: write_obj_def)
qed

lemma write_obj_index:
  assumes "write_obj en b obj s = (Inr b', s')" "plain_orm obj" "index_ok (with_batch b g) (rk_seq s)" "rk_seq s + 1 < 2 ^ 63"
  shows "index_ok (with_batch b' g) (rk_seq s')"
proof (cases obj)
  case (AgentRunRow r)
  with assms(1) have w: "write_run en b r s = (Inr b', s')" by (simp add: write_obj_def)
  then have "rk_seq s' = rk_seq s" using write_run_frame by blast
  moreover have "index_ok (with_batch b' g) (rk_seq s) = index_ok (with_batch b g) (rk_seq s)"
    by (rule index_ok_same) (rule write_run_batch [OF w])
  ultimately show ?thesis using assms(3) by simp
next
  case (AuditEventRow r)
  with assms(1) obtain r' where w: "write_event en b r s = (Inr (r', b'), s')"
    by (auto simp: write_obj_def split: prod.splits sum.splits)
  have "plain_event r" using assms(2) AuditEventRow by (simp add: plain_orm_def)
  from plain_event_write [OF this w assms(3,4)] show ?thesis by blast
next
  case (ApprovalRow r)
  with assms(1) have w: "write_approval b r = Inr b'" and s': "s' = s" by (simp_all add: write_obj_def)
  have "index_ok (with_batch b' g) (rk_seq s) = index_ok (with_batch b g) (rk_seq s)"
    by (rule index_ok_same) (rule write_approval_batch [OF w])
  with assms(3) s' show ?thesis by simp
qed

lemma write_objs_frame:
  "write_objs en objs b s = (x, s') \<Longrightarrow> rk_db s' = rk_db s \<and> rk_seq s \<le> rk_seq s' \<and> rk_seq s' \<le> rk_seq s + int (length objs)"
proof (induction objs arbitrary: b s)
  case Nil
  then show ?case by simp
next
  case (Cons obj objs)
  obtain y s1 where w: "write_obj en b obj s = (y, s1)" by (cases "write_obj en b obj s")
  from write_obj_frame [OF w]
  have s1: "rk_db s1 = rk_db s" "rk_seq s \<le> rk_seq s1" "rk_seq s1 \<le> rk_seq s + 1" by simp_all
  show ?case
  proof (cases y)
    case (Inl e)
    with Cons.prems w s1 show ?thesis by simp
  next
    case (Inr b1)
    with Cons.prems w have "write_objs en objs b1 s1 = (x, s')" by simp
    from Cons.IH [OF this] s1 show ?thesis by simp
  qed
qed

lemma write_objs_index:
  assumes "write_objs en objs b s = (Inr b', s')" "list_all plain_orm objs" "index_ok (with_batch b g) (rk_seq s)"
    and "rk_seq s + int (length objs) < 2 ^ 63"
  shows "index_ok (with_batch b' g) (rk_seq s')"
  using assms
proof (induction objs arbitrary: b s)
  case Nil
  then show ?case by simp
next
  case (Cons obj objs)
  obtain b1 s1 where w: "write_obj en b obj s = (Inr b1, s1)"
    using Cons.prems(1) by (auto split: prod.splits sum.splits)
  have obj: "plain_orm obj" "list_all plain_orm objs" using Cons.prems(2) by simp_all
  have "rk_seq s + 1 < 2 ^ 63" using Cons.prems(4) by simp
  with write_obj_index [OF w obj(1) Cons.prems(3)] have ok: "index_ok (with_batch b1 g) (rk_seq s1)" .
  have "rk_seq s1 \<le> rk_seq s + 1" using write_obj_frame [OF w] by simp
  then have bound: "rk_seq s1 + int (length objs) < 2 ^ 63" using Cons.prems(4) by simp
  have "write_objs en objs b1 s1 = (Inr b', s')" using Cons.prems(1) w by simp
  then show ?case by (rule Cons.IH [OF _ obj(2) ok bound])
qed

subsection \<open>Committing\<close>

lemma after_ops_filter: "cf \<in> H \<Longrightarrow> after_ops (filter (\<lambda>(cf, k, v). cf \<in> H) b) cf k old = after_ops b cf k old"
  by (induction b arbitrary: old) (auto simp: after_ops_Cons)

lemma get_raw_write:
  assumes "rd_laws (re_lib en)" "sh_handles (rk_db s) = CF_NAMES" "cf \<in> set CF_NAMES"
  shows "get_raw en (rocks_write en b s) cf k = with_batch b (get_raw en s) cf k"
  using assms unfolding get_raw_def db_get_def rocks_write_def db_write_def resolve_cf_def with_batch_def
  by (simp add: rd_get_write after_ops_filter)

lemma INDEXED_names: "cf \<in> INDEXED \<Longrightarrow> cf \<in> set CF_NAMES"
  by (auto simp: INDEXED_def CF_NAMES_def)

lemma get_raw_cong: "rk_db s' = rk_db s \<Longrightarrow> get_raw en s' = get_raw en s"
  by (intro ext) (simp add: get_raw_def)

lemma with_batch_nil [simp]: "with_batch [] g = g"
  by (intro ext) (simp add: with_batch_def)

text \<open>What every session keeps.\<close>

definition rocks_ok :: "'kv rocks_env \<Rightarrow> 'kv rocks \<Rightarrow> bool" where
  "rocks_ok en s \<longleftrightarrow> sh_handles (rk_db s) = CF_NAMES \<and> index_ok (get_raw en s) (rk_seq s)"

lemma commit_index:
  assumes "rd_laws (re_lib en)" "rocks_ok en s" "list_all plain_orm (se_pending se)" "se_batch se = []"
    and "rk_seq s + int (length (se_pending se)) < 2 ^ 63" "session_commit en se s = (x, s')"
  shows "rocks_ok en s' \<and> (\<forall>e. x = Inl e \<longrightarrow> rk_db s' = rk_db s)
    \<and> rk_seq s \<le> rk_seq s' \<and> rk_seq s' \<le> rk_seq s + int (length (se_pending se))"
proof -
  obtain y s1 where w: "write_objs en (se_pending se) [] s = (y, s1)" by (cases "write_objs en (se_pending se) [] s")
  note frame = write_objs_frame [OF w]
  have handles: "sh_handles (rk_db s) = CF_NAMES" and ok: "index_ok (get_raw en s) (rk_seq s)"
    using assms(2) by (simp_all add: rocks_ok_def)
  show ?thesis
  proof (cases y)
    case (Inl e)
    then have "x = Inl e" "s' = s1" using assms(4,6) w by (simp_all add: session_commit_def session_flush_def)
    moreover have "index_ok (get_raw en s1) (rk_seq s1)"
      unfolding get_raw_cong [OF conjunct1 [OF frame]] using frame assms(5) by (intro index_ok_skip [OF ok]) simp_all
    ultimately show ?thesis using frame handles by (simp add: rocks_ok_def)
  next
    case (Inr b)
    then have x: "x = Inr ()" "s' = rocks_write en b s1"
      using assms(4,6) w by (simp_all add: session_commit_def session_flush_def)
    have h1: "sh_handles (rk_db s1) = CF_NAMES" using frame handles by simp
    have "index_ok (with_batch b (get_raw en s)) (rk_seq s1)"
      by (rule write_objs_index [OF w [unfolded Inr] assms(3) _ assms(5)]) (simp add: ok)
    moreover have "index_ok (get_raw en s') (rk_seq s1) = index_ok (with_batch b (get_raw en s)) (rk_seq s1)"
    proof (rule index_ok_same, rule ext)
      fix cf k
      assume "cf \<in> INDEXED"
      from get_raw_write [OF assms(1) h1 INDEXED_names [OF this], of b k]
      show "get_raw en s' cf k = with_batch b (get_raw en s) cf k"
        unfolding x(2) get_raw_cong [OF conjunct1 [OF frame]] .
    qed
    ultimately have "index_ok (get_raw en s') (rk_seq s1)" by simp
    moreover have "rk_seq s' = rk_seq s1" "sh_handles (rk_db s') = CF_NAMES"
      using h1 by (simp_all add: x rocks_write_def db_write_def)
    ultimately show ?thesis using frame x(1) by (simp add: rocks_ok_def)
  qed
qed

lemma fold_session_add:
  "se_pending (fold session_add objs se) = se_pending se @ objs \<and> se_batch (fold session_add objs se) = se_batch se"
  by (induction objs arbitrary: se) (simp_all add: session_add_def)

lemma session_index:
  assumes "rd_laws (re_lib en)" "rocks_ok en s" "list_all plain_orm objs" "rk_seq s + int (length objs) < 2 ^ 63"
    and "rocks_session en (add_all objs) s = (x, s')"
  shows "rocks_ok en s' \<and> (\<forall>e. x = Inl e \<longrightarrow> rk_db s' = rk_db s)
    \<and> rk_seq s \<le> rk_seq s' \<and> rk_seq s' \<le> rk_seq s + int (length objs)"
proof -
  let ?se = "fold session_add objs new_session"
  have se: "se_pending ?se = objs" "se_batch ?se = []" using fold_session_add [of objs new_session] by (simp_all add: new_session_def)
  obtain y where c: "session_commit en ?se s = (y, s')" and x: "(\<exists>e. x = Inl e) \<longrightarrow> (\<exists>e. y = Inl e)"
    using assms(5) by (auto simp: rocks_session_def add_all_def split: prod.splits sum.splits)
  from commit_index [OF assms(1,2) _ se(2) _ c] assms(3,4) se(1)
  have *: "rocks_ok en s'" "\<And>e. y = Inl e \<Longrightarrow> rk_db s' = rk_db s" "rk_seq s \<le> rk_seq s'" "rk_seq s' \<le> rk_seq s + int (length objs)"
    by simp_all
  have "rk_db s' = rk_db s" if "x = Inl e" for e using x *(2) that by blast
  with * show ?thesis by blast
qed

subsection \<open>Opening again\<close>

lemma reopen_ok:
  assumes "rocks_ok en s"
  shows "\<exists>s'. rocks_open en (sh_kv (rk_db s)) = Inr s' \<and> rocks_ok en s' \<and> rk_db s' = rk_db s \<and> rk_seq s' \<le> rk_seq s"
proof -
  have ok: "index_ok (get_raw en s) (rk_seq s)" and h: "sh_handles (rk_db s) = CF_NAMES" using assms by (simp_all add: rocks_ok_def)
  let ?s0 = "\<lparr>rk_db = shim_open (sh_kv (rk_db s)) CF_NAMES, rk_seq = 0, rk_tick = 0\<rparr>"
  have db: "shim_open (sh_kv (rk_db s)) CF_NAMES = rk_db s" using h by (simp add: shim_open_def)
  have g: "get_raw en (?s0\<lparr>rk_seq := c\<rparr>) = get_raw en s" for c by (rule get_raw_cong) (simp add: db)
  show ?thesis
  proof (cases "get_raw en s ''meta'' ''global_seq''")
    case None
    have "rocks_open en (sh_kv (rk_db s)) = Inr (?s0\<lparr>rk_seq := 0\<rparr>)"
      using None g [of 0] by (simp add: rocks_open_def Let_def present_def)
    moreover have "index_ok (get_raw en s) 0"
      using ok None unfolding index_ok_def event_entry_def by auto
    ultimately show ?thesis using h g [of 0] ok by (intro exI [of _ "?s0\<lparr>rk_seq := 0\<rparr>"]) (simp add: rocks_ok_def db index_ok_def)
  next
    case (Some v)
    then obtain c where c: "0 \<le> c" "c \<le> rk_seq s" "v = Bytes (seq_bytes c)"
      and old: "\<forall>n. 1 \<le> n \<and> n \<le> rk_seq s \<and> get_raw en s ''events'' (seq_bytes n) \<noteq> None \<longrightarrow> n \<le> c"
      using ok unfolding index_ok_def by auto
    have m: "rk_seq s < 2 ^ 63" using ok by (simp add: index_ok_def)
    have "key_seq (seq_bytes c) = Inr c" using c m by (intro key_seq_bytes) simp_all
    moreover have "seq_bytes c \<noteq> []" using length_seq_bytes [of c] by fastforce
    ultimately have "rocks_open en (sh_kv (rk_db s)) = Inr (?s0\<lparr>rk_seq := c\<rparr>)"
      using Some c(3) g [of 0] by (simp add: rocks_open_def Let_def present_def)
    moreover have "index_ok (get_raw en s) c"
      by (rule index_ok_lower [OF ok c(1,2)]) (use Some c(3) old in auto)
    ultimately show ?thesis using h g [of c] c(2) by (intro exI [of _ "?s0\<lparr>rk_seq := c\<rparr>"]) (simp add: rocks_ok_def db)
  qed
qed

subsection \<open>Finding an event by its idempotency key\<close>

text \<open>An event that names its key, its id and its hash.\<close>

definition keyed_event :: "row \<Rightarrow> string \<Rightarrow> string \<Rightarrow> bool" where
  "keyed_event r key eid \<longleftrightarrow> plain_event r \<and> row_get r ''idempotency_key'' = Val (JStr key) \<and> key \<noteq> []
     \<and> row_get r ''event_id'' = Val (JStr eid) \<and> eid \<noteq> [] \<and> (\<exists>h. row_get r ''event_hash'' = Val (JStr h))"

lemma row_get_numbered [row_simps]: "k \<noteq> ''sequence'' \<Longrightarrow> row_get (numbered n r) k = row_get r k"
  by (simp add: row_get_def map_of_numbered)

lemma number_plain:
  assumes "plain_event r"
  shows "number_event r s = (numbered (rk_seq s + 1) r, s\<lparr>rk_seq := rk_seq s + 1\<rparr>)"
    and "row_get (numbered n r) ''sequence'' = Val (JInt n)"
    and "has_attrs event_defaults (numbered n r)"
proof -
  have seq: "row_get r ''sequence'' = Val (JInt 0)" and attrs: "has_attrs event_defaults r"
    using assms by (simp_all add: plain_event_def)
  show "number_event r s = (numbered (rk_seq s + 1) r, s\<lparr>rk_seq := rk_seq s + 1\<rparr>)"
    using seq by (simp add: number_event_def is_zero_def next_seq_def numbered_def num_eq.simps)
  obtain a where "map_of r ''sequence'' = Some a"
    using has_attrs_map_of [OF attrs, of "''sequence''"] by (auto simp: event_defaults_def)
  then show "row_get (numbered n r) ''sequence'' = Val (JInt n)" by (simp add: row_get_def map_of_numbered)
  show "has_attrs event_defaults (numbered n r)"
    using attrs by (simp add: has_attrs_def numbered_def comp_def case_prod_beta')
qed

text \<open>The operations of such an event.\<close>

definition keyed_ops :: "runtime \<Rightarrow> int \<Rightarrow> row \<Rightarrow> string \<Rightarrow> string \<Rightarrow> string \<Rightarrow> string \<Rightarrow> batch \<Rightarrow> batch" where
  "keyed_ops rt n r rid key eid h b =
     batch_put ''meta'' ''global_seq'' (Bytes (seq_bytes n)) (batch_put ''idempotency'' (key @ '':hash'') (Bytes h)
       (batch_put ''idempotency'' key (Bytes eid)
         (batch_put ''ev_by_type'' (org_prefix rt r @ attr_str rt (row_get r ''event_type'') @ '':'' @ seq_bytes n) (Bytes [])
           (batch_put ''ev_by_run'' (rid @ '':'' @ seq_bytes n) (Bytes [])
             (batch_put ''events'' (seq_bytes n) (Json (dump_row (numbered n r))) b)))))"

lemma write_event_ops:
  assumes "plain_event r" "row_get r ''idempotency_key'' = Val (JStr key)" "key \<noteq> []" "row_get r ''event_id'' = Val (JStr eid)"
    and "row_get r ''event_hash'' = Val (JStr h)" "row_get r ''run_id'' = Val (JStr rid)" "0 \<le> rk_seq s" "rk_seq s + 1 < 2 ^ 63"
  defines "n \<equiv> rk_seq s + 1"
  shows "write_event en b r s = (Inr (numbered n r, keyed_ops (re_rt en) n r rid key eid h b), s\<lparr>rk_seq := n\<rparr>)"
proof -
  have key: "seq_key n = Inr (seq_bytes n)" using assms(7,8) unfolding n_def by (intro seq_key_Inr) simp_all
  then have pq: "pack_q n = Inr (seq_bytes n)" by (simp add: seq_key_def)
  note attrs = row_get_numbered [of _ n r] number_plain(2) [OF assms(1)]
  have put: "put_idem (numbered n r) b3 = Inr (batch_put ''idempotency'' (key @ '':hash'') (Bytes h) (batch_put ''idempotency'' key (Bytes eid) b3))" for b3
    using assms(2-5) by (simp add: put_idem_def attrs attr_truthy_def encode_def)
  have fields: "attr_int (Val (JInt n)) = Inr n" "encode (row_get r ''run_id'') = Inr rid"
    using assms(6) by (simp_all add: attr_int_def encode_def)
  show ?thesis
    unfolding write_event_def number_plain(1) [OF assms(1)] n_def [symmetric]
    by (simp add: event_batch_def fields key put persist_seq_def pq Let_def keyed_ops_def org_prefix_def attrs)
qed

lemma write_keyed_event:
  assumes "keyed_event r key eid" "0 \<le> rk_seq s" "rk_seq s + 1 < 2 ^ 63"
  defines "n \<equiv> rk_seq s + 1"
  shows "\<exists>b'. write_event en b r s = (Inr (numbered n r, b'), s\<lparr>rk_seq := n\<rparr>)
    \<and> (\<forall>k. with_batch b' g ''events'' k = (if k = seq_bytes n then Some (Json (dump_row (numbered n r))) else with_batch b g ''events'' k))
    \<and> with_batch b' g ''idempotency'' key = Some (Bytes eid)"
proof -
  have plain: "plain_event r" and idem: "row_get r ''idempotency_key'' = Val (JStr key)" "key \<noteq> []"
    "row_get r ''event_id'' = Val (JStr eid)" using assms(1) by (simp_all add: keyed_event_def)
  obtain h where h: "row_get r ''event_hash'' = Val (JStr h)" using assms(1) by (auto simp: keyed_event_def)
  obtain rid where rid: "row_get r ''run_id'' = Val (JStr rid)" using plain by (auto simp: plain_event_def)
  from write_event_ops [OF plain idem h rid assms(2,3), of en b] show ?thesis
    unfolding n_def [symmetric] by (simp add: keyed_ops_def frame_simps)
qed

lemma find_event_unique:
  assumes "\<forall>c \<in> set cs. \<exists>d. c = Json d" "Json d \<in> set cs" "dict_get d ''event_id'' = JStr eid"
    and "\<And>d'. Json d' \<in> set cs \<Longrightarrow> dict_get d' ''event_id'' = JStr eid \<Longrightarrow> d' = d"
  shows "find_event_id eid cs = Inr (Some (load_row event_defaults d))"
  using assms
proof (induction cs)
  case Nil
  then show ?case by simp
next
  case (Cons c cs)
  obtain d1 where c: "c = Json d1" using Cons.prems(1) by auto
  show ?case
  proof (cases "dict_get d1 ''event_id'' = JStr eid")
    case True
    with Cons.prems(4) [of d1] c have "d1 = d" by simp
    with True c show ?thesis by (simp add: loads_def)
  next
    case False
    then have "d1 \<noteq> d" using Cons.prems(3) by blast
    then have "Json d \<in> set cs" using Cons.prems(2) c by simp
    moreover have "\<forall>c \<in> set cs. \<exists>d. c = Json d" using Cons.prems(1) by simp
    moreover have "d' = d" if "Json d' \<in> set cs" "dict_get d' ''event_id'' = JStr eid" for d'
      using Cons.prems(4) that by simp
    ultimately have "find_event_id eid cs = Inr (Some (load_row event_defaults d))"
      using Cons.IH Cons.prems(3) by blast
    with False c show ?thesis by (simp add: loads_def)
  qed
qed

lemma stored_json:
  assumes "rocks_ok en s" "get_raw en s ''events'' k = Some v"
  shows "\<exists>d. v = Json d"
  using assms unfolding rocks_ok_def index_ok_def by blast

end
