(* ===== verification/Rocks_Scan.thy ===== *)
theory Rocks_Scan
  imports Rocks_Session
begin

section \<open>Scanning the events of a run\<close>

text \<open>
  The scan along the index of a run against a filter over all events: the numbers behind the index
  entries and the numbers of the matching events are two ascending lists of the same set.
\<close>

subsection \<open>Numbers behind keys\<close>

definition key_number :: "string \<Rightarrow> int" where
  "key_number k = (case key_seq k of Inr n \<Rightarrow> n | Inl e \<Rightarrow> 0)"

lemma key_number_bytes [simp]: "0 \<le> n \<Longrightarrow> n < 2 ^ 63 \<Longrightarrow> key_number (seq_bytes n) = n"
  by (simp add: key_number_def key_seq_bytes)

lemma map_key_numbers:
  assumes "\<And>k. k \<in> set ks \<Longrightarrow> \<exists>n. 0 \<le> n \<and> n < 2 ^ 63 \<and> k = pre @ seq_bytes n"
  shows "ks = map (\<lambda>n. pre @ seq_bytes n) (map (\<lambda>k. key_number (drop (length pre) k)) ks)"
proof -
  have "pre @ seq_bytes (key_number (drop (length pre) k)) = k" if "k \<in> set ks" for k
    using assms [OF that] by auto
  then show ?thesis by (simp add: map_idI comp_def)
qed

lemma sorted_numbers:
  assumes "sorted_wrt (<) (map (\<lambda>n. (pre :: string) @ seq_bytes n) ns)" "\<forall>n \<in> set ns. 0 \<le> n \<and> n < 2 ^ 63"
  shows "sorted_wrt (<) ns"
  using assms by (induction ns) (auto simp: seq_bytes_less)

lemma sorted_keys:
  "\<forall>n \<in> set ns. 0 \<le> n \<and> n < 2 ^ 63 \<Longrightarrow> sorted_wrt (<) ns \<Longrightarrow> sorted_wrt (<) (map (\<lambda>n. (pre :: string) @ seq_bytes n) ns)"
  by (induction ns) (auto simp: seq_bytes_less)

text \<open>Two ascending lists of the same numbers.\<close>

lemma strict_sorted_unique: "sorted_wrt (<) xs \<Longrightarrow> sorted_wrt (<) ys \<Longrightarrow> set xs = set ys \<Longrightarrow> xs = (ys :: int list)"
  by (rule strict_sorted_equal)

subsection \<open>The loop\<close>

definition type_wanted :: "json \<Rightarrow> row \<Rightarrow> bool" where
  "type_wanted types r = (case type_excluded types r of Inl e \<Rightarrow> False | Inr b \<Rightarrow> \<not> b)"

text \<open>A list of types, or none given: asking whether a type is in it does not fail.\<close>

definition type_filter :: "json \<Rightarrow> bool" where
  "type_filter types \<longleftrightarrow> types = JNull \<or> (\<exists>ts. types = JList ts)"

lemma type_excluded_Inr: "type_filter types \<Longrightarrow> type_excluded types r = Inr (\<not> type_wanted types r)"
  by (auto simp: type_filter_def type_wanted_def type_excluded_def split: attr.split)

text \<open>The dictionary stored under a number.\<close>

definition event_at :: "(string \<Rightarrow> string \<Rightarrow> cell option) \<Rightarrow> int \<Rightarrow> pydict" where
  "event_at g n = (case g ''events'' (seq_bytes n) of Some (Json d) \<Rightarrow> d | _ \<Rightarrow> [])"

lemma fetch_event_stored:
  assumes "0 \<le> n" "n < 2 ^ 63" "get_raw en s ''events'' (seq_bytes n) = Some (Json d)" "type_filter types"
  shows "fetch_event en s types n =
    Inr (if type_wanted types (load_row event_defaults d) then Some (load_row event_defaults d) else None)"
  using assms by (simp add: fetch_event_def seq_key_Inr present_def load_event_def loads_def type_excluded_Inr)

lemma is_prefix_append [simp]: "is_prefix p (p @ k)"
  by (simp add: is_prefix_def)

lemma scan_run_numbers:
  assumes "\<forall>n \<in> set ns. 0 \<le> n \<and> n < 2 ^ 63 \<and> get_raw en s ''events'' (seq_bytes n) = Some (Json (event_at (get_raw en s) n))"
    and "type_filter types" "map fst items = map (\<lambda>n. pre @ seq_bytes n) ns"
    and rest: "\<And>k c rest'. rest = (k, c) # rest' \<Longrightarrow> \<not> is_prefix pre k"
  shows "scan_run en s types pre left (items @ rest) = Inr (take (max 1 left)
    (filter (type_wanted types) (map (\<lambda>n. load_row event_defaults (event_at (get_raw en s) n)) ns)))"
  using assms(1,3)
proof (induction ns arbitrary: items left)
  case Nil
  then show ?case using rest by (cases rest) auto
next
  case (Cons n ns)
  then obtain c items' where items: "items = (pre @ seq_bytes n, c) # items'" "map fst items' = map (\<lambda>n. pre @ seq_bytes n) ns"
    by (cases items) auto
  let ?r = "load_row event_defaults (event_at (get_raw en s) n)"
  have n: "0 \<le> n" "n < 2 ^ 63" "get_raw en s ''events'' (seq_bytes n) = Some (Json (event_at (get_raw en s) n))"
    and ns: "\<forall>n \<in> set ns. 0 \<le> n \<and> n < 2 ^ 63 \<and> get_raw en s ''events'' (seq_bytes n) = Some (Json (event_at (get_raw en s) n))"
    using Cons.prems(1) by simp_all
  note IH = Cons.IH [OF ns items(2)]
  note f = fetch_event_stored [OF n assms(2)]
  have key: "key_seq (take 8 (drop (length pre) (pre @ seq_bytes n))) = Inr n" using n by (simp add: key_seq_bytes)
  show ?case
  proof (cases "type_wanted types ?r")
    case False
    with f key IH show ?thesis by (simp add: items(1))
  next
    case True
    show ?thesis
    proof (cases "left \<le> 1")
      case True
      with f key \<open>type_wanted types ?r\<close> show ?thesis by (simp add: items(1))
    next
      case False
      then obtain l where l: "left = Suc l" "1 \<le> l" by (cases left) auto
      with f key \<open>type_wanted types ?r\<close> IH [of l] show ?thesis by (simp add: items(1) max_def)
    qed
  qed
qed

subsection \<open>The entries a seek finds\<close>

lemma seek_prefix:
  assumes "sorted_wrt (<) (map fst (xs :: (string \<times> cell) list))" "pre \<le> start"
  obtains rest where "dropWhile (\<lambda>(k', v). k' < start) xs = filter (\<lambda>(k, v). is_prefix pre k \<and> \<not> k < start) xs @ rest"
    "\<And>k c rest'. rest = (k, c) # rest' \<Longrightarrow> \<not> is_prefix pre k"
proof -
  let ?ys = "filter (\<lambda>(k', v). \<not> k' < start) xs"
  let ?P = "\<lambda>(k :: string, v :: cell). is_prefix pre k"
  have d: "dropWhile (\<lambda>(k', v). k' < start) xs = ?ys" by (rule dropWhile_sorted [OF assms(1)])
  have sorted: "sorted_wrt (<) (map fst ?ys)" using assms(1) by (simp add: sorted_wrt_map sorted_wrt_filter)
  have "\<forall>(k, c) \<in> set ?ys. pre \<le> k" using assms(2) by (auto intro: order_trans [OF assms(2)])
  from takeWhile_prefix [OF sorted this] have t: "takeWhile ?P ?ys = filter ?P ?ys" .
  have "?ys = takeWhile ?P ?ys @ dropWhile ?P ?ys" by simp
  also have "takeWhile ?P ?ys = filter (\<lambda>(k, v). is_prefix pre k \<and> \<not> k < start) xs"
    unfolding t filter_filter by (rule filter_cong) auto
  finally have split: "?ys = filter (\<lambda>(k, v). is_prefix pre k \<and> \<not> k < start) xs @ dropWhile ?P ?ys" .
  have stop: "\<not> is_prefix pre k" if "dropWhile ?P ?ys = (k, c) # rest'" for k c rest'
    using that hd_dropWhile [of ?P ?ys] by simp
  show thesis
  proof (rule that)
    show "dropWhile (\<lambda>(k', v). k' < start) xs = filter (\<lambda>(k, v). is_prefix pre k \<and> \<not> k < start) xs @ dropWhile ?P ?ys"
      unfolding d by (rule split)
  qed (rule stop)
qed

text \<open>The stored dictionaries, in the order of their keys, and the ones a cursor in a run leaves.\<close>

definition cell_dict :: "cell \<Rightarrow> pydict" where
  "cell_dict c = (case c of Json d \<Rightarrow> d | Bytes b \<Rightarrow> [])"

definition stored_events :: "'kv rocks_env \<Rightarrow> 'kv rocks \<Rightarrow> pydict list" where
  "stored_events en s = map cell_dict (it_values (seek_to_first (iteritems (re_lib en) (rk_db s) ''events'')))"

definition in_run :: "string \<Rightarrow> int \<Rightarrow> pydict \<Rightarrow> bool" where
  "in_run rid cursor d \<longleftrightarrow> dict_get d ''run_id'' = JStr rid
     \<and> (case dict_get d ''sequence'' of JInt n \<Rightarrow> cursor < n | _ \<Rightarrow> False)"

text \<open>The numbers of the events a scan is to find.\<close>

definition run_numbers :: "(string \<Rightarrow> string \<Rightarrow> cell option) \<Rightarrow> string \<Rightarrow> int \<Rightarrow> int set" where
  "run_numbers g rid cursor = {n. 0 \<le> n \<and> n < 2 ^ 63 \<and> cursor < n \<and> (\<exists>d. event_entry g n d rid)}"

lemma get_raw_items:
  assumes "rd_laws (re_lib en)" "rocks_ok en s" "cf \<in> set CF_NAMES"
  shows "it_all (iteritems (re_lib en) (rk_db s) cf) = rd_items (re_lib en) (sh_kv (rk_db s)) cf"
    and "(k, v) \<in> set (rd_items (re_lib en) (sh_kv (rk_db s)) cf) \<longleftrightarrow> get_raw en s cf k = Some v"
  using assms rd_items_get [OF assms(1)]
  by (simp_all add: iteritems_def resolve_cf_def rocks_ok_def get_raw_def db_get_def)

lemma event_entry_unique: "event_entry g n d rid \<Longrightarrow> event_entry g n d' rid' \<Longrightarrow> d' = d \<and> rid' = rid"
  by (simp add: event_entry_def)

lemma event_entry_at: "event_entry g n d rid \<Longrightarrow> event_at g n = d"
  by (simp add: event_entry_def event_at_def)

lemma in_run_entry: "event_entry g n d rid' \<Longrightarrow> in_run rid cursor d \<longleftrightarrow> rid' = rid \<and> cursor < n"
  by (auto simp: event_entry_def in_run_def)

lemma events_numbers:
  assumes "rd_laws (re_lib en)" "rocks_ok en s"
  obtains ms where "filter (in_run rid cursor) (stored_events en s) = map (event_at (get_raw en s)) ms"
    "sorted_wrt (<) ms" "set ms = run_numbers (get_raw en s) rid cursor"
proof -
  let ?g = "get_raw en s" and ?all = "rd_items (re_lib en) (sh_kv (rk_db s)) ''events''"
  have ok: "index_ok ?g (rk_seq s)" using assms(2) by (simp add: rocks_ok_def)
  have cf: "''events'' \<in> set CF_NAMES" by (simp add: CF_NAMES_def)
  note items = get_raw_items [OF assms cf]
  let ?xs = "filter (in_run rid cursor \<circ> cell_dict \<circ> snd) ?all"
  let ?ms = "map key_number (map fst ?xs)"
  have all: "\<exists>n d rid'. 0 \<le> n \<and> n < 2 ^ 63 \<and> k = seq_bytes n \<and> v = Json d \<and> event_entry ?g n d rid'" if "(k, v) \<in> set ?all" for k v
  proof -
    from that items(2) have "?g ''events'' k = Some v" by simp
    then obtain n d rid' where "1 \<le> n" "n \<le> rk_seq s" "k = seq_bytes n" "v = Json d" "event_entry ?g n d rid'"
      using ok unfolding index_ok_def by blast
    moreover have "rk_seq s < 2 ^ 63" using ok by (simp add: index_ok_def)
    ultimately show ?thesis by (intro exI [of _ n] exI [of _ d] exI [of _ rid']) simp
  qed
  have "filter (in_run rid cursor) (stored_events en s) = map (cell_dict \<circ> snd) ?xs"
    by (simp add: stored_events_def it_values_def seek_to_first_def items(1) filter_map comp_def)
  also have "\<dots> = map (event_at ?g) ?ms"
    using all by (fastforce simp: cell_dict_def dest: event_entry_at)
  finally have eq: "filter (in_run rid cursor) (stored_events en s) = map (event_at ?g) ?ms" .
  have "\<exists>n. 0 \<le> n \<and> n < 2 ^ 63 \<and> k = [] @ seq_bytes n" if "k \<in> set (map fst ?xs)" for k
    using that all by fastforce
  from map_key_numbers [of "map fst ?xs" "[]", OF this]
  have keys: "map fst ?xs = map (\<lambda>n. [] @ seq_bytes n) ?ms" by simp
  have "sorted_wrt (<) (map fst ?xs)"
    using rd_items_sorted [OF assms(1)] by (simp add: sorted_wrt_map sorted_wrt_filter)
  then have "sorted_wrt (<) (map (\<lambda>n. [] @ seq_bytes n) ?ms)" unfolding keys [symmetric] .
  moreover have "\<forall>n \<in> set ?ms. 0 \<le> n \<and> n < 2 ^ 63" using all by fastforce
  ultimately have "sorted_wrt (<) ?ms" by (rule sorted_numbers)
  moreover have "set ?ms = run_numbers ?g rid cursor"
  proof
    show "set ?ms \<subseteq> run_numbers ?g rid cursor"
    proof
      fix m
      assume "m \<in> set ?ms"
      then obtain k v where m: "m = key_number k" "(k, v) \<in> set ?all" "in_run rid cursor (cell_dict v)" by auto
      from all [OF m(2)] obtain n d rid' where n: "0 \<le> n" "n < 2 ^ 63" "k = seq_bytes n" "v = Json d" "event_entry ?g n d rid'"
        by blast
      with m(1,3) in_run_entry [OF n(5)] show "m \<in> run_numbers ?g rid cursor" by (auto simp: cell_dict_def run_numbers_def)
    qed
    show "run_numbers ?g rid cursor \<subseteq> set ?ms"
    proof
      fix n
      assume "n \<in> run_numbers ?g rid cursor"
      then obtain d where n: "0 \<le> n" "n < 2 ^ 63" "cursor < n" "event_entry ?g n d rid" by (auto simp: run_numbers_def)
      then have "(seq_bytes n, Json d) \<in> set ?xs"
        using in_run_entry [OF n(4)] by (simp add: items(2) event_entry_def cell_dict_def)
      then have "key_number (fst (seq_bytes n, Json d)) \<in> set ?ms" by (metis image_eqI list.set_map)
      with n show "n \<in> set ?ms" by simp
    qed
  qed
  ultimately show thesis using that eq by blast
qed

subsection \<open>The scan\<close>

text \<open>Where the scan of a run starts.\<close>

definition run_start :: "string \<Rightarrow> int \<Rightarrow> string" where
  "run_start pre cursor = (if cursor \<noteq> 0 then pre @ seq_bytes (cursor + 1) else pre)"

lemma run_start_le: "(pre :: string) \<le> run_start pre cursor"
  by (simp add: run_start_def append_le)

lemma run_start_iff:
  assumes "0 \<le> cursor" "cursor + 1 < 2 ^ 63" "1 \<le> n" "n < 2 ^ 63"
  shows "\<not> pre @ seq_bytes n < run_start pre cursor \<longleftrightarrow> cursor < n"
proof (cases "cursor = 0")
  case True
  then show ?thesis using assms append_le [of pre "seq_bytes n"] by (auto simp: run_start_def)
next
  case False
  then show ?thesis using assms seq_bytes_less [of n "cursor + 1"] by (auto simp: run_start_def)
qed

lemma index_numbers:
  assumes "rd_laws (re_lib en)" "rocks_ok en s" "CHR '':'' \<notin> set rid" "0 \<le> cursor" "cursor + 1 < 2 ^ 63"
  defines "pre \<equiv> rid @ '':''"
  obtains ns where "map fst (filter (\<lambda>(k, v). is_prefix pre k \<and> \<not> k < run_start pre cursor)
      (rd_items (re_lib en) (sh_kv (rk_db s)) ''ev_by_run'')) = map (\<lambda>n. pre @ seq_bytes n) ns"
    "sorted_wrt (<) ns" "set ns = run_numbers (get_raw en s) rid cursor"
proof -
  let ?g = "get_raw en s" and ?all = "rd_items (re_lib en) (sh_kv (rk_db s)) ''ev_by_run''"
  have ok: "index_ok ?g (rk_seq s)" using assms(2) by (simp add: rocks_ok_def)
  have m: "rk_seq s < 2 ^ 63" using ok by (simp add: index_ok_def)
  have cf: "''ev_by_run'' \<in> set CF_NAMES" by (simp add: CF_NAMES_def)
  note items = get_raw_items(2) [OF assms(1,2) cf]
  let ?xs = "filter (\<lambda>(k, v). is_prefix pre k \<and> \<not> k < run_start pre cursor) ?all"
  let ?ns = "map (\<lambda>k. key_number (drop (length pre) k)) (map fst ?xs)"
  have entry: "\<exists>n d. 1 \<le> n \<and> n < 2 ^ 63 \<and> k = pre @ seq_bytes n \<and> event_entry ?g n d rid \<and> cursor < n"
    if "k \<in> set (map fst ?xs)" for k
  proof -
    from that obtain v where k: "?g ''ev_by_run'' k = Some v" "is_prefix pre k" "\<not> k < run_start pre cursor"
      by (auto simp: items)
    from k(1) ok obtain n d rid' where n: "1 \<le> n" "n \<le> rk_seq s" "k = rid' @ '':'' @ seq_bytes n" "event_entry ?g n d rid'"
      unfolding index_ok_def by blast
    from k(2) obtain x where "k = rid @ '':'' @ x" by (auto simp: is_prefix_iff pre_def)
    moreover have "CHR '':'' \<notin> set rid'" using n(4) by (simp add: event_entry_def)
    ultimately have "rid' = rid" using n(3) assms(3) colon_split [of rid x rid' "seq_bytes n"] by simp
    moreover have "cursor < n"
      using k(3) run_start_iff [OF assms(4,5), of n pre] n m \<open>rid' = rid\<close> by (simp add: pre_def)
    ultimately show ?thesis using n m by (intro exI [of _ n] exI [of _ d]) (simp add: pre_def)
  qed
  have "\<exists>n. 0 \<le> n \<and> n < 2 ^ 63 \<and> k = pre @ seq_bytes n" if k: "k \<in> set (map fst ?xs)" for k
  proof -
    obtain n where "1 \<le> n" "n < 2 ^ 63" "k = pre @ seq_bytes n" using entry [OF k] by blast
    then show ?thesis by (intro exI [of _ n]) simp
  qed
  from map_key_numbers [of "map fst ?xs" pre, OF this]
  have keys: "map fst ?xs = map (\<lambda>n. pre @ seq_bytes n) ?ns" .
  have range: "\<exists>d. 1 \<le> n \<and> n < 2 ^ 63 \<and> event_entry ?g n d rid \<and> cursor < n" if n: "n \<in> set ?ns" for n
  proof -
    from n obtain k where k: "k \<in> set (map fst ?xs)" "n = key_number (drop (length pre) k)" by auto
    from entry [OF k(1)] k(2) show ?thesis by auto
  qed
  have "sorted_wrt (<) (map fst ?xs)" using rd_items_sorted [OF assms(1)] by (simp add: sorted_wrt_map sorted_wrt_filter)
  then have "sorted_wrt (<) (map (\<lambda>n. pre @ seq_bytes n) ?ns)" unfolding keys [symmetric] .
  moreover have "\<forall>n \<in> set ?ns. 0 \<le> n \<and> n < 2 ^ 63" using range by fastforce
  ultimately have sorted: "sorted_wrt (<) ?ns" by (rule sorted_numbers)
  have "set ?ns = run_numbers ?g rid cursor"
  proof
    show "set ?ns \<subseteq> run_numbers ?g rid cursor"
    proof
      fix n
      assume "n \<in> set ?ns"
      from range [OF this] show "n \<in> run_numbers ?g rid cursor" by (auto simp: run_numbers_def)
    qed
    show "run_numbers ?g rid cursor \<subseteq> set ?ns"
    proof
      fix n
      assume "n \<in> run_numbers ?g rid cursor"
      then obtain d where n: "0 \<le> n" "n < 2 ^ 63" "cursor < n" "event_entry ?g n d rid" by (auto simp: run_numbers_def)
      then have "?g ''events'' (seq_bytes n) = Some (Json d)" by (simp add: event_entry_def)
      with ok obtain n' d' rid' where n': "seq_bytes n = seq_bytes n'" "Json d = Json d'" "1 \<le> n'" "n' \<le> rk_seq s" "event_entry ?g n' d' rid'"
        "?g ''ev_by_run'' (rid' @ '':'' @ seq_bytes n) = Some (Bytes [])" unfolding index_ok_def by blast
      then have "n' = n" using seq_bytes_inj [of n n'] n(1,2) m by simp
      with n'(5) have "event_entry ?g n d' rid'" by simp
      from event_entry_unique [OF n(4) this] have "rid' = rid" by simp
      with n' have k: "?g ''ev_by_run'' (pre @ seq_bytes n) = Some (Bytes [])" by (simp add: pre_def)
      have "1 \<le> n" using n'(3) \<open>n' = n\<close> by simp
      with n have "\<not> pre @ seq_bytes n < run_start pre cursor" using run_start_iff [OF assms(4,5), of n pre] by simp
      with k have "(pre @ seq_bytes n, Bytes []) \<in> set ?xs" by (simp add: items)
      then have "pre @ seq_bytes n \<in> set (map fst ?xs)" by force
      then have "key_number (drop (length pre) (pre @ seq_bytes n)) \<in> set ?ns"
        by (subst set_map) (rule image_eqI, rule refl)
      with n show "n \<in> set ?ns" by simp
    qed
  qed
  with keys sorted that show thesis by blast
qed

lemma run_scan:
  assumes "rd_laws (re_lib en)" "rocks_ok en s" "CHR '':'' \<notin> set rid" "rid \<noteq> []" "0 \<le> cursor" "cursor + 1 < 2 ^ 63"
    and f: "ef_run f = Some rid" "ef_cursor f = cursor" "type_filter (ef_types f)"
  shows "query_events en f limit s = Inr (take (max 1 limit) (filter (type_wanted (ef_types f))
    (map (load_row event_defaults) (filter (in_run rid cursor) (stored_events en s)))))"
proof -
  let ?g = "get_raw en s" and ?pre = "rid @ '':''" and ?all = "rd_items (re_lib en) (sh_kv (rk_db s)) ''ev_by_run''"
  have cf: "''ev_by_run'' \<in> set CF_NAMES" by (simp add: CF_NAMES_def)
  obtain ms where ms: "filter (in_run rid cursor) (stored_events en s) = map (event_at ?g) ms" "sorted_wrt (<) ms"
    "set ms = run_numbers ?g rid cursor" by (rule events_numbers [OF assms(1,2)])
  obtain ns where ns: "map fst (filter (\<lambda>(k, v). is_prefix ?pre k \<and> \<not> k < run_start ?pre cursor) ?all) = map (\<lambda>n. ?pre @ seq_bytes n) ns"
    "sorted_wrt (<) ns" "set ns = run_numbers ?g rid cursor" by (rule index_numbers [OF assms(1,2,3,5,6)])
  have "ns = ms" using ns ms by (intro strict_sorted_unique) simp_all
  obtain rest where rest: "dropWhile (\<lambda>(k', v). k' < run_start ?pre cursor) ?all
      = filter (\<lambda>(k, v). is_prefix ?pre k \<and> \<not> k < run_start ?pre cursor) ?all @ rest"
    "\<And>k c rest'. rest = (k, c) # rest' \<Longrightarrow> \<not> is_prefix ?pre k"
    by (rule seek_prefix [OF rd_items_sorted [OF assms(1)] run_start_le]) blast
  have "\<forall>n \<in> set ns. 0 \<le> n \<and> n < 2 ^ 63 \<and> ?g ''events'' (seq_bytes n) = Some (Json (event_at ?g n))"
    unfolding ns(3) run_numbers_def by (auto simp: event_entry_def event_at_def)
  note entries = this
  have "it_rest (it_seek (run_start ?pre cursor) (iteritems (re_lib en) (rk_db s) ''ev_by_run''))
      = dropWhile (\<lambda>(k', v). k' < run_start ?pre cursor) ?all"
    by (simp add: it_seek_def get_raw_items(1) [OF assms(1,2) cf])
  then have "query_events en f limit s = scan_run en s (ef_types f) ?pre limit (dropWhile (\<lambda>(k', v). k' < run_start ?pre cursor) ?all)"
    using assms(4-6) f(1,2) by (auto simp: query_events_def run_start_def seq_key_Inr Let_def)
  also have "\<dots> = Inr (take (max 1 limit) (filter (type_wanted (ef_types f)) (map (\<lambda>n. load_row event_defaults (event_at ?g n)) ns)))"
    unfolding rest(1) by (rule scan_run_numbers [OF entries f(3) ns(1)]) (rule rest(2))
  finally show ?thesis by (simp add: ms(1) \<open>ns = ms\<close> comp_def)
qed

subsection \<open>Finding a new event by its id\<close>

lemma find_new_event:
  assumes "rd_laws (re_lib en)" "rocks_ok en s" "rocks_ok en s'"
    and events: "\<And>k. get_raw en s' ''events'' k = (if k = k0 then Some (Json d) else get_raw en s ''events'' k)"
    and eid: "dict_get d ''event_id'' = JStr eid"
    and new: "\<forall>d \<in> set (stored_events en s). dict_get d ''event_id'' \<noteq> JStr eid"
  shows "find_event_id eid (it_values (seek_to_first (iteritems (re_lib en) (rk_db s') ''events''))) = Inr (Some (load_row event_defaults d))"
proof (rule find_event_unique)
  let ?cs = "it_values (seek_to_first (iteritems (re_lib en) (rk_db s') ''events''))"
  have cf: "''events'' \<in> set CF_NAMES" by (simp add: CF_NAMES_def)
  note items = get_raw_items [OF assms(1,3) cf] and old = get_raw_items [OF assms(1,2) cf]
  have cs: "c \<in> set ?cs \<longleftrightarrow> (\<exists>k. get_raw en s' ''events'' k = Some c)" for c
    by (force simp: it_values_def seek_to_first_def items(1) simp flip: items(2))
  show "\<forall>c \<in> set ?cs. \<exists>d. c = Json d" using cs stored_json [OF assms(3)] by blast
  show "Json d \<in> set ?cs" unfolding cs events by auto
  fix d'
  assume "Json d' \<in> set ?cs" and d': "dict_get d' ''event_id'' = JStr eid"
  then obtain k where k: "(if k = k0 then Some (Json d) else get_raw en s ''events'' k) = Some (Json d')"
    unfolding cs events by blast
  show "d' = d"
  proof (cases "k = k0")
    case False
    with k have "(k, Json d') \<in> set (it_all (iteritems (re_lib en) (rk_db s) ''events''))" by (simp add: old)
    then have "d' \<in> set (stored_events en s)"
      by (force simp: stored_events_def it_values_def seek_to_first_def cell_dict_def)
    with new d' show ?thesis by blast
  qed (use k in simp)
qed (rule eid)

end
