(* ===== verification/Rocks_Demo.thy ===== *)
theory Rocks_Demo
  imports Demo Rocks_Scan
begin

section \<open>A concrete key-value library\<close>

text \<open>
  An association list in place of RocksDB, which meets the documented laws, and a database with two
  events of one run, on which the properties of the backend are exercised.
\<close>

type_synonym kv_list = "((string \<times> string) \<times> cell) list"

definition list_op :: "rd_op \<Rightarrow> kv_list \<Rightarrow> kv_list" where
  "list_op = (\<lambda>(cf, k, v) kv. case v of None \<Rightarrow> filter (\<lambda>(i, c). i \<noteq> (cf, k)) kv | Some c \<Rightarrow> ((cf, k), c) # kv)"

definition list_keys :: "kv_list \<Rightarrow> string \<Rightarrow> string list" where
  "list_keys kv cf = sort (remdups (map (snd \<circ> fst) (filter (\<lambda>((cf', k), c). cf' = cf) kv)))"

definition list_lib :: "kv_list rocksdict" where
  "list_lib = \<lparr>rd_get = (\<lambda>kv cf k. map_of kv (cf, k)), rd_write = (\<lambda>kv ops. fold list_op ops kv),
     rd_items = (\<lambda>kv cf. map (\<lambda>k. (k, the (map_of kv (cf, k)))) (list_keys kv cf))\<rparr>"

lemma list_op_lookup: "map_of (list_op op kv) (cf, k) = op_effect cf k op (map_of kv (cf, k))"
  by (cases op) (auto simp: list_op_def map_of_filter_key split: option.split)

lemma list_ops_lookup: "map_of (fold list_op ops kv) (cf, k) = after_ops ops cf k (map_of kv (cf, k))"
  unfolding after_ops_def by (induction ops arbitrary: kv) (simp_all add: list_op_lookup)

lemma list_keys_iff: "k \<in> set (list_keys kv cf) \<longleftrightarrow> map_of kv (cf, k) \<noteq> None"
  unfolding list_keys_def map_of_eq_None_iff by force

lemma map_of_map_keys: "map_of (map (\<lambda>k. (k, f k)) ks) k = (if k \<in> set ks then Some (f k) else None)"
  by (induction ks) auto

lemma list_lib_laws: "rd_laws list_lib"
proof -
  have "sorted_wrt (<) (list_keys kv cf)" for kv cf by (simp add: list_keys_def strict_sorted_iff)
  moreover have "map_of (map (\<lambda>k. (k, the (map_of kv (cf, k)))) (list_keys kv cf)) k = map_of kv (cf, k)" for kv cf k
    unfolding map_of_map_keys using list_keys_iff [of k kv cf] by auto
  ultimately show ?thesis
    unfolding rd_laws_def list_lib_def by (simp add: list_ops_lookup comp_def)
qed

definition list_env :: "kv_list rocks_env" where
  "list_env = \<lparr>re_lib = list_lib, re_rt = demo_rt, re_timestamp = (\<lambda>d. 0)\<rparr>"

lemma list_env_laws [simp]: "rd_laws (re_lib list_env)"
  by (simp add: list_env_def list_lib_laws)

text \<open>The database as it is opened on an empty directory.\<close>

definition fresh_rocks :: "kv_list rocks" where
  "fresh_rocks = \<lparr>rk_db = shim_open [] CF_NAMES, rk_seq = 0, rk_tick = 0\<rparr>"

lemma fresh_rocks_ok: "rocks_ok list_env fresh_rocks"
proof -
  have "get_raw list_env fresh_rocks = (\<lambda>cf k. None)"
    by (intro ext) (simp add: get_raw_def db_get_def list_env_def list_lib_def fresh_rocks_def shim_open_def)
  then show ?thesis by (simp add: rocks_ok_def fresh_rocks_def shim_open_def index_ok_empty)
qed

definition rocks_event :: "string \<Rightarrow> string \<Rightarrow> row" where
  "rocks_event eid event_type = row_init event_defaults [(''event_id'', Val (JStr eid)), (''run_id'', Val (JStr ''run_1'')),
     (''org_id'', Val (JStr ''org_1'')), (''project_id'', Val (JStr ''proj_1'')), (''event_type'', Val (JStr event_type)),
     (''event_hash'', Val (JStr ''h'')), (''idempotency_key'', Val (JStr (''key_'' @ eid))), (''occurred_at'', Date demo_now)]"

lemma rocks_event_plain: "plain_event (rocks_event eid ty)"
  unfolding plain_event_def rocks_event_def by (simp add: row_get_def row_init_def event_defaults_def has_attrs_def)

lemma rocks_event_keyed: "eid \<noteq> [] \<Longrightarrow> keyed_event (rocks_event eid ty) (''key_'' @ eid) eid"
  unfolding keyed_event_def using rocks_event_plain [of eid ty]
  by (simp add: rocks_event_def row_get_def row_init_def event_defaults_def)

definition two_events :: "kv_list rocks" where
  "two_events = snd (rocks_session list_env
     (add_all [AuditEventRow (rocks_event ''e1'' ''tool.started''), AuditEventRow (rocks_event ''e2'' ''run.failed'')]) fresh_rocks)"

lemma two_events_ok: "rocks_ok list_env two_events"
proof -
  let ?objs = "[AuditEventRow (rocks_event ''e1'' ''tool.started''), AuditEventRow (rocks_event ''e2'' ''run.failed'')]"
  obtain x s where s: "rocks_session list_env (add_all ?objs) fresh_rocks = (x, s)"
    by (cases "rocks_session list_env (add_all ?objs) fresh_rocks")
  have "list_all plain_orm ?objs" by (simp add: plain_orm_def rocks_event_plain)
  moreover have "rk_seq fresh_rocks + int (length ?objs) < 2 ^ 63" by (simp add: fresh_rocks_def)
  ultimately have "rocks_ok list_env s" using session_index [OF list_env_laws fresh_rocks_ok _ _ s] by blast
  with s show ?thesis by (simp add: two_events_def)
qed

text \<open>What is stored, with the keys of the two numbers left as they are.\<close>

lemma write_rocks_event:
  assumes "eid \<noteq> []" "0 \<le> rk_seq s" "rk_seq s + 1 < 2 ^ 63"
  shows "write_event list_env b (rocks_event eid ty) s =
    (Inr (numbered (rk_seq s + 1) (rocks_event eid ty),
       keyed_ops demo_rt (rk_seq s + 1) (rocks_event eid ty) ''run_1'' (''key_'' @ eid) eid ''h'' b), s\<lparr>rk_seq := rk_seq s + 1\<rparr>)"
proof -
  have "re_rt list_env = demo_rt" by (simp add: list_env_def)
  with assms show ?thesis
    using write_event_ops [OF rocks_event_plain, of eid ty "''key_'' @ eid" eid "''h''" "''run_1''" s list_env b]
    by (simp add: rocks_event_def row_get_def row_init_def event_defaults_def)
qed

definition two_ops :: batch where
  "two_ops = keyed_ops demo_rt 2 (rocks_event ''e2'' ''run.failed'') ''run_1'' ''key_e2'' ''e2'' ''h''
     (keyed_ops demo_rt 1 (rocks_event ''e1'' ''tool.started'') ''run_1'' ''key_e1'' ''e1'' ''h'' [])"

lemma two_events_eq: "two_events = rocks_write list_env two_ops (fresh_rocks\<lparr>rk_seq := 2\<rparr>)"
proof -
  have s: "rk_seq fresh_rocks = 0" by (simp add: fresh_rocks_def)
  show ?thesis
    by (simp add: two_events_def rocks_session_def add_all_def session_add_def new_session_def session_commit_def
        session_flush_def write_obj_def write_rocks_event s two_ops_def)
qed

lemma demo_keys [simp]: "seq_bytes 1 = seq_bytes 2 \<longleftrightarrow> False" "seq_bytes 2 = seq_bytes 1 \<longleftrightarrow> False"
  "seq_bytes 1 < seq_bytes 2" "\<not> seq_bytes 2 < seq_bytes 1" "key_seq (seq_bytes 1) = Inr 1" "key_seq (seq_bytes 2) = Inr 2"
  "seq_key 1 = Inr (seq_bytes 1)" "seq_key 2 = Inr (seq_bytes 2)"
  by (simp_all add: seq_bytes_inj seq_bytes_less key_seq_bytes seq_key_range)

subsection \<open>What it holds\<close>

definition demo_item :: "int \<Rightarrow> string \<Rightarrow> string \<Rightarrow> pydict" where
  "demo_item n eid ty = dump_row (numbered n (rocks_event eid ty))"

lemma two_ops_eq: "two_ops =
   [(''events'', seq_bytes 1, Some (Json (demo_item 1 ''e1'' ''tool.started''))),
    (''ev_by_run'', ''run_1:'' @ seq_bytes 1, Some (Bytes [])),
    (''ev_by_type'', ''org_1:proj_1:tool.started:'' @ seq_bytes 1, Some (Bytes [])),
    (''idempotency'', ''key_e1'', Some (Bytes ''e1'')), (''idempotency'', ''key_e1:hash'', Some (Bytes ''h'')),
    (''meta'', ''global_seq'', Some (Bytes (seq_bytes 1))),
    (''events'', seq_bytes 2, Some (Json (demo_item 2 ''e2'' ''run.failed''))),
    (''ev_by_run'', ''run_1:'' @ seq_bytes 2, Some (Bytes [])),
    (''ev_by_type'', ''org_1:proj_1:run.failed:'' @ seq_bytes 2, Some (Bytes [])),
    (''idempotency'', ''key_e2'', Some (Bytes ''e2'')), (''idempotency'', ''key_e2:hash'', Some (Bytes ''h'')),
    (''meta'', ''global_seq'', Some (Bytes (seq_bytes 2)))]"
  by (simp add: two_ops_def keyed_ops_def batch_put_def demo_item_def org_prefix_def attr_str_def row_get_def rocks_event_def
      row_init_def event_defaults_def)

lemma two_events_kv: "sh_kv (rk_db two_events) = fold list_op two_ops []"
  unfolding two_events_eq rocks_write_def db_write_def fresh_rocks_def shim_open_def list_env_def list_lib_def
  by (simp add: two_ops_eq CF_NAMES_def)

lemma two_events_raw: "cf \<in> set CF_NAMES \<Longrightarrow> get_raw list_env two_events cf k = map_of (fold list_op two_ops []) (cf, k)"
  using two_events_ok unfolding get_raw_def db_get_def resolve_cf_def rocks_ok_def
  by (simp add: two_events_kv list_env_def list_lib_def)

lemma two_events_events [simp]:
  "get_raw list_env two_events ''events'' (seq_bytes 1) = Some (Json (demo_item 1 ''e1'' ''tool.started''))"
  "get_raw list_env two_events ''events'' (seq_bytes 2) = Some (Json (demo_item 2 ''e2'' ''run.failed''))"
  by (simp_all add: two_events_raw CF_NAMES_def two_ops_eq list_op_def)

lemma two_events_items: "cf \<in> set CF_NAMES \<Longrightarrow> iteritems list_lib (rk_db two_events) cf
    = \<lparr>it_all = map (\<lambda>k. (k, the (map_of (fold list_op two_ops []) (cf, k)))) (list_keys (fold list_op two_ops []) cf), it_rest = []\<rparr>"
  using two_events_ok unfolding iteritems_def resolve_cf_def rocks_ok_def by (simp add: two_events_kv list_lib_def)

lemma two_events_types: "list_keys (fold list_op two_ops []) ''ev_by_type''
    = [''org_1:proj_1:run.failed:'' @ seq_bytes 2, ''org_1:proj_1:tool.started:'' @ seq_bytes 1]"
  by (simp add: list_keys_def two_ops_eq list_op_def)

end
