(* ===== verification/Rocks_Journal.thy ===== *)
theory Rocks_Journal
  imports Rocks_Demo
begin

section \<open>The store as a journal\<close>

text \<open>
  An abstract view of the RocksDB store: the list of its events as the backend reads them. A session refines
  an append to this list, of the events it was given, each with the next number.
\<close>

subsection \<open>Entries\<close>

text \<open>What a session that added some rows puts into the family of the events, behind the number \<open>n\<close>.\<close>

fun new_entries :: "int \<Rightarrow> orm list \<Rightarrow> (string \<times> cell) list" where
  "new_entries n [] = []"
| "new_entries n (AuditEventRow r # objs) =
     (seq_bytes (n + 1), Json (dump_row (numbered (n + 1) r))) # new_entries (n + 1) objs"
| "new_entries n (AgentRunRow r # objs) = new_entries n objs"
| "new_entries n (ApprovalRow r # objs) = new_entries n objs"

fun new_rows :: "int \<Rightarrow> orm list \<Rightarrow> row list" where
  "new_rows n [] = []"
| "new_rows n (AuditEventRow r # objs) = stored_row (numbered (n + 1) r) # new_rows (n + 1) objs"
| "new_rows n (AgentRunRow r # objs) = new_rows n objs"
| "new_rows n (ApprovalRow r # objs) = new_rows n objs"

lemma new_entries_keys:
  "k \<in> set (map fst (new_entries n objs)) \<Longrightarrow> \<exists>m. n < m \<and> m \<le> n + int (length objs) \<and> k = seq_bytes m"
proof (induction n objs rule: new_entries.induct)
  case (2 n r objs)
  then consider "k = seq_bytes (n + 1)" | "k \<in> set (map fst (new_entries (n + 1) objs))" by auto
  then show ?case
  proof cases
    case 1
    then show ?thesis by (intro exI [of _ "n + 1"]) simp
  next
    case 2
    from "2.IH" [OF this] obtain m where "n + 1 < m" "m \<le> n + 1 + int (length objs)" "k = seq_bytes m" by blast
    then show ?thesis by (intro exI [of _ m]) simp
  qed
qed fastforce+

lemma new_entries_later:
  assumes "0 \<le> n" "n + int (length objs) < 2 ^ 63" "k \<in> set (map fst (new_entries n objs))"
  shows "seq_bytes n < k"
proof -
  obtain m where "n < m" "m \<le> n + int (length objs)" "k = seq_bytes m" using new_entries_keys [OF assms(3)] by blast
  then show ?thesis using assms(1,2) by (simp add: seq_bytes_less)
qed

lemma new_entries_sorted:
  "0 \<le> n \<Longrightarrow> n + int (length objs) < 2 ^ 63 \<Longrightarrow> sorted_wrt (<) (map fst (new_entries n objs))"
proof (induction n objs rule: new_entries.induct)
  case (2 n r objs)
  then have "\<forall>k \<in> set (map fst (new_entries (n + 1) objs)). seq_bytes (n + 1) < k"
    using new_entries_later [of "n + 1" objs] by simp
  with 2 show ?case by simp
qed simp_all

lemma new_entries_rows:
  "list_all plain_orm objs \<Longrightarrow> map (load_row event_defaults \<circ> cell_dict \<circ> snd) (new_entries n objs) = new_rows n objs"
proof (induction n objs rule: new_entries.induct)
  case (2 n r objs)
  then have "plain_event r" by (simp add: plain_orm_def)
  then have "load_row event_defaults (dump_row (numbered (n + 1) r)) = stored_row (numbered (n + 1) r)"
    by (intro load_dump number_plain) simp_all
  with 2 show ?case by (simp add: cell_dict_def)
qed simp_all

subsection \<open>What a session writes\<close>

lemma write_obj_events:
  assumes "write_obj en b obj s = (Inr b', s')" "plain_orm obj" "index_ok (with_batch b g) (rk_seq s)" "rk_seq s + 1 < 2 ^ 63"
  shows "with_batch b' g ''events'' = with_batch b g ''events'' ++ map_of (new_entries (rk_seq s) [obj])
    \<and> rk_seq s' = rk_seq s + int (length (new_entries (rk_seq s) [obj]))"
proof (cases obj)
  case (AgentRunRow r)
  with assms(1) have w: "write_run en b r s = (Inr b', s')" by (simp add: write_obj_def)
  with AgentRunRow write_run_frame [OF w] write_run_batch [OF w, of "''events''" g] show ?thesis by (simp add: INDEXED_def)
next
  case (AuditEventRow r)
  with assms(1) obtain r' where w: "write_event en b r s = (Inr (r', b'), s')"
    by (auto simp: write_obj_def split: prod.splits sum.splits)
  have "plain_event r" using assms(2) AuditEventRow by (simp add: plain_orm_def)
  from plain_event_write [OF this w assms(3,4)] AuditEventRow show ?thesis by simp
next
  case (ApprovalRow r)
  with assms(1) have w: "write_approval b r = Inr b'" and s': "s' = s" by (simp_all add: write_obj_def)
  with ApprovalRow write_approval_batch [OF w, of "''events''" g] show ?thesis by (simp add: INDEXED_def)
qed

lemma new_entries_Cons: "new_entries n (obj # objs) = new_entries n [obj] @ new_entries (n + int (length (new_entries n [obj]))) objs"
  by (cases obj) simp_all

lemma write_objs_events:
  assumes "write_objs en objs b s = (Inr b', s')" "list_all plain_orm objs" "index_ok (with_batch b g) (rk_seq s)"
    and "rk_seq s + int (length objs) < 2 ^ 63"
  shows "with_batch b' g ''events'' = with_batch b g ''events'' ++ map_of (new_entries (rk_seq s) objs)"
  using assms
proof (induction objs arbitrary: b s)
  case Nil
  then show ?case by simp
next
  case (Cons obj objs)
  obtain b1 s1 where w: "write_obj en b obj s = (Inr b1, s1)"
    using Cons.prems(1) by (auto split: prod.splits sum.splits)
  have obj: "plain_orm obj" "list_all plain_orm objs" using Cons.prems(2) by simp_all
  have bound: "rk_seq s + 1 < 2 ^ 63" using Cons.prems(4) by simp
  note one = write_obj_events [OF w obj(1) Cons.prems(3) bound]
  have "rk_seq s1 \<le> rk_seq s + 1" using write_obj_frame [OF w] by simp
  then have "rk_seq s1 + int (length objs) < 2 ^ 63" using Cons.prems(4) by simp
  moreover have "write_objs en objs b1 s1 = (Inr b', s')" using Cons.prems(1) w by simp
  ultimately have rest: "with_batch b' g ''events'' = with_batch b1 g ''events'' ++ map_of (new_entries (rk_seq s1) objs)"
    using Cons.IH [OF _ obj(2) write_obj_index [OF w obj(1) Cons.prems(3) bound]] by blast
  have pos: "0 \<le> rk_seq s" using Cons.prems(3) by (simp add: index_ok_def)
  have "distinct (map fst (new_entries (rk_seq s) (obj # objs)))"
    using new_entries_sorted [OF pos Cons.prems(4)] by (simp only: strict_sorted_iff)
  then have disjoint: "dom (map_of (new_entries (rk_seq s) [obj])) \<inter> dom (map_of (new_entries (rk_seq s1) objs)) = {}"
    using one by (subst (asm) new_entries_Cons) (auto simp: dom_map_of_conv_image_fst)
  have "map_of (new_entries (rk_seq s) (obj # objs)) = map_of (new_entries (rk_seq s) [obj]) ++ map_of (new_entries (rk_seq s1) objs)"
    using one map_add_comm [OF disjoint] by (subst new_entries_Cons) simp
  with one rest show ?case by simp
qed

lemma sorted_items_unique:
  assumes "sorted_wrt (<) (map fst xs)" "sorted_wrt (<) (map fst ys)" "map_of xs = map_of ys"
  shows "xs = (ys :: (string \<times> cell) list)"
proof -
  have d: "distinct (map fst xs)" "distinct (map fst ys)" "sorted (map fst xs)" "sorted (map fst ys)"
    using assms(1,2) by (simp_all only: strict_sorted_iff)
  have "set xs = set ys" using d(1,2) assms(3) map_of_eq_Some_iff by (metis subsetI subset_antisym surj_pair)
  moreover have "inj_on fst (set xs)" using d(1) by (simp add: distinct_map)
  ultimately show ?thesis using d by (intro map_sorted_distinct_set_unique [of fst xs ys]) simp_all
qed

subsection \<open>The journal\<close>

definition journal :: "'kv rocks_env \<Rightarrow> 'kv rocks \<Rightarrow> row list" where
  "journal en s = map (load_row event_defaults) (stored_events en s)"

lemma journal_items:
  assumes "rd_laws (re_lib en)" "rocks_ok en s"
  shows "journal en s = map (load_row event_defaults \<circ> cell_dict \<circ> snd) (rd_items (re_lib en) (sh_kv (rk_db s)) ''events'')"
proof -
  have "''events'' \<in> set CF_NAMES" by (simp add: CF_NAMES_def)
  from get_raw_items(1) [OF assms this] show ?thesis
    by (simp add: journal_def stored_events_def it_values_def seek_to_first_def comp_def)
qed

text \<open>The rows of the journal that belong to a run and come behind a cursor.\<close>

definition row_in_run :: "string \<Rightarrow> int \<Rightarrow> row \<Rightarrow> bool" where
  "row_in_run rid cursor r \<longleftrightarrow> row_get r ''run_id'' = Val (JStr rid)
     \<and> (case row_get r ''sequence'' of Val (JInt n) \<Rightarrow> cursor < n | _ \<Rightarrow> False)"

lemma row_in_run_load:
  assumes "map_of d ''sequence'' = Some (JInt n)" "map_of d ''run_id'' = Some (JStr rid')"
  shows "row_in_run rid cursor (load_row event_defaults d) \<longleftrightarrow> in_run rid cursor d"
proof -
  have "map_of (map (\<lambda>(k, v). (k, Val v)) d) k = map_option Val (map_of d k)" for k
    by (induction d) auto
  with assms show ?thesis
    by (simp add: row_in_run_def in_run_def row_get_def load_row_def row_init_def event_defaults_def)
qed

lemma journal_run:
  assumes "rd_laws (re_lib en)" "rocks_ok en s"
  shows "map (load_row event_defaults) (filter (in_run rid cursor) (stored_events en s)) = filter (row_in_run rid cursor) (journal en s)"
proof -
  have cf: "''events'' \<in> set CF_NAMES" by (simp add: CF_NAMES_def)
  have "row_in_run rid cursor (load_row event_defaults d) \<longleftrightarrow> in_run rid cursor d" if d: "d \<in> set (stored_events en s)" for d
  proof -
    have "\<exists>k v. get_raw en s ''events'' k = Some v \<and> d = cell_dict v"
      using d get_raw_items [OF assms cf] by (auto simp: stored_events_def it_values_def seek_to_first_def) blast
    then obtain k v where v: "get_raw en s ''events'' k = Some v" "d = cell_dict v" by blast
    from v(1) assms(2) obtain n d' rid' where "v = Json d'" "event_entry (get_raw en s) n d' rid'"
      unfolding rocks_ok_def index_ok_def by blast
    with v(2) row_in_run_load show ?thesis by (simp add: event_entry_def cell_dict_def)
  qed
  then show ?thesis unfolding journal_def by (simp add: filter_map comp_def cong: filter_cong)
qed

lemma journal_cong: "rk_db s' = rk_db s \<Longrightarrow> journal en s' = journal en s"
  by (simp add: journal_def stored_events_def)

lemma commit_appends:
  assumes "rd_laws (re_lib en)" "rocks_ok en s" "list_all plain_orm objs" "rk_seq s + int (length objs) < 2 ^ 63"
    and "write_objs en objs [] s = (Inr b, s1)"
  shows "journal en (rocks_write en b s1) = journal en s @ new_rows (rk_seq s) objs"
proof -
  let ?s' = "rocks_write en b s1" and ?new = "new_entries (rk_seq s) objs"
  let ?items = "\<lambda>s. rd_items (re_lib en) (sh_kv (rk_db s)) ''events''"
  have ok: "index_ok (get_raw en s) (rk_seq s)" and h: "sh_handles (rk_db s) = CF_NAMES" using assms(2) by (simp_all add: rocks_ok_def)
  have cf: "''events'' \<in> set CF_NAMES" by (simp add: CF_NAMES_def)
  have "session_commit en \<lparr>se_batch = [], se_pending = objs\<rparr> s = (Inr (), ?s')"
    using assms(5) by (simp add: session_commit_def session_flush_def)
  from commit_index [OF assms(1,2) _ _ _ this] assms(3,4) have ok': "rocks_ok en ?s'" by simp
  have db: "rk_db s1 = rk_db s" using write_objs_frame [OF assms(5)] by simp
  then have h1: "sh_handles (rk_db s1) = CF_NAMES" using h by simp
  have pos: "0 \<le> rk_seq s" using ok by (simp add: index_ok_def)
  have later: "x < y" if "x \<in> set (map fst (?items s))" "y \<in> set (map fst ?new)" for x y
  proof -
    have "\<exists>v. get_raw en s ''events'' x = Some v" using that(1) get_raw_items(2) [OF assms(1,2) cf] by auto
    then obtain n where "1 \<le> n" "n \<le> rk_seq s" "x = seq_bytes n" using ok unfolding index_ok_def by blast
    moreover have "seq_bytes (rk_seq s) < y" using new_entries_later [OF pos assms(4) that(2)] .
    ultimately show ?thesis using seq_bytes_less [of n "rk_seq s"] pos assms(4) by (cases "n = rk_seq s") (auto intro: less_trans)
  qed
  have disjoint: "dom (map_of (?items s)) \<inter> dom (map_of ?new) = {}"
    using later less_irrefl by (auto simp: dom_map_of_conv_image_fst)
  have "map_of (?items ?s') = map_of (?items s @ ?new)"
  proof -
    have "map_of (?items s) k = get_raw en s ''events'' k" "map_of (?items ?s') k = get_raw en ?s' ''events'' k" for k
      using assms(1) h h1 cf by (simp_all add: rd_laws_def get_raw_def db_get_def resolve_cf_def rocks_write_def db_write_def)
    then have "map_of (?items s) = get_raw en s ''events''" "map_of (?items ?s') = get_raw en ?s' ''events''" by blast+
    moreover have "get_raw en ?s' ''events'' = get_raw en s ''events'' ++ map_of ?new"
      using get_raw_write [OF assms(1) h1 cf, of b] get_raw_cong [OF db, of en]
        write_objs_events [OF assms(5,3) _ assms(4), of "get_raw en s"] ok by (intro ext) simp
    ultimately show ?thesis using map_add_comm [OF disjoint] by simp
  qed
  moreover have "sorted_wrt (<) (map fst (?items s @ ?new))"
    using rd_items_sorted [OF assms(1)] new_entries_sorted [OF pos assms(4)] later
    by (auto simp: sorted_wrt_append)
  ultimately have "?items ?s' = ?items s @ ?new"
    using rd_items_sorted [OF assms(1)] by (intro sorted_items_unique) auto
  then show ?thesis
    using new_entries_rows [OF assms(3), of "rk_seq s"] by (simp add: journal_items [OF assms(1,2)] journal_items [OF assms(1) ok'])
qed

text \<open>The simulation: what a session does to the store, and what opening it again leaves of it.\<close>

lemma session_journal:
  assumes "rd_laws (re_lib en)" "rocks_ok en s" "list_all plain_orm objs" "rk_seq s + int (length objs) < 2 ^ 63"
    and "rocks_session en (add_all objs) s = (x, s')"
  shows "journal en s' = journal en s @ (case x of Inl e \<Rightarrow> [] | Inr u \<Rightarrow> new_rows (rk_seq s) objs)"
proof (cases x)
  case (Inl e)
  with session_index [OF assms] show ?thesis by (auto intro: journal_cong)
next
  case (Inr u)
  let ?se = "fold session_add objs new_session"
  have se: "se_pending ?se = objs" "se_batch ?se = []" using fold_session_add [of objs new_session] by (simp_all add: new_session_def)
  obtain y s1 where w: "write_objs en objs [] s = (y, s1)" by (cases "write_objs en objs [] s")
  have "session_commit en ?se s = (case y of Inl e \<Rightarrow> (Inl e, s1) | Inr b \<Rightarrow> (Inr (), rocks_write en b s1))"
    using w se by (simp add: session_commit_def session_flush_def split: sum.split)
  with assms(5) Inr obtain b where "y = Inr b" "s' = rocks_write en b s1"
    by (auto simp: rocks_session_def add_all_def split: sum.splits)
  with commit_appends [OF assms(1-4)] w Inr show ?thesis by simp
qed

end
