(* ===== verification/Rocks_Properties.thy ===== *)
theory Rocks_Properties
  imports Rocks_Journal
begin

section \<open>Properties of the RocksDB backend\<close>

text \<open>
  What the alternative storage keeps: the index of the events by run through committed, failed and reopened
  sessions, the scan along it, lookups by idempotency key, and the log file beside it.
\<close>

subsection \<open>The index by run\<close>

text \<open>
  On a store whose index by run mirrors its events, a session that adds runs, approvals and new events of
  runs without a colon in their id keeps it so, however it ends; one that raises writes nothing; the sequence
  counter never falls and grows by at most one per object; and opening the store again succeeds with a counter
  that is not above the one before and covers every stored event.
\<close>

theorem session_keeps_index:
  assumes "rd_laws (re_lib en)" "rocks_ok en s" "list_all plain_orm objs" "rk_seq s + int (length objs) < 2 ^ 63"
    and "rocks_session en (add_all objs) s = (x, s')"
  shows "rocks_ok en s' \<and> (\<forall>e. x = Inl e \<longrightarrow> rk_db s' = rk_db s)
    \<and> rk_seq s \<le> rk_seq s' \<and> rk_seq s' \<le> rk_seq s + int (length objs)
    \<and> (\<exists>(s'' :: 'kv rocks). rocks_open en (sh_kv (rk_db s')) = Inr s'' \<and> rocks_ok en s'' \<and> rk_db s'' = rk_db s' \<and> rk_seq s'' \<le> rk_seq s')"
  using session_index [OF assms] reopen_ok by blast

lemma session_keeps_index_witness:
  "rocks_ok list_env (snd (rocks_session list_env (add_all [AuditEventRow (rocks_event ''e1'' ''tool.started'')]) fresh_rocks))"
proof -
  let ?objs = "[AuditEventRow (rocks_event ''e1'' ''tool.started'')]"
  have "list_all plain_orm ?objs" by (simp add: plain_orm_def rocks_event_plain)
  moreover have "rk_seq fresh_rocks + int (length ?objs) < 2 ^ 63" by (simp add: fresh_rocks_def)
  ultimately show ?thesis
    using session_keeps_index [OF list_env_laws fresh_rocks_ok _ _ surjective_pairing] by blast
qed

text \<open>
  C29: The store refines a list of events that only grows: on a store whose index mirrors its events, a
  session that adds runs, approvals and new events appends to the events the backend reads exactly those it was given, in their order,
  with the next numbers and their dates as text; one that raises appends nothing; the index stays right, and opening the store again
  gives the same events.
\<close>

theorem session_extends_journal:
  assumes "rd_laws (re_lib en)" "rocks_ok en s" "list_all plain_orm objs" "rk_seq s + int (length objs) < 2 ^ 63"
    and "rocks_session en (add_all objs) s = (x, s')"
  shows "journal en s' = journal en s @ (case x of Inl e \<Rightarrow> [] | Inr u \<Rightarrow> new_rows (rk_seq s) objs)
    \<and> rocks_ok en s'
    \<and> (\<exists>(s'' :: 'kv rocks). rocks_open en (sh_kv (rk_db s')) = Inr s'' \<and> rocks_ok en s'' \<and> journal en s'' = journal en s')"
proof -
  have "rocks_ok en s'" using session_index [OF assms] by blast
  from this reopen_ok [OF this] session_journal [OF assms] show ?thesis by (blast intro: journal_cong)
qed

theorem session_extends_journal_witness:
  "journal list_env (snd (rocks_session list_env (add_all [AuditEventRow (rocks_event ''e1'' ''tool.started'')]) fresh_rocks))
    = [stored_row (numbered 1 (rocks_event ''e1'' ''tool.started''))]"
proof -
  let ?objs = "[AuditEventRow (rocks_event ''e1'' ''tool.started'')]"
  obtain s' where s': "rocks_session list_env (add_all ?objs) fresh_rocks = (Inr (), s')"
    by (simp add: rocks_session_def add_all_def session_add_def new_session_def session_commit_def session_flush_def write_obj_def
        write_rocks_event fresh_rocks_def)
  have "journal list_env fresh_rocks = []"
    by (simp add: journal_def stored_events_def it_values_def seek_to_first_def iteritems_def list_env_def list_lib_def fresh_rocks_def
        shim_open_def list_keys_def)
  moreover have "list_all plain_orm ?objs" by (simp add: plain_orm_def rocks_event_plain)
  moreover have "rk_seq fresh_rocks = 0" by (simp add: fresh_rocks_def)
  ultimately show ?thesis
    using session_extends_journal [OF list_env_laws fresh_rocks_ok _ _ s'] s' by simp
qed

text \<open>
  C31: On such a store the scan along the index of a run, from a cursor on, returns what filtering the
  list of all events the store holds by run, cursor and type returns, in the order of their numbers and cut at the limit (a limit
  of zero lets one event through).
\<close>

theorem run_scan_is_filter:
  assumes "rd_laws (re_lib en)" "rocks_ok en s" "CHR '':'' \<notin> set rid" "rid \<noteq> []" "0 \<le> cursor" "cursor + 1 < 2 ^ 63"
    and "ef_run f = Some rid" "ef_cursor f = cursor" "type_filter (ef_types f)"
  shows "query_events en f limit s = Inr (take (max 1 limit) (filter (type_wanted (ef_types f))
    (filter (row_in_run rid cursor) (journal en s))))"
  using run_scan [OF assms] journal_run [OF assms(1,2), of rid cursor] by simp

definition demo_filter :: event_filter where
  "demo_filter = \<lparr>ef_run = Some ''run_1'', ef_org = ''org_1'', ef_project = ''proj_1'', ef_types = JNull, ef_cursor = 1\<rparr>"

lemma run_scan_is_filter_witness:
  "query_events list_env demo_filter 10 two_events = Inr (take 10 (filter (type_wanted JNull)
    (filter (row_in_run ''run_1'' 1) (journal list_env two_events))))"
  using run_scan_is_filter [OF list_env_laws two_events_ok, of "''run_1''" 1 demo_filter 10]
  by (simp add: demo_filter_def type_filter_def)

subsection \<open>Idempotency keys\<close>

text \<open>
  C37: A session that adds one new event with an idempotency key to such a store, which holds no event of
  the same id, commits, and the event is then found under its key, with the next number and its dates as text.
\<close>

theorem keyed_event_found:
  assumes "rd_laws (re_lib en)" "rocks_ok en s" "keyed_event r key eid" "rk_seq s + 1 < 2 ^ 63"
    and new: "\<forall>d \<in> set (stored_events en s). dict_get d ''event_id'' \<noteq> JStr eid"
  shows "\<exists>(s' :: 'kv rocks). rocks_session en (add_all [AuditEventRow r]) s = (Inr (), s')
    \<and> get_event_by_idempotency_key en key s' = Inr (Some (stored_row (numbered (rk_seq s + 1) r)))"
proof -
  let ?n = "rk_seq s + 1" and ?d = "dump_row (numbered (rk_seq s + 1) r)"
  have pos: "0 \<le> rk_seq s" using assms(2) by (simp add: rocks_ok_def index_ok_def)
  have plain: "plain_event r" and eid: "row_get r ''event_id'' = Val (JStr eid)" "eid \<noteq> []"
    using assms(3) by (simp_all add: keyed_event_def)
  obtain b where b: "write_event en [] r s = (Inr (numbered ?n r, b), s\<lparr>rk_seq := ?n\<rparr>)"
    "\<And>k. with_batch b (get_raw en s) ''events'' k = (if k = seq_bytes ?n then Some (Json ?d) else get_raw en s ''events'' k)"
    "with_batch b (get_raw en s) ''idempotency'' key = Some (Bytes eid)"
    using write_keyed_event [OF assms(3) pos assms(4), of en "[]" "get_raw en s"] by auto
  let ?s' = "rocks_write en b (s\<lparr>rk_seq := ?n\<rparr>)"
  have run: "rocks_session en (add_all [AuditEventRow r]) s = (Inr (), ?s')"
    by (simp add: rocks_session_def add_all_def session_add_def new_session_def session_commit_def session_flush_def write_obj_def b(1))
  have "list_all plain_orm [AuditEventRow r]" using plain by (simp add: plain_orm_def)
  from session_index [OF assms(1,2) this _ run] assms(4) have ok': "rocks_ok en ?s'" by simp
  have h: "sh_handles (rk_db (s\<lparr>rk_seq := ?n\<rparr>)) = CF_NAMES" using assms(2) by (simp add: rocks_ok_def)
  have raw: "get_raw en ?s' cf k = with_batch b (get_raw en s) cf k" if "cf \<in> set CF_NAMES" for cf k
    using get_raw_write [OF assms(1) h that, of b k] get_raw_cong [of "s\<lparr>rk_seq := ?n\<rparr>" s en] by simp
  have cf: "''events'' \<in> set CF_NAMES" "''idempotency'' \<in> set CF_NAMES" by (simp_all add: CF_NAMES_def)
  have "dict_get ?d ''event_id'' = JStr eid" using eid by (simp add: row_simps)
  moreover have "get_raw en ?s' ''events'' k = (if k = seq_bytes ?n then Some (Json ?d) else get_raw en s ''events'' k)" for k
    by (simp only: raw [OF cf(1)] b(2))
  ultimately have "find_event_id eid (it_values (seek_to_first (iteritems (re_lib en) (rk_db ?s') ''events'')))
      = Inr (Some (load_row event_defaults ?d))"
    by (intro find_new_event [OF assms(1,2) ok' _ _ new])
  moreover have "load_row event_defaults ?d = stored_row (numbered ?n r)"
    by (rule load_dump) (simp_all add: number_plain(3) [OF plain])
  ultimately have "get_event_by_idempotency_key en key ?s' = Inr (Some (stored_row (numbered ?n r)))"
    by (simp add: get_event_by_idempotency_key_def raw cf b(3) present_def eid)
  with run show ?thesis by blast
qed

lemma keyed_event_found_witness:
  "\<exists>s'. get_event_by_idempotency_key list_env ''key_e1'' s' = Inr (Some (stored_row (numbered 1 (rocks_event ''e1'' ''tool.started''))))"
proof -
  have "stored_events list_env fresh_rocks = []"
    by (simp add: stored_events_def it_values_def seek_to_first_def iteritems_def list_env_def list_lib_def fresh_rocks_def
        shim_open_def list_keys_def)
  moreover have "keyed_event (rocks_event ''e1'' ''tool.started'') ''key_e1'' ''e1''"
    using rocks_event_keyed [of "''e1''" "''tool.started''"] by simp
  ultimately show ?thesis
    using keyed_event_found [OF list_env_laws fresh_rocks_ok, of "rocks_event ''e1'' ''tool.started''" "''key_e1''" "''e1''"]
    by (auto simp: fresh_rocks_def)
qed

subsection \<open>Queries of a project\<close>

definition first_of_project :: stmt where
  "first_of_project = stmt_limit 1 (stmt_order_by ''sequence'' True
     (stmt_where ''project_id'' (JStr ''proj_1'') (stmt_where ''org_id'' (JStr ''org_1'') (select MAuditEvent))))"

text \<open>
  A query over a project takes its events in the order of their types, and only then sorts
  and cuts: of a store with the events 1 (tool.started) and 2 (run.failed), asking for the first event in the order of
  the numbers gives event 2.
\<close>

theorem project_query_cut_early:
  "map_sum id (map (\<lambda>x. found_attr x ''sequence'')) (execute_query list_env first_of_project two_events) = Inr [Val (JInt 2)]"
proof -
  have cf: "''ev_by_type'' \<in> set CF_NAMES" by (simp add: CF_NAMES_def)
  let ?r = "load_row event_defaults (demo_item 2 ''e2'' ''run.failed'')"
  have seq: "row_get ?r ''sequence'' = Val (JInt 2)"
    using number_plain(2,3) [OF rocks_event_plain, of 2 "''e2''" "''run.failed''"]
    by (simp add: demo_item_def load_dump row_simps)
  have fetch: "fetch_event list_env two_events JNull 2 = Inr (Some ?r)"
    by (simp add: fetch_event_def present_def load_event_def loads_def type_excluded_def)
  define f where "f = event_filter_of demo_rt (fmap_of (sm_filters first_of_project))"
  have f: "ef_run f = None" "ef_org f = ''org_1''" "ef_project f = ''proj_1''" "ef_types f = JNull" "ef_cursor f = 0"
    by (simp_all add: f_def event_filter_of_def fmap_of_def first_of_project_def stmt_where_def stmt_order_by_def stmt_limit_def
        select_def opt_str_def attr_str_def)
  have "it_rest (it_seek ''org_1:proj_1:'' (iteritems list_lib (rk_db two_events) ''ev_by_type''))
      = (''org_1:proj_1:run.failed:'' @ seq_bytes 2, the (map_of (fold list_op two_ops []) (''ev_by_type'', ''org_1:proj_1:run.failed:'' @ seq_bytes 2)))
        # [(''org_1:proj_1:tool.started:'' @ seq_bytes 1, the (map_of (fold list_op two_ops []) (''ev_by_type'', ''org_1:proj_1:tool.started:'' @ seq_bytes 1)))]"
    by (simp add: two_events_items [OF cf] it_seek_def two_events_types)
  then have "query_events list_env f 1 two_events = Inr [?r]"
    by (simp add: query_events_def f list_env_def [THEN arg_cong [of _ _ re_lib]] Let_def is_prefix_def count_char_def fetch [simplified])
  moreover have st: "sm_model first_of_project = MAuditEvent" "sm_limit first_of_project = Some 1"
    "sm_order first_of_project = [(''sequence'', True)]"
    by (simp_all add: first_of_project_def stmt_where_def stmt_order_by_def stmt_limit_def select_def)
  moreover have "re_rt list_env = demo_rt" by (simp add: list_env_def)
  ultimately have "run_query list_env first_of_project two_events = Inr [FRow (AuditEventRow ?r)]"
    unfolding run_query_def by (simp add: Let_def limit_or_def f_def)
  then show ?thesis
    by (simp add: execute_query_def st sort_found_def sort_attr_def seq attr_truthy_def int_of_attr_def cut_def sort_dir_def)
qed

subsection \<open>Keys\<close>

text \<open>
  C39: The eight-byte key of a number in the signed 64-bit range reads back as the number, other numbers have no
  key, and keys compare as byte strings like their numbers where these have the same sign, with every negative
  number above all others.
\<close>

theorem keys_ordered:
  "(case seq_key m of
      Inl e \<Rightarrow> m < - (2 ^ 63) \<or> 2 ^ 63 \<le> m
    | Inr k \<Rightarrow> key_seq k = Inr m
        \<and> (case seq_key n of Inl e \<Rightarrow> True | Inr l \<Rightarrow> (k < l) = (if (m < 0) = (n < 0) then m < n else 0 \<le> m)))"
proof (cases "- (2 ^ 63) \<le> m \<and> m < 2 ^ 63")
  case True
  then have m: "seq_key m = Inr (seq_bytes m)" "key_seq (seq_bytes m) = Inr m"
    by (simp_all add: seq_key_range key_seq_bytes)
  show ?thesis
  proof (cases "- (2 ^ 63) \<le> n \<and> n < 2 ^ 63")
    case range: True
    then have "seq_key n = Inr (seq_bytes n)" by (simp add: seq_key_range)
    with m seq_bytes_order [of m n] True range show ?thesis by simp
  next
    case False
    then obtain e where "seq_key n = Inl e" using seq_key_out by blast
    with m show ?thesis by simp
  qed
next
  case False
  then obtain e where "seq_key m = Inl e" using seq_key_out by blast
  with False show ?thesis by auto
qed

subsection \<open>The log file\<close>

text \<open>
  C38: After any appends to a new log, each with the next number, opening it again finds the
  last number; with a further record cut off anywhere before its end, it finds the number of the cut record when the
  record's header of 21 bytes is whole, although what follows is lost, and the one before otherwise.
\<close>

theorem reopened_log_continues:
  assumes "wal_append_all md5 clock 0 rs (wal_open [] None) = (Inr ns, w)"
    and "wal_append md5 ts k payload w = (Inr n, w')" "wa_log w' = wa_log w @ r" "i < length r"
  shows "ns = map int [1..<Suc (length rs)] \<and> wal_open (wa_log w) None = w
    \<and> wa_last (wal_open (wa_log w @ take i r) None) = (if i < 21 then int (length rs) else int (length rs) + 1)"
proof -
  have w0: "wa_last (wal_open [] None) = 0" "wa_log (wal_open [] None) = []" "wa_applied_file (wal_open [] None) = None" "wa_applied (wal_open [] None) = 0"
    by (simp_all add: wal_open_def wal_scan_short)
  from wal_append_all_scan [OF assms(1)] w0
  have *: "\<And>x. wal_scan (wa_log w @ x) 0 = wal_scan x (wa_last w)" "wa_last w = int (length rs)"
    "ns = map (\<lambda>i. int i + 1) [0..<length rs]" "wa_applied_file w = None" "wa_applied w = 0" by simp_all
  have ns: "ns = map int [1..<Suc (length rs)]"
    unfolding *(3) One_nat_def map_Suc_upt [symmetric] by (simp add: comp_def)
  have "wal_open (wa_log w) None = w"
    using *(1) [of "[]"] *(4,5) by (simp add: wal_open_def wal_scan_short)
  moreover have "wal_record md5 (wa_last w + 1) k ts payload = Inr r"
    using assms(2,3) by (auto simp: wal_append_def Let_def split: sum.splits)
  from wal_scan_torn [OF this _ assms(4), of "wa_last w"]
  have "wal_scan (take i r) (wa_last w) = (if i < 21 then wa_last w else wa_last w + 1)" by simp
  ultimately show ?thesis using ns *(1) [of "take i r"] *(2) by (simp add: wal_open_def)
qed

text \<open>A digest that is constant, under which every append in range succeeds.\<close>

lemma append_const:
  assumes "- 1 \<le> wa_last w" "wa_last w + 1 < 2 ^ 63" "length p < 2 ^ 32"
  shows "\<exists>r. wal_record (\<lambda>b. ''00000000'') (wa_last w + 1) 1 0 p = Inr r
    \<and> wal_append (\<lambda>b. ''00000000'') 0 1 p w = (Inr (wa_last w + 1), w\<lparr>wa_last := wa_last w + 1, wa_log := wa_log w @ r\<rparr>)"
  using assms
  by (simp add: wal_append_def wal_record_def seq_key_range op_byte_def pack_I_def wal_crc_def hex_number_def hex_val_def Let_def)

lemma reopened_log_continues_witness:
  "\<exists>w w' r. wal_append_all (\<lambda>b. ''00000000'') (\<lambda>t. 0) 0 [(1, ''a'')] (wal_open [] None) = (Inr [1], w)
    \<and> wal_append (\<lambda>b. ''00000000'') 0 1 ''b'' w = (Inr 2, w') \<and> wa_log w' = wa_log w @ r
    \<and> wa_last (wal_open (wa_log w @ take 21 r) None) = 2"
proof -
  have w0: "wa_last (wal_open [] None) = 0" by (simp add: wal_open_def wal_scan_short)
  obtain r1 where a: "wal_append (\<lambda>b. ''00000000'') 0 1 ''a'' (wal_open [] None)
      = (Inr 1, (wal_open [] None)\<lparr>wa_last := 1, wa_log := wa_log (wal_open [] None) @ r1\<rparr>)"
    using append_const [of "wal_open [] None" "''a''"] by (auto simp: w0)
  let ?w = "(wal_open [] None)\<lparr>wa_last := 1, wa_log := wa_log (wal_open [] None) @ r1\<rparr>"
  have all: "wal_append_all (\<lambda>b. ''00000000'') (\<lambda>t. 0) 0 [(1, ''a'')] (wal_open [] None) = (Inr [1], ?w)" by (simp add: a)
  obtain r where r: "wal_record (\<lambda>b. ''00000000'') (wa_last ?w + 1) 1 0 ''b'' = Inr r"
    "wal_append (\<lambda>b. ''00000000'') 0 1 ''b'' ?w = (Inr (wa_last ?w + 1), ?w\<lparr>wa_last := wa_last ?w + 1, wa_log := wa_log ?w @ r\<rparr>)"
    using append_const [of ?w "''b''"] by auto
  obtain h c where "r = h @ ''b'' @ c" "length h = 21" by (rule wal_record_Inr [OF r(1)])
  then have "21 < length r" by simp
  from reopened_log_continues [OF all r(2) _ this] have "wa_last (wal_open (wa_log ?w @ take 21 r) None) = 2" by simp
  with all r(2) show ?thesis
    by (intro exI [of _ ?w] exI [of _ "?w\<lparr>wa_last := wa_last ?w + 1, wa_log := wa_log ?w @ r\<rparr>"] exI [of _ r]) simp
qed

end
