(* ===== verification/Integrations.thy ===== *)
theory Integrations
  imports Sdk_Calls
begin

section \<open>Adapters to agent frameworks\<close>

text \<open>
  \<open>sdk/python/controldb/integrations/\<close>: callbacks that LangChain, LlamaIndex, the OpenAI Agents SDK,
  CrewAI and AutoGen call, and helpers for Temporal and OpenTelemetry. The frameworks are not part of the
  repository: what they hand to a callback is a JSON value, the functions the adapters wrap are
  parameters, and so is what Temporal and OpenTelemetry report. Each callback is an operation on a run.
\<close>

subsection \<open>Calling a helper of the run\<close>

text \<open>
  The parameters of a method behind \<open>self\<close>: those that may be given by position, those by keyword only,
  those without a default, and whether further keywords are collected. Binding arguments to them fails
  before the body runs.
\<close>

record signature =
  sg_positional :: "string list"
  sg_keyword :: "string list"
  sg_required :: "string list"
  sg_var_kw :: bool

definition bind_call :: "signature \<Rightarrow> nat \<Rightarrow> string list \<Rightarrow> unit result" where
  "bind_call sg n kws =
    (case find (\<lambda>k. k \<notin> set (sg_positional sg @ sg_keyword sg) \<and> \<not> sg_var_kw sg) kws of
       Some k \<Rightarrow> Inl (TypeError (''got an unexpected keyword argument '' @ k))
     | None \<Rightarrow>
         if length (sg_positional sg) < n then Inl (TypeError ''takes fewer positional arguments'')
         else (case find (\<lambda>k. k \<notin> set kws \<and> k \<notin> set (take n (sg_positional sg))) (sg_required sg) of
             Some k \<Rightarrow> Inl (TypeError (''missing a required argument: '' @ k))
           | None \<Rightarrow> Inr ()))"

definition call_with :: "signature \<Rightarrow> nat \<Rightarrow> string list \<Rightarrow> 'a op \<Rightarrow> 'a op" where
  "call_with sg n kws f = (case bind_call sg n kws of Inl e \<Rightarrow> throw e | Inr u \<Rightarrow> f)"

definition tool_call_sig :: signature where
  "tool_call_sig = \<lparr>sg_positional = [''name''], sg_keyword = [''redact''], sg_required = [''name''], sg_var_kw = False\<rparr>"

definition model_call_sig :: signature where
  "model_call_sig = \<lparr>sg_positional = [], sg_keyword = [''model'', ''prompt'', ''completion'', ''provider'', ''usage'', ''redact'', ''success''],
     sg_required = [''model''], sg_var_kw = False\<rparr>"

definition state_change_sig :: signature where
  "state_change_sig = \<lparr>sg_positional = [], sg_keyword = [''entity_type'', ''entity_id'', ''before'', ''after'', ''reason'', ''applied'', ''redact''],
     sg_required = [''entity_type'', ''entity_id'', ''before'', ''after''], sg_var_kw = False\<rparr>"

definition emit_sig :: signature where
  "emit_sig = \<lparr>sg_positional = [], sg_keyword = [], sg_required = [], sg_var_kw = True\<rparr>"

text \<open>\<open>run.emit(event_type=..., payload=...)\<close>, without further keywords.\<close>

abbreviation plain_emit :: "world \<Rightarrow> client \<Rightarrow> string \<Rightarrow> pydict \<Rightarrow> pydict op" where
  "plain_emit w cl event_type payload \<equiv> run_emit w cl event_type payload no_options"

text \<open>
  \<open>_fire\<close>: the helpers of a run return a dictionary or a tool context, which is no coroutine. A task
  cannot be made of it, and \<open>asyncio.run\<close>, when no loop is running, refuses it as well.
\<close>

definition fire :: "bool \<Rightarrow> 'a \<Rightarrow> unit op" where
  "fire loop_running x =
     throw (if loop_running then TypeError ''a coroutine was expected'' else ValueError ''a coroutine was expected'')"

text \<open>\<open>str(value)[:2048]\<close>\<close>

definition clip :: "world \<Rightarrow> json \<Rightarrow> json" where
  "clip w v = JStr (take 2048 (show_value (wo_rt w) v))"

subsection \<open>LangChain\<close>

definition lc_error :: "string \<Rightarrow> string \<Rightarrow> json" where
  "lc_error name msg = JDict [(''type'', JStr name), (''message'', JStr msg)]"

definition on_llm_start :: "world \<Rightarrow> client \<Rightarrow> pydict \<Rightarrow> json \<Rightarrow> pydict op" where
  "on_llm_start w cl serialized prompts =
     plain_emit w cl ''model_call.started'' [(''model'', dict_get serialized ''name''), (''prompts'', prompts)]"

text \<open>\<open>getattr(response, "generations", str(response))\<close>: the generations, where the response has them.\<close>

definition on_llm_end :: "world \<Rightarrow> client \<Rightarrow> json option \<Rightarrow> string \<Rightarrow> pydict op" where
  "on_llm_end w cl generations shown =
     plain_emit w cl ''model_call.completed'' [(''response'', case generations of None \<Rightarrow> JStr shown | Some g \<Rightarrow> g)]"

definition on_llm_error :: "world \<Rightarrow> client \<Rightarrow> string \<Rightarrow> string \<Rightarrow> pydict op" where
  "on_llm_error w cl name msg = plain_emit w cl ''model_call.failed'' [(''error'', lc_error name msg)]"

definition on_tool_start :: "world \<Rightarrow> client \<Rightarrow> pydict \<Rightarrow> string \<Rightarrow> pydict op" where
  "on_tool_start w cl serialized input_str =
     plain_emit w cl ''tool_call.started'' [(''name'', dict_get serialized ''name''), (''input'', JStr input_str)]"

definition on_tool_end :: "world \<Rightarrow> client \<Rightarrow> json \<Rightarrow> pydict op" where
  "on_tool_end w cl output = plain_emit w cl ''tool_call.completed'' [(''output'', output)]"

definition on_tool_error :: "world \<Rightarrow> client \<Rightarrow> string \<Rightarrow> string \<Rightarrow> pydict op" where
  "on_tool_error w cl name msg = plain_emit w cl ''tool_call.failed'' [(''error'', lc_error name msg)]"

subsection \<open>OpenAI Agents\<close>

definition on_run_started :: "world \<Rightarrow> client \<Rightarrow> pydict \<Rightarrow> pydict op" where
  "on_run_started w cl kwargs = plain_emit w cl ''agent_run.started'' kwargs"

definition on_run_completed :: "world \<Rightarrow> client \<Rightarrow> pydict \<Rightarrow> pydict op" where
  "on_run_completed w cl kwargs = plain_emit w cl ''agent_run.committed'' kwargs"

definition on_tool_invocation :: "world \<Rightarrow> client \<Rightarrow> string \<Rightarrow> json \<Rightarrow> json \<Rightarrow> json \<Rightarrow> pydict op" where
  "on_tool_invocation w cl name args output error =
    (if error \<noteq> JNull
     then plain_emit w cl ''tool_call.failed''
       [(''name'', JStr name), (''input'', args), (''error'', JStr (show_value (wo_rt w) error))]
     else plain_emit w cl ''tool_call.completed'' [(''name'', JStr name), (''input'', args), (''output'', output)])"

definition on_handoff :: "world \<Rightarrow> client \<Rightarrow> string \<Rightarrow> string \<Rightarrow> pydict \<Rightarrow> pydict op" where
  "on_handoff w cl source target kwargs =
     plain_emit w cl ''memory.write''
       [(''store'', JStr ''_handoffs''), (''key'', JStr (source @ ''->'' @ target)), (''value'', JDict kwargs)]"

definition on_guardrail :: "world \<Rightarrow> client \<Rightarrow> string \<Rightarrow> json \<Rightarrow> pydict op" where
  "on_guardrail w cl guardrail_id res =
     plain_emit w cl (if truthy res then ''policy.check.passed'' else ''policy.check.failed'')
       [(''policy_id'', JStr guardrail_id), (''result'', res)]"

subsection \<open>Temporal and OpenTelemetry\<close>

text \<open>What \<open>workflow.info()\<close> gives: the workflow, its run, its attempt; nothing outside a workflow.\<close>

type_synonym workflow_info = "(string \<times> string \<times> int) option"

definition temporal_metadata :: "workflow_info \<Rightarrow> string option \<Rightarrow> int option \<Rightarrow> string option \<Rightarrow> pydict" where
  "temporal_metadata info workflow_id run_attempt activity_id =
    (case workflow_id of
       None \<Rightarrow> (case info of None \<Rightarrow> []
         | Some (wid, rid, n) \<Rightarrow> [(''workflow_id'', JStr wid), (''workflow_run_id'', JStr rid), (''attempt'', JInt n)])
     | Some wid \<Rightarrow> [(''workflow_id'', JStr wid)] @ (case run_attempt of None \<Rightarrow> [] | Some n \<Rightarrow> [(''attempt'', JInt n)]))
    @ (case activity_id of None \<Rightarrow> [] | Some aid \<Rightarrow> [(''activity_id'', JStr aid)])"

definition attach_temporal_metadata :: "world \<Rightarrow> client \<Rightarrow> workflow_info \<Rightarrow> string option \<Rightarrow> int option \<Rightarrow> string option \<Rightarrow> unit op" where
  "attach_temporal_metadata w cl info workflow_id run_attempt activity_id c =
    (let m = temporal_metadata info workflow_id run_attempt activity_id in
     if m = [] then (Inr (), c)
     else and_then (plain_emit w cl ''memory.write'' [(''store'', JStr ''_meta_temporal''), (''key'', JStr ''info''), (''value'', JDict m)])
       (\<lambda>d. ok ()) ((fst c)\<lparr>ro_metadata := dict_update (ro_metadata (fst c)) m\<rparr>, snd c))"

text \<open>\<open>format(n, "032x")\<close>: lower-case hexadecimal digits, filled up with zeros.\<close>

fun hex_str :: "nat \<Rightarrow> string" where
  "hex_str n = (if n < 16 then [hex_char n] else hex_str (n div 16) @ [hex_char (n mod 16)])"

declare hex_str.simps [simp del]

definition hex_format :: "nat \<Rightarrow> nat \<Rightarrow> string" where
  "hex_format width n = replicate (width - length (hex_str n)) (CHR ''0'') @ hex_str n"

text \<open>The span context of OpenTelemetry, where there is one: whether it is valid, its trace and its span.\<close>

definition current_trace_ids :: "(bool \<times> nat \<times> nat) option \<Rightarrow> string option \<times> string option \<times> string option" where
  "current_trace_ids context =
    (case context of
       None \<Rightarrow> (None, None, None)
     | Some (valid, trace_no, span_no) \<Rightarrow>
         if \<not> valid then (None, None, None) else (Some (hex_format 32 trace_no), Some (hex_format 16 span_no), None))"

subsection \<open>CrewAI\<close>

type_synonym callable = "json \<Rightarrow> json op"

record crew_task =
  ta_description :: "string option"
  ta_callback :: "callable option"

text \<open>The function \<open>_run\<close> of a tool: no such attribute, or one that may be \<open>None\<close>.\<close>

record crew_tool =
  to_name :: "string option"
  to__run :: "callable option option"
  to_run :: "callable option"

record crew =
  cr_id :: string
  cr_tasks :: "crew_task list"
  cr_agents :: "crew_tool list list"
  cr_kickoff :: callable

definition task_callback :: "world \<Rightarrow> bool \<Rightarrow> string \<Rightarrow> callable option \<Rightarrow> callable" where
  "task_callback w running desc original output =
     and_then (call_with tool_call_sig 0 [''name'', ''output''] (tool_call w (''task:'' @ desc) True)) (\<lambda>tc.
     and_then (fire running tc) (\<lambda>u.
       case original of None \<Rightarrow> ok JNull | Some f \<Rightarrow> and_then (f output) (\<lambda>r. ok JNull)))"

definition wrap_task :: "world \<Rightarrow> bool \<Rightarrow> crew_task \<Rightarrow> crew_task" where
  "wrap_task w running ta = ta\<lparr>ta_callback :=
     Some (task_callback w running (take 120 (case ta_description ta of None \<Rightarrow> ''unknown_task'' | Some d \<Rightarrow> d)) (ta_callback ta))\<rparr>"

definition wrapped_run :: "world \<Rightarrow> bool \<Rightarrow> callable \<Rightarrow> string \<Rightarrow> callable" where
  "wrapped_run w running orig name args =
     and_then (orig args) (\<lambda>res.
     and_then (call_with tool_call_sig 0 [''name'', ''input'', ''output''] (tool_call w name True)) (\<lambda>tc.
     and_then (fire running tc) (\<lambda>u. ok res)))"

text \<open>The function the framework calls: \<open>getattr(tool, "_run", None) or getattr(tool, "run", None)\<close>.\<close>

definition tool_function :: "crew_tool \<Rightarrow> callable option" where
  "tool_function to = (case to__run to of Some (Some f) \<Rightarrow> Some f | _ \<Rightarrow> to_run to)"

definition wrap_tool :: "world \<Rightarrow> bool \<Rightarrow> nat \<Rightarrow> crew_tool \<Rightarrow> crew_tool" where
  "wrap_tool w running i to =
    (let name = (case to_name to of None \<Rightarrow> ''tool_'' @ nat_str i | Some n \<Rightarrow> n) in
     case tool_function to of
       None \<Rightarrow> to
     | Some f \<Rightarrow>
         if to__run to \<noteq> None then to\<lparr>to__run := Some (Some (wrapped_run w running f name))\<rparr>
         else to\<lparr>to_run := Some (wrapped_run w running f name)\<rparr>)"

definition patched_kickoff :: "world \<Rightarrow> client \<Rightarrow> bool \<Rightarrow> string \<Rightarrow> callable \<Rightarrow> callable" where
  "patched_kickoff w cl running crew_id original args =
     and_then (original args) (\<lambda>res.
     and_then (call_with state_change_sig 0 [''entity_type'', ''entity_id'', ''before'', ''after'', ''reason'']
       (state_change w cl ''crew_output'' crew_id (JDict [(''status'', JStr ''running'')])
         (JDict [(''status'', JStr ''completed''), (''output'', clip w res)]) (Some ''crew.kickoff completed'') True True)) (\<lambda>d.
     and_then (fire running d) (\<lambda>u. ok res)))"

definition attach_crew :: "world \<Rightarrow> client \<Rightarrow> bool \<Rightarrow> crew \<Rightarrow> crew" where
  "attach_crew w cl running cr =
     cr\<lparr>cr_tasks := map (wrap_task w running) (cr_tasks cr),
        cr_agents := map (\<lambda>tools. map (\<lambda>(i, to). wrap_tool w running i to) (enumerate 0 tools)) (cr_agents cr),
        cr_kickoff := patched_kickoff w cl running (cr_id cr) (cr_kickoff cr)\<rparr>"

subsection \<open>AutoGen\<close>

text \<open>An agent: whether it offers \<open>register_reply\<close>, the hooks registered there, and its own reply function.\<close>

type_synonym reply_hook = "json list \<Rightarrow> string option \<Rightarrow> json op"

record autogen_agent =
  ag_name :: "string option"
  ag_registers :: bool
  ag_hooks :: "reply_hook list"
  ag_generate :: "callable option"

definition message_part :: "world \<Rightarrow> json \<Rightarrow> string \<Rightarrow> json \<Rightarrow> json" where
  "message_part w m k v0 = (case m of JDict d \<Rightarrow> dict_get_or d k v0 | _ \<Rightarrow> v0)"

definition autogen_value :: "world \<Rightarrow> json \<Rightarrow> string option \<Rightarrow> json" where
  "autogen_value w m sender = JDict [(''role'', message_part w m ''role'' (JStr ''agent'')),
     (''sender'', JStr (case sender of None \<Rightarrow> ''unknown'' | Some s \<Rightarrow> s)),
     (''content'', case m of JDict d \<Rightarrow> clip w (dict_get_or d ''content'' (JStr [])) | _ \<Rightarrow> clip w m)]"

text \<open>The hook gives \<open>_emit\<close> its two arguments by position; \<open>(False, None)\<close> lets AutoGen go on.\<close>

definition autogen_reply_hook :: "world \<Rightarrow> client \<Rightarrow> bool \<Rightarrow> reply_hook" where
  "autogen_reply_hook w cl running messages sender =
    (if messages = [] then ok (JList [JBool False, JNull])
     else and_then (call_with emit_sig 2 [] (plain_emit w cl ''memory.write''
         [(''store'', JStr ''autogen_messages''), (''key'', JStr (''msg_'' @ nat_str (length messages))),
          (''value'', autogen_value w (last messages) sender)])) (\<lambda>d.
       and_then (fire running d) (\<lambda>u. ok (JList [JBool False, JNull]))))"

definition patched_generate :: "world \<Rightarrow> bool \<Rightarrow> string \<Rightarrow> callable \<Rightarrow> callable" where
  "patched_generate w running name original args =
     and_then (original args) (\<lambda>res.
     and_then (call_with tool_call_sig 0 [''name'', ''output''] (tool_call w (''autogen:'' @ name @ '':generate_reply'') True)) (\<lambda>tc.
     and_then (fire running tc) (\<lambda>u. ok res)))"

definition attach_autogen :: "world \<Rightarrow> client \<Rightarrow> bool \<Rightarrow> autogen_agent \<Rightarrow> autogen_agent" where
  "attach_autogen w cl running ag =
    (if ag_registers ag then ag\<lparr>ag_hooks := autogen_reply_hook w cl running # ag_hooks ag\<rparr>
     else (case ag_generate ag of
         None \<Rightarrow> ag
       | Some f \<Rightarrow> ag\<lparr>ag_generate :=
           Some (patched_generate w running (case ag_name ag of None \<Rightarrow> ''agent'' | Some n \<Rightarrow> n) f)\<rparr>))"

subsection \<open>LlamaIndex\<close>

text \<open>The handler keeps what an event started with until the event ends.\<close>

datatype cb_event_type = CB_LLM | CB_FUNCTION_CALL | CB_QUERY | CB_RETRIEVE | CB_SYNTHESIZE | CB_OTHER

type_synonym pending = "(string \<times> pydict) list"

definition li_event_start :: "pydict option \<Rightarrow> string \<Rightarrow> pending \<Rightarrow> string \<times> pending" where
  "li_event_start payload event_id p =
     (event_id, AList.update event_id (case payload of None \<Rightarrow> [] | Some d \<Rightarrow> d) p)"

text \<open>\<open>v.get(key, default)\<close>\<close>

definition json_get :: "json \<Rightarrow> string \<Rightarrow> json \<Rightarrow> json result" where
  "json_get v k v0 = (case v of JDict d \<Rightarrow> Inr (dict_get_or d k v0) | _ \<Rightarrow> Inl (AttributeError ''get''))"

fun node_ids :: "json list \<Rightarrow> json list result" where
  "node_ids [] = Inr []"
| "node_ids (n # ns) =
    (case json_get n ''node'' (JDict []) of
       Inl e \<Rightarrow> Inl e
     | Inr v \<Rightarrow>
         (case json_get v ''id_'' (JStr []) of
            Inl e \<Rightarrow> Inl e
          | Inr i \<Rightarrow> (case node_ids ns of Inl e \<Rightarrow> Inl e | Inr is \<Rightarrow> Inr (i # is))))"

text \<open>\<open>len(nodes)\<close> and the identifiers of the first ten.\<close>

definition retrieved :: "json \<Rightarrow> json result" where
  "retrieved nodes =
    (case nodes of
       JList ns \<Rightarrow> (case node_ids (take 10 ns) of
           Inl e \<Rightarrow> Inl e | Inr is \<Rightarrow> Inr (JDict [(''node_count'', JInt (int (length ns))), (''node_ids'', JList is)]))
     | JStr s \<Rightarrow> if s = [] then Inr (JDict [(''node_count'', JInt 0), (''node_ids'', JList [])]) else Inl (AttributeError ''get'')
     | JDict d \<Rightarrow> Inl (TypeError ''unhashable type'')
     | _ \<Rightarrow> Inl (TypeError ''object has no len()''))"

text \<open>The model's name and its two token counts; an absent answer is looked for under another key.\<close>

definition llm_arguments :: "world \<Rightarrow> pydict \<Rightarrow> (json \<times> json \<times> json \<times> json) result" where
  "llm_arguments w payload =
    (let response = (if truthy (dict_get payload ''response'') then dict_get payload ''response''
                     else dict_get_or payload ''output'' (JDict []));
         usage = dict_get_or payload ''usage'' (JDict [])
     in case json_get (dict_get_or payload ''serialized'' (JDict [])) ''model'' (JStr ''unknown'') of
          Inl e \<Rightarrow> Inl e
        | Inr model \<Rightarrow>
            (case (json_get usage ''prompt_tokens'' JNull, json_get usage ''completion_tokens'' JNull) of
               (Inr i, Inr j) \<Rightarrow> Inr (model, JDict [(''response'', clip w response)], i, j)
             | (Inl e, _) \<Rightarrow> Inl e
             | (_, Inl e) \<Rightarrow> Inl e))"

definition function_name :: "pydict \<Rightarrow> pydict \<Rightarrow> json result" where
  "function_name payload started =
    (case json_get (dict_get_or payload ''tool'' (JDict [])) ''name'' JNull of
       Inl e \<Rightarrow> Inl e
     | Inr n \<Rightarrow> if truthy n then Inr n
                else json_get (dict_get_or started ''tool'' (JDict [])) ''name'' (JStr ''unknown_function''))"

text \<open>A call of \<open>tool_call\<close> with name, input and output, and what is done with its result.\<close>

definition li_tool :: "world \<Rightarrow> bool \<Rightarrow> string \<Rightarrow> unit op" where
  "li_tool w running name =
     and_then (call_with tool_call_sig 0 [''name'', ''input'', ''output''] (tool_call w name True)) (\<lambda>tc. fire running tc)"

definition li_end :: "world \<Rightarrow> client \<Rightarrow> bool \<Rightarrow> cb_event_type \<Rightarrow> pydict \<Rightarrow> pydict \<Rightarrow> unit op" where
  "li_end w cl running ty payload started =
    (case ty of
       CB_LLM \<Rightarrow> (case llm_arguments w payload of
           Inl e \<Rightarrow> throw e
         | Inr (model, out, i, j) \<Rightarrow> and_then (call_with model_call_sig 0
               [''model'', ''input'', ''output'', ''input_tokens'', ''output_tokens'']
               (model_call w cl (show_value (wo_rt w) model) JNull JNull None [] True True)) (\<lambda>d. fire running d))
     | CB_FUNCTION_CALL \<Rightarrow> (case function_name payload started of
           Inl e \<Rightarrow> throw e | Inr n \<Rightarrow> li_tool w running (show_value (wo_rt w) n))
     | CB_QUERY \<Rightarrow> li_tool w running ''query_engine''
     | CB_RETRIEVE \<Rightarrow> (case retrieved (dict_get_or payload ''nodes'' (JList [])) of
           Inl e \<Rightarrow> throw e | Inr out \<Rightarrow> li_tool w running ''retriever'')
     | CB_SYNTHESIZE \<Rightarrow> li_tool w running ''response_synthesizer''
     | CB_OTHER \<Rightarrow> ok ())"

definition li_event_end :: "world \<Rightarrow> client \<Rightarrow> bool \<Rightarrow> cb_event_type \<Rightarrow> pydict option \<Rightarrow> string \<Rightarrow> pending \<Rightarrow> ctx
    \<Rightarrow> unit result \<times> pending \<times> ctx" where
  "li_event_end w cl running ty payload event_id p c =
    (case li_end w cl running ty (case payload of None \<Rightarrow> [] | Some d \<Rightarrow> d)
         (case map_of p event_id of None \<Rightarrow> [] | Some d \<Rightarrow> d) c of
       (r, c') \<Rightarrow> (r, AList.delete event_id p, c'))"

end
