(* ===== verification/Integration_Properties.thy ===== *)
theory Integration_Properties
  imports Sdk_Properties Integrations
begin

section \<open>Properties of the adapters\<close>

text \<open>
  The callbacks of the adapters are steps of the run like any other call, so that the chain of events holds
  through them; the adapters for CrewAI, AutoGen and LlamaIndex, however, call the run in ways it does
  not support, and raise.
\<close>

subsection \<open>Callbacks as steps of the run\<close>

lemma call_with_op: "run_op f w \<Longrightarrow> run_op (call_with sg n kws f) w"
  unfolding call_with_def by (cases "bind_call sg n kws") (simp_all add: throw_op)

lemma fire_op: "run_op (fire running x) w"
  unfolding fire_def by (rule throw_op)

lemma run_emit_op: "run_op (plain_emit w cl t p) w"
  unfolding run_emit_plain by (rule emit.run_op_axioms)

lemma tool_call_op: "run_op (tool_call w name redact) w"
proof (rule run_opI)
  fix c :: ctx
  show "run_step w c (snd (tool_call w name redact c))"
    using wire_step [of c "sdk_tick (snd c)" w] by (simp add: tool_call_def Let_def side_calls_tick sdk_tick_def)
qed

lemmas adapter_ops = then_op call_with_op fire_op run_emit_op tool_call_op state_change_op model_call_op ok_op throw_op

lemma option_op: "(\<And>f. x = Some f \<Longrightarrow> run_op (g f) w) \<Longrightarrow> run_op (case x of None \<Rightarrow> ok v | Some f \<Rightarrow> g f) w"
  by (cases x) (simp_all add: ok_op)

lemma task_callback_op:
  assumes "\<And>f. original = Some f \<Longrightarrow> run_op (f output) w"
  shows "run_op (task_callback w running desc original output) w"
  unfolding task_callback_def using assms by (intro adapter_ops option_op) simp

lemma wrapped_run_op: "run_op (orig args) w \<Longrightarrow> run_op (wrapped_run w running orig name args) w"
  unfolding wrapped_run_def by (intro adapter_ops)

lemma patched_kickoff_op:
  "run_op (original args) w \<Longrightarrow> run_op (patched_kickoff w cl running i original args) w"
  unfolding patched_kickoff_def by (intro adapter_ops)

lemma patched_generate_op: "run_op (original args) w \<Longrightarrow> run_op (patched_generate w running name original args) w"
  unfolding patched_generate_def by (intro adapter_ops)

lemma reply_hook_op: "run_op (autogen_reply_hook w cl running messages sender) w"
  unfolding autogen_reply_hook_def by (intro if_op adapter_ops)

lemma li_tool_op: "run_op (li_tool w running name) w"
  unfolding li_tool_def by (intro adapter_ops)

lemma sum_op: "(\<And>x. run_op (g x) w) \<Longrightarrow> run_op (case v of Inl e \<Rightarrow> throw e | Inr x \<Rightarrow> g x) w"
  by (cases v) (simp_all add: throw_op)

lemma li_end_op: "run_op (li_end w cl running ty payload started) w"
proof (cases ty)
  case CB_LLM
  have "run_op (case x of (model, out, i, j) \<Rightarrow> and_then (call_with model_call_sig 0 kws (model_call w cl (f model) JNull JNull None [] True True))
      (\<lambda>d. fire running d)) w" for x :: "json \<times> json \<times> json \<times> json" and f kws
    by (cases x) (simp, intro adapter_ops)
  then show ?thesis unfolding li_end_def CB_LLM cb_event_type.case by (rule sum_op)
qed (simp_all add: li_end_def sum_op li_tool_op ok_op)

lemma temporal_op: "run_op (attach_temporal_metadata w cl info wid n aid) w"
proof (rule run_opI)
  fix c :: ctx
  let ?m = "temporal_metadata info wid n aid" and ?ro = "\<lambda>m. (fst c)\<lparr>ro_metadata := m\<rparr>"
  have s: "run_step w c (?ro m, snd c)" for m
    by (rule quiet_step) (simp_all add: same_identity_def carries_same)
  have "run_step w c' (snd (and_then (plain_emit w cl t p) (\<lambda>d. ok ()) c'))" for t p c'
    by (intro run_opD adapter_ops)
  from run_step_trans [OF s this] show "run_step w c (snd (attach_temporal_metadata w cl info wid n aid c))"
    by (simp add: attach_temporal_metadata_def Let_def run_step_refl)
qed

text \<open>The callbacks, with the arguments they are given.\<close>

datatype hook =
    OnLlmStart pydict json
  | OnLlmEnd "json option" string
  | OnLlmError string string
  | OnToolStart pydict string
  | OnToolEnd json
  | OnToolError string string
  | OnRunStarted pydict
  | OnRunCompleted pydict
  | OnToolInvocation string json json json
  | OnHandoff string string pydict
  | OnGuardrail string json
  | OnTemporal workflow_info "string option" "int option" "string option"
  | OnLlamaEnd bool cb_event_type pydict pydict
  | OnReply bool "json list" "string option"
  | OnCall api

fun hook_step :: "world \<Rightarrow> client \<Rightarrow> hook \<Rightarrow> ctx \<Rightarrow> ctx" where
  "hook_step w cl (OnLlmStart s p) c = snd (on_llm_start w cl s p c)"
| "hook_step w cl (OnLlmEnd g s) c = snd (on_llm_end w cl g s c)"
| "hook_step w cl (OnLlmError n m) c = snd (on_llm_error w cl n m c)"
| "hook_step w cl (OnToolStart s i) c = snd (on_tool_start w cl s i c)"
| "hook_step w cl (OnToolEnd v) c = snd (on_tool_end w cl v c)"
| "hook_step w cl (OnToolError n m) c = snd (on_tool_error w cl n m c)"
| "hook_step w cl (OnRunStarted d) c = snd (on_run_started w cl d c)"
| "hook_step w cl (OnRunCompleted d) c = snd (on_run_completed w cl d c)"
| "hook_step w cl (OnToolInvocation n a v e) c = snd (on_tool_invocation w cl n a v e c)"
| "hook_step w cl (OnHandoff s t d) c = snd (on_handoff w cl s t d c)"
| "hook_step w cl (OnGuardrail i v) c = snd (on_guardrail w cl i v c)"
| "hook_step w cl (OnTemporal i wid n aid) c = snd (attach_temporal_metadata w cl i wid n aid c)"
| "hook_step w cl (OnLlamaEnd r ty p st) c = snd (li_end w cl r ty p st c)"
| "hook_step w cl (OnReply r ms s) c = snd (autogen_reply_hook w cl r ms s c)"
| "hook_step w cl (OnCall call) c = perform w cl call c"

text \<open>Callbacks leave the numbers to the run.\<close>

fun numbered_hook :: "hook \<Rightarrow> bool" where
  "numbered_hook (OnCall call) = numbered_call call"
| "numbered_hook h = True"

lemma hook_step_run: "run_step_if (numbered_hook h) w c (hook_step w cl h c)"
  by (cases h) (simp_all add: on_llm_start_def on_llm_end_def on_llm_error_def on_tool_start_def on_tool_end_def
      on_tool_error_def on_run_started_def on_run_completed_def on_tool_invocation_def on_handoff_def on_guardrail_def
      run_opD run_emit_op temporal_op li_end_op reply_hook_op perform_step)

lemma hooks_run: "run_step_if (\<forall>h \<in> set hooks. numbered_hook h) w c (fold (hook_step w cl) hooks c)"
  by (rule fold_steps [OF hook_step_run])

text \<open>
  C11: Whatever callbacks the frameworks make and whatever calls the user makes in between, in any order and
  whether they return or raise: the events of a new run form one hash chain, and are, in order, those that were sent
  followed by those still in the buffer. Their idempotency keys are distinct unless a call of \<open>emit\<close> gives an event
  a step number of its own.
\<close>

theorem adapters_keep_chain:
  "\<exists>events out. sdk_linked (wo_rt w) None events
     \<and> ((\<forall>h \<in> set hooks. numbered_hook h) \<longrightarrow> distinct (map sdk_key events))
     \<and> events = out @ ro_buffer (fst (fold (hook_step w cl) hooks (new_run cl rid agent version env meta trace, st)))
     \<and> (\<forall>d \<in> set out. sent_since st (snd (fold (hook_step w cl) hooks (new_run cl rid agent version env meta trace, st))) d)"
proof -
  let ?ro = "new_run cl rid agent version env meta trace"
  let ?c = "fold (hook_step w cl) hooks (?ro, st)"
  have ro: "ro_buffer ?ro = []" "ro_prev ?ro = None" by (simp_all add: new_run_def)
  from hooks_run [of hooks w "(?ro, st)" cl] obtain new out where
    *: "new_events (wo_rt w) ?ro (fst ?c) new" "ro_buffer ?ro @ new = out @ ro_buffer (fst ?c)"
      "\<forall>d \<in> set out. sent_since st (snd ?c) d" "(\<forall>h \<in> set hooks. numbered_hook h) \<longrightarrow> numbered ?ro (fst ?c) new"
    unfolding run_step_if_def run_makes_if_def fst_conv snd_conv by blast
  from *(1) have "sdk_linked (wo_rt w) None new" by (simp add: new_events_def ro)
  moreover have "(\<forall>h \<in> set hooks. numbered_hook h) \<longrightarrow> distinct (map sdk_key new)"
    using new_events_keys [OF *(1)] *(4) by blast
  ultimately show ?thesis using *(2,3) by (auto simp: ro)
qed

lemma adapters_keep_chain_witness:
  "\<exists>events. sdk_linked demo_rt None events \<and> distinct (map sdk_key events)
     \<and> set (ro_buffer (fst (fold (hook_step (answering 200 (JDict [])) demo_client) [OnToolStart [] ''query'', OnCall ApiCommit] (sdk_run, fresh_sdk))))
       \<subseteq> set events"
  using adapters_keep_chain [of "answering 200 (JDict [])" "[OnToolStart [] ''query'', OnCall ApiCommit]" demo_client "''run_1''"
    "''agent''" None None "[]" None fresh_sdk]
  by (auto simp: sdk_run_def answering_def)

subsection \<open>Callbacks that raise\<close>

lemma and_then_raises: "(\<And>x c1. f c = (Inr x, c1) \<Longrightarrow> \<exists>e. fst (g x c1) = Inl e) \<Longrightarrow> \<exists>e. fst (and_then f g c) = Inl e"
  by (auto simp: and_then_def split: prod.split sum.split)

lemma fire_raises: "\<exists>e. fst (and_then (fire running x) g c) = Inl e"
  by (simp add: and_then_def fire_def throw_def)

lemma tool_call_refused:
  "''output'' \<in> set kws \<Longrightarrow> \<exists>m. and_then (call_with tool_call_sig n kws f) g c = (Inl (TypeError m), c)"
  by (auto simp: call_with_def bind_call_def tool_call_sig_def and_then_def throw_def find_None_iff split: option.split)

lemma li_tool_refused: "\<exists>m. li_tool w running name c = (Inl (TypeError m), c)"
  unfolding li_tool_def by (rule tool_call_refused) simp

lemma li_end_raises:
  assumes "ty \<noteq> CB_OTHER"
  shows "\<exists>e. li_end w cl running ty payload started c = (Inl e, c)"
proof (cases ty)
  case CB_LLM
  have "\<exists>m. and_then (call_with model_call_sig 0 [''model'', ''input'', ''output'', ''input_tokens'', ''output_tokens''] f) g c = (Inl (TypeError m), c)"
    for f :: "pydict op" and g :: "pydict \<Rightarrow> unit op"
    by (simp add: call_with_def bind_call_def model_call_sig_def and_then_def throw_def)
  then show ?thesis by (auto simp: li_end_def CB_LLM throw_def split: sum.split)
next
  case CB_FUNCTION_CALL
  have "\<exists>e. (case v of Inl e \<Rightarrow> throw e | Inr n \<Rightarrow> li_tool w running (f n)) c = (Inl e, c)" for v :: "json result" and f
    using li_tool_refused [of w running _ c] by (cases v) (auto simp: throw_def)
  then show ?thesis by (simp add: li_end_def CB_FUNCTION_CALL)
next
  case CB_RETRIEVE
  have "\<exists>e. (case v of Inl e \<Rightarrow> throw e | Inr n \<Rightarrow> li_tool w running ''retriever'') c = (Inl e, c)" for v :: "json result"
    using li_tool_refused [of w running "''retriever''" c] by (cases v) (auto simp: throw_def)
  then show ?thesis by (simp add: li_end_def CB_RETRIEVE)
next
  case CB_QUERY
  then show ?thesis using li_tool_refused [of w running _ c] by (auto simp: li_end_def)
next
  case CB_SYNTHESIZE
  then show ?thesis using li_tool_refused [of w running _ c] by (auto simp: li_end_def)
qed (simp add: assms)

lemma patched_kickoff_raises: "\<exists>e. fst (patched_kickoff w cl running i original args c) = Inl e"
  unfolding patched_kickoff_def by (intro and_then_raises fire_raises)

lemma patched_kickoff_state:
  assumes "original args c = (Inr res, c1)"
  shows "snd (patched_kickoff w cl running i original args c) = snd (state_change w cl ''crew_output'' i (JDict [(''status'', JStr ''running'')])
         (JDict [(''status'', JStr ''completed''), (''output'', clip w res)]) (Some ''crew.kickoff completed'') True True c1)"
  using assms by (simp add: patched_kickoff_def and_then_def call_with_def bind_call_def state_change_sig_def fire_def throw_def
      split: prod.split sum.split)

text \<open>A function whose result is given to \<open>tool_call\<close> under a keyword that it does not have.\<close>

lemma refused_after:
  fixes orig :: "'a op"
  assumes "''output'' \<in> set kws"
  shows "(\<exists>e. fst (and_then orig (\<lambda>res. and_then (call_with tool_call_sig n kws f) (g res)) c) = Inl e)
    \<and> snd (and_then orig (\<lambda>res. and_then (call_with tool_call_sig n kws f) (g res)) c) = snd (orig c)"
proof -
  obtain r c1 where Pair: "orig c = (r, c1)" by (cases "orig c")
  show ?thesis
  proof (cases r)
    case (Inl e)
    with Pair show ?thesis by (simp add: and_then_def)
  next
    case (Inr res)
    obtain m where "and_then (call_with tool_call_sig n kws f) (g res) c1 = (Inl (TypeError m), c1)"
      using tool_call_refused [OF assms] by blast
    with Pair Inr show ?thesis by (simp add: and_then_def [of orig])
  qed
qed

lemma wrapped_run_raises:
  "(\<exists>e. fst (wrapped_run w running orig name args c) = Inl e) \<and> snd (wrapped_run w running orig name args c) = snd (orig args c)"
  unfolding wrapped_run_def by (rule refused_after) simp

lemma patched_generate_raises:
  "(\<exists>e. fst (patched_generate w running name original args c) = Inl e)
   \<and> snd (patched_generate w running name original args c) = snd (original args c)"
  unfolding patched_generate_def by (rule refused_after) simp

lemma wrap_tool_function:
  assumes "tool_function (wrap_tool w running i to) = Some f"
  shows "\<exists>g name. tool_function to = Some g \<and> f = wrapped_run w running g name"
proof (cases "tool_function to")
  case None
  with assms show ?thesis by (simp add: wrap_tool_def Let_def)
next
  case (Some g)
  with assms show ?thesis by (cases "to__run to") (auto simp: wrap_tool_def Let_def tool_function_def split: option.splits)
qed

text \<open>
  C34: The adapters for CrewAI, AutoGen and LlamaIndex raise in every callback that is to record something. A crew the
  listener is attached to never completes: its kickoff raises, after a completed original one with the event of the completion
  recorded; the function of each wrapped tool raises after the original ran, with what this did to the run left in place; the
  callback of each task raises before the original callback is called. An ended LlamaIndex event of one of the five types that
  are captured raises and records nothing, and so does an AutoGen message; the reply function of an AutoGen agent that takes no
  hooks raises after the original ran.
\<close>

theorem adapters_raise:
  "(\<exists>e. fst (cr_kickoff (attach_crew w cl running cr) args c) = Inl e)
   \<and> (\<forall>res c1. cr_kickoff cr args c = (Inr res, c1) \<longrightarrow>
        snd (cr_kickoff (attach_crew w cl running cr) args c) = snd (state_change w cl ''crew_output'' (cr_id cr)
          (JDict [(''status'', JStr ''running'')]) (JDict [(''status'', JStr ''completed''), (''output'', clip w res)])
          (Some ''crew.kickoff completed'') True True c1))
   \<and> (\<forall>tools \<in> set (cr_agents (attach_crew w cl running cr)). \<forall>to \<in> set tools. \<forall>f. tool_function to = Some f \<longrightarrow>
        (\<exists>e. fst (f args c) = Inl e) \<and> (\<exists>g. (\<exists>tools' \<in> set (cr_agents cr). \<exists>to' \<in> set tools'. tool_function to' = Some g) \<and> snd (f args c) = snd (g args c)))
   \<and> (\<forall>ta \<in> set (cr_tasks (attach_crew w cl running cr)). \<exists>f e. ta_callback ta = Some f \<and> f output c = (Inl e, c))
   \<and> (ty = CB_OTHER \<or> (\<exists>e. li_event_end w cl running ty payload event_id p c = (Inl e, AList.delete event_id p, c)))
   \<and> (messages = [] \<or> (\<exists>e. autogen_reply_hook w cl running messages sender c = (Inl e, c)))
   \<and> (\<forall>f. \<not> ag_registers ag \<and> ag_generate (attach_autogen w cl running ag) = Some f \<longrightarrow>
        (\<exists>e. fst (f args c) = Inl e) \<and> (\<exists>g. ag_generate ag = Some g \<and> snd (f args c) = snd (g args c)))"
proof (intro conjI allI impI ballI)
  show "\<exists>e. fst (cr_kickoff (attach_crew w cl running cr) args c) = Inl e"
    by (simp add: attach_crew_def patched_kickoff_raises)
  show "snd (cr_kickoff (attach_crew w cl running cr) args c) = snd (state_change w cl ''crew_output'' (cr_id cr)
          (JDict [(''status'', JStr ''running'')]) (JDict [(''status'', JStr ''completed''), (''output'', clip w res)])
          (Some ''crew.kickoff completed'') True True c1)" if "cr_kickoff cr args c = (Inr res, c1)" for res c1
    using patched_kickoff_state [of "cr_kickoff cr" args c res c1, OF that] by (simp add: attach_crew_def)
next
  fix tools to f
  assume "tools \<in> set (cr_agents (attach_crew w cl running cr))" "to \<in> set tools" and f: "tool_function to = Some f"
  then obtain tools' i to' where t: "tools' \<in> set (cr_agents cr)" "(i, to') \<in> set (enumerate 0 tools')" "to = wrap_tool w running i to'"
    by (auto simp: attach_crew_def)
  from f t(3) obtain g name where g: "tool_function to' = Some g" "f = wrapped_run w running g name"
    using wrap_tool_function [of w running i to' f] by blast
  from t(2) have to': "to' \<in> set tools'" by (auto simp: in_set_enumerate_eq)
  show "\<exists>e. fst (f args c) = Inl e" using wrapped_run_raises g(2) by blast
  show "\<exists>g. (\<exists>tools' \<in> set (cr_agents cr). \<exists>to' \<in> set tools'. tool_function to' = Some g) \<and> snd (f args c) = snd (g args c)"
    using t(1) to' g wrapped_run_raises by blast
next
  fix ta
  assume "ta \<in> set (cr_tasks (attach_crew w cl running cr))"
  then obtain desc orig where "ta_callback ta = Some (task_callback w running desc orig)"
    by (auto simp: attach_crew_def wrap_task_def)
  moreover have "\<exists>m. task_callback w running desc orig output c = (Inl (TypeError m), c)"
    unfolding task_callback_def by (rule tool_call_refused) simp
  ultimately show "\<exists>f e. ta_callback ta = Some f \<and> f output c = (Inl e, c)" by blast
next
  show "ty = CB_OTHER \<or> (\<exists>e. li_event_end w cl running ty payload event_id p c = (Inl e, AList.delete event_id p, c))"
  proof (cases "ty = CB_OTHER")
    case False
    then obtain e where "li_end w cl running ty (case payload of None \<Rightarrow> [] | Some d \<Rightarrow> d)
         (case map_of p event_id of None \<Rightarrow> [] | Some d \<Rightarrow> d) c = (Inl e, c)" using li_end_raises by blast
    then show ?thesis by (simp add: li_event_end_def)
  qed simp
  show "messages = [] \<or> (\<exists>e. autogen_reply_hook w cl running messages sender c = (Inl e, c))"
    by (auto simp: autogen_reply_hook_def and_then_def call_with_def bind_call_def emit_sig_def throw_def)
next
  fix f
  assume "\<not> ag_registers ag \<and> ag_generate (attach_autogen w cl running ag) = Some f"
  then obtain g name where g: "ag_generate ag = Some g" "f = patched_generate w running name g"
    by (auto simp: attach_autogen_def split: option.splits if_splits)
  show "\<exists>e. fst (f args c) = Inl e" using patched_generate_raises g(2) by blast
  show "\<exists>g. ag_generate ag = Some g \<and> snd (f args c) = snd (g args c)" using patched_generate_raises g by blast
qed

definition demo_crew :: crew where
  "demo_crew = \<lparr>cr_id = ''1'', cr_tasks = [\<lparr>ta_description = None, ta_callback = None\<rparr>],
     cr_agents = [[\<lparr>to_name = None, to__run = None, to_run = Some ok\<rparr>]], cr_kickoff = ok\<rparr>"

lemma adapters_raise_witness:
  "cr_kickoff demo_crew JNull (sdk_run, fresh_sdk) = (Inr JNull, (sdk_run, fresh_sdk))
   \<and> (\<exists>e. fst (cr_kickoff (attach_crew (answering 200 JNull) demo_client False demo_crew) JNull (sdk_run, fresh_sdk)) = Inl e)
   \<and> (\<exists>f e. ta_callback (hd (cr_tasks (attach_crew (answering 200 JNull) demo_client False demo_crew))) = Some f
        \<and> f JNull (sdk_run, fresh_sdk) = (Inl e, (sdk_run, fresh_sdk)))"
proof -
  let ?cr = "attach_crew (answering 200 JNull) demo_client False demo_crew"
  have "hd (cr_tasks ?cr) \<in> set (cr_tasks ?cr)" by (simp add: attach_crew_def demo_crew_def)
  moreover have "cr_kickoff demo_crew JNull (sdk_run, fresh_sdk) = (Inr JNull, (sdk_run, fresh_sdk))"
    by (simp add: demo_crew_def ok_def)
  ultimately show ?thesis
    using adapters_raise [of "answering 200 JNull" demo_client False demo_crew JNull "(sdk_run, fresh_sdk)" JNull CB_OTHER None "[]" "[]" "[]" None
      "\<lparr>ag_name = None, ag_registers = False, ag_hooks = [], ag_generate = Some ok\<rparr>"]
    by blast
qed

subsection \<open>Trace identifiers\<close>

lemma length_hex_str: "0 < k \<Longrightarrow> n < 16 ^ k \<Longrightarrow> length (hex_str n) \<le> k"
proof (induction k arbitrary: n)
  case 0
  then show ?case by simp
next
  case (Suc k)
  show ?case
  proof (cases "n < 16")
    case True
    then show ?thesis by (subst hex_str.simps) simp
  next
    case False
    then have "0 < k" using Suc.prems by (cases k) auto
    moreover have "n div 16 < 16 ^ k" using Suc.prems by (simp add: less_mult_imp_div_less)
    ultimately have "length (hex_str (n div 16)) \<le> k" by (rule Suc.IH)
    with False show ?thesis by (subst hex_str.simps) simp
  qed
qed

text \<open>Identifiers in range have the widths of the W3C trace context.\<close>

lemma trace_id_widths:
  assumes "t < 2 ^ 128" "n < 2 ^ 64" "current_trace_ids (Some (True, t, n)) = (Some a, Some b, p)"
  shows "length a = 32 \<and> length b = 16"
proof -
  have "length (hex_str t) \<le> 32" using length_hex_str [of 32 t] assms(1) by simp
  moreover have "length (hex_str n) \<le> 16" using length_hex_str [of 16 n] assms(2) by simp
  ultimately show ?thesis using assms(3) by (auto simp: current_trace_ids_def hex_format_def)
qed

end
