(* ===== verification/Instances.thy ===== *)
theory Instances
  imports Auth
begin

section \<open>The database of a process\<close>

text \<open>
  The class \<open>Database\<close> of \<open>storage/db.py\<close> keeps one instance per process, which \<open>get_db\<close> gives to whoever asks.
  A URL stands for the database behind it; that a URL is \<open>volatile\<close> says that its tables end with their engine, as
  those of SQLite in memory do. Making an engine creates the missing tables and bootstraps them. This shows what a
  restart does to a database that is in use.
\<close>

record process =
  pc_instance :: "string option"
  pc_tables :: "string \<Rightarrow> database"

definition connect :: "runtime \<Rightarrow> settings \<Rightarrow> (string \<Rightarrow> bool) \<Rightarrow> datetime \<Rightarrow> string \<Rightarrow> process \<Rightarrow> string result \<times> process" where
  "connect rt cfg volatile now url pc =
    (case bootstrap rt cfg now (if volatile url then empty_db else pc_tables pc url) of
       Inl e \<Rightarrow> (Inl e, pc)
     | Inr db \<Rightarrow> (Inr url, pc\<lparr>pc_tables := (pc_tables pc)(url := db)\<rparr>))"

definition reset :: "runtime \<Rightarrow> settings \<Rightarrow> (string \<Rightarrow> bool) \<Rightarrow> string \<Rightarrow> datetime \<Rightarrow> string option \<Rightarrow> process \<Rightarrow> string result \<times> process" where
  "reset rt cfg volatile database_url now url pc =
    (case connect rt cfg volatile now (str_or url database_url) pc of
       (Inl e, pc') \<Rightarrow> (Inl e, pc')
     | (Inr u, pc') \<Rightarrow> (Inr u, pc'\<lparr>pc_instance := Some u\<rparr>))"

definition database_instance :: "runtime \<Rightarrow> settings \<Rightarrow> (string \<Rightarrow> bool) \<Rightarrow> string \<Rightarrow> datetime \<Rightarrow> string option \<Rightarrow> process \<Rightarrow> string result \<times> process" where
  "database_instance rt cfg volatile database_url now url pc =
    (case pc_instance pc of
       Some u \<Rightarrow> (Inr u, pc)
     | None \<Rightarrow> (case connect rt cfg volatile now (str_or url database_url) pc of
           (Inl e, pc') \<Rightarrow> (Inl e, pc')
         | (Inr u, pc') \<Rightarrow> (Inr u, pc'\<lparr>pc_instance := Some u\<rparr>)))"

definition get_db :: "runtime \<Rightarrow> settings \<Rightarrow> (string \<Rightarrow> bool) \<Rightarrow> string \<Rightarrow> datetime \<Rightarrow> process \<Rightarrow> string result \<times> process" where
  "get_db rt cfg volatile database_url now pc = database_instance rt cfg volatile database_url now None pc"

text \<open>A process that starts: no instance, and whatever the databases held before.\<close>

definition started :: "(string \<Rightarrow> database) \<Rightarrow> process" where
  "started tables = \<lparr>pc_instance = None, pc_tables = tables\<rparr>"

subsection \<open>What a restart keeps\<close>

text \<open>A key that opened the database opens it after the bootstrap, since rows are only added behind it.\<close>

lemma bootstrap_principal:
  assumes "bootstrap rt cfg now db = Inr db'" "current_principal rt auth db = Inr p"
  shows "current_principal rt auth db' = Inr p"
proof -
  have "key_by_hash db' h = Some row" if "key_by_hash db h = Some row" for h row
    using that by (simp add: key_by_hash_def bootstrap_tables(5) [OF assms(1)] find_append)
  with assms(2) show ?thesis
    by (auto simp: current_principal_def Let_def split: if_splits option.splits prod.splits)
qed

lemma get_db_started:
  "get_db rt cfg volatile database_url now (started tables) =
    (case bootstrap rt cfg now (if volatile database_url then empty_db else tables database_url) of
       Inl e \<Rightarrow> (Inl e, started tables)
     | Inr db \<Rightarrow> (Inr database_url, \<lparr>pc_instance = Some database_url, pc_tables = tables(database_url := db)\<rparr>))"
  by (simp add: get_db_def database_instance_def connect_def started_def split: sum.split)

end
