(* ===== verification/Configuration.thy ===== *)
theory Configuration
  imports Sdk_Calls Auth
begin

section \<open>Configuration of the collector and of the SDK\<close>

text \<open>
  \<open>config.py\<close> of the collector, which reads its settings from environment variables, and the
  constructors of the SDK's client and transport in \<open>client.py\<close> and \<open>transport.py\<close>, which fall back
  to environment variables for what the caller leaves out. The environment is a function from names to
  values.
\<close>

type_synonym environ = "string \<Rightarrow> string option"

text \<open>\<open>os.environ.get(name, default)\<close>\<close>

definition getenv :: "environ \<Rightarrow> string \<Rightarrow> string \<Rightarrow> string" where
  "getenv env name v0 = (case env name of None \<Rightarrow> v0 | Some v \<Rightarrow> v)"

subsection \<open>Settings of the collector\<close>

text \<open>The characters below 256 that \<open>strip\<close> removes.\<close>

definition is_blank :: "char \<Rightarrow> bool" where
  "is_blank c = (let n = of_char c :: nat in (9 \<le> n \<and> n \<le> 13) \<or> (28 \<le> n \<and> n \<le> 32) \<or> n = 133 \<or> n = 160)"

definition strip :: "string \<Rightarrow> string" where
  "strip s = rev (dropWhile is_blank (rev (dropWhile is_blank s)))"

text \<open>\<open>s.split(sep)\<close> at a character.\<close>

fun split_at :: "char \<Rightarrow> string \<Rightarrow> string list" where
  "split_at sep [] = [[]]"
| "split_at sep (c # cs) =
    (if c = sep then [] # split_at sep cs
     else (case split_at sep cs of p # ps \<Rightarrow> (c # p) # ps | [] \<Rightarrow> [[c]]))"

definition split_keys :: "string \<Rightarrow> string list" where
  "split_keys v = map strip (filter (\<lambda>p. strip p \<noteq> []) (split_at (CHR '','') v))"

record environment_settings =
  es_database_url :: string
  es_object_store_dir :: string
  es_jwt_secret :: string
  es_encryption_key :: string
  es_public_url :: string
  es_bootstrap_api_keys :: "string list"
  es_bootstrap_org_id :: string
  es_bootstrap_project_id :: string
  es_policies_dir :: "string option"
  es_opa_url :: "string option"
  es_enable_dashboard :: bool
  es_engine_backend :: string
  es_rocksdb_path :: string
  es_schema_version :: string

definition load_settings :: "environ \<Rightarrow> environment_settings" where
  "load_settings env = \<lparr>
     es_database_url = getenv env ''CONTROLDB_DATABASE_URL'' ''sqlite:///./controldb.sqlite'',
     es_object_store_dir = getenv env ''CONTROLDB_OBJECT_STORE_DIR'' ''./controldb_artifacts'',
     es_jwt_secret = getenv env ''CONTROLDB_JWT_SECRET'' ''dev-jwt-secret'',
     es_encryption_key = getenv env ''CONTROLDB_ENCRYPTION_KEY'' ''dev-encryption-key'',
     es_public_url = getenv env ''CONTROLDB_PUBLIC_URL'' ''http://localhost:8080'',
     es_bootstrap_api_keys = split_keys (getenv env ''CONTROLDB_BOOTSTRAP_API_KEYS'' ''test-key''),
     es_bootstrap_org_id = getenv env ''CONTROLDB_BOOTSTRAP_ORG_ID'' ''org_default'',
     es_bootstrap_project_id = getenv env ''CONTROLDB_BOOTSTRAP_PROJECT_ID'' ''proj_default'',
     es_policies_dir = env ''CONTROLDB_POLICIES_DIR'',
     es_opa_url = env ''CONTROLDB_OPA_URL'',
     es_enable_dashboard = (getenv env ''CONTROLDB_ENABLE_DASHBOARD'' ''1'' = ''1''),
     es_engine_backend = getenv env ''CONTROLDB_ENGINE_BACKEND'' ''sqlalchemy'',
     es_rocksdb_path = getenv env ''CONTROLDB_ROCKSDB_PATH'' ''./controldb_rocksdb'',
     es_schema_version = ''2026-05-01''\<rparr>"

text \<open>The settings the modelled services read.\<close>

definition service_settings :: "environment_settings \<Rightarrow> settings" where
  "service_settings es = \<lparr>cfg_org = es_bootstrap_org_id es, cfg_project = es_bootstrap_project_id es,
     cfg_keys = es_bootstrap_api_keys es, cfg_schema_version = es_schema_version es,
     cfg_object_store = es_object_store_dir es\<rparr>"

subsection \<open>The SDK's transport and client\<close>

record connection =
  co_base_url :: string
  co_headers :: "(string \<times> string) list"
  co_transport :: transport

definition rstrip_char :: "char \<Rightarrow> string \<Rightarrow> string" where
  "rstrip_char c s = rev (dropWhile (\<lambda>x. x = c) (rev s))"

text \<open>\<open>Transport.__init__\<close> with the defaults for the number of attempts and the pauses between them.\<close>

definition new_transport :: "string \<Rightarrow> string \<Rightarrow> bool \<Rightarrow> string option \<Rightarrow> connection" where
  "new_transport base_url api_key fail_open spool_path =
     \<lparr>co_base_url = rstrip_char (CHR ''/'') base_url,
      co_headers = [(''Authorization'', ''Bearer '' @ api_key), (''User-Agent'', ''controldb-python/0.1''),
        (''Content-Type'', ''application/json'')],
      co_transport = \<lparr>tc_max_retries = 4, tc_backoff_initial = 1 / 5, tc_backoff_max = 5, tc_fail_open = fail_open,
        tc_spooling = str_truthy spool_path\<rparr>\<rparr>"

text \<open>A rule as it is written in the configuration: its field, its expression, its mode.\<close>

record raw_rule =
  rr_field :: "string option"
  rr_regex :: "string option"
  rr_mode :: "string option"

definition rule_from_dict :: "(string \<Rightarrow> (string \<Rightarrow> bool) result) \<Rightarrow> raw_rule \<Rightarrow> rule result" where
  "rule_from_dict re_compile raw = RedactionRule re_compile (rr_field raw) (rr_regex raw)
     (case rr_mode raw of None \<Rightarrow> ''redact'' | Some m \<Rightarrow> m)"

fun rules_from :: "(string \<Rightarrow> (string \<Rightarrow> bool) result) \<Rightarrow> raw_rule list \<Rightarrow> rule list result" where
  "rules_from re_compile [] = Inr []"
| "rules_from re_compile (raw # raws) =
    (case rule_from_dict re_compile raw of
       Inl e \<Rightarrow> Inl e
     | Inr r \<Rightarrow> (case rules_from re_compile raws of Inl e \<Rightarrow> Inl e | Inr rs \<Rightarrow> Inr (r # rs)))"

record client_args =
  ca_api_key :: "string option"
  ca_project :: "string option"
  ca_environment :: string
  ca_org_id :: "string option"
  ca_base_url :: "string option"
  ca_mode :: string
  ca_rules :: "raw_rule list"
  ca_callbacks :: "(json \<Rightarrow> json) list"
  ca_batch_size :: nat
  ca_fail_open :: bool
  ca_spool_path :: "string option"
  ca_transport :: "connection option"

text \<open>\<open>value or os.environ.get(name)\<close>\<close>

definition or_env :: "environ \<Rightarrow> string option \<Rightarrow> string \<Rightarrow> string option" where
  "or_env env v name = (if str_truthy v then v else env name)"

definition new_client :: "(string \<Rightarrow> (string \<Rightarrow> bool) result) \<Rightarrow> environ \<Rightarrow> client_args \<Rightarrow> (client \<times> connection) result" where
  "new_client re_compile env a =
    (let api_key = or_env env (ca_api_key a) ''CONTROLDB_API_KEY''; project = or_env env (ca_project a) ''CONTROLDB_PROJECT'' in
     if \<not> str_truthy api_key then Inl (ValidationError ''api_key is required (or set CONTROLDB_API_KEY)'')
     else if \<not> str_truthy project then Inl (ValidationError ''project is required'')
     else (case payload_mode_of (ca_mode a) of
       Inl e \<Rightarrow> Inl e
     | Inr mode \<Rightarrow>
         (case rules_from re_compile (ca_rules a) of
            Inl e \<Rightarrow> Inl e
          | Inr rules \<Rightarrow>
              (let base = (if str_truthy (ca_base_url a) then the (ca_base_url a)
                           else getenv env ''CONTROLDB_URL'' ''http://localhost:8080'');
                   co = (case ca_transport a of Some co \<Rightarrow> co
                         | None \<Rightarrow> new_transport base (the api_key) (ca_fail_open a) (ca_spool_path a))
               in Inr (\<lparr>cl_org = str_or (or_env env (ca_org_id a) ''CONTROLDB_ORG_ID'') ''org_default'',
                    cl_project = the project, cl_env = ca_environment a, cl_mode = mode_value mode, cl_rules = rules,
                    cl_callbacks = ca_callbacks a, cl_batch = ca_batch_size a, cl_transport = co_transport co\<rparr>, co)))))"

text \<open>\<open>_atexit_flush\<close>: what is still buffered is flushed, whatever that raises, in the order the runs were opened.\<close>

fun atexit_flush :: "world \<Rightarrow> client \<Rightarrow> run list \<Rightarrow> sdk_state \<Rightarrow> run list \<times> sdk_state" where
  "atexit_flush w cl [] st = ([], st)"
| "atexit_flush w cl (ro # ros) st =
    (let (ro1, st1) = (if ro_buffer ro \<noteq> [] then snd (flush_run w cl (ro, st)) else (ro, st));
         (ros1, st2) = atexit_flush w cl ros st1
     in (ro1 # ros1, st2))"

subsection \<open>Facts\<close>

lemma split_at_comma: "p \<in> set (split_at c s) \<Longrightarrow> c \<notin> set p"
proof (induction s arbitrary: p)
  case Nil
  then show ?case by simp
next
  case (Cons x s)
  then show ?case by (auto split: if_splits list.splits)
qed

lemma strip_set: "set (strip s) \<subseteq> set s"
  unfolding strip_def by (auto dest!: set_dropWhileD)

lemma split_keys_set: "k \<in> set (split_keys v) \<Longrightarrow> k \<noteq> [] \<and> CHR '','' \<notin> set k"
  using split_at_comma [of _ "CHR '',''" v] strip_set by (fastforce simp: split_keys_def)

lemma new_client_Inr:
  assumes "new_client re_compile env a = Inr (cl, co)" "ca_transport a = None"
  shows "\<exists>key. or_env env (ca_api_key a) ''CONTROLDB_API_KEY'' = Some key \<and> key \<noteq> []
    \<and> map_of (co_headers co) ''Authorization'' = Some (''Bearer '' @ key)"
proof -
  obtain key where "or_env env (ca_api_key a) ''CONTROLDB_API_KEY'' = Some key" "key \<noteq> []"
    using assms(1) by (cases "or_env env (ca_api_key a) ''CONTROLDB_API_KEY''") (auto simp: new_client_def Let_def split: if_splits)
  with assms show ?thesis
    by (auto simp: new_client_def Let_def new_transport_def split: if_splits sum.splits)
qed

end
