(* ===== verification/Access_Properties.thy ===== *)
theory Access_Properties
  imports Service_Properties Instances Configuration
begin

section \<open>From the configuration to an accepted request\<close>

text \<open>
  The two halves of the program together: the keys the collector takes from its environment, the header the SDK's
  client builds from its own, and the scopes the endpoints ask for.
\<close>

subsection \<open>Configured keys\<close>

lemma bootstrap_scopes_suffice: "scope_of req = Some (r, a) \<Longrightarrow> pr_scopes p = bootstrap_scopes \<Longrightarrow> require_scope r a p = Inr p"
  by (cases req) (auto simp: require_scope_def scope_ok_def bootstrap_scopes_def)

text \<open>
  C20: A client that takes a key which the collector's environment lists, with nothing but the SDK's
  own transport, sends a header with which every endpoint of a freshly bootstrapped collector handles the
  request, as a principal of the configured organisation and project.
\<close>

theorem configured_key_opens:
  assumes "bootstrap rt (service_settings (load_settings env)) now empty_db = Inr db"
    and "new_client re_compile env' a = Inr (cl, co)" "ca_transport a = None"
    and "or_env env' (ca_api_key a) ''CONTROLDB_API_KEY'' = Some key"
    and "key \<in> set (es_bootstrap_api_keys (load_settings env))" "st_db s = db"
  shows "\<exists>p. pr_org p = es_bootstrap_org_id (load_settings env) \<and> pr_project p = es_bootstrap_project_id (load_settings env)
    \<and> (\<forall>req. scope_of req = None \<or> serve rt dp (map_of (co_headers co) ''Authorization'') req s = handle rt dp p req s)"
proof -
  have h: "key \<noteq> []" "map_of (co_headers co) ''Authorization'' = Some (''Bearer '' @ key)"
    using new_client_Inr [OF assms(2,3)] assms(4) by auto
  have "key \<in> set (cfg_keys (service_settings (load_settings env)))" using assms(5) by (simp add: service_settings_def)
  from bootstrap_keys_open [OF assms(1) this h(1)] obtain p where p: "current_principal rt (Some (''Bearer '' @ key)) db = Inr p"
    "pr_org p = es_bootstrap_org_id (load_settings env)" "pr_project p = es_bootstrap_project_id (load_settings env)"
    "pr_scopes p = bootstrap_scopes" by (auto simp: service_settings_def)
  have "scope_of req = None \<or> serve rt dp (map_of (co_headers co) ''Authorization'') req s = handle rt dp p req s" for req
    using bootstrap_scopes_suffice [of req] p by (auto simp: serve_def h(2) assms(6) split: option.splits)
  with p show ?thesis by blast
qed

definition demo_env :: environ where
  "demo_env = (\<lambda>name. if name = ''CONTROLDB_BOOTSTRAP_API_KEYS'' then Some ''first, second'' else None)"

definition demo_args :: client_args where
  "demo_args = \<lparr>ca_api_key = Some ''second'', ca_project = Some ''proj_default'', ca_environment = ''dev'', ca_org_id = None,
     ca_base_url = None, ca_mode = ''redacted_payload'', ca_rules = [], ca_callbacks = [], ca_batch_size = 16,
     ca_fail_open = False, ca_spool_path = None, ca_transport = None\<rparr>"

lemma demo_env_keys: "es_bootstrap_api_keys (load_settings demo_env) = [''first'', ''second'']"
proof -
  have "split_keys ''first, second'' = [''first'', ''second'']" by code_simp
  then show ?thesis by (simp add: load_settings_def getenv_def demo_env_def)
qed

text \<open>A bootstrap into the empty database succeeds when the keys differ in the first digits of their hashes.\<close>

lemma demo_env_bootstrap: "\<exists>db. bootstrap demo_rt (service_settings (load_settings demo_env)) demo_now empty_db = Inr db"
  by (simp add: bootstrap_def service_settings_def demo_env_keys empty_db_def bootstrap_key_def hash_key_def Let_def)

lemma demo_args_client: "\<exists>cl co. new_client (\<lambda>r. Inr (\<lambda>s. True)) demo_env demo_args = Inr (cl, co)"
proof -
  have "payload_mode_of ''redacted_payload'' = Inr REDACTED_PAYLOAD" by code_simp
  then show ?thesis by (simp add: new_client_def demo_args_def or_env_def Let_def)
qed

lemma configured_key_opens_witness:
  "\<exists>db cl co p. bootstrap demo_rt (service_settings (load_settings demo_env)) demo_now empty_db = Inr db
    \<and> new_client (\<lambda>r. Inr (\<lambda>s. True)) demo_env demo_args = Inr (cl, co) \<and> pr_project p = ''proj_default''
    \<and> serve demo_rt demo_dp (map_of (co_headers co) ''Authorization'') PoliciesList (demo_state\<lparr>st_db := db\<rparr>)
       = handle demo_rt demo_dp p PoliciesList (demo_state\<lparr>st_db := db\<rparr>)"
proof -
  obtain db where db: "bootstrap demo_rt (service_settings (load_settings demo_env)) demo_now empty_db = Inr db"
    using demo_env_bootstrap by blast
  obtain cl co where cl: "new_client (\<lambda>r. Inr (\<lambda>s. True)) demo_env demo_args = Inr (cl, co)"
    using demo_args_client by blast
  have a: "ca_transport demo_args = None" "or_env demo_env (ca_api_key demo_args) ''CONTROLDB_API_KEY'' = Some ''second''"
    by (simp_all add: demo_args_def or_env_def)
  have "''second'' \<in> set (es_bootstrap_api_keys (load_settings demo_env))" by (simp add: demo_env_keys)
  from configured_key_opens [OF db cl a this, of "demo_state\<lparr>st_db := db\<rparr>" demo_dp] obtain p where
    p: "pr_project p = es_bootstrap_project_id (load_settings demo_env)"
    "\<And>req. scope_of req = None \<or> serve demo_rt demo_dp (map_of (co_headers co) ''Authorization'') req (demo_state\<lparr>st_db := db\<rparr>)
      = handle demo_rt demo_dp p req (demo_state\<lparr>st_db := db\<rparr>)" by auto
  from p(1) have "pr_project p = ''proj_default''"
    by (simp add: load_settings_def getenv_def demo_env_def)
  then show ?thesis using db cl p(2) [of PoliciesList]
    by (intro exI [of _ db] exI [of _ cl] exI [of _ co] exI [of _ p]) simp
qed

subsection \<open>A restart\<close>

text \<open>
  C22: A process that is started on a database in use, with whatever tenant and keys in its environment,
  keeps every run, event, approval and export, and every key: what opened the database before still does, also when
  its key is gone from the environment. The instance is then the one every caller gets, and a further start with the same settings changes nothing.
\<close>

theorem restart_keeps_data:
  assumes "get_db rt cfg volatile url now (started tables) = (Inr u, pc)" "\<not> volatile url"
  shows "u = url \<and> (\<forall>v. v \<noteq> url \<longrightarrow> pc_tables pc v = tables v)
    \<and> db_runs (pc_tables pc url) = db_runs (tables url) \<and> db_events (pc_tables pc url) = db_events (tables url)
    \<and> db_approvals (pc_tables pc url) = db_approvals (tables url) \<and> db_exports (pc_tables pc url) = db_exports (tables url)
    \<and> (\<forall>auth p. current_principal rt auth (tables url) = Inr p \<longrightarrow> current_principal rt auth (pc_tables pc url) = Inr p)
    \<and> (\<forall>cfg' now' url'. database_instance rt cfg' volatile url now' url' pc = (Inr url, pc))
    \<and> (\<forall>now'. get_db rt cfg volatile url now' (started (pc_tables pc)) = (Inr url, pc))"
proof -
  from assms obtain db where boot: "bootstrap rt cfg now (tables url) = Inr db" and pc: "u = url"
    "pc = \<lparr>pc_instance = Some url, pc_tables = tables(url := db)\<rparr>"
    by (auto simp: get_db_started split: sum.splits)
  have "get_db rt cfg volatile url now' (started (pc_tables pc)) = (Inr url, pc)" for now'
    using bootstrap_again [OF boot] assms(2) by (simp add: get_db_started pc)
  then show ?thesis
    using bootstrap_principal [OF boot] by (simp add: pc bootstrap_tables [OF boot] database_instance_def)
qed

text \<open>The database of the demonstration, started with another key in the environment.\<close>

definition other_key :: settings where
  "other_key = demo_cfg\<lparr>cfg_keys := [''other'']\<rparr>"

theorem restart_keeps_data_witness:
  "\<exists>u pc p. get_db demo_rt other_key (\<lambda>url. False) ''sqlite:///c.db'' demo_now (started (\<lambda>url. demo_key_db)) = (Inr u, pc)
    \<and> current_principal demo_rt (Some ''Bearer secret'') (pc_tables pc ''sqlite:///c.db'') = Inr p"
proof -
  let ?tables = "\<lambda>url :: string. demo_key_db"
  obtain db where db: "bootstrap demo_rt other_key demo_now demo_key_db = Inr db"
    by (simp add: bootstrap_def other_key_def demo_cfg_def demo_key_db_def bootstrap_key_def hash_key_def Let_def)
  then obtain pc where start: "get_db demo_rt other_key (\<lambda>url. False) ''sqlite:///c.db'' demo_now (started ?tables) = (Inr ''sqlite:///c.db'', pc)"
    by (simp add: get_db_started)
  with restart_keeps_data [OF start] demo_key_principal show ?thesis by blast
qed

end
