(* ===== verification/Http_Api.thy ===== *)
theory Http_Api
  imports App Transport "HOL-Library.Monad_Syntax"
begin

section \<open>The HTTP interface\<close>

text \<open>
  What is between a call of the SDK and an endpoint of \<open>app.py\<close>: the request models, which read the
  JSON body, the table of routes with the scope each endpoint depends on, and the answer that goes back.
  The models are pydantic's: a field of type \<open>str\<close> takes a string and nothing else, a missing field
  takes its default, and \<open>None\<close> is a value of the optional fields only. Besides integers pydantic
  takes some other values for an \<open>int\<close>; which ones is the parameter \<open>lax\<close>, of which
  \<open>reads_ints\<close> says that an integer is read as itself. Paths are taken as they stand: no percent
  escapes, and the query string is given apart. The pages FastAPI adds (its documentation), its redirects of paths with
  a slash at the end, and the pages of the dashboard are left out.
\<close>

type_synonym int_reader = "json \<Rightarrow> int option"

definition reads_ints :: "int_reader \<Rightarrow> bool" where
  "reads_ints lax \<longleftrightarrow> (\<forall>i. lax (JInt i) = Some i)"

subsection \<open>Fields\<close>

fun str_value :: "json \<Rightarrow> string option" where
  "str_value (JStr s) = Some s"
| "str_value _ = None"

fun dict_value :: "json \<Rightarrow> pydict option" where
  "dict_value (JDict d) = Some d"
| "dict_value _ = None"

fun strs_value :: "json list \<Rightarrow> string list option" where
  "strs_value [] = Some []"
| "strs_value (v # vs) = do { s \<leftarrow> str_value v; ss \<leftarrow> strs_value vs; Some (s # ss) }"

fun str_list_value :: "json \<Rightarrow> string list option" where
  "str_list_value (JList vs) = strs_value vs"
| "str_list_value _ = None"

text \<open>A required field, a field with a default, and \<open>Optional[...] = None\<close>.\<close>

definition field :: "(json \<Rightarrow> 'a option) \<Rightarrow> pydict \<Rightarrow> string \<Rightarrow> 'a option" where
  "field rd d k = (case map_of d k of None \<Rightarrow> None | Some v \<Rightarrow> rd v)"

definition field_or :: "(json \<Rightarrow> 'a option) \<Rightarrow> pydict \<Rightarrow> string \<Rightarrow> 'a \<Rightarrow> 'a option" where
  "field_or rd d k v0 = (case map_of d k of None \<Rightarrow> Some v0 | Some v \<Rightarrow> rd v)"

definition optional :: "(json \<Rightarrow> 'a option) \<Rightarrow> pydict \<Rightarrow> string \<Rightarrow> 'a option option" where
  "optional rd d k = (case dict_get d k of JNull \<Rightarrow> Some None | v \<Rightarrow> map_option Some (rd v))"

definition opt_dict :: "pydict option \<Rightarrow> json" where
  "opt_dict x = (case x of None \<Rightarrow> JNull | Some d \<Rightarrow> JDict d)"

subsection \<open>The request models\<close>

definition run_start_request :: "pydict \<Rightarrow> request option" where
  "run_start_request d = do {
     agent \<leftarrow> field str_value d ''agent_id'';
     version \<leftarrow> optional str_value d ''agent_version'';
     env \<leftarrow> field_or str_value d ''environment'' ''dev'';
     meta \<leftarrow> field_or dict_value d ''metadata'' [];
     rid \<leftarrow> optional str_value d ''run_id'';
     org \<leftarrow> optional str_value d ''org_id'';
     project \<leftarrow> optional str_value d ''project_id'';
     Some (RunsStart rid agent version env meta) }"

definition event_input_of :: "int_reader \<Rightarrow> json \<Rightarrow> event_input option" where
  "event_input_of lax v = do {
     d \<leftarrow> dict_value v;
     event_id \<leftarrow> optional str_value d ''event_id'';
     ty \<leftarrow> field str_value d ''event_type'';
     schema \<leftarrow> optional str_value d ''schema_version'';
     mode \<leftarrow> field_or str_value d ''payload_mode'' ''metadata_only'';
     payload \<leftarrow> optional dict_value d ''payload'';
     ph \<leftarrow> optional str_value d ''payload_hash'';
     prev \<leftarrow> optional str_value d ''previous_event_hash'';
     eh \<leftarrow> optional str_value d ''event_hash'';
     step_id \<leftarrow> optional str_value d ''step_id'';
     step_index \<leftarrow> optional lax d ''step_index'';
     actor \<leftarrow> optional dict_value d ''actor'';
     occurred \<leftarrow> optional str_value d ''occurred_at'';
     ingested \<leftarrow> optional str_value d ''ingested_at'';
     trace \<leftarrow> optional str_value d ''trace_id'';
     span \<leftarrow> optional str_value d ''span_id'';
     parent \<leftarrow> optional str_value d ''parent_span_id'';
     idem \<leftarrow> optional str_value d ''idempotency_key'';
     Some \<lparr>i_event_id = event_id, i_type = ty, i_schema = schema, i_mode = mode, i_payload = opt_dict payload,
       i_payload_hash = ph, i_prev = prev, i_hash = eh, i_step_id = step_id, i_step_index = step_index,
       i_actor = actor, i_occurred = occurred, i_ingested = ingested, i_trace = trace, i_span = span,
       i_parent = parent, i_idem = idem\<rparr> }"

fun event_inputs :: "int_reader \<Rightarrow> json list \<Rightarrow> event_input list option" where
  "event_inputs lax [] = Some []"
| "event_inputs lax (v # vs) = do { ev \<leftarrow> event_input_of lax v; evs \<leftarrow> event_inputs lax vs; Some (ev # evs) }"

definition events_request :: "int_reader \<Rightarrow> pydict \<Rightarrow> event_input list option" where
  "events_request lax d = (case map_of d ''events'' of Some (JList vs) \<Rightarrow> event_inputs lax vs | _ \<Rightarrow> None)"

definition rollback_request :: "pydict \<Rightarrow> string option option" where
  "rollback_request d = optional str_value d ''reason''"

definition policy_check_request :: "pydict \<Rightarrow> request option" where
  "policy_check_request d = do {
     pid \<leftarrow> field str_value d ''policy_id'';
     input \<leftarrow> field_or dict_value d ''input'' [];
     rid \<leftarrow> optional str_value d ''run_id'';
     Some (PolicyCheck pid input) }"

definition approval_request_model :: "pydict \<Rightarrow> approval_request option" where
  "approval_request_model d = do {
     aid \<leftarrow> optional str_value d ''approval_id'';
     rid \<leftarrow> field str_value d ''run_id'';
     pid \<leftarrow> optional str_value d ''policy_id'';
     by \<leftarrow> optional str_value d ''requested_by'';
     reason \<leftarrow> optional str_value d ''reason'';
     input \<leftarrow> optional dict_value d ''input'';
     Some \<lparr>q_approval_id = aid, q_run = rid, q_policy = pid, q_requested_by = by, q_reason = reason,
       q_input = opt_dict input\<rparr> }"

definition approval_decision_model :: "pydict \<Rightarrow> (string \<times> string option) option" where
  "approval_decision_model d = do {
     reviewer \<leftarrow> field str_value d ''reviewer_id'';
     reason \<leftarrow> optional str_value d ''reason'';
     Some (reviewer, reason) }"

definition export_request :: "pydict \<Rightarrow> request option" where
  "export_request d = do {
     rid \<leftarrow> field str_value d ''run_id'';
     by \<leftarrow> optional str_value d ''generated_by'';
     Some (AuditExport rid by) }"

definition query_request_model :: "int_reader \<Rightarrow> pydict \<Rightarrow> query_request option" where
  "query_request_model lax d = do {
     rid \<leftarrow> optional str_value d ''run_id'';
     types \<leftarrow> optional str_list_value d ''event_types'';
     limit \<leftarrow> field_or lax d ''limit'' 200;
     cursor \<leftarrow> optional lax d ''cursor'';
     Some \<lparr>qr_run = rid, qr_types = types, qr_limit = limit, qr_cursor = cursor\<rparr> }"

text \<open>A required body, and one with a default: \<open>null\<close> counts as no body.\<close>

definition body_of :: "(pydict \<Rightarrow> 'a option) \<Rightarrow> json option \<Rightarrow> 'a option" where
  "body_of rd b = (case b of Some (JDict d) \<Rightarrow> rd d | _ \<Rightarrow> None)"

definition body_or :: "(pydict \<Rightarrow> 'a option) \<Rightarrow> 'a \<Rightarrow> json option \<Rightarrow> 'a option" where
  "body_or rd v0 b = (case b of None \<Rightarrow> Some v0 | Some JNull \<Rightarrow> Some v0 | Some (JDict d) \<Rightarrow> rd d | _ \<Rightarrow> None)"

text \<open>A parameter of the query string; of a name that occurs twice the last value counts.\<close>

type_synonym query_string = "(string \<times> string) list"

definition query_int :: "int_reader \<Rightarrow> query_string \<Rightarrow> string \<Rightarrow> int option \<Rightarrow> int option option" where
  "query_int lax q k v0 = (case map_of (rev q) k of None \<Rightarrow> Some v0 | Some s \<Rightarrow> map_option Some (lax (JStr s)))"

subsection \<open>Routes\<close>

datatype seg = Fixed string | Param

fun segments :: "string \<Rightarrow> string list" where
  "segments [] = [[]]"
| "segments (c # s) =
     (if c = CHR ''/'' then [] # segments s
      else (case segments s of [] \<Rightarrow> [[c]] | x # xs \<Rightarrow> (c # x) # xs))"

text \<open>The values of the parameters; a parameter is not empty.\<close>

fun match_path :: "seg list \<Rightarrow> string list \<Rightarrow> string list option" where
  "match_path [] [] = Some []"
| "match_path (Fixed f # ps) (x # xs) = (if f = x then match_path ps xs else None)"
| "match_path (Param # ps) (x # xs) = (if x = [] then None else map_option (Cons x) (match_path ps xs))"
| "match_path _ _ = None"

record route =
  rt_method :: string
  rt_pattern :: "seg list"
  rt_scope :: "(string \<times> string) option"
  rt_read :: "int_reader \<Rightarrow> string list \<Rightarrow> query_string \<Rightarrow> json option \<Rightarrow> request option"

definition meta_routes :: "route list" where
  "meta_routes = [
     \<lparr>rt_method = ''GET'', rt_pattern = [Fixed ''healthz''], rt_scope = None, rt_read = (\<lambda>lax ps q b. Some Healthz)\<rparr>,
     \<lparr>rt_method = ''GET'', rt_pattern = [Fixed ''metrics''], rt_scope = None, rt_read = (\<lambda>lax ps q b. Some Metrics)\<rparr>,
     \<lparr>rt_method = ''GET'', rt_pattern = [Fixed ''v1'', Fixed ''event-types''], rt_scope = None,
       rt_read = (\<lambda>lax ps q b. Some EventTypes)\<rparr>]"

definition run_routes :: "route list" where
  "run_routes = [
     \<lparr>rt_method = ''POST'', rt_pattern = [Fixed ''v1'', Fixed ''runs'', Fixed ''start''], rt_scope = Some (''runs'', ''write''),
       rt_read = (\<lambda>lax ps q b. body_of run_start_request b)\<rparr>,
     \<lparr>rt_method = ''POST'', rt_pattern = [Fixed ''v1'', Fixed ''runs'', Param, Fixed ''events''],
       rt_scope = Some (''events'', ''write''),
       rt_read = (\<lambda>lax ps q b. map_option (RunsEvents (hd ps)) (body_of (events_request lax) b))\<rparr>,
     \<lparr>rt_method = ''POST'', rt_pattern = [Fixed ''v1'', Fixed ''runs'', Param, Fixed ''commit''],
       rt_scope = Some (''runs'', ''write''), rt_read = (\<lambda>lax ps q b. Some (RunsCommit (hd ps)))\<rparr>,
     \<lparr>rt_method = ''POST'', rt_pattern = [Fixed ''v1'', Fixed ''runs'', Param, Fixed ''rollback''],
       rt_scope = Some (''runs'', ''write''),
       rt_read = (\<lambda>lax ps q b. map_option (RunsRollback (hd ps)) (body_or rollback_request None b))\<rparr>,
     \<lparr>rt_method = ''GET'', rt_pattern = [Fixed ''v1'', Fixed ''runs'', Param], rt_scope = Some (''runs'', ''read''),
       rt_read = (\<lambda>lax ps q b. Some (RunsGet (hd ps)))\<rparr>,
     \<lparr>rt_method = ''GET'', rt_pattern = [Fixed ''v1'', Fixed ''runs''], rt_scope = Some (''runs'', ''read''),
       rt_read = (\<lambda>lax ps q b. map_option (RunsList \<circ> the) (query_int lax q ''limit'' (Some 50)))\<rparr>,
     \<lparr>rt_method = ''GET'', rt_pattern = [Fixed ''v1'', Fixed ''runs'', Param, Fixed ''timeline''],
       rt_scope = Some (''events'', ''read''),
       rt_read = (\<lambda>lax ps q b. do { limit \<leftarrow> query_int lax q ''limit'' (Some 1000); cursor \<leftarrow> query_int lax q ''cursor'' None;
       Some (RunsTimeline (hd ps) (the limit) cursor) })\<rparr>,
     \<lparr>rt_method = ''GET'', rt_pattern = [Fixed ''v1'', Fixed ''runs'', Param, Fixed ''replay''],
       rt_scope = Some (''events'', ''read''), rt_read = (\<lambda>lax ps q b. Some (RunsReplay (hd ps)))\<rparr>,
     \<lparr>rt_method = ''GET'', rt_pattern = [Fixed ''v1'', Fixed ''runs'', Param, Fixed ''verify''],
       rt_scope = Some (''events'', ''read''), rt_read = (\<lambda>lax ps q b. Some (RunsVerify (hd ps)))\<rparr>]"

definition policy_routes :: "route list" where
  "policy_routes = [
     \<lparr>rt_method = ''POST'', rt_pattern = [Fixed ''v1'', Fixed ''policy'', Fixed ''check''],
       rt_scope = Some (''policies'', ''read''), rt_read = (\<lambda>lax ps q b. body_of policy_check_request b)\<rparr>,
     \<lparr>rt_method = ''GET'', rt_pattern = [Fixed ''v1'', Fixed ''policies''], rt_scope = Some (''policies'', ''read''),
       rt_read = (\<lambda>lax ps q b. Some PoliciesList)\<rparr>]"

definition approval_routes :: "route list" where
  "approval_routes = [
     \<lparr>rt_method = ''POST'', rt_pattern = [Fixed ''v1'', Fixed ''approvals'', Fixed ''request''],
       rt_scope = Some (''approvals'', ''review''),
       rt_read = (\<lambda>lax ps q b. map_option ApprovalsRequest (body_of approval_request_model b))\<rparr>,
     \<lparr>rt_method = ''POST'', rt_pattern = [Fixed ''v1'', Fixed ''approvals'', Param, Fixed ''approve''],
       rt_scope = Some (''approvals'', ''review''),
       rt_read = (\<lambda>lax ps q b. map_option (\<lambda>(by, reason). ApprovalsApprove (hd ps) by reason) (body_of approval_decision_model b))\<rparr>,
     \<lparr>rt_method = ''POST'', rt_pattern = [Fixed ''v1'', Fixed ''approvals'', Param, Fixed ''reject''],
       rt_scope = Some (''approvals'', ''review''),
       rt_read = (\<lambda>lax ps q b. map_option (\<lambda>(by, reason). ApprovalsReject (hd ps) by reason) (body_of approval_decision_model b))\<rparr>,
     \<lparr>rt_method = ''GET'', rt_pattern = [Fixed ''v1'', Fixed ''approvals'', Fixed ''pending''],
       rt_scope = Some (''approvals'', ''review''), rt_read = (\<lambda>lax ps q b. Some ApprovalsPending)\<rparr>]"

definition evidence_routes :: "route list" where
  "evidence_routes = [
     \<lparr>rt_method = ''POST'', rt_pattern = [Fixed ''v1'', Fixed ''audit'', Fixed ''export''],
       rt_scope = Some (''exports'', ''create''), rt_read = (\<lambda>lax ps q b. body_of export_request b)\<rparr>,
     \<lparr>rt_method = ''GET'', rt_pattern = [Fixed ''v1'', Fixed ''audit'', Fixed ''exports'', Param, Fixed ''download''],
       rt_scope = Some (''exports'', ''create''), rt_read = (\<lambda>lax ps q b. Some (ExportDownload (hd ps)))\<rparr>]"

definition query_routes :: "route list" where
  "query_routes = [
     \<lparr>rt_method = ''POST'', rt_pattern = [Fixed ''v1'', Fixed ''query''], rt_scope = Some (''events'', ''read''),
       rt_read = (\<lambda>lax ps q b. map_option QueryEvents (body_of (query_request_model lax) b))\<rparr>]"

definition routes :: "route list" where
  "routes = meta_routes @ run_routes @ policy_routes @ approval_routes @ evidence_routes @ query_routes"

lemmas route_tables = routes_def meta_routes_def run_routes_def policy_routes_def approval_routes_def
  evidence_routes_def query_routes_def

definition route_params :: "string \<Rightarrow> route \<Rightarrow> string list option" where
  "route_params path r = (case segments path of [] # segs \<Rightarrow> match_path (rt_pattern r) segs | _ \<Rightarrow> None)"

text \<open>The first route of path and method; a path that only other methods have is answered with 405.\<close>

definition find_route :: "string \<Rightarrow> string \<Rightarrow> (route \<times> string list) result" where
  "find_route meth path =
    (case find (\<lambda>r. rt_method r = meth \<and> route_params path r \<noteq> None) routes of
       Some r \<Rightarrow> Inr (r, the (route_params path r))
     | None \<Rightarrow>
         if \<exists>r \<in> set routes. route_params path r \<noteq> None then Inl (HTTPException 405 ''Method Not Allowed'')
         else Inl (HTTPException 404 ''Not Found''))"

subsection \<open>Answers\<close>

definition detail_body :: "string \<Rightarrow> body" where
  "detail_body detail = JsonBody (JDict [(''detail'', JStr detail)])"

text \<open>A result that is no JSON fails when the answer is written, after the endpoint is done.\<close>

definition answer_of :: "response result \<Rightarrow> answer" where
  "answer_of r = (case r of
      Inr (RJson v) \<Rightarrow> if has_nan v then Answer 500 (TextBody ''Internal Server Error'') else Answer 200 (JsonBody v)
    | Inr (RFile data) \<Rightarrow> Answer 200 (TextBody data)
    | Inl (HTTPException code detail) \<Rightarrow> Answer code (detail_body detail)
    | Inl (IngestError m code) \<Rightarrow> Answer code (detail_body m)
    | Inl _ \<Rightarrow> Answer 500 (TextBody ''Internal Server Error''))"

text \<open>The dependencies of a route: authentication comes before the body is looked at.\<close>

definition admit :: "runtime \<Rightarrow> string option \<Rightarrow> (string \<times> string) option \<Rightarrow> database \<Rightarrow> unit result" where
  "admit rt auth scope db =
    (case scope of
       None \<Rightarrow> Inr ()
     | Some (resource, action) \<Rightarrow>
         (case current_principal rt auth db of
            Inl e \<Rightarrow> Inl e
          | Inr p \<Rightarrow> (case require_scope resource action p of Inl e \<Rightarrow> Inl e | Inr p' \<Rightarrow> Inr ())))"

definition dispatch :: "runtime \<Rightarrow> deployment \<Rightarrow> int_reader \<Rightarrow> string option \<Rightarrow> query_string \<Rightarrow> http_call \<Rightarrow> response svc" where
  "dispatch rt dp lax auth q call s =
    (case find_route (hc_method call) (hc_path call) of
       Inl e \<Rightarrow> (Inl e, s)
     | Inr (r, ps) \<Rightarrow>
         (case rt_read r lax ps q (hc_body call) of
            Some req \<Rightarrow> serve rt dp auth req s
          | None \<Rightarrow>
              (case admit rt auth (rt_scope r) (st_db s) of
                 Inl e \<Rightarrow> (Inl e, s)
               | Inr u \<Rightarrow> (Inl validation_error, s))))"

definition answer_call :: "runtime \<Rightarrow> deployment \<Rightarrow> int_reader \<Rightarrow> string option \<Rightarrow> http_call \<Rightarrow> cstate \<Rightarrow> answer \<times> cstate" where
  "answer_call rt dp lax auth call s = (case dispatch rt dp lax auth [] call s of (r, s') \<Rightarrow> (answer_of r, s'))"

subsection \<open>Laws\<close>

text \<open>The scope of the table is the scope of the request that is read.\<close>

lemma route_scope:
  assumes "r \<in> set routes" "rt_read r lax ps q b = Some req"
  shows "rt_scope r = scope_of req"
proof -
  have start: "scope_of req = Some (''runs'', ''write'')" if "run_start_request d = Some req" for d
    using that by (auto simp: run_start_request_def bind_eq_Some_conv)
  have policy: "scope_of req = Some (''policies'', ''read'')" if "policy_check_request d = Some req" for d
    using that by (auto simp: policy_check_request_def bind_eq_Some_conv)
  have export: "scope_of req = Some (''exports'', ''create'')" if "export_request d = Some req" for d
    using that by (auto simp: export_request_def bind_eq_Some_conv)
  show ?thesis
    using assms unfolding route_tables
    by (auto simp: body_of_def bind_eq_Some_conv intro: start [symmetric] policy [symmetric] export [symmetric]
        split: option.splits json.splits)
qed

lemma dispatch_serve:
  "find_route (hc_method call) (hc_path call) = Inr (r, ps) \<Longrightarrow> rt_read r lax ps q (hc_body call) = Some req
    \<Longrightarrow> dispatch rt dp lax auth q call s = serve rt dp auth req s"
  by (simp add: dispatch_def)

end
