(* ===== verification/Http_Laws.thy ===== *)
theory Http_Laws
  imports Http_Api App_Laws Sdk_Calls
begin

section \<open>The SDK's calls at the collector\<close>

text \<open>
  What the routes of the collector make of the calls of a run. The calls of policies, approvals and the end
  of a run leave the table of events alone; a batch of envelopes is read into events that the services take,
  and an append of new events is answered with success.
\<close>

subsection \<open>Paths\<close>

lemma segments_nonempty [simp]: "segments s \<noteq> []"
  by (cases s) (auto split: list.split)

lemma segments_append: "segments (s @ CHR ''/'' # t) = segments s @ segments t"
proof (induction s)
  case Nil
  then show ?case by simp
next
  case (Cons c s)
  then show ?case by (cases "segments s") (simp_all split: list.split)
qed

lemma segments_plain: "CHR ''/'' \<notin> set s \<Longrightarrow> segments s = [s]"
  by (induction s) auto

lemma last_segment: "last (segments (s @ CHR ''/'' # t)) = last (segments t)"
  by (simp add: segments_append)

lemma match_path_last:
  assumes "match_path ps xs = Some vs" "ps \<noteq> []" "last ps = Fixed f"
  shows "xs \<noteq> [] \<and> last xs = f"
  using assms
proof (induction ps xs arbitrary: vs rule: match_path.induct)
  case (2 g ps x xs)
  then show ?case by (cases ps; cases xs) (auto split: if_splits)
next
  case (3 ps x xs)
  then show ?case by (cases ps; cases xs) (auto split: if_splits)
qed auto

lemma side_path_segment:
  assumes "side_path path"
  shows "last (segments path) \<in> {''check'', ''request'', ''commit'', ''rollback''}"
proof -
  have run: "last (segments (''/v1/runs/'' @ r @ CHR ''/'' # t)) = last (segments t)" for r t
    using last_segment [of "''/v1/runs/'' @ r" t] by (simp only: append_assoc)
  have ends: "last (segments ''commit'') = ''commit''" "last (segments ''rollback'') = ''rollback''" by (simp_all add: segments_plain)
  have fixed: "last (segments ''/v1/policy/check'') = ''check''" "last (segments ''/v1/approvals/request'') = ''request''" by simp_all
  from assms consider "path = ''/v1/policy/check''" | "path = ''/v1/approvals/request''"
    | r where "path = commit_path r" | r where "path = rollback_path r" by (auto simp: side_path_def)
  then show ?thesis
  proof cases
    case 1
    then show ?thesis by (simp only: fixed insert_iff simp_thms)
  next
    case 2
    then show ?thesis by (simp only: fixed insert_iff simp_thms)
  next
    case 3
    then show ?thesis unfolding commit_path_def by (simp only: run ends insert_iff simp_thms)
  next
    case 4
    then show ?thesis unfolding rollback_path_def by (simp only: run ends insert_iff simp_thms)
  qed
qed

lemma find_route_Inr:
  assumes "find_route meth path = Inr (r, ps)"
  shows "r \<in> set routes" "rt_method r = meth" "route_params path r = Some ps"
proof -
  let ?P = "\<lambda>r. rt_method r = meth \<and> route_params path r \<noteq> None"
  have "find ?P routes = Some r \<and> ps = the (route_params path r)"
    using assms by (cases "find ?P routes") (simp_all add: find_route_def split: if_splits)
  then have "find ?P routes = Some r" and ps: "ps = the (route_params path r)" by blast+
  from find_Some_set [OF this(1)] show "r \<in> set routes" "rt_method r = meth" "route_params path r = Some ps"
    by (simp_all add: ps)
qed

lemma route_last:
  assumes "route_params path r = Some ps" "rt_pattern r \<noteq> []" "last (rt_pattern r) = Fixed f"
  shows "last (segments path) = f"
proof -
  from assms(1) obtain segs where segs: "segments path = [] # segs" "match_path (rt_pattern r) segs = Some ps"
    by (auto simp: route_params_def split: list.splits)
  from match_path_last [OF segs(2) assms(2,3)] segs(1) show ?thesis by simp
qed

text \<open>Which requests side calls can become.\<close>

definition side_request :: "request \<Rightarrow> bool" where
  "side_request req = (case req of PolicyCheck _ _ \<Rightarrow> True | ApprovalsRequest _ \<Rightarrow> True | RunsCommit _ \<Rightarrow> True
     | RunsRollback _ _ \<Rightarrow> True | _ \<Rightarrow> False)"

lemma side_call_request:
  assumes "side_call call" "find_route (hc_method call) (hc_path call) = Inr (r, ps)"
    "rt_read r lax ps q (hc_body call) = Some req"
  shows "side_request req"
proof -
  note r = find_route_Inr [OF assms(2)]
  have seg: "last (segments (hc_path call)) \<in> {''check'', ''request'', ''commit'', ''rollback''}"
    and post: "rt_method r = ''POST''" using side_path_segment assms(1) r(2) by (auto simp: side_call_def)
  have "last (rt_pattern r) = Fixed f \<Longrightarrow> rt_pattern r \<noteq> [] \<Longrightarrow> f \<in> {''check'', ''request'', ''commit'', ''rollback''}" for f
    using route_last [OF r(3)] seg by blast
  moreover have "side_request req'" if "policy_check_request d = Some req'" for d req'
    using that by (auto simp: policy_check_request_def bind_eq_Some_conv side_request_def)
  ultimately show ?thesis
    using r(1) post assms(3) unfolding route_tables
    by (auto simp: body_of_def side_request_def split: option.splits json.splits)
qed

end
