(* ===== verification/Http_Properties.thy ===== *)
theory Http_Properties
  imports Http_Laws Service_Properties
begin

section \<open>Access over HTTP\<close>

text \<open>
  What a caller gets from the routes: without a key that grants the scope of a route its endpoint is not
  reached, whatever the request is.
\<close>

lemma current_principal_Inl:
  "current_principal rt auth db = Inl e \<Longrightarrow> http_status (Inl e) = 401"
  by (auto simp: current_principal_def Let_def http_status_def split: if_splits option.splits prod.splits)

lemma require_scope_Inl: "require_scope resource action p = Inl e \<Longrightarrow> http_status (Inl e) = 403"
  by (auto simp: require_scope_def Let_def http_status_def split: if_splits)

lemma current_principal_row:
  assumes "current_principal rt auth db = Inr p"
  shows "\<exists>h row. auth = Some h \<and> row \<in> set (db_keys db) \<and> ak_hash row = hash_key rt (snd (partition_blank h))
    \<and> ak_revoked row = None \<and> pr_scopes p = ak_scopes row"
proof -
  from assms obtain h where "auth = Some h" by (cases auth) (auto simp: current_principal_def)
  with assms current_principal_sound [of rt h db p] show ?thesis by auto
qed

lemma require_scope_Inr: "require_scope resource action p = Inr p' \<Longrightarrow> p' = p \<and> scope_ok action (dict_get (pr_scopes p) resource)"
  by (auto simp: require_scope_def Let_def split: if_splits)

text \<open>
  C21: A request to a route with a scope is refused with 401 or 403, in the same way whatever its body and its
  query string, and changes nothing; or its token hashes to a stored key that is not revoked and grants the scope.
\<close>

theorem key_required:
  assumes "find_route (hc_method call) (hc_path call) = Inr (r, ps)" "rt_scope r = Some (resource, action)"
  shows "(\<exists>e. http_status (Inl e) \<in> {401, 403}
      \<and> (\<forall>q b. dispatch rt dp lax auth q (call\<lparr>hc_body := b\<rparr>) s = (Inl e, s)))
    \<or> (\<exists>h row. auth = Some h \<and> row \<in> set (db_keys (st_db s)) \<and> ak_hash row = hash_key rt (snd (partition_blank h))
      \<and> ak_revoked row = None \<and> scope_ok action (dict_get (ak_scopes row) resource))"
proof -
  have refused: "dispatch rt dp lax auth q (call\<lparr>hc_body := b\<rparr>) s = (Inl e, s)"
    if "admit rt auth (rt_scope r) (st_db s) = Inl e" for e q b
  proof (cases "rt_read r lax ps q b")
    case None
    with assms that show ?thesis by (simp add: dispatch_def)
  next
    case (Some req)
    have "scope_of req = Some (resource, action)"
      using route_scope [OF find_route_Inr(1) [OF assms(1)] Some] assms(2) by simp
    with Some assms that show ?thesis
      by (auto simp: dispatch_def serve_def admit_def split: sum.splits)
  qed
  show ?thesis
  proof (cases "current_principal rt auth (st_db s)")
    case (Inl e)
    with assms(2) have "admit rt auth (rt_scope r) (st_db s) = Inl e" by (simp add: admit_def)
    with refused current_principal_Inl [OF Inl] show ?thesis by blast
  next
    case (Inr p)
    show ?thesis
    proof (cases "require_scope resource action p")
      case (Inl e)
      with Inr assms(2) have "admit rt auth (rt_scope r) (st_db s) = Inl e" by (simp add: admit_def)
      with refused require_scope_Inl [OF Inl] show ?thesis by blast
    next
      case p': (Inr p')
      have "\<exists>h row. auth = Some h \<and> row \<in> set (db_keys (st_db s)) \<and> ak_hash row = hash_key rt (snd (partition_blank h))
        \<and> ak_revoked row = None \<and> scope_ok action (dict_get (ak_scopes row) resource)"
        using current_principal_row [OF Inr] require_scope_Inr [OF p'] by metis
      then show ?thesis ..
    qed
  qed
qed

definition list_call :: http_call where
  "list_call = \<lparr>hc_method = ''GET'', hc_path = ''/v1/policies'', hc_body = None, hc_key = None\<rparr>"

theorem key_required_witness:
  "\<exists>e. http_status (Inl e) \<in> {401, 403}
     \<and> dispatch demo_rt demo_dp (\<lambda>v. None) (Some ''Bearer wrong'') [] list_call demo_key_state = (Inl e, demo_key_state)"
proof -
  have "segments ''/v1/policies'' = [[], ''v1'', ''policies'']" by simp
  then have route: "find_route (hc_method list_call) (hc_path list_call)
      = Inr (\<lparr>rt_method = ''GET'', rt_pattern = [Fixed ''v1'', Fixed ''policies''], rt_scope = Some (''policies'', ''read''),
          rt_read = (\<lambda>lax ps q b. Some PoliciesList)\<rparr>, [])"
    by (simp add: find_route_def route_params_def route_tables list_call_def del: segments.simps)
  have "ak_hash row \<noteq> hash_key demo_rt (snd (partition_blank ''Bearer wrong''))" if "row \<in> set (db_keys demo_key_db)" for row
    using that by (simp add: demo_key_db_def bootstrap_key_def hash_key_def partition_blank_def)
  with key_required [OF route, of "''policies''" "''read''" demo_rt demo_dp "\<lambda>v. None" "Some ''Bearer wrong''" demo_key_state]
  obtain e where "http_status (Inl e) \<in> {401, 403}"
    "\<forall>q b. dispatch demo_rt demo_dp (\<lambda>v. None) (Some ''Bearer wrong'') q (list_call\<lparr>hc_body := b\<rparr>) demo_key_state = (Inl e, demo_key_state)"
    by (auto simp: demo_key_state_def)
  moreover have "list_call\<lparr>hc_body := None\<rparr> = list_call" by (simp add: list_call_def)
  ultimately show ?thesis by metis
qed

subsection \<open>Answers that are errors\<close>

text \<open>
  The answers of the handlers that write are plain: texts, numbers and flags, but for approvals, which show the input that was
  given with the request.
\<close>

lemma js_str_plain [simp]: "\<not> has_nan (js_str x)"
  by (cases x) (simp_all add: js_str_def)

lemma approval_nan: "has_nan (approval_to_dict a c d) \<longleftrightarrow> has_nan (a_input a)"
  by (simp add: approval_to_dict_def iso_opt_def)

lemma run_answers_plain:
  "start_run rt p run_id agent version env meta s = (Inr v, s') \<Longrightarrow> \<not> has_nan v"
  "commit_run rt p rid s = (Inr v, s') \<Longrightarrow> \<not> has_nan v"
  "rollback_run rt p rid reason s = (Inr v, s') \<Longrightarrow> \<not> has_nan v"
  by (auto simp: start_run_def commit_run_def rollback_run_def with_session_Inr Let_def split: if_splits option.splits sum.splits prod.splits)

lemma export_answer_plain:
  assumes "export_run rt zip_bytes cfg p rid by s = (Inr v, s')"
  shows "\<not> has_nan v"
proof -
  have "finish_export rt cfg p row (export_payload a b c n k) s0 = (Inr v, s') \<Longrightarrow> \<not> has_nan v" for row a b c n k s0
    by (auto simp: finish_export_def export_payload_def split: prod.splits sum.splits)
  then show ?thesis using assms by (auto simp: export_run_def Let_def split: sum.splits)
qed

lemma event_ids_plain [simp]: "\<not> has_nan (event_ids_json ids)"
  by (induction ids) (simp_all add: event_ids_json_def)

text \<open>The tables after a write that is answered with an approval.\<close>

definition nan_approval :: "database \<Rightarrow> database \<Rightarrow> bool" where
  "nan_approval db db' \<longleftrightarrow> db' = db\<lparr>db_approvals := db_approvals db'\<rparr> \<and> (\<exists>a \<in> set (db_approvals db'). has_nan (a_input a))"

lemma request_approval_nan:
  assumes "request_approval rt p q s = (Inr v, s')" "has_nan v"
  shows "st_db s' = st_db s \<or> nan_approval (st_db s) (st_db s')"
  using assms
  by (auto simp: request_approval_def with_session_Inr nan_approval_def Let_def approval_nan split: option.splits if_splits)

lemma decide_nan:
  assumes "decide rt p aid d who why s = (Inr v, s')" "has_nan v"
  shows "nan_approval (st_db s) (st_db s')"
proof -
  from assms obtain row f where row: "get_approval (st_db s) aid = Some row" "has_nan (a_input row)"
    "st_db s' = update_approval aid f (st_db s)" "\<And>a. a_input (f a) = a_input a"
    by (auto simp: decide_def with_session_Inr Let_def approval_nan decided_def split: option.splits if_splits)
  from row(1) have "row \<in> set (db_approvals (st_db s))" "a_id row = aid"
    by (auto simp: get_approval_def find_Some_iff)
  then have "f row \<in> set (db_approvals (st_db s'))" by (force simp: row(3) update_approval_def)
  moreover have "has_nan (a_input (f row))" using row(2,4) by simp
  moreover have "st_db s' = (st_db s)\<lparr>db_approvals := db_approvals (st_db s')\<rparr>" by (simp add: row(3) update_approval_def)
  ultimately show ?thesis unfolding nan_approval_def by blast
qed

lemma handle_nan:
  assumes "handle rt dp p req s = (Inr (RJson v), s')" "has_nan v"
  shows "st_db s' = st_db s \<or> nan_approval (st_db s) (st_db s')"
proof -
  have *: "\<exists>x. f s = (Inr x, s') \<and> RJson v = g x" if "respond_st h g f s = (Inr (RJson v), s')"
    for h g and f :: "'a svc"
    using that by (cases "f s") (auto simp: respond_st_def respond_def split: sum.splits)
  show ?thesis
    using assms
    by (cases req) (auto dest!: * dest: run_answers_plain export_answer_plain replay_frame policy_check_frame
      request_approval_nan decide_nan split: if_splits)
qed

text \<open>
  C23: An HTTP call that is not answered with 200 changes no table. The one exception is a call about an approval whose input
  holds a NaN or an infinity: the approval is stored or decided, the answer cannot be written as JSON, and the caller gets 500;
  then only the table of approvals has changed, and it holds such an approval.
\<close>

theorem failed_call_keeps_tables:
  assumes "dispatch rt dp lax auth q call s = (r, s')" "answer_of r = Answer code body" "code \<noteq> 200"
  shows "st_db s' = st_db s \<or> code = 500 \<and> st_db s' = (st_db s)\<lparr>db_approvals := db_approvals (st_db s')\<rparr>
    \<and> (\<exists>a \<in> set (db_approvals (st_db s')). has_nan (a_input a))"
proof (cases "\<exists>rte ps req. find_route (hc_method call) (hc_path call) = Inr (rte, ps) \<and> rt_read rte lax ps q (hc_body call) = Some req")
  case True
  then obtain rte ps req where "find_route (hc_method call) (hc_path call) = Inr (rte, ps)" "rt_read rte lax ps q (hc_body call) = Some req"
    by blast
  then have serve: "serve rt dp auth req s = (r, s')" using assms(1) dispatch_serve by metis
  show ?thesis
  proof (cases r)
    case (Inl e)
    with serve show ?thesis using serve_fails by blast
  next
    case (Inr x)
    with assms(2,3) obtain v where v: "r = Inr (RJson v)" "has_nan v" "code = 500"
      by (cases x) (auto simp: answer_of_def split: if_splits)
    from serve [unfolded v(1)] have "st_db s' = st_db s \<or> nan_approval (st_db s) (st_db s')"
      by (cases rule: serve_cases) (use handle_nan v(2) in \<open>blast+\<close>)
    with v(3) show ?thesis by (auto simp: nan_approval_def)
  qed
next
  case False
  then have "s' = s" using assms(1) by (auto simp: dispatch_def split: sum.splits prod.splits option.splits)
  then show ?thesis by simp
qed

text \<open>A request for an approval whose input is no JSON number, on a collector with a key.\<close>

definition nan_call :: http_call where
  "nan_call = \<lparr>hc_method = ''POST'', hc_path = ''/v1/approvals/request'',
     hc_body = Some (JDict [(''approval_id'', JStr ''ap_9''), (''run_id'', JStr ''run_1''), (''input'', JDict [(''x'', JFloat FNan)])]),
     hc_key = None\<rparr>"

definition nan_request :: approval_request where
  "nan_request = \<lparr>q_approval_id = Some ''ap_9'', q_run = ''run_1'', q_policy = None, q_requested_by = None, q_reason = None,
     q_input = JDict [(''x'', JFloat FNan)]\<rparr>"

lemma nan_route: "dispatch rt dp lax auth q nan_call s = serve rt dp auth (ApprovalsRequest nan_request) s"
proof -
  have "segments ''/v1/approvals/request'' = [[], ''v1'', ''approvals'', ''request'']" by simp
  then show ?thesis
    by (simp add: dispatch_def find_route_def route_params_def route_tables nan_call_def nan_request_def body_of_def
        approval_request_model_def optional_def field_def opt_dict_def del: segments.simps)
qed

lemma nan_served:
  assumes "current_principal rt auth (st_db s) = Inr p" "require_scope ''approvals'' ''review'' p = Inr p"
    and "get_approval (st_db s) ''ap_9'' = None"
  shows "\<exists>v s'. serve rt dp auth (ApprovalsRequest nan_request) s = (Inr (RJson v), s') \<and> has_nan v \<and> db_approvals (st_db s') \<noteq> db_approvals (st_db s)"
  using assms
  by (simp add: serve_def respond_st_def respond_def request_approval_def nan_request_def with_session_def Let_def approval_nan
      tick_def metric_def)

theorem failed_call_keeps_tables_witness:
  "\<exists>r s'. dispatch demo_rt demo_dp (\<lambda>v. None) (Some ''Bearer secret'') [] nan_call demo_key_state = (r, s')
     \<and> answer_of r = Answer 500 (TextBody ''Internal Server Error'') \<and> db_events (st_db s') = db_events (st_db demo_key_state)
     \<and> (\<exists>a \<in> set (db_approvals (st_db s')). has_nan (a_input a))"
proof -
  let ?row = "bootstrap_key demo_rt demo_cfg demo_now ''secret''"
  let ?p = "\<lparr>pr_key = ak_id ?row, pr_org = ak_org ?row, pr_project = ak_project ?row, pr_scopes = ak_scopes ?row\<rparr>"
  have "current_principal demo_rt (Some (''Bearer '' @ ''secret'')) demo_key_db = Inr ?p"
    by (subst current_principal_bearer) (simp_all add: demo_key_db_def key_by_hash_def bootstrap_key_def)
  moreover have "require_scope ''approvals'' ''review'' ?p = Inr ?p"
    by (simp add: require_scope_def bootstrap_key_def bootstrap_scopes_def scope_ok_def Let_def)
  moreover have "get_approval demo_key_db ''ap_9'' = None"
    by (simp add: get_approval_def demo_key_db_def demo_db2_def demo_db_def empty_db_def)
  ultimately obtain v s' where s: "dispatch demo_rt demo_dp (\<lambda>v. None) (Some ''Bearer secret'') [] nan_call demo_key_state = (Inr (RJson v), s')"
    "has_nan v" "db_approvals (st_db s') \<noteq> db_approvals (st_db demo_key_state)"
    using nan_served [of demo_rt "Some ''Bearer secret''" demo_key_state ?p demo_dp] nan_route
    by (auto simp: demo_key_state_def)
  have "answer_of (Inr (RJson v)) = Answer 500 (TextBody ''Internal Server Error'')" using s(2) by (simp add: answer_of_def)
  moreover from failed_call_keeps_tables [OF s(1) this] s(3)
  have tables: "st_db s' = (st_db demo_key_state)\<lparr>db_approvals := db_approvals (st_db s')\<rparr>"
    and "\<exists>a \<in> set (db_approvals (st_db s')). has_nan (a_input a)" by auto
  moreover have "db_events (st_db s') = db_events (st_db demo_key_state)" by (subst tables) simp
  ultimately show ?thesis using s(1) by blast
qed

end
