(* ===== verification/Recording.thy ===== *)
theory Recording
  imports Http_Laws Integration_Properties
begin

section \<open>From the run to the table of events\<close>

text \<open>
  The two halves of the program together. \<open>served_by\<close> says that the answers the SDK saw are those of a
  collector that served its calls one after the other; it gives the state the collector ends in. What a run's
  calls deliver is then what the table of events gains.
\<close>

fun served_by :: "(http_call \<Rightarrow> cstate \<Rightarrow> answer \<times> cstate) \<Rightarrow> world \<Rightarrow> nat \<Rightarrow> http_call list \<Rightarrow> cstate \<Rightarrow> cstate option" where
  "served_by C w n [] s = Some s"
| "served_by C w n (call # calls) s =
     (case C call s of (a, s') \<Rightarrow> if wo_net w n call = a then served_by C w (Suc n) calls s' else None)"

text \<open>The row of an event of the SDK.\<close>

definition row_shows :: "string \<Rightarrow> pydict \<Rightarrow> audit_event \<Rightarrow> bool" where
  "row_shows rid d row \<longleftrightarrow> e_run row = rid \<and> e_id row = sdk_id d \<and> e_idem row = Some (sdk_key d)
     \<and> JStr (e_type row) = dict_get d ''event_type'' \<and> e_step_index row = Some (sdk_index d)
     \<and> JStr (e_mode row) = dict_get d ''payload_mode'' \<and> e_payload row = dict_get d ''payload''"

text \<open>Run ids that stand for themselves in a path.\<close>

definition plain_id :: "string \<Rightarrow> bool" where
  "plain_id rid \<longleftrightarrow> rid \<noteq> []
     \<and> set rid \<subseteq> set ''abcdefghijklmnopqrstuvwxyzABCDEFGHIJKLMNOPQRSTUVWXYZ0123456789_-''"

lemma plain_id_slash: "plain_id rid \<Longrightarrow> CHR ''/'' \<notin> set rid"
  by (auto simp: plain_id_def)

subsection \<open>Reading a batch\<close>

definition reads :: "pydict \<Rightarrow> event_input \<Rightarrow> bool" where
  "reads d ev \<longleftrightarrow> i_event_id ev = Some (sdk_id d) \<and> i_idem ev = Some (sdk_key d) \<and> i_type ev \<in> set EVENT_TYPES
     \<and> JStr (i_type ev) = dict_get d ''event_type'' \<and> i_step_index ev = Some (sdk_index d)
     \<and> JStr (i_mode ev) = dict_get d ''payload_mode'' \<and> i_payload ev = dict_get d ''payload''
     \<and> \<not> has_nan (i_payload ev) \<and> (\<exists>a. i_actor ev = Some a \<and> \<not> has_nan (JDict a)) \<and> plain_actor (i_actor ev)
     \<and> (\<exists>t. i_occurred ev = Some (utc_now_iso t))"

lemma optional_js_str: "map_of d k = Some (js_str x) \<Longrightarrow> optional str_value d k = Some x"
  by (cases x) (simp_all add: optional_def js_str_def)

lemma emitted_read:
  assumes "emitted rid d" "sdk_good rt d" "reads_ints lax"
  shows "\<exists>ev. event_input_of lax (JDict d) = Some ev \<and> reads d ev"
proof -
  from assms(1) obtain cl ro en key where d: "d = envelope_dict cl ro en (Some key)"
    and ty: "en_type en \<in> set SDK_EVENT_TYPES" and payload: "en_payload en = JNull \<or> (\<exists>p. en_payload en = JDict p)" and occurred: "\<exists>t. en_occurred en = utc_now_iso t"
    unfolding emitted_def by blast
  have nan: "\<not> has_nan (en_payload en)"
    using assms(2) by (simp add: sdk_good_def d unsigned_def envelope_dict_def js_str_def)
  let ?get = "map_of d"
  have strs: "?get ''agent_version'' = Some (js_str (ro_version ro))" "?get ''step_id'' = Some (js_str (en_step_id en))"
    "?get ''trace_id'' = Some (js_str (ro_trace ro))" "?get ''span_id'' = Some (js_str None)"
    "?get ''parent_span_id'' = Some (js_str None)" "?get ''payload_hash'' = Some (js_str (en_payload_hash en))"
    "?get ''previous_event_hash'' = Some (js_str (en_prev en))" "?get ''idempotency_key'' = Some (js_str (Some key))"
    "?get ''event_id'' = Some (js_str (Some (en_id en)))" "?get ''schema_version'' = Some (js_str (Some SCHEMA_VERSION))"
    "?get ''event_hash'' = Some (js_str (Some (en_hash en)))" "?get ''occurred_at'' = Some (js_str (Some (en_occurred en)))"
    "?get ''ingested_at'' = Some (js_str (Some (en_ingested en)))"
    by (simp_all add: d envelope_dict_def js_str_def)
  have others: "?get ''event_type'' = Some (JStr (en_type en))" "?get ''payload_mode'' = Some (JStr (en_mode en))"
    "?get ''step_index'' = Some (JInt (en_step_index en))" "?get ''payload'' = Some (en_payload en)"
    "?get ''actor'' = Some (actor_dict (en_actor en))"
    by (simp_all add: d envelope_dict_def)
  have typed: "field str_value d ''event_type'' = Some (en_type en)"
    "field_or str_value d ''payload_mode'' m0 = Some (en_mode en)"
    "optional lax d ''step_index'' = Some (Some (en_step_index en))"
    "optional dict_value d ''actor'' = Some (Some [(''type'', JStr (ac_type (en_actor en))), (''id'', JStr (ac_id (en_actor en)))])"
    for m0
    using assms(3) by (simp_all add: field_def field_or_def optional_def others reads_ints_def actor_dict_def)
  obtain p where p: "optional dict_value d ''payload'' = Some p" "opt_dict p = en_payload en"
    using payload by (auto simp: optional_def others opt_dict_def)
  have ids: "sdk_id d = en_id en" "sdk_key d = key" "sdk_index d = en_step_index en"
    by (simp_all add: d sdk_id_def sdk_key_def dict_str_def envelope_dict_def js_str_def sdk_index_def)
  show ?thesis
    by (simp add: event_input_of_def typed p strs [THEN optional_js_str] reads_def ids others ty [unfolded sdk_event_types] nan occurred plain_actor_def text_value_def)
qed

lemma batch_read:
  assumes "\<forall>d \<in> set batch. emitted rid d \<and> sdk_good rt d" "reads_ints lax"
  shows "\<exists>evs. event_inputs lax (map JDict batch) = Some evs \<and> list_all2 reads batch evs"
  using assms(1)
proof (induction batch)
  case Nil
  then show ?case by simp
next
  case (Cons d batch)
  then obtain evs where "event_inputs lax (map JDict batch) = Some evs" "list_all2 reads batch evs" by auto
  moreover obtain ev where "event_input_of lax (JDict d) = Some ev" "reads d ev"
    using emitted_read assms(2) Cons.prems by (metis list.set_intros(1))
  ultimately show ?case by simp
qed

text \<open>Events that the table takes: new to it, with a number that its column holds.\<close>

definition recordable :: "database \<Rightarrow> pydict \<Rightarrow> bool" where
  "recordable db d \<longleftrightarrow> sdk_id d \<noteq> [] \<and> sdk_id d \<notin> e_id ` set (db_events db) \<and> Some (sdk_key d) \<notin> e_idem ` set (db_events db)
     \<and> int64 (sdk_index d)"

lemma reads_ids:
  assumes "list_all2 reads batch evs"
  shows "map i_event_id evs = map (Some \<circ> sdk_id) batch" "map i_idem evs = map (Some \<circ> sdk_key) batch"
  using assms by (induction rule: list_all2_induct) (simp_all add: reads_def)

lemma int64_below: "0 \<le> i \<Longrightarrow> i < int n \<Longrightarrow> n \<le> 2 ^ 63 \<Longrightarrow> int64 i"
  using of_nat_mono [of n "2 ^ 63", where 'a = int] by (simp add: int64_def)

lemma plain_actor_fits: "plain_actor (Some a) \<Longrightarrow> text_value (dict_get a ''type'') \<and> text_value (dict_get a ''id'')"
  by (auto simp: plain_actor_def text_value_def split: option.split dest: map_of_SomeD)

lemma reads_fresh:
  assumes "list_all2 reads batch evs" "\<forall>d \<in> set batch. recordable db d"
    and "distinct (map sdk_id batch)" "distinct (map sdk_key batch)"
  shows "fresh_batch rt [] db evs"
proof -
  have fresh: "fresh_event rt [] db ev" if "reads d ev" "recordable db d" for d ev
    using that plain_actor_fits by (auto simp: reads_def recordable_def fresh_event_def no_nan_def redact_payload_def fits_columns_def)
  have "\<forall>ev \<in> set evs. fresh_event rt [] db ev"
    using assms(1,2) by (induction rule: list_all2_induct) (auto intro: fresh)
  moreover have "filter (\<lambda>k. k \<noteq> None) (map (Some \<circ> sdk_key) batch) = map (Some \<circ> sdk_key) batch"
    by (simp add: filter_id_conv)
  ultimately show ?thesis
    using assms(3,4) unfolding fresh_batch_def reads_ids [OF assms(1)]
    by (simp add: distinct_map inj_on_def comp_def)
qed

lemma reads_shows:
  assumes "list_all2 reads batch evs" "list_all2 (row_keeps rt [] rid) evs rows"
  shows "list_all2 (row_shows rid) batch rows"
  using assms(1,2) by (rule list_all2_trans [rotated])
    (auto simp: reads_def row_keeps_def row_shows_def redact_payload_def)

text \<open>Dates of the SDK end in \<open>Z\<close>, which the collector reads as the offset zero.\<close>

definition reads_offset :: "runtime \<Rightarrow> bool" where
  "reads_offset rt \<longleftrightarrow> (\<forall>t d. rt_fromisoformat rt (t @ ''+00:00'') = Some d \<longrightarrow> dt_tz d = Some 0)"

lemma sdk_date_utc: "reads_offset rt \<Longrightarrow> utc_date rt (Some (utc_now_iso t))"
proof -
  assume rt: "reads_offset rt"
  obtain pre where pre: "utc_now_iso t = pre @ ''Z''" unfolding utc_now_iso_def by (metis append_assoc)
  have "replace_Z (pre @ ''Z'') = replace_Z pre @ ''+00:00''" by (simp add: replace_Z_def)
  with rt show ?thesis
    by (auto simp: utc_date_def pre reads_offset_def as_utc_def split: option.split)
qed

lemma reads_clean: "reads d ev \<Longrightarrow> reads_offset rt \<Longrightarrow> clean_event rt ev"
  using sdk_date_utc by (auto simp: reads_def clean_event_def)

subsection \<open>Posting a batch\<close>

lemma segments_events:
  assumes "CHR ''/'' \<notin> set rid"
  shows "segments (events_path rid) = [[], ''v1'', ''runs'', rid, ''events'']"
proof -
  have "segments (events_path rid) = segments ''/v1/runs'' @ segments (rid @ CHR ''/'' # ''events'')"
    using segments_append [of "''/v1/runs''" "rid @ ''/events''"] by (simp add: events_path_def)
  also have "\<dots> = [[], ''v1'', ''runs'', rid, ''events'']"
    unfolding segments_append using assms by (simp add: segments_plain)
  finally show ?thesis .
qed

lemma events_route:
  assumes "plain_id rid" "batch_call rid batch call" "event_inputs lax (map JDict batch) = Some evs"
  shows "dispatch rt dp lax auth q call s = serve rt dp auth (RunsEvents rid evs) s"
proof -
  have "rid \<noteq> []" "CHR ''/'' \<notin> set rid" using assms(1) plain_id_slash by (auto simp: plain_id_def)
  then show ?thesis
    using assms(2,3)
    by (simp add: dispatch_def find_route_def route_params_def batch_call_def segments_events route_tables
        body_of_def events_body_def events_request_def del: segments.simps)
qed

subsection \<open>A caller who may record\<close>

definition may_record :: "runtime \<Rightarrow> string option \<Rightarrow> principal \<Rightarrow> string \<Rightarrow> database \<Rightarrow> bool" where
  "may_record rt auth p rid db \<longleftrightarrow> db_ok db \<and> current_principal rt auth db = Inr p
     \<and> require_scope ''events'' ''write'' p = Inr p \<and> (\<exists>run. authorize_run db p rid = Inr run)"

lemma get_run_identity:
  assumes "map run_identity (db_runs db') = map run_identity (db_runs db)"
  shows "map_option run_identity (get_run db' k) = map_option run_identity (get_run db k)"
proof -
  have "map_option run_identity (find (\<lambda>r. r_id r = k) rs) = find (\<lambda>i. fst i = k) (map run_identity rs)" for rs
    by (induction rs) (simp_all add: run_identity_def)
  then show ?thesis using assms by (simp add: get_run_def)
qed

lemma may_record_keep:
  assumes "may_record rt auth p rid db" "db_ok db'" "db_keys db' = db_keys db"
    and "map run_identity (db_runs db') = map run_identity (db_runs db)"
  shows "may_record rt auth p rid db'"
proof -
  obtain run where run: "get_run db rid = Some run" "r_org run = pr_org p" "r_project run = pr_project p"
    using assms(1) by (auto simp: may_record_def authorize_run_Inr)
  from get_run_identity [OF assms(4), of rid] run(1) obtain run'
    where "get_run db' rid = Some run'" "run_identity run' = run_identity run" by auto
  with run have "authorize_run db' p rid = Inr run'" by (simp add: authorize_run_def run_identity_def)
  moreover have keys: "key_by_hash db' = key_by_hash db"
    using assms(3) by (intro ext) (simp add: key_by_hash_def)
  have "current_principal rt auth db' = current_principal rt auth db"
    unfolding current_principal_def keys ..
  ultimately show ?thesis using assms(1,2) by (auto simp: may_record_def)
qed

definition keeps_chain :: "runtime \<Rightarrow> string \<Rightarrow> database \<Rightarrow> database \<Rightarrow> bool" where
  "keeps_chain rt rid db db' \<longleftrightarrow> (utc_runtime rt \<and> reads_offset rt \<and> chain_sound rt db rid \<longrightarrow> chain_sound rt db' rid)"

lemma keeps_chain_refl [simp]: "keeps_chain rt rid db db"
  by (simp add: keeps_chain_def)

lemma keeps_chain_trans: "keeps_chain rt rid a b \<Longrightarrow> keeps_chain rt rid b c \<Longrightarrow> keeps_chain rt rid a c"
  by (simp add: keeps_chain_def)

lemma batch_answer:
  assumes "plain_id rid" "batch_call rid batch call" "reads_ints lax" "may_record rt auth p rid (st_db s)"
    and "\<forall>d \<in> set batch. emitted rid d \<and> sdk_good sdk_rt d \<and> recordable (st_db s) d"
    and "distinct (map sdk_id batch)" "distinct (map sdk_key batch)"
  shows "\<exists>s' rows. answer_call rt dp lax auth call s = (Answer 200 (JsonBody (event_ids_json (map sdk_id batch))), s')
    \<and> db_events (st_db s') = db_events (st_db s) @ rows \<and> list_all2 (row_shows rid) batch rows
    \<and> may_record rt auth p rid (st_db s') \<and> keeps_chain rt rid (st_db s) (st_db s')"
proof -
  obtain evs where evs: "event_inputs lax (map JDict batch) = Some evs" "list_all2 reads batch evs"
    using batch_read [of batch rid sdk_rt lax] assms(3,5) by blast
  have fresh: "fresh_batch rt [] (st_db s) evs" using reads_fresh [OF evs(2) _ assms(6,7)] assms(5) by blast
  obtain run where auth: "authorize_run (st_db s) p rid = Inr run" using assms(4) by (auto simp: may_record_def)
  from append_events_fresh_rows [OF auth fresh] obtain s' rows where app:
    "append_events rt [] (cfg_schema_version (dp_cfg dp)) p rid evs s = (Inr (map (the \<circ> i_event_id) evs), s')"
    "db_events (st_db s') = db_events (st_db s) @ rows" "list_all2 (row_keeps rt [] rid) evs rows" by blast
  have ok: "db_ok (st_db s)" using assms(4) by (simp add: may_record_def)
  have "may_record rt auth p rid (st_db s')"
    using append_events_session [OF app(1) ok] by (intro may_record_keep [OF assms(4)]) (simp_all add: run_session_def)
  moreover have "keeps_chain rt rid (st_db s) (st_db s')"
    unfolding keeps_chain_def
  proof (intro impI, elim conjE)
    assume rt: "utc_runtime rt" "reads_offset rt" "chain_sound rt (st_db s) rid"
    have "\<forall>ev \<in> set evs. clean_event rt ev"
      using evs(2) rt(2) by (induction rule: list_all2_induct) (auto dest: reads_clean)
    moreover have "length rows = length evs" using app(3) by (simp add: list_all2_lengthD)
    ultimately show "chain_sound rt (st_db s') rid"
      using append_events_chain_sound [OF app(1) ok rt(3,1)] app(2) by simp
  qed
  moreover have "\<not> has_nan (event_ids_json ids)" for ids
    by (induction ids) (simp_all add: event_ids_json_def)
  moreover have "map (the \<circ> i_event_id) evs = map sdk_id batch"
    using evs(2) by (induction rule: list_all2_induct) (simp_all add: reads_def)
  ultimately show ?thesis
    using events_route [OF assms(1,2) evs(1)] app reads_shows [OF evs(2) app(3)] assms(4)
    by (simp add: answer_call_def serve_def may_record_def respond_st_def respond_def rules_of_app_def answer_of_def)
qed

subsection \<open>Side calls\<close>

text \<open>Side requests touch no event, and of a run no more than its status, its end and its metadata.\<close>

definition run_ledger :: "agent_run \<Rightarrow> (string \<times> string \<times> string \<times> string \<times> string \<times> string option) \<times> string option \<times> int" where
  "run_ledger r = (run_identity r, r_last_hash r, r_count r)"

definition same_ledger :: "database \<Rightarrow> database \<Rightarrow> bool" where
  "same_ledger db db' \<longleftrightarrow> db_events db' = db_events db \<and> map run_ledger (db_runs db') = map run_ledger (db_runs db)"

lemma same_ledger_refl [simp]: "same_ledger db db"
  by (simp add: same_ledger_def)

lemma same_ledger_update: "(\<And>r. run_ledger (f r) = run_ledger r) \<Longrightarrow> same_ledger db (update_run k f db)"
  by (simp add: same_ledger_def update_run_def)

lemma set_status_ledger [simp]: "run_ledger (set_status st d r) = run_ledger r" "run_ledger (r\<lparr>r_metadata := m\<rparr>) = run_ledger r"
  by (simp_all add: run_ledger_def set_status_def run_identity_def)

lemma same_ledger_identity: "same_ledger db db' \<Longrightarrow> map run_identity (db_runs db') = map run_identity (db_runs db)"
  unfolding same_ledger_def by (drule conjunct2, drule arg_cong [where f = "map fst"]) (simp add: run_ledger_def comp_def)

lemma same_ledger_chain:
  assumes "same_ledger db db'"
  shows "keeps_chain rt rid db db'"
proof -
  have "map_option run_ledger (find (\<lambda>r. r_id r = rid) rs) = find (\<lambda>i. fst (fst i) = rid) (map run_ledger rs)" for rs
    by (induction rs) (simp_all add: run_ledger_def run_identity_def)
  then have run: "map_option run_ledger (get_run db' rid) = map_option run_ledger (get_run db rid)"
    using assms by (simp add: get_run_def same_ledger_def)
  have rows: "run_events db' rid = run_events db rid" using assms by (simp add: same_ledger_def run_events_def)
  have "chain_sound rt db' rid" if sound: "chain_sound rt db rid"
  proof -
    obtain r where r: "get_run db rid = Some r" using sound by (cases "get_run db rid") (simp_all add: chain_sound_def)
    with run obtain r' where r': "get_run db' rid = Some r'" "run_ledger r' = run_ledger r" by auto
    then have "run_identity r' = run_identity r" "r_last_hash r' = r_last_hash r" "r_count r' = r_count r"
      by (simp_all add: run_ledger_def)
    with sound r r'(1) row_linked_identity [of r' r rt None "run_events db rid"] show ?thesis
      by (simp add: chain_sound_def rows)
  qed
  then show ?thesis by (simp add: keeps_chain_def)
qed

lemma side_ops_ledger:
  "commit_run rt p rid s = (x, s') \<Longrightarrow> same_ledger (st_db s) (st_db s')"
  "rollback_run rt p rid reason s = (x, s') \<Longrightarrow> same_ledger (st_db s) (st_db s')"
  "request_approval rt p q s = (x, s') \<Longrightarrow> same_ledger (st_db s) (st_db s')"
  by (auto simp: commit_run_def rollback_run_def request_approval_def with_session_def Let_def
      intro!: same_ledger_update split: sum.splits if_splits option.splits)
    (simp_all add: same_ledger_def)

lemma respond_st_state: "respond_st catch show f s = (r, s') \<Longrightarrow> \<exists>x. f s = (x, s')"
  by (cases "f s") (auto simp: respond_st_def)

lemma side_handle:
  assumes "side_request req" "handle rt dp p req s = (r, s')"
  shows "same_ledger (st_db s) (st_db s')"
  using assms by (cases req)
    (auto simp: side_request_def policy_check_frame dest!: respond_st_state dest: side_ops_ledger policy_check_frame)

lemma side_serve:
  assumes "side_request req" "serve rt dp auth req s = (r, s')" "may_record rt auth p rid (st_db s)"
  shows "db_events (st_db s') = db_events (st_db s) \<and> may_record rt auth p rid (st_db s')
    \<and> keeps_chain rt rid (st_db s) (st_db s')"
  using assms(2)
proof (cases rule: serve_cases)
  case (refused e)
  with assms(3) show ?thesis by simp
next
  case open_endpoint
  then have "s' = s" by (rule open_endpoint_frame)
  with assms(3) show ?thesis by simp
next
  case (principal p' resource action)
  have ok: "db_ok (st_db s)" using assms(3) by (simp add: may_record_def)
  have ledger: "same_ledger (st_db s) (st_db s')" by (rule side_handle [OF assms(1) principal(4)])
  have "db_ok (st_db s')" "db_keys (st_db s') = db_keys (st_db s)"
    using handle_tenant [OF principal(4) ok] unfolding tenant_step_def by blast+
  then have "may_record rt auth p rid (st_db s')"
    using same_ledger_identity [OF ledger] by (rule may_record_keep [OF assms(3)])
  with ledger same_ledger_chain [OF ledger] show ?thesis by (simp add: same_ledger_def)
qed

lemma side_answer:
  assumes "side_call call" "answer_call rt dp lax auth call s = (a, s')" "may_record rt auth p rid (st_db s)"
  shows "db_events (st_db s') = db_events (st_db s) \<and> may_record rt auth p rid (st_db s')
    \<and> keeps_chain rt rid (st_db s) (st_db s')"
proof -
  obtain r where disp: "dispatch rt dp lax auth [] call s = (r, s')"
    using assms(2) by (auto simp: answer_call_def split: prod.splits)
  show ?thesis
  proof (cases "\<exists>rte ps req. find_route (hc_method call) (hc_path call) = Inr (rte, ps) \<and> rt_read rte lax ps [] (hc_body call) = Some req")
    case True
    then obtain rte ps req where route: "find_route (hc_method call) (hc_path call) = Inr (rte, ps)"
      "rt_read rte lax ps [] (hc_body call) = Some req" by blast
    have "serve rt dp auth req s = (r, s')" using disp dispatch_serve [OF route] by metis
    with side_serve [OF side_call_request [OF assms(1) route]] assms(3) show ?thesis by blast
  next
    case False
    then have "s' = s" using disp by (auto simp: dispatch_def split: sum.splits prod.splits option.splits)
    with assms(3) show ?thesis by simp
  qed
qed

subsection \<open>All calls of a run\<close>

lemma recordable_after:
  assumes "db_events db' = db_events db @ rows" "list_all2 (row_shows rid) batch rows"
    and "recordable db d" "sdk_id d \<notin> sdk_id ` set batch" "sdk_key d \<notin> sdk_key ` set batch"
  shows "recordable db' d"
proof -
  have "e_id ` set rows = sdk_id ` set batch" "e_idem ` set rows = (Some \<circ> sdk_key) ` set batch"
    using assms(2) by (induction rule: list_all2_induct) (auto simp: row_shows_def)
  then have "sdk_id d \<notin> e_id ` set rows" "Some (sdk_key d) \<notin> e_idem ` set rows"
    using assms(4,5) by auto
  with assms(1,3) show ?thesis by (simp add: recordable_def image_Un)
qed

lemma delivered:
  assumes "delivers w rid n calls due left" "served_by (answer_call rt dp lax auth) w n calls s = Some s'"
    and "plain_id rid" "reads_ints lax" "may_record rt auth p rid (st_db s)"
    and "\<forall>d \<in> set due. emitted rid d \<and> sdk_good sdk_rt d \<and> recordable (st_db s) d"
    and "distinct (map sdk_id due)" "distinct (map sdk_key due)"
  shows "\<exists>out rows. due = out @ left \<and> db_events (st_db s') = db_events (st_db s) @ rows
    \<and> list_all2 (row_shows rid) out rows \<and> may_record rt auth p rid (st_db s') \<and> keeps_chain rt rid (st_db s) (st_db s')
    \<and> (\<forall>call \<in> set calls. side_call call \<or> (\<exists>batch. batch_call rid batch call))"
  using assms
proof (induction calls arbitrary: n due s)
  case Nil
  then show ?case by simp
next
  case (Cons call calls)
  obtain a s1 where ans: "answer_call rt dp lax auth call s = (a, s1)" by force
  have net: "wo_net w n call = a" and later: "served_by (answer_call rt dp lax auth) w (Suc n) calls s1 = Some s'"
    using Cons.prems(2) ans by (auto split: if_splits)
  show ?case
  proof (cases "hc_path call = events_path rid")
    case True
    with Cons.prems(1) obtain batch rest where batch: "batch_call rid batch call" "due = batch @ rest"
      "accepted w n call \<longrightarrow> delivers w rid (Suc n) calls rest left" by auto
    from batch_answer [OF Cons.prems(3) batch(1) Cons.prems(4,5), of sdk_rt dp] Cons.prems(6-8) batch(2) ans
    obtain rows where posted: "a = Answer 200 (JsonBody (event_ids_json (map sdk_id batch)))" "db_events (st_db s1) = db_events (st_db s) @ rows"
      "list_all2 (row_shows rid) batch rows" "may_record rt auth p rid (st_db s1)"
      "keeps_chain rt rid (st_db s) (st_db s1)" by auto
    have "accepted w n call"
      using net posted(1) by (simp add: accepted_def attempt_result_def raise_for_status_def)
    then have deliv: "delivers w rid (Suc n) calls rest left" using batch(3) by blast
    have "recordable (st_db s1) d" if "d \<in> set rest" for d
      using that Cons.prems(6-8) batch(2) by (intro recordable_after [OF posted(2,3)]) auto
    then have "\<forall>d \<in> set rest. emitted rid d \<and> sdk_good sdk_rt d \<and> recordable (st_db s1) d"
      using Cons.prems(6) batch(2) by simp
    from Cons.IH [OF deliv later Cons.prems(3,4) posted(4) this] Cons.prems(7,8) batch(2)
    obtain out rows' where "rest = out @ left" "db_events (st_db s') = db_events (st_db s1) @ rows'"
      "list_all2 (row_shows rid) out rows'" "may_record rt auth p rid (st_db s')"
      "keeps_chain rt rid (st_db s1) (st_db s')" "\<forall>call \<in> set calls. side_call call \<or> (\<exists>batch. batch_call rid batch call)"
      by auto
    moreover from this(6) batch(1)
    have "\<forall>c \<in> set (call # calls). side_call c \<or> (\<exists>batch. batch_call rid batch c)" by auto
    ultimately show ?thesis
      using batch(2) posted(2,3) keeps_chain_trans [OF posted(5)]
      by (intro exI [of _ "batch @ out"] exI [of _ "rows @ rows'"]) (simp add: list_all2_appendI)
  next
    case False
    with Cons.prems(1) have side: "side_call call" and deliv: "delivers w rid (Suc n) calls due left" by simp_all
    from side_answer [OF side ans Cons.prems(5)] have s1: "db_events (st_db s1) = db_events (st_db s)"
      "may_record rt auth p rid (st_db s1)" "keeps_chain rt rid (st_db s) (st_db s1)" by simp_all
    have "\<forall>d \<in> set due. emitted rid d \<and> sdk_good sdk_rt d \<and> recordable (st_db s1) d"
      using Cons.prems(6) s1(1) by (simp add: recordable_def)
    from Cons.IH [OF deliv later Cons.prems(3,4) s1(2) this Cons.prems(7,8)] keeps_chain_trans [OF s1(3)] side show ?thesis
      unfolding s1(1) by auto
  qed
qed

end
