(* ===== verification/Delivery_Properties.thy ===== *)
theory Delivery_Properties
  imports Recording Service_Properties
begin

section \<open>What the SDK emits the collector records\<close>

text \<open>
  The property that spans the whole program: a run of the SDK, with its buffer, batches and keys, against
  the collector, with its routes, request models, authentication, authorisation and ingestion.
\<close>

subsection \<open>A run against the collector\<close>

lemma makes_due:
  assumes "run_makes w (new_run cl rid agent version env meta trace, st) (ro', st') new"
    and "inj_on (event_id_at (wo_rt w)) {sd_tick st..<sd_tick st'}"
    and "\<forall>e \<in> set (db_events db). e_id e \<notin> event_id_at (wo_rt w) ` {sd_tick st..<sd_tick st'}
      \<and> (\<forall>t. e_idem e \<noteq> Some (rid @ '':'' @ t))" "sd_tick st' \<le> 2 ^ 63"
  shows "sdk_linked (wo_rt w) None new" "\<forall>d \<in> set new. emitted rid d \<and> sdk_good (wo_rt w) d \<and> recordable db d"
    "distinct (map sdk_id new)" "distinct (map sdk_key new)"
    "delivers w rid (length (sd_sent st)) (drop (length (sd_sent st)) (sd_sent st')) new (ro_buffer ro')"
proof -
  let ?ro = "new_run cl rid agent version env meta trace"
  have ro: "ro_buffer ?ro = []" "ro_prev ?ro = None" "ro_id ?ro = rid" "ro_step ?ro = 0" by (simp_all add: new_run_def)
  from assms(1) have new: "new_events (wo_rt w) ?ro ro' new" and ids: "drawn (wo_rt w) (sd_tick st) (sd_tick st') new"
    and sent: "carries w rid st st' new (ro_buffer ro')" and no: "numbered ?ro ro' new"
    and pace: "paced (?ro, st) (ro', st')" by (auto simp: run_makes_if_def ro)
  from new show linked: "sdk_linked (wo_rt w) None new" by (simp add: new_events_def ro)
  note own = drawn_distinct [OF ids assms(2)]
  show "distinct (map sdk_id new)" by (rule own(1))
  show "distinct (map sdk_key new)" by (rule new_events_keys [OF new no])
  from sent show "delivers w rid (length (sd_sent st)) (drop (length (sd_sent st)) (sd_sent st')) new (ro_buffer ro')"
    by (auto simp: carries_def)
  have "emitted rid d \<and> sdk_good (wo_rt w) d \<and> recordable db d" if d: "d \<in> set new" for d
  proof -
    obtain t where "emitted rid d" and key: "sdk_key d = rid @ '':'' @ t"
      using new d by (auto simp: new_events_def ro)
    moreover have "sdk_good (wo_rt w) d" using linked d by (rule linked_good)
    moreover have own_id: "sdk_id d \<in> event_id_at (wo_rt w) ` {sd_tick st..<sd_tick st'}" using own(2) d by auto
    moreover from own_id have "sdk_id d \<noteq> []" by (auto simp: event_id_at_def generate_event_id_def)
    moreover have "sdk_id d \<notin> e_id ` set (db_events db)" using assms(3) own_id by auto
    moreover have "Some (sdk_key d) \<notin> e_idem ` set (db_events db)" using assms(3) unfolding key image_iff by metis
    moreover have "int64 (sdk_index d)"
    proof (rule int64_below)
      show "0 \<le> sdk_index d" "sdk_index d < int (ro_step ro')" using no d by (simp_all add: numbered_def ro)
      have "ro_step ro' + sd_tick st \<le> sd_tick st'" using pace by (simp add: paced_def ro)
      with assms(4) show "ro_step ro' \<le> 2 ^ 63" by linarith
    qed
    ultimately show ?thesis by (simp add: recordable_def)
  qed
  then show "\<forall>d \<in> set new. emitted rid d \<and> sdk_good (wo_rt w) d \<and> recordable db d" by blast
qed

lemma run_recorded:
  assumes "run_makes w (new_run cl rid agent version env meta trace, st) (ro', st') new"
    and "served_by (answer_call rt dp lax auth) w (length (sd_sent st)) (drop (length (sd_sent st)) (sd_sent st')) s = Some s'"
    and "plain_id rid" "reads_ints lax" "may_record rt auth p rid (st_db s)"
    and "inj_on (event_id_at (wo_rt w)) {sd_tick st..<sd_tick st'}"
    and "\<forall>e \<in> set (db_events (st_db s)). e_id e \<notin> event_id_at (wo_rt w) ` {sd_tick st..<sd_tick st'}
      \<and> (\<forall>t. e_idem e \<noteq> Some (rid @ '':'' @ t))" "sd_tick st' \<le> 2 ^ 63"
  shows "\<exists>out rows. sdk_linked (wo_rt w) None new \<and> new = out @ ro_buffer ro'
    \<and> db_events (st_db s') = db_events (st_db s) @ rows \<and> list_all2 (row_shows rid) out rows
    \<and> may_record rt auth p rid (st_db s') \<and> keeps_chain rt rid (st_db s) (st_db s')"
proof -
  note due = makes_due [OF assms(1,6-8)]
  from delivered [OF due(5) assms(2-5) due(2-4)] due(1) show ?thesis by blast
qed

lemma session_recorded:
  assumes "fold (hook_step w cl) hooks (new_run cl rid agent version env meta trace, st) = (ro', st')"
    and "served_by (answer_call rt dp lax auth) w (length (sd_sent st)) (drop (length (sd_sent st)) (sd_sent st')) s = Some s'"
    and "plain_id rid" "reads_ints lax" "may_record rt auth p rid (st_db s)"
    and "inj_on (event_id_at (wo_rt w)) {sd_tick st..<sd_tick st'}"
    and "\<forall>e \<in> set (db_events (st_db s)). e_id e \<notin> event_id_at (wo_rt w) ` {sd_tick st..<sd_tick st'}
      \<and> (\<forall>t. e_idem e \<noteq> Some (rid @ '':'' @ t))"
    and "\<forall>h \<in> set hooks. numbered_hook h" "sd_tick st' \<le> 2 ^ 63"
  shows "\<exists>events out rows. sdk_linked (wo_rt w) None events \<and> events = out @ ro_buffer ro'
    \<and> db_events (st_db s') = db_events (st_db s) @ rows \<and> list_all2 (row_shows rid) out rows
    \<and> may_record rt auth p rid (st_db s') \<and> keeps_chain rt rid (st_db s) (st_db s')"
proof -
  from hooks_run [of hooks w "(new_run cl rid agent version env meta trace, st)" cl] assms(1,8)
  obtain new where "run_makes w (new_run cl rid agent version env meta trace, st) (ro', st') new"
    by (auto simp: run_step_if_def)
  from run_recorded [OF this assms(2-7,9)] show ?thesis by blast
qed

text \<open>A run whose chain stays sound verifies, with the rows it gained.\<close>

lemma recorded_verifies:
  assumes "db_events (st_db s') = db_events (st_db s) @ rows" "list_all2 (row_shows rid) out rows"
    and "may_record rt auth p rid (st_db s)" "may_record rt auth p rid (st_db s')"
    and "keeps_chain rt rid (st_db s) (st_db s')" "utc_runtime rt" "reads_offset rt" "chain_sound rt (st_db s) rid"
  shows "verify rt p rid (st_db s') = Inr \<lparr>v_run = rid, v_valid = True,
        v_count = length (run_events (st_db s) rid) + length out, v_broken = None\<rparr>"
proof -
  from assms(4) obtain run where run: "authorize_run (st_db s') p rid = Inr run" and ok: "db_ok (st_db s')"
    by (auto simp: may_record_def)
  have ok0: "db_ok (st_db s)" using assms(3) by (simp add: may_record_def)
  have "filter (\<lambda>e. e_run e = rid) rows = rows"
    using assms(2) by (induction rule: list_all2_induct) (auto simp: row_shows_def)
  then have count: "length (run_events (st_db s') rid) = length (run_events (st_db s) rid) + length out"
    using assms(1,2) by (simp add: run_events_filter [OF ok] run_events_filter [OF ok0] list_all2_lengthD)
  have "chain_sound rt (st_db s') rid" using assms(5-8) by (simp add: keeps_chain_def)
  then have "row_linked rt run None (run_events (st_db s') rid)"
    using run by (auto simp: chain_sound_def authorize_run_Inr split: option.splits)
  then have "verify rt p rid (st_db s') = Inr \<lparr>v_run = rid, v_valid = True, v_count = length (run_events (st_db s') rid), v_broken = None\<rparr>"
    using verify_rows_linked [of rt run None "run_events (st_db s') rid"] by (simp add: verify_cases [OF run])
  with count show ?thesis by simp
qed

text \<open>
  C4: A run that is open at the collector, used through the SDK with any calls and callbacks that leave the step numbers to
  the run, whose calls the collector serves: the table of events gains one row for each event that left the buffer, in the
  order of the run's hash chain, with the event's identifier, idempotency key, type, number and payload, and
  gains nothing else. The events not recorded are those still in the buffer. The identifiers that the session draws are
  distinct and new, no key of the table is one of this run, and the counter stays within 64 bits; the run's id is of letters,
  digits, \<open>_\<close> and \<open>-\<close>, and integers are read as such.
\<close>

theorem emitted_is_recorded:
  assumes "fold (hook_step w cl) hooks (new_run cl rid agent version env meta trace, st) = (ro', st')"
    and "served_by (answer_call rt dp lax auth) w (length (sd_sent st)) (drop (length (sd_sent st)) (sd_sent st')) s = Some s'"
    and "plain_id rid" "reads_ints lax" "may_record rt auth p rid (st_db s)"
    and "inj_on (event_id_at (wo_rt w)) {sd_tick st..<sd_tick st'}"
    and "\<forall>e \<in> set (db_events (st_db s)). e_id e \<notin> event_id_at (wo_rt w) ` {sd_tick st..<sd_tick st'}
      \<and> (\<forall>t. e_idem e \<noteq> Some (rid @ '':'' @ t))"
    and "\<forall>h \<in> set hooks. numbered_hook h" "sd_tick st' \<le> 2 ^ 63"
  shows "\<exists>events out rows. sdk_linked (wo_rt w) None events \<and> events = out @ ro_buffer ro'
    \<and> db_events (st_db s') = db_events (st_db s) @ rows \<and> list_all2 (row_shows rid) out rows"
  using session_recorded [OF assms] by blast

text \<open>
  C5: After such a session, in which the run numbers its events itself, the run verifies, with as many more events as
  left the buffer, if its chain was sound before: on a collector whose clock and columns are in UTC, which reads dates with
  the offset zero as such. The other conditions are those of the property before.
\<close>

theorem session_verifies:
  assumes "fold (hook_step w cl) hooks (new_run cl rid agent version env meta trace, st) = (ro', st')"
    and "served_by (answer_call rt dp lax auth) w (length (sd_sent st)) (drop (length (sd_sent st)) (sd_sent st')) s = Some s'"
    and "plain_id rid" "reads_ints lax" "may_record rt auth p rid (st_db s)"
    and "inj_on (event_id_at (wo_rt w)) {sd_tick st..<sd_tick st'}"
    and "\<forall>e \<in> set (db_events (st_db s)). e_id e \<notin> event_id_at (wo_rt w) ` {sd_tick st..<sd_tick st'}
      \<and> (\<forall>t. e_idem e \<noteq> Some (rid @ '':'' @ t))"
    and "\<forall>h \<in> set hooks. numbered_hook h" "sd_tick st' \<le> 2 ^ 63"
    and "utc_runtime rt" "reads_offset rt" "chain_sound rt (st_db s) rid"
  shows "\<exists>events out. sdk_linked (wo_rt w) None events \<and> events = out @ ro_buffer ro'
    \<and> verify rt p rid (st_db s') = Inr \<lparr>v_run = rid, v_valid = True,
        v_count = length (run_events (st_db s) rid) + length out, v_broken = None\<rparr>"
proof -
  from session_recorded [OF assms(1-9)] obtain events out rows where
    events: "sdk_linked (wo_rt w) None events" "events = out @ ro_buffer ro'"
    and rows: "db_events (st_db s') = db_events (st_db s) @ rows" "list_all2 (row_shows rid) out rows"
    and after: "may_record rt auth p rid (st_db s')" "keeps_chain rt rid (st_db s) (st_db s')" by blast
  from events recorded_verifies [OF rows assms(5) after assms(10-12)] show ?thesis by blast
qed

subsection \<open>An open run\<close>

definition open_db :: database where
  "open_db = demo_db\<lparr>db_keys := [bootstrap_key demo_rt demo_cfg demo_now ''secret'']\<rparr>"

definition open_state :: cstate where
  "open_state = demo_state\<lparr>st_db := open_db\<rparr>"

definition int_of_json :: "json \<Rightarrow> int option" where
  "int_of_json v = (case v of JInt i \<Rightarrow> Some i | _ \<Rightarrow> None)"

lemma open_may_record: "\<exists>p. may_record demo_rt (Some ''Bearer secret'') p ''run_1'' open_db"
proof -
  let ?row = "bootstrap_key demo_rt demo_cfg demo_now ''secret''"
  have "current_principal demo_rt (Some (''Bearer '' @ ''secret'')) open_db
      = Inr \<lparr>pr_key = ak_id ?row, pr_org = ak_org ?row, pr_project = ak_project ?row, pr_scopes = ak_scopes ?row\<rparr>"
    by (subst current_principal_bearer) (simp_all add: open_db_def key_by_hash_def bootstrap_key_def)
  moreover have "db_ok open_db" using demo_db_ok by (simp add: open_db_def db_ok_def)
  ultimately show ?thesis
    by (intro exI [of _ "\<lparr>pr_key = ak_id ?row, pr_org = ak_org ?row, pr_project = ak_project ?row, pr_scopes = ak_scopes ?row\<rparr>"])
      (simp add: may_record_def require_scope_def bootstrap_key_def bootstrap_scopes_def scope_ok_def Let_def authorize_run_def
        get_run_def open_db_def demo_db_def demo_run_def demo_cfg_def)
qed

text \<open>A client that posts each event at once, and tries once. Its wire leads to the collector.\<close>

definition eager_client :: client where
  "eager_client = demo_client\<lparr>cl_batch := 1, cl_transport := demo_transport\<lparr>tc_max_retries := 1\<rparr>\<rparr>"

definition open_call :: "http_call \<Rightarrow> cstate \<Rightarrow> answer \<times> cstate" where
  "open_call = answer_call demo_rt demo_dp int_of_json (Some ''Bearer secret'')"

definition open_world :: world where
  "open_world = \<lparr>wo_rt = demo_rt, wo_net = (\<lambda>n call. fst (open_call call open_state)), wo_jitter = (\<lambda>n. 0)\<rparr>"

text \<open>One emission makes one call at most, so that the collector is still in the state the wire answers from.\<close>

lemma eager_request:
  assumes "request w (cl_transport eager_client) ''POST'' path (Some body) key True st = (r, st')"
  shows "\<exists>call. sd_sent st' = sd_sent st @ [call]" "sd_tick st' = sd_tick st"
  using assms by (auto simp: request_def eager_client_def demo_transport_def send_def split: sum.splits if_splits)

lemma eager_post:
  assumes "post_events w (cl_transport eager_client) rid events key st = (r, st')"
  shows "(\<exists>call. sd_sent st' = sd_sent st @ [call]) \<and> sd_tick st' = sd_tick st"
  using assms by (auto simp: post_events_def spool_write_def split: prod.splits sum.splits if_splits dest: eager_request)

lemma eager_emit:
  assumes "emit_event w eager_client em c = (r, c')" "ro_buffer (fst c) = []"
  shows "\<exists>calls. sd_sent (snd c') = sd_sent (snd c) @ calls \<and> length calls \<le> 1" "sd_tick (snd c') \<le> sd_tick (snd c) + 3"
proof -
  obtain x c1 where build: "build_envelope w eager_client em c = (x, c1)" by (cases "build_envelope w eager_client em c")
  have b: "sd_sent (snd c1) = sd_sent (snd c)" "sd_tick (snd c1) \<le> sd_tick (snd c) + 3"
    using build by (auto simp: build_envelope_def Let_def split: if_splits sum.splits prod.splits)
  have "(\<exists>calls. sd_sent (snd c') = sd_sent (snd c1) @ calls \<and> length calls \<le> 1) \<and> sd_tick (snd c') = sd_tick (snd c1)"
  proof (cases x)
    case (Inl e)
    with assms build show ?thesis by (auto simp: emit_event_def and_then_def)
  next
    case (Inr en)
    let ?ro = "(fst c1)\<lparr>ro_buffer := ro_buffer (fst c1) @ [envelope_dict eager_client (fst c1) en (Some (event_key (fst c1) en))]\<rparr>"
    obtain y st1 where p: "post_events w (cl_transport eager_client) (ro_id ?ro) (map JDict (ro_buffer ?ro))
        (Some (batch_key (ro_id ?ro) (ro_buffer ?ro))) (snd c1) = (y, st1)" by force
    have "cl_batch eager_client = 1" by (simp add: eager_client_def)
    then have "snd c' = st1"
      using assms(1) build Inr p by (auto simp: emit_event_def and_then_def Let_def flush_run_def ok_def split: sum.splits prod.splits)
    with eager_post [OF p] show ?thesis by auto
  qed
  with b show "\<exists>calls. sd_sent (snd c') = sd_sent (snd c) @ calls \<and> length calls \<le> 1" "sd_tick (snd c') \<le> sd_tick (snd c) + 3"
    by simp_all
qed

lemma demo_ids: "b \<le> 200 \<Longrightarrow> inj_on (event_id_at demo_rt) {0..<b}"
  by (auto simp: inj_on_def event_id_at_def generate_event_id_def dest: ulid_inj)

lemma open_served:
  assumes "length calls \<le> 1"
  shows "\<exists>s'. served_by open_call open_world 0 calls open_state = Some s'"
  using assms by (cases calls) (auto simp: open_world_def split: prod.split)

text \<open>A session of one emission, with what the properties ask of it.\<close>

definition open_run :: run where
  "open_run = new_run eager_client ''run_1'' ''agent'' None None [] None"

lemma open_session:
  obtains ro' st' s' p where
    "fold (hook_step open_world eager_client) [OnCall (ApiEmit ''memory.read'' [] no_options)] (open_run, fresh_sdk) = (ro', st')"
    "served_by open_call open_world 0 (sd_sent st') open_state = Some s'"
    "may_record demo_rt (Some ''Bearer secret'') p ''run_1'' (st_db open_state)"
    "inj_on (event_id_at demo_rt) {0..<sd_tick st'}" "sd_tick st' \<le> 2 ^ 63"
proof -
  let ?em = "emission_of ''memory.read'' (JDict [])"
  obtain r ro' st' where emit: "emit_event open_world eager_client ?em (open_run, fresh_sdk) = (r, (ro', st'))"
    by (cases "emit_event open_world eager_client ?em (open_run, fresh_sdk)") auto
  have "ro_buffer open_run = []" by (simp add: open_run_def new_run_def)
  then have bounds: "length (sd_sent st') \<le> 1" "sd_tick st' \<le> 3"
    using eager_emit [OF emit] by (auto simp: fresh_sdk_def)
  obtain s' where "served_by open_call open_world 0 (sd_sent st') open_state = Some s'"
    using open_served [OF bounds(1)] by blast
  moreover obtain p where "may_record demo_rt (Some ''Bearer secret'') p ''run_1'' (st_db open_state)"
    using open_may_record by (auto simp: open_state_def)
  ultimately show thesis
    using emit demo_ids [of "sd_tick st'"] bounds(2) by (intro that) (auto simp: run_emit_plain)
qed

lemma open_facts:
  "plain_id ''run_1''" "reads_ints int_of_json" "wo_rt open_world = demo_rt" "db_events (st_db open_state) = []"
  "sd_sent fresh_sdk = []" "sd_tick fresh_sdk = 0" "run_events (st_db open_state) ''run_1'' = []" "reads_offset demo_rt"
  by (simp_all add: plain_id_def reads_ints_def int_of_json_def open_world_def open_state_def
      open_db_def fresh_sdk_def run_events_def reads_offset_def)

lemma open_chain: "chain_sound demo_rt (st_db open_state) ''run_1''"
proof -
  have "get_run (st_db open_state) ''run_1'' = Some demo_run"
    by (simp add: open_state_def open_db_def get_run_def demo_db_def demo_run_def)
  then show ?thesis by (simp add: chain_sound_def open_facts demo_run_def)
qed

theorem emitted_is_recorded_witness:
  "\<exists>ro' st' s' events out.
     fold (hook_step open_world eager_client) [OnCall (ApiEmit ''memory.read'' [] no_options)] (open_run, fresh_sdk) = (ro', st')
     \<and> served_by open_call open_world 0 (sd_sent st') open_state = Some s'
     \<and> sdk_linked demo_rt None events \<and> events = out @ ro_buffer ro'
     \<and> list_all2 (row_shows ''run_1'') out (db_events (st_db s'))"
proof -
  obtain ro' st' s' p where run: "fold (hook_step open_world eager_client) [OnCall (ApiEmit ''memory.read'' [] no_options)] (open_run, fresh_sdk) = (ro', st')"
    and rest: "served_by open_call open_world 0 (sd_sent st') open_state = Some s'"
      "may_record demo_rt (Some ''Bearer secret'') p ''run_1'' (st_db open_state)" "inj_on (event_id_at demo_rt) {0..<sd_tick st'}"
      "sd_tick st' \<le> 2 ^ 63"
    by (rule open_session)
  obtain events out where "sdk_linked demo_rt None events" "events = out @ ro_buffer ro'"
    "list_all2 (row_shows ''run_1'') out (db_events (st_db s'))"
    using emitted_is_recorded [OF run [unfolded open_run_def] _ open_facts(1,2) rest(2), of demo_dp s'] rest(1,3,4)
    by (auto simp: open_facts open_call_def no_options_def)
  with run rest(1) show ?thesis by blast
qed

theorem session_verifies_witness:
  "\<exists>s' p n. verify demo_rt p ''run_1'' (st_db s') = Inr \<lparr>v_run = ''run_1'', v_valid = True, v_count = n, v_broken = None\<rparr>
     \<and> (\<exists>calls. served_by open_call open_world 0 calls open_state = Some s')"
proof -
  obtain ro' st' s' p where run: "fold (hook_step open_world eager_client) [OnCall (ApiEmit ''memory.read'' [] no_options)] (open_run, fresh_sdk) = (ro', st')"
    and rest: "served_by open_call open_world 0 (sd_sent st') open_state = Some s'"
      "may_record demo_rt (Some ''Bearer secret'') p ''run_1'' (st_db open_state)" "inj_on (event_id_at demo_rt) {0..<sd_tick st'}"
      "sd_tick st' \<le> 2 ^ 63"
    by (rule open_session)
  obtain out :: "pydict list" where "verify demo_rt p ''run_1'' (st_db s')
      = Inr \<lparr>v_run = ''run_1'', v_valid = True, v_count = length out, v_broken = None\<rparr>"
    using session_verifies [OF run [unfolded open_run_def] _ open_facts(1,2) rest(2), of demo_dp s'] rest(1,3,4)
    by (auto simp: open_facts open_chain open_call_def demo_utc no_options_def)
  with rest(1) show ?thesis by blast
qed

end
