(* ===== verification/Typed_Rows.thy ===== *)
theory Typed_Rows
  imports Recording Service_Properties
begin

section \<open>What the rows of the table of events are\<close>

text \<open>
  A type invariant of the collector as its clients see it, over HTTP: whatever calls are made, a row of the table
  of events has a known type, an identifier, a payload that is a dictionary or absent, with its hash, and texts in the columns of
  its actor. The
  calls are steps of the machine of \<open>App\<close>, so that its invariants hold over HTTP too.
\<close>

definition typed_payload :: "json \<Rightarrow> bool" where
  "typed_payload v \<longleftrightarrow> v = JNull \<or> (\<exists>d. v = JDict d)"

definition typed_row :: "audit_event \<Rightarrow> bool" where
  "typed_row row \<longleftrightarrow> e_type row \<in> set EVENT_TYPES \<and> e_id row \<noteq> [] \<and> typed_payload (e_payload row)
     \<and> (e_payload row \<noteq> JNull \<longrightarrow> str_truthy (e_payload_hash row))
     \<and> text_value (e_actor_type row) \<and> text_value (e_actor_id row)"

definition typed_events :: "database \<Rightarrow> bool" where
  "typed_events db \<longleftrightarrow> (\<forall>row \<in> set (db_events db). typed_row row)"

fun typed_request :: "request \<Rightarrow> bool" where
  "typed_request (RunsEvents rid evs) \<longleftrightarrow> (\<forall>ev \<in> set evs. typed_payload (i_payload ev))"
| "typed_request _ \<longleftrightarrow> True"

subsection \<open>Requests that are read\<close>

lemma event_input_typed: "event_input_of lax v = Some ev \<Longrightarrow> typed_payload (i_payload ev)"
  by (auto simp: event_input_of_def bind_eq_Some_conv typed_payload_def opt_dict_def split: option.splits)

lemma event_inputs_typed: "event_inputs lax vs = Some evs \<Longrightarrow> \<forall>ev \<in> set evs. typed_payload (i_payload ev)"
  by (induction vs arbitrary: evs) (auto simp: bind_eq_Some_conv dest: event_input_typed)

lemma route_typed:
  assumes "r \<in> set routes" "rt_read r lax ps q b = Some req"
  shows "typed_request req"
proof -
  have start: "typed_request req'" if "run_start_request d = Some req'" for d req'
    using that by (auto simp: run_start_request_def bind_eq_Some_conv)
  have policy: "typed_request req'" if "policy_check_request d = Some req'" for d req'
    using that by (auto simp: policy_check_request_def bind_eq_Some_conv)
  have export: "typed_request req'" if "export_request d = Some req'" for d req'
    using that by (auto simp: export_request_def bind_eq_Some_conv)
  have events: "\<forall>ev \<in> set evs. typed_payload (i_payload ev)" if "events_request lax d = Some evs" for d evs
    using that by (auto simp: events_request_def dest: event_inputs_typed split: option.splits json.splits)
  show ?thesis
    using assms unfolding route_tables
    by (auto simp: body_of_def bind_eq_Some_conv dest!: start policy export events split: option.splits json.splits)
qed

subsection \<open>Rows that are written\<close>

lemma payload_hash_given: "payload_hash_of rt v g = Inr ph \<Longrightarrow> v \<noteq> JNull \<Longrightarrow> str_truthy ph"
  by (auto simp: payload_hash_of_def compute_payload_hash_def hash_json_def sha256_hex_def split: if_splits sum.splits)

lemma read_event_id_nonempty: "fst (read_event_id rt ev s) \<noteq> []"
  by (cases "i_event_id ev") (auto simp: read_event_id_def generate_event_id_def)

lemma persist_event_typed:
  assumes "persist_event rt [] schema p run db0 ev prev s = (x, s')" "typed_events db0" "typed_events (st_db s)"
    and "typed_payload (i_payload ev)"
  shows "typed_events (st_db s')"
proof -
  from persist_event_cases [OF assms(1)] consider "st_db s' = st_db s \<or> st_db s' = db0"
    | eh where "x = Inr eh" "adds_row rt [] schema p run ev prev eh s s'" by blast
  then show ?thesis
  proof cases
    case 1
    with assms(2,3) show ?thesis by auto
  next
    case 2
    have known: "i_type ev \<in> set EVENT_TYPES"
      using assms(1) 2(1) by (auto simp: persist_event_def split: if_splits)
    from 2(2) obtain ph h where row: "db_events (st_db s') = db_events (st_db s)
        @ [(new_row rt [] schema p run ev prev ph h s)\<lparr>e_seq := next_seq (st_db s)\<rparr>]"
      and ph: "payload_hash_of rt (redact_payload rt [] (i_payload ev)) (i_payload_hash ev) = Inr ph"
      by (auto simp: adds_row_def insert_event_def split: if_splits)
    have "e_id (new_row rt [] schema p run ev prev ph h s) \<noteq> []"
      using read_event_id_nonempty by (auto simp: new_row_def Let_def split: prod.split)
    moreover have "e_payload_hash (new_row rt [] schema p run ev prev ph h s) = ph"
      by (simp add: new_row_def Let_def split: prod.split)
    ultimately have "typed_row ((new_row rt [] schema p run ev prev ph h s)\<lparr>e_seq := next_seq (st_db s)\<rparr>)"
      using known assms(4) payload_hash_given [OF ph] by (simp add: typed_row_def redact_payload_def column_text_text)
    with assms(3) row show ?thesis by (simp add: typed_events_def)
  qed
qed

lemma append_loop_typed:
  assumes "append_loop rt [] schema p run db0 evs prev s = (x, s')" "typed_events (st_db s)"
    and "\<forall>ev \<in> set evs. typed_payload (i_payload ev)" "typed_events db0"
  shows "typed_events (st_db s')"
  using assms(1-3)
proof (induction evs arbitrary: prev s x s')
  case Nil
  then show ?case by simp
next
  case (Cons ev evs)
  obtain y s1 where pe: "persist_event rt [] schema p run db0 ev prev s = (y, s1)" by force
  have s1: "typed_events (st_db s1)" using persist_event_typed [OF pe assms(4) Cons.prems(2)] Cons.prems(3) by simp
  show ?case
  proof (cases y)
    case (Inl e)
    with pe Cons.prems(1) s1 show ?thesis by (auto split: if_splits)
  next
    case (Inr eh)
    obtain z s2 where al: "append_loop rt [] schema p run db0 evs (Some (snd eh)) s1 = (z, s2)" by force
    from Cons.IH [OF al s1] Cons.prems(1,3) Inr pe al show ?thesis by (auto split: sum.splits prod.splits)
  qed
qed

lemma append_events_typed:
  assumes "append_events rt [] schema p rid evs s = (x, s')" "typed_events (st_db s)"
    and "\<forall>ev \<in> set evs. typed_payload (i_payload ev)"
  shows "typed_events (st_db s')"
proof (cases x)
  case (Inl e)
  with assms show ?thesis by (simp add: append_events_Inl)
next
  case (Inr ids)
  show ?thesis
  proof (cases "evs = []")
    case True
    with assms show ?thesis by (simp add: append_events_def)
  next
    case False
    obtain run prev' s1 where loop: "append_loop rt [] schema p run (st_db s) evs (r_last_hash run) (tick s) = (Inr (ids, prev'), s1)"
      and s': "st_db s' = update_run rid (\<lambda>r. r\<lparr>r_last_hash := prev', r_count := r_count r + int (length ids)\<rparr>) (st_db s1)"
      by (rule append_events_Inr [OF assms(1) [unfolded Inr] False])
    have "typed_events (st_db s1)" using append_loop_typed [OF loop _ assms(3,2)] assms(2) by simp
    then show ?thesis by (simp add: s' typed_events_def)
  qed
qed

lemma export_run_typed:
  assumes "export_run rt zip_bytes cfg p rid by s = (x, s')" "typed_events (st_db s)"
  shows "typed_events (st_db s')"
proof -
  have announce: "typed_events (st_db (announce_export rt [] cfg p r payload t))" if "typed_events (st_db t)" for r payload t
    using append_events_typed [OF surjective_pairing, of "tick t"] that
    by (simp add: announce_export_def Let_def export_event_def typed_payload_def)
  have finish: "typed_events (st_db t')" if "finish_export rt cfg p row payload t = (y, t')" "typed_events (st_db t)" for row payload t y t'
  proof -
    obtain u t1 where rec: "record_export rt row t = (u, t1)" by force
    have "db_events (st_db t1) = db_events (st_db t)"
      using rec by (auto simp: record_export_def with_session_def Let_def split: if_splits)
    then have "typed_events (st_db t1)" using that(2) by (simp add: typed_events_def)
    with that(1) rec announce show ?thesis by (auto simp: finish_export_def split: sum.splits)
  qed
  from assms show ?thesis
    by (auto simp: export_run_def Let_def split: sum.splits intro: finish)
qed

text \<open>All other operations leave the events alone.\<close>

lemma other_events:
  "start_run rt p rid agent version env meta s = (x, s') \<Longrightarrow> db_events (st_db s') = db_events (st_db s)"
  "decide rt p aid decision reviewer reason s = (x, s') \<Longrightarrow> db_events (st_db s') = db_events (st_db s)"
  "replay rt p run s = (x, s') \<Longrightarrow> db_events (st_db s') = db_events (st_db s)"
  by (auto simp: start_run_def decide_def update_approval_def with_session_def Let_def split: if_splits option.splits dest: replay_frame)

lemma handle_typed:
  assumes "handle rt dp p req s = (r, s')" "typed_request req" "typed_events (st_db s)"
  shows "typed_events (st_db s')"
proof -
  have same: "typed_events (st_db s')" if "db_events (st_db s') = db_events (st_db s)"
    using that assms(3) by (simp add: typed_events_def)
  show ?thesis
  proof (cases req)
    case (RunsEvents rid evs)
    with assms obtain x where "append_events rt [] (cfg_schema_version (dp_cfg dp)) p rid evs s = (x, s')"
      by (auto simp: rules_of_app_def dest: respond_st_state)
    then show ?thesis by (rule append_events_typed) (use assms(2,3) RunsEvents in simp_all)
  next
    case (AuditExport rid "by")
    with assms(1) obtain x where "export_run rt (dp_zip dp) (dp_cfg dp) p rid by s = (x, s')" by (auto dest: respond_st_state)
    then show ?thesis using assms(3) by (rule export_run_typed)
  next
    case (RunsStart rid agent version env meta)
    with assms(1) have "db_events (st_db s') = db_events (st_db s)" by (auto dest!: respond_st_state other_events(1))
    then show ?thesis by (rule same)
  next
    case (ApprovalsApprove aid reviewer reason)
    with assms(1) have "db_events (st_db s') = db_events (st_db s)" by (auto dest!: respond_st_state other_events(2))
    then show ?thesis by (rule same)
  next
    case (ApprovalsReject aid reviewer reason)
    with assms(1) have "db_events (st_db s') = db_events (st_db s)" by (auto dest!: respond_st_state other_events(2))
    then show ?thesis by (rule same)
  next
    case (RunsReplay rid)
    with assms(1) have "db_events (st_db s') = db_events (st_db s)" by (auto dest!: respond_st_state other_events(3))
    then show ?thesis by (rule same)
  next
    case (RunsList limit)
    with assms(1,3) show ?thesis by (simp split: if_splits)
  next
    case (RunsTimeline rid limit cursor)
    with assms(1,3) show ?thesis by (simp split: if_splits)
  qed (use assms(1,3) side_handle [OF _ assms(1)] same in \<open>simp_all add: side_request_def same_ledger_def\<close>)
qed

subsection \<open>The collector over HTTP\<close>

inductive http_step :: "runtime \<Rightarrow> deployment \<Rightarrow> int_reader \<Rightarrow> cstate \<Rightarrow> cstate \<Rightarrow> bool" for rt dp lax where
  called: "dispatch rt dp lax auth q call s = (r, s') \<Longrightarrow> http_step rt dp lax s s'"
| restarted: "bootstrap rt cfg now (st_db s) = Inr db \<Longrightarrow> http_step rt dp lax s (s\<lparr>st_db := db, st_metrics := METRICS\<rparr>)"

inductive http_reachable :: "runtime \<Rightarrow> deployment \<Rightarrow> int_reader \<Rightarrow> datetime \<Rightarrow> cstate \<Rightarrow> bool" for rt dp lax now where
  start: "bootstrap rt (dp_cfg dp) now empty_db = Inr db
    \<Longrightarrow> http_reachable rt dp lax now \<lparr>st_db = db, st_metrics = METRICS, st_tick = n, st_files = files\<rparr>"
| more: "http_reachable rt dp lax now s \<Longrightarrow> http_step rt dp lax s s' \<Longrightarrow> http_reachable rt dp lax now s'"

lemma bootstrap_events: "bootstrap rt cfg now empty_db = Inr db \<Longrightarrow> db_events db = []"
  by (simp add: bootstrap_tables empty_db_def)

lemma dispatch_cases:
  assumes "dispatch rt dp lax auth q call s = (r, s')"
  obtains (refused) "s' = s"
  | (request) req where "serve rt dp auth req s = (r, s')" "typed_request req"
proof (cases "find_route (hc_method call) (hc_path call)")
  case (Inl e)
  with assms refused show thesis by (simp add: dispatch_def)
next
  case (Inr found)
  obtain rte ps where found: "found = (rte, ps)" by force
  show thesis
  proof (cases "rt_read rte lax ps q (hc_body call)")
    case None
    with assms Inr found refused show thesis by (auto simp: dispatch_def split: sum.splits)
  next
    case (Some req)
    have "rte \<in> set routes" by (rule find_route_Inr(1) [OF Inr [unfolded found]])
    from route_typed [OF this Some] dispatch_serve [OF Inr [unfolded found] Some] assms request show thesis by metis
  qed
qed

lemma serve_typed:
  assumes "serve rt dp auth req s = (r, s')" "typed_request req" "typed_events (st_db s)"
  shows "typed_events (st_db s')"
  using assms(1)
proof (cases rule: serve_cases)
  case (refused e)
  with assms(3) show ?thesis by simp
next
  case open_endpoint
  show ?thesis by (rule handle_typed [OF open_endpoint(2) assms(2,3)])
next
  case (principal p resource action)
  show ?thesis by (rule handle_typed [OF principal(4) assms(2,3)])
qed

lemma http_step_typed:
  assumes "http_step rt dp lax s s'" "typed_events (st_db s)"
  shows "(s' = s \<or> step rt dp s s') \<and> typed_events (st_db s')"
  using assms(1)
proof (cases rule: http_step.cases)
  case (called auth q call r)
  then show ?thesis
  proof (cases rule: dispatch_cases)
    case refused
    with assms(2) show ?thesis by simp
  next
    case (request req)
    from serve_typed [OF this assms(2)] step.served [OF this(1)] show ?thesis by simp
  qed
next
  case (restarted cfg now db)
  with assms(2) step.restarted [OF restarted(2), of dp] show ?thesis by (simp add: typed_events_def bootstrap_tables)
qed

text \<open>
  C15: In every state a bootstrapped collector reaches by HTTP calls, each row of the table of events has a known
  type, an identifier, a payload that is a dictionary or absent, never without its hash, and an actor whose type and identifier
  are texts or absent; and the state is reachable by
  the requests of \<open>App\<close>, with all their invariants.
\<close>

theorem rows_typed:
  assumes "http_reachable rt dp lax now s"
  shows "reachable rt dp now s \<and> (\<forall>row \<in> set (db_events (st_db s)). typed_row row)"
  using assms
proof (induction rule: http_reachable.induct)
  case (start db n files)
  have "db_events db = []" using start by (rule bootstrap_events)
  with reachable.start [OF start] show ?case by simp
next
  case (more s s')
  then have "typed_events (st_db s)" by (simp add: typed_events_def)
  from http_step_typed [OF more.hyps(2) this] more.IH reachable.more [of rt dp now s s'] show ?case
    unfolding typed_events_def by blast
qed

theorem rows_typed_witness:
  "\<exists>s. http_reachable demo_rt demo_dp (\<lambda>v. None) demo_now s \<and> reachable demo_rt demo_dp demo_now s
     \<and> (\<forall>row \<in> set (db_events (st_db s)). typed_row row)"
proof -
  obtain db where "bootstrap demo_rt (dp_cfg demo_dp) demo_now empty_db = Inr db"
    using demo_bootstrap by (auto simp: demo_dp_def)
  then have "http_reachable demo_rt demo_dp (\<lambda>v. None) demo_now \<lparr>st_db = db, st_metrics = METRICS, st_tick = 0, st_files = []\<rparr>"
    by (rule http_reachable.start)
  from this rows_typed [OF this] show ?thesis by blast
qed

end
