(* ===== verification/Benchmark.thy ===== *)
theory Benchmark
  imports Recording Demo
begin

section \<open>The benchmark\<close>

text \<open>
  \<open>scripts/bench/benchmark.py\<close>: it posts to a collector through \<open>httpx\<close>, measures how long the calls
  take, and compares percentiles with its objectives. The wire is a parameter, the function that answers a call with a
  header in a state of what is behind it; what is printed is returned. A percentile's index is computed in floats by
  the code; it is the quotient of naturals used here for all lists that fit into a memory.
\<close>

type_synonym 's wire = "string option \<Rightarrow> http_call \<Rightarrow> 's \<Rightarrow> answer \<times> 's"
type_synonym ('s, 'a) bench = "'s \<times> nat \<Rightarrow> 'a result \<times> ('s \<times> nat)"

definition bench_then :: "('s, 'a) bench \<Rightarrow> ('a \<Rightarrow> ('s, 'b) bench) \<Rightarrow> ('s, 'b) bench" where
  "bench_then f g st = (case f st of (Inl e, st') \<Rightarrow> (Inl e, st') | (Inr x, st') \<Rightarrow> g x st')"

definition bench_return :: "'a result \<Rightarrow> ('s, 'a) bench" where
  "bench_return x st = (x, st)"

subsection \<open>HTTP helpers\<close>

definition bench_headers :: "string \<Rightarrow> string option" where
  "bench_headers api_key = Some (''Bearer '' @ api_key)"

text \<open>\<open>raise_for_status\<close> of httpx: every status but those from 200 to 299 raises.\<close>

definition checked :: "answer \<Rightarrow> body result" where
  "checked a = (case a of
      NoAnswer m \<Rightarrow> Inl (HttpxError m)
    | Answer status b \<Rightarrow> if 200 \<le> status \<and> status < 300 then Inr b else Inl (HttpxError (''status '' @ nat_str status)))"

definition bench_call :: "'s wire \<Rightarrow> string option \<Rightarrow> string \<Rightarrow> string \<Rightarrow> json option \<Rightarrow> ('s, body) bench" where
  "bench_call W auth meth path b st =
    (case W auth \<lparr>hc_method = meth, hc_path = path, hc_body = b, hc_key = None\<rparr> (fst st) of
       (a, s') \<Rightarrow> (checked a, (s', snd st)))"

text \<open>\<open>r.json()\<close>, and \<open>r.json()["run_id"]\<close> as it is put into a path.\<close>

definition parsed :: "body \<Rightarrow> json result" where
  "parsed b = (case b of JsonBody v \<Rightarrow> Inr v | _ \<Rightarrow> Inl (ValueError ''Expecting value''))"

definition run_id_of :: "runtime \<Rightarrow> body \<Rightarrow> string result" where
  "run_id_of rt b = (case parsed b of
      Inl e \<Rightarrow> Inl e
    | Inr (JDict d) \<Rightarrow> (case map_of d ''run_id'' of Some v \<Rightarrow> Inr (show_value rt v) | None \<Rightarrow> Inl (LookupError ''run_id''))
    | Inr v \<Rightarrow> Inl (TypeError ''not subscriptable by a string''))"

definition bench_start_run :: "'s wire \<Rightarrow> runtime \<Rightarrow> string \<Rightarrow> string \<Rightarrow> ('s, string) bench" where
  "bench_start_run W rt api_key agent_id = bench_then
     (bench_call W (bench_headers api_key) ''POST'' ''/v1/runs/start''
        (Some (JDict [(''agent_id'', JStr agent_id), (''environment'', JStr ''bench'')])))
     (\<lambda>b. bench_return (run_id_of rt b))"

definition single_event :: pydict where
  "single_event = [(''event_type'', JStr ''model_call''),
     (''payload'', JDict [(''model'', JStr ''gpt-4o''), (''tokens'', JInt 512)])]"

definition batch_event :: "nat \<Rightarrow> pydict" where
  "batch_event i = [(''event_type'', JStr ''tool_call_start''), (''payload'', JDict [(''tool'', JStr (''tool_'' @ nat_str i))])]"

definition append_single :: "'s wire \<Rightarrow> string \<Rightarrow> string \<Rightarrow> ('s, unit) bench" where
  "append_single W api_key rid = bench_then
     (bench_call W (bench_headers api_key) ''POST'' (events_path rid) (Some (events_body [JDict single_event])))
     (\<lambda>b. bench_return (Inr ()))"

definition append_batch :: "'s wire \<Rightarrow> string \<Rightarrow> string \<Rightarrow> nat \<Rightarrow> ('s, unit) bench" where
  "append_batch W api_key rid batch_size = bench_then
     (bench_call W (bench_headers api_key) ''POST'' (events_path rid)
        (Some (events_body (map (JDict \<circ> batch_event) [0..<batch_size]))))
     (\<lambda>b. bench_return (Inr ()))"

definition bench_commit :: "'s wire \<Rightarrow> string \<Rightarrow> string \<Rightarrow> ('s, unit) bench" where
  "bench_commit W api_key rid = bench_then
     (bench_call W (bench_headers api_key) ''POST'' (commit_path rid) None) (\<lambda>b. bench_return (Inr ()))"

subsection \<open>Measurement\<close>

text \<open>\<open>measure\<close>: the clock is read before and after each call; an exception ends it.\<close>

fun measure_calls :: "(nat \<Rightarrow> rat) \<Rightarrow> ('s, 'a) bench \<Rightarrow> nat \<Rightarrow> ('s, rat list) bench" where
  "measure_calls perf fn 0 st = (Inr [], st)"
| "measure_calls perf fn (Suc n) st =
     (case fn (fst st, Suc (snd st)) of
        (Inl e, st') \<Rightarrow> (Inl e, st')
      | (Inr x, st') \<Rightarrow>
          (case measure_calls perf fn n (fst st', Suc (snd st')) of
             (Inl e, st'') \<Rightarrow> (Inl e, st'')
           | (Inr lats, st'') \<Rightarrow> (Inr ((perf (snd st') - perf (snd st)) * 1000 # lats), st'')))"

definition percentile :: "rat list \<Rightarrow> nat \<Rightarrow> rat result" where
  "percentile data p =
    (if data = [] then Inl (LookupError ''list index out of range'')
     else Inr (sort data ! min (length data * p div 100) (length data - 1)))"

record stats =
  sa_p50 :: rat
  sa_p95 :: rat
  sa_p99 :: rat
  sa_mean :: rat
  sa_n :: nat

definition print_stats :: "rat list \<Rightarrow> stats result" where
  "print_stats lats =
    (case percentile lats 50 of Inl e \<Rightarrow> Inl e | Inr a \<Rightarrow>
    (case percentile lats 95 of Inl e \<Rightarrow> Inl e | Inr b \<Rightarrow>
    (case percentile lats 99 of Inl e \<Rightarrow> Inl e | Inr c \<Rightarrow>
       Inr \<lparr>sa_p50 = a, sa_p95 = b, sa_p99 = c, sa_mean = sum_list lats / of_nat (length lats), sa_n = length lats\<rparr>)))"

definition report :: "rat list \<Rightarrow> ('s, rat list) bench" where
  "report lats = bench_return (case print_stats lats of Inl e \<Rightarrow> Inl e | Inr s \<Rightarrow> Inr lats)"

subsection \<open>Suites\<close>

definition roundtrip :: "'s wire \<Rightarrow> runtime \<Rightarrow> string \<Rightarrow> string \<Rightarrow> (string \<Rightarrow> ('s, unit) bench) \<Rightarrow> ('s, unit) bench" where
  "roundtrip W rt api_key agent append_to = bench_then (bench_start_run W rt api_key agent)
     (\<lambda>rid. bench_then (append_to rid) (\<lambda>u. bench_commit W api_key rid))"

definition bench_single_event :: "'s wire \<Rightarrow> runtime \<Rightarrow> (nat \<Rightarrow> rat) \<Rightarrow> string \<Rightarrow> nat \<Rightarrow> ('s, rat list) bench" where
  "bench_single_event W rt perf api_key n = bench_then (bench_start_run W rt api_key ''bench-single'')
     (\<lambda>rid. bench_then (measure_calls perf (append_single W api_key rid) n) report)"

definition bench_batch_10 :: "'s wire \<Rightarrow> runtime \<Rightarrow> (nat \<Rightarrow> rat) \<Rightarrow> string \<Rightarrow> nat \<Rightarrow> ('s, rat list) bench" where
  "bench_batch_10 W rt perf api_key n = bench_then (bench_start_run W rt api_key ''bench-batch10'')
     (\<lambda>rid. bench_then (measure_calls perf (append_batch W api_key rid 10) n) report)"

definition bench_run_roundtrip :: "'s wire \<Rightarrow> runtime \<Rightarrow> (nat \<Rightarrow> rat) \<Rightarrow> string \<Rightarrow> nat \<Rightarrow> ('s, rat list) bench" where
  "bench_run_roundtrip W rt perf api_key n = bench_then
     (measure_calls perf (roundtrip W rt api_key ''bench-rt'' (append_single W api_key)) n) report"

definition bench_run_10events_roundtrip :: "'s wire \<Rightarrow> runtime \<Rightarrow> (nat \<Rightarrow> rat) \<Rightarrow> string \<Rightarrow> nat \<Rightarrow> ('s, rat list) bench" where
  "bench_run_10events_roundtrip W rt perf api_key n = bench_then
     (measure_calls perf (roundtrip W rt api_key ''bench-rt10'' (\<lambda>rid. append_batch W api_key rid 10)) n) report"

text \<open>\<open>run_suite\<close> of \<open>main\<close>: what the warm-up raises is dropped.\<close>

fun warm_up :: "('s, 'a) bench \<Rightarrow> nat \<Rightarrow> 's \<times> nat \<Rightarrow> 's \<times> nat" where
  "warm_up fn 0 st = st"
| "warm_up fn (Suc n) st = warm_up fn n (snd (fn st))"

definition run_suite :: "'s wire \<Rightarrow> runtime \<Rightarrow> (nat \<Rightarrow> rat) \<Rightarrow> string \<Rightarrow> nat \<Rightarrow> ('s, unit) bench \<Rightarrow> nat \<Rightarrow> ('s, rat list) bench" where
  "run_suite W rt perf api_key warmup fn n = bench_then (bench_start_run W rt api_key ''warmup'')
     (\<lambda>rid st. bench_then (measure_calls perf fn n) report (warm_up fn warmup st))"

subsection \<open>Objectives and the script\<close>

definition SLO_SINGLE_P95_MS :: rat where "SLO_SINGLE_P95_MS = 100"
definition SLO_BATCH10_P95_MS :: rat where "SLO_BATCH10_P95_MS = 150"
definition SLO_ROUNDTRIP_P95_MS :: rat where "SLO_ROUNDTRIP_P95_MS = 200"

definition check_slo :: "rat list \<Rightarrow> rat \<Rightarrow> bool result" where
  "check_slo lats slo_p95 = (case percentile lats 95 of Inl e \<Rightarrow> Inl e | Inr p95 \<Rightarrow> Inr (p95 \<le> slo_p95))"

text \<open>The list of checks is evaluated whole before \<open>all\<close> looks at it; the exit code of the script.\<close>

definition slo_exit :: "rat list \<Rightarrow> rat list \<Rightarrow> rat list \<Rightarrow> nat result" where
  "slo_exit single batch trip =
    (case check_slo single SLO_SINGLE_P95_MS of Inl e \<Rightarrow> Inl e | Inr a \<Rightarrow>
    (case check_slo batch SLO_BATCH10_P95_MS of Inl e \<Rightarrow> Inl e | Inr b \<Rightarrow>
    (case check_slo trip SLO_ROUNDTRIP_P95_MS of Inl e \<Rightarrow> Inl e | Inr c \<Rightarrow> Inr (if a \<and> b \<and> c then 0 else 1))))"

definition bench_main :: "'s wire \<Rightarrow> runtime \<Rightarrow> (nat \<Rightarrow> rat) \<Rightarrow> string \<Rightarrow> nat \<Rightarrow> nat \<Rightarrow> bool \<Rightarrow> ('s, nat) bench" where
  "bench_main W rt perf api_key n warmup slo =
    bench_then (bench_then (bench_call W None ''GET'' ''/healthz'' None) (\<lambda>b. bench_return (parsed b))) (\<lambda>health.
    bench_then (bench_start_run W rt api_key ''bench-single'') (\<lambda>single_run.
    bench_then (run_suite W rt perf api_key warmup (append_single W api_key single_run) n) (\<lambda>single.
    bench_then (bench_start_run W rt api_key ''bench-batch10'') (\<lambda>batch_run.
    bench_then (run_suite W rt perf api_key warmup (append_batch W api_key batch_run 10) n) (\<lambda>batch.
    bench_then (run_suite W rt perf api_key warmup (roundtrip W rt api_key ''bench-rt'' (append_single W api_key)) n) (\<lambda>trip.
    bench_then (run_suite W rt perf api_key warmup (roundtrip W rt api_key ''bench-rt10'' (\<lambda>rid. append_batch W api_key rid 10)) n)
      (\<lambda>trip10. bench_return (if slo then slo_exit single batch trip else Inr 0))))))))"

end
