(* ===== verification/Benchmark_Properties.thy ===== *)
theory Benchmark_Properties
  imports Benchmark Http_Properties
begin

section \<open>What the benchmark does\<close>

text \<open>
  The percentiles are order statistics of what was measured. Against the collector of this repository the script
  measures nothing: its events have types that the collector does not know.
\<close>

subsection \<open>Percentiles\<close>

lemma percentile_sorted:
  assumes "percentile xs p = Inr v"
  defines "i \<equiv> min (length xs * p div 100) (length xs - 1)"
  shows "i < length xs" "v = sort xs ! i"
  using assms by (cases xs; simp add: percentile_def min_less_iff_disj)+

lemma sorted_count:
  assumes "sorted ys" "i < length ys"
  shows "Suc i \<le> length (filter (\<lambda>x. x \<le> ys ! i) ys)" "length (filter (\<lambda>x. x < ys ! i) ys) \<le> i"
proof -
  have "{j. j < Suc i} \<subseteq> {j. j < length ys \<and> ys ! j \<le> ys ! i}"
    using assms sorted_nth_mono by fastforce
  then have "card {j. j < Suc i} \<le> card {j. j < length ys \<and> ys ! j \<le> ys ! i}" by (intro card_mono) simp_all
  then show "Suc i \<le> length (filter (\<lambda>x. x \<le> ys ! i) ys)" by (simp add: length_filter_conv_card)
  have "{j. j < length ys \<and> ys ! j < ys ! i} \<subseteq> {j. j < i}"
    using assms sorted_nth_mono [OF assms(1)] by (auto simp: not_less [symmetric])
  then have "card {j. j < length ys \<and> ys ! j < ys ! i} \<le> card {j. j < i}" by (intro card_mono) simp_all
  then show "length (filter (\<lambda>x. x < ys ! i) ys) \<le> i" by (simp add: length_filter_conv_card)
qed

lemma filter_sort_length: "length (filter P (sort xs)) = length (filter P (xs :: rat list))"
  by (simp add: filter_sort)

text \<open>A percentile is one of the values; no more values are below it than its rank, and enough are not above it.\<close>

lemma percentile_rank:
  assumes "percentile xs p = Inr v"
  shows "v \<in> set xs" "length (filter (\<lambda>x. x < v) xs) \<le> length xs * p div 100"
    "length xs * p div 100 < length xs \<Longrightarrow> length xs * p div 100 < length (filter (\<lambda>x. x \<le> v) xs)"
proof -
  let ?i = "min (length xs * p div 100) (length xs - 1)"
  note v = percentile_sorted [OF assms]
  have i: "?i < length (sort xs)" using v(1) by simp
  show "v \<in> set xs" unfolding v(2) using nth_mem [OF i] by simp
  have "length (filter (\<lambda>x. x < v) xs) \<le> ?i"
    using sorted_count(2) [OF sorted_sort i] by (simp add: v(2) filter_sort_length)
  then show "length (filter (\<lambda>x. x < v) xs) \<le> length xs * p div 100" by simp
  show "length xs * p div 100 < length (filter (\<lambda>x. x \<le> v) xs)" if "length xs * p div 100 < length xs"
  proof -
    have "?i = length xs * p div 100" using that by simp
    with sorted_count(1) [OF sorted_sort i] show ?thesis by (simp add: v(2) filter_sort_length)
  qed
qed

subsection \<open>Against the collector\<close>

abbreviation collector :: "runtime \<Rightarrow> deployment \<Rightarrow> int_reader \<Rightarrow> cstate wire" where
  "collector rt dp lax \<equiv> (\<lambda>auth. answer_call rt dp lax auth)"

lemma checked_error:
  assumes "300 \<le> http_status (Inl e)"
  shows "\<exists>e'. checked (answer_of (Inl e)) = Inl e'"
  using assms by (cases e) (auto simp: checked_def answer_of_def http_status_def)

lemma bench_then_Inl: "fst (f st) = Inl e \<Longrightarrow> fst (bench_then f g st) = Inl e"
  by (auto simp: bench_then_def split: prod.splits sum.splits)

text \<open>A batch that begins with an event of an unknown type is refused, to whomever.\<close>

lemma append_unknown_refused:
  assumes "i_type ev \<notin> set EVENT_TYPES"
  shows "\<exists>m c s'. append_events rt [] schema p rid (ev # evs) s = (Inl (IngestError m c), s') \<and> 300 \<le> c"
proof (cases "authorize_run (st_db s) p rid")
  case (Inl e)
  have "\<exists>m c. e = IngestError m c \<and> 300 \<le> c"
    using Inl by (auto simp: authorize_run_def split: option.splits if_splits)
  with Inl show ?thesis by (auto simp: append_events_def append_session_def with_session_def Let_def)
next
  case (Inr run)
  have "append_events rt [] schema p rid [] s = (Inr [], s)" by (simp add: append_events_def)
  from append_events_unknown [OF Inr this assms, of evs] show ?thesis by fastforce
qed

lemma serve_unknown_refused:
  assumes "i_type ev \<notin> set EVENT_TYPES"
  shows "\<exists>e. fst (serve rt dp auth (RunsEvents rid (ev # evs)) s) = Inl e \<and> 300 \<le> http_status (Inl e)"
proof (cases "current_principal rt auth (st_db s)")
  case (Inl e)
  with current_principal_Inl [OF Inl] show ?thesis by (simp add: serve_def)
next
  case (Inr p)
  show ?thesis
  proof (cases "require_scope ''events'' ''write'' p")
    case (Inl e)
    with Inr require_scope_Inl [OF Inl] show ?thesis by (simp add: serve_def)
  next
    case p': (Inr p')
    obtain m c s' where "append_events rt [] (cfg_schema_version (dp_cfg dp)) p' rid (ev # evs) s = (Inl (IngestError m c), s')" "300 \<le> c"
      using append_unknown_refused [OF assms] by blast
    with Inr p' show ?thesis
      by (simp add: serve_def respond_st_def respond_def rules_of_app_def http_status_def)
  qed
qed

lemma bench_append_refused:
  assumes "plain_id rid" "i_type ev \<notin> set EVENT_TYPES" "event_inputs lax (map JDict batch) = Some (ev # evs)"
  shows "\<exists>e. fst (bench_call (collector rt dp lax) auth ''POST'' (events_path rid) (Some (events_body (map JDict batch))) st) = Inl e"
proof -
  let ?call = "\<lparr>hc_method = ''POST'', hc_path = events_path rid, hc_body = Some (events_body (map JDict batch)), hc_key = None\<rparr>"
  have "batch_call rid batch ?call" by (simp add: batch_call_def)
  note route = events_route [OF assms(1) this assms(3), of rt dp auth "[]" "fst st"]
  obtain e where "fst (serve rt dp auth (RunsEvents rid (ev # evs)) (fst st)) = Inl e" "300 \<le> http_status (Inl e)"
    using serve_unknown_refused [OF assms(2)] by blast
  with checked_error route show ?thesis
    by (auto simp: bench_call_def answer_call_def split: prod.splits)
qed

lemma single_refused: "plain_id rid \<Longrightarrow> \<exists>e. fst (append_single (collector rt dp lax) key rid st) = Inl e"
proof -
  assume rid: "plain_id rid"
  have "\<exists>ev. event_input_of lax (JDict single_event) = Some ev \<and> i_type ev = ''model_call''"
    by (simp add: event_input_of_def single_event_def field_def field_or_def optional_def)
  then obtain ev where ev: "event_inputs lax (map JDict [single_event]) = Some [ev]" "i_type ev = ''model_call''" by auto
  have "i_type ev \<notin> set EVENT_TYPES" by (simp add: ev(2) EVENT_TYPES_def)
  from bench_append_refused [OF rid this ev(1), of rt dp "bench_headers key" st] obtain e where
    "fst (bench_call (collector rt dp lax) (bench_headers key) ''POST'' (events_path rid) (Some (events_body [JDict single_event])) st) = Inl e"
    by auto
  then show ?thesis unfolding append_single_def by (blast intro: bench_then_Inl)
qed

subsection \<open>The identifiers the collector gives\<close>

lemma generated_plain: "plain_id (generate_run_id ms rand)"
proof -
  have "set ULID_ALPHABET \<subseteq> set ''abcdefghijklmnopqrstuvwxyzABCDEFGHIJKLMNOPQRSTUVWXYZ0123456789_-''"
    by (simp add: ULID_ALPHABET_def)
  with ulid_chars [of ms rand] show ?thesis by (auto simp: plain_id_def generate_run_id_def)
qed

lemma start_run_generated:
  assumes "start_run rt p None agent version env meta s = (Inr j, s')"
  shows "\<exists>rid d. j = JDict d \<and> map_of d ''run_id'' = Some (JStr rid) \<and> plain_id rid"
proof -
  let ?rid = "generate_run_id (rt_ms rt (st_tick s)) (rt_rand rt (st_tick s))"
  have "r_id r = ?rid" if "get_run (st_db s) ?rid = Some r" for r
    using get_run_Some [OF that] by simp
  with assms generated_plain show ?thesis
    by (auto simp: start_run_def with_session_def Let_def split: if_splits option.splits)
qed

lemma start_route: "find_route ''POST'' ''/v1/runs/start'' = Inr (
   \<lparr>rt_method = ''POST'', rt_pattern = [Fixed ''v1'', Fixed ''runs'', Fixed ''start''], rt_scope = Some (''runs'', ''write''),
     rt_read = (\<lambda>lax ps q b. body_of run_start_request b)\<rparr>, [])"
proof -
  have "segments ''/v1/runs/start'' = [[], ''v1'', ''runs'', ''start'']" by simp
  then show ?thesis by (simp add: find_route_def route_params_def route_tables del: segments.simps)
qed

lemma run_id_answer:
  assumes "checked (answer_of r) = Inr b" "run_id_of rt b = Inr rid"
  shows "\<exists>d v. r = Inr (RJson (JDict d)) \<and> map_of d ''run_id'' = Some v \<and> rid = show_value rt v"
proof (cases r)
  case (Inl e)
  with assms show ?thesis
    by (cases e) (auto simp: checked_def answer_of_def detail_body_def run_id_of_def parsed_def split: if_splits)
next
  case (Inr x)
  with assms show ?thesis
    by (cases x) (auto simp: checked_def answer_of_def run_id_of_def parsed_def split: if_splits json.splits option.splits)
qed

lemma started_plain:
  assumes "bench_start_run (collector rt dp lax) rt' key agent st = (Inr rid, st')"
  shows "plain_id rid"
proof -
  let ?call = "\<lparr>hc_method = ''POST'', hc_path = ''/v1/runs/start'',
    hc_body = Some (JDict [(''agent_id'', JStr agent), (''environment'', JStr ''bench'')]), hc_key = None\<rparr>"
  obtain r s' where served: "serve rt dp (bench_headers key) (RunsStart None agent None ''bench'' []) (fst st) = (r, s')" by force
  have disp: "dispatch rt dp lax (bench_headers key) [] ?call (fst st) = (r, s')"
    using served by (simp add: dispatch_def start_route body_of_def run_start_request_def field_def field_or_def optional_def)
  have call: "bench_call (collector rt dp lax) (bench_headers key) ''POST'' ''/v1/runs/start''
      (Some (JDict [(''agent_id'', JStr agent), (''environment'', JStr ''bench'')])) st = (checked (answer_of r), (s', snd st))"
    by (simp add: bench_call_def answer_call_def disp)
  then obtain b where b: "checked (answer_of r) = Inr b" "run_id_of rt' b = Inr rid"
    using assms by (auto simp: bench_start_run_def bench_then_def bench_return_def split: sum.splits)
  from run_id_answer [OF b] obtain d v where r: "r = Inr (RJson (JDict d))" "map_of d ''run_id'' = Some v" "rid = show_value rt' v"
    by blast
  show ?thesis
    using served
  proof (cases rule: serve_cases)
    case (refused e)
    with r show ?thesis by simp
  next
    case open_endpoint
    then show ?thesis by simp
  next
    case (principal p resource action)
    then have "start_run rt p None agent None ''bench'' [] (fst st) = (Inr (JDict d), s')"
      using r(1) by (cases "start_run rt p None agent None ''bench'' [] (fst st)")
        (auto simp: respond_st_def respond_def split: sum.splits)
    from start_run_generated [OF this] r(2,3) show ?thesis by (auto simp: show_value_def)
  qed
qed

subsection \<open>The script\<close>

lemma suite_refused:
  assumes "\<And>st. \<exists>e. fst (fn st) = Inl e" "0 < n"
  shows "\<exists>e. fst (run_suite W rt perf key warmup fn n st) = Inl e"
proof -
  obtain m where n: "n = Suc m" using assms(2) by (cases n) simp_all
  have "\<exists>e. fst (measure_calls perf fn n st') = Inl e" for st'
    using assms(1) [of "(fst st', Suc (snd st'))"] unfolding n by (auto split: prod.split sum.split)
  then have "\<exists>e. fst (bench_then (measure_calls perf fn n) report st') = Inl e" for st'
    using bench_then_Inl by blast
  then show ?thesis
    unfolding run_suite_def by (auto simp: bench_then_def [of "bench_start_run W rt key _"] split: prod.split sum.split)
qed

text \<open>
  C40: Against the collector of this repository, in whatever state, with whatever key and however
  many iterations from one on, the benchmark ends with an exception before it reports a suite: the events it appends have types
  that no collector state accepts.
\<close>

theorem benchmark_stops:
  assumes "0 < n"
  shows "\<exists>e. fst (bench_main (\<lambda>auth. answer_call rt dp lax auth) rt' perf key n warmup slo st) = Inl e"
proof -
  let ?W = "collector rt dp lax"
  let ?health = "bench_then (bench_call ?W None ''GET'' ''/healthz'' None) (\<lambda>b. bench_return (parsed b))"
  obtain x st1 where health: "?health st = (x, st1)" by (meson surj_pair)
  obtain y st2 where start: "bench_start_run ?W rt' key ''bench-single'' st1 = (y, st2)" by (meson surj_pair)
  show ?thesis
  proof (cases x)
    case (Inl e)
    with health show ?thesis by (simp add: bench_main_def bench_then_def [of ?health])
  next
    case x: (Inr b)
    show ?thesis
    proof (cases y)
      case (Inl e)
      with health start x show ?thesis
        by (simp add: bench_main_def bench_then_def [of ?health]
            bench_then_def [of "bench_start_run ?W rt' key ''bench-single''"])
    next
      case (Inr rid)
      have "plain_id rid" using started_plain start Inr by blast
      then have "\<exists>e. fst (append_single ?W key rid st') = Inl e" for st' by (rule single_refused)
      then have "\<exists>e. fst (run_suite ?W rt' perf key warmup (append_single ?W key rid) n st2) = Inl e"
        using assms by (rule suite_refused)
      then obtain e where "fst (run_suite ?W rt' perf key warmup (append_single ?W key rid) n st2) = Inl e" by blast
      then have "fst (bench_then (run_suite ?W rt' perf key warmup (append_single ?W key rid) n) g st2) = Inl e" for g :: "rat list \<Rightarrow> (cstate, nat) bench"
        by (rule bench_then_Inl)
      with health start x Inr show ?thesis
        by (simp add: bench_main_def bench_then_def [of ?health]
            bench_then_def [of "bench_start_run ?W rt' key ''bench-single''"])
    qed
  qed
qed

theorem benchmark_stops_witness:
  "\<exists>e. fst (bench_main (\<lambda>auth. answer_call demo_rt demo_dp (\<lambda>v. None) auth) demo_rt of_nat ''secret'' 1 0 False (demo_key_state, 0)) = Inl e"
  by (rule benchmark_stops) simp

end
