(* ===== verification/Trails.thy ===== *)
theory Trails
  imports Sdk_Calls "HOL-Library.Sublist"
begin

section \<open>The trail of a program\<close>

text \<open>
  Which events a program over the SDK makes, by their types and in their order. A trail is the list of types of a run
  that ends normally; a program that raises leaves a beginning of a trail, or of one of the ends that only an
  exception has. The contract of an operation that leaves trails is a locale above that of \<open>Sdk_Laws\<close>, and
  the trails of a program are computed from those of its steps.
\<close>

locale trail_op =
  fixes f :: "'a op" and w :: world and Q :: "'a result \<Rightarrow> string list \<Rightarrow> bool"
  assumes leaves: "f c = (r, c') \<Longrightarrow> \<exists>new. run_makes w c c' new \<and> Q r (map event_kind new)"
begin

lemma weaken: "(\<And>r ts. Q r ts \<Longrightarrow> Q' r ts) \<Longrightarrow> trail_op f w Q'"
  by unfold_locales (use leaves in blast)

text \<open>After the operation comes another, if it returns.\<close>

lemma then_leaves:
  assumes next_op: "\<And>x. trail_op (g x) w (R x)"
    and raised: "\<And>e ts. Q (Inl e) ts \<Longrightarrow> Q' (Inl e) ts"
    and returned: "\<And>x r ts us. Q (Inr x) ts \<Longrightarrow> R x r us \<Longrightarrow> Q' r (ts @ us)"
  shows "trail_op (and_then f g) w Q'"
proof unfold_locales
  fix c r c'
  assume eq: "and_then f g c = (r, c')"
  obtain y c1 where fc: "f c = (y, c1)" by (cases "f c")
  from leaves [OF fc] obtain new where new: "run_makes w c c1 new" "Q y (map event_kind new)" by blast
  show "\<exists>new. run_makes w c c' new \<and> Q' r (map event_kind new)"
  proof (cases y)
    case (Inl e)
    with eq fc new raised show ?thesis by (auto simp: and_then_def)
  next
    case (Inr x)
    with eq fc have "g x c1 = (r, c')" by (simp add: and_then_def)
    from trail_op.leaves [OF next_op this] obtain new' where
      new': "run_makes w c1 c' new'" "R x r (map event_kind new')" by blast
    from run_makes_trans [OF new(1) new'(1)] returned [OF new(2) [unfolded Inr] new'(2)] show ?thesis by auto
  qed
qed

end

sublocale trail_op \<subseteq> run_op f w
proof unfold_locales
  show "run_step w c c'" if "f c = (r, c')" for c r c'
    unfolding run_step_if_def using leaves [OF that] by blast
qed

text \<open>An operation that makes no event.\<close>

definition silent :: "'a result \<Rightarrow> string list \<Rightarrow> bool" where
  "silent r ts \<longleftrightarrow> ts = []"

lemma silentI: "(\<And>c. run_makes w c (snd (f c)) []) \<Longrightarrow> trail_op f w silent"
  by unfold_locales (metis list.map_disc_iff silent_def snd_conv)

lemma ok_silent: "trail_op (ok x) w silent"
  by (rule silentI) (simp add: ok_def run_makes_refl)

lemma throw_silent: "trail_op (throw e) w silent"
  by (rule silentI) (simp add: throw_def run_makes_refl)

lemma flush_silent: "trail_op (flush_run w cl) w silent"
  by (rule silentI) (metis flush_run_makes prod.collapse)

interpretation flush_trail: trail_op "flush_run w cl" w silent for w cl
  by (rule flush_silent)

lemma wire_makes: "side_calls (snd c) st \<Longrightarrow> run_makes w c (fst c, st) []"
  by (rule quiet_makes) (auto simp: same_identity_def side_calls_def grows_def carries_side)

lemma clock_makes: "run_makes w (ro, sdk_tick st) c' new \<Longrightarrow> run_makes w (ro, st) c' new"
  using run_makes_trans [OF wire_makes [of "(ro, st)" "sdk_tick st"], of w c' new]
  by (simp add: side_calls_tick sdk_tick_def)

lemma on_wire_silent:
  assumes "\<And>st r st'. f st = (r, st') \<Longrightarrow> side_calls st st'"
  shows "trail_op (on_wire f) w silent"
proof (rule silentI)
  fix c :: ctx
  obtain r st where "f (snd c) = (r, st)" by (cases "f (snd c)")
  then show "run_makes w c (snd (on_wire f c)) []"
    using assms by (simp add: on_wire_def wire_makes)
qed

lemma wire_calls_silent:
  "trail_op (on_wire (policy_check_call w tc b)) w silent" "trail_op (on_wire (request_approval_call w tc b)) w silent"
  "trail_op (on_wire (commit_run_call w tc rid)) w silent"
  by (auto simp: policy_check_call_def request_approval_call_def commit_run_call_def
      side_path_def commit_path_def intro!: on_wire_silent dest!: request_side)

lemma close_run_silent: "trail_op (close_run st b) w silent"
  by (rule silentI) (rule quiet_makes, simp_all add: same_identity_def close_run_def carries_same)

subsection \<open>Exceptions\<close>

text \<open>An exception that does not ask for an approval; only \<open>enforce_policy\<close> raises one that does.\<close>

fun plain_error :: "exn \<Rightarrow> bool" where
  "plain_error (ApprovalRequiredError m a p) = False"
| "plain_error _ = True"

definition plain_result :: "'a result \<Rightarrow> bool" where
  "plain_result r \<longleftrightarrow> (\<forall>e. r = Inl e \<longrightarrow> plain_error e)"

lemma attempt_plain: "attempt_result rt a = Inl e \<Longrightarrow> plain_error e"
  by (auto simp: attempt_result_def raise_for_status_def Let_def split: answer.splits if_splits body.splits)

lemma request_loop_plain:
  "(\<And>e. l = Some e \<Longrightarrow> plain_error e) \<Longrightarrow> fst (request_loop w tc call n a l st) = Inl e \<Longrightarrow> plain_error e"
proof (induction n arbitrary: a l st)
  case 0
  then show ?case by (auto split: option.splits)
next
  case (Suc n)
  show ?case
  proof (cases "fst (send w call st)")
    case (Inr v)
    with Suc.prems show ?thesis by (simp add: send_def)
  next
    case (Inl e')
    then have e': "plain_error e'" by (auto simp: send_def dest: attempt_plain)
    with Suc.IH [of "Some e'" "Suc a" "pause w tc a (snd (send w call st))"] Inl Suc.prems(2) show ?thesis
      by (cases "retryable e'") (auto simp: send_def split: if_splits)
  qed
qed

lemma request_plain: "request w tc meth path body key retry st = (Inl e, st') \<Longrightarrow> plain_error e"
  using request_loop_plain [of None] unfolding request_def by (metis fst_conv option.distinct(1))

lemma post_events_plain: "post_events w tc rid events key st = (Inl e, st') \<Longrightarrow> plain_error e"
  by (auto simp: post_events_def dest: request_plain split: prod.splits sum.splits if_splits)

lemma flush_plain: "flush_run w cl c = (Inl e, c') \<Longrightarrow> plain_error e"
  by (auto simp: flush_run_def Let_def dest: post_events_plain split: if_splits prod.splits sum.splits)

lemma build_envelope_plain: "build_envelope w cl em c = (Inl e, c') \<Longrightarrow> plain_error e"
  by (auto simp: build_envelope_def Let_def payload_mode_of_def capture_def sdk_payload_hash_def sdk_event_hash_def
      compute_event_hash_def compute_payload_hash_def hash_json_def canonical_json_def
      split: if_splits sum.splits option.splits prod.splits)

lemma emit_event_plain: "emit_event w cl em c = (Inl e, c') \<Longrightarrow> plain_error e"
  by (auto simp: emit_event_def and_then_def Let_def ok_def dest: build_envelope_plain flush_plain
      split: if_splits prod.splits sum.splits)

lemma policy_answer_plain: "policy_answer v = Inl e \<Longrightarrow> plain_error e"
  by (auto simp: policy_answer_def split: json.splits)

lemma wire_calls_plain:
  "on_wire (policy_check_call w tc b) c = (Inl e, c') \<Longrightarrow> plain_error e"
  "on_wire (request_approval_call w tc b) c = (Inl e, c') \<Longrightarrow> plain_error e"
  by (auto simp: on_wire_def policy_check_call_def request_approval_call_def dest: request_plain split: prod.splits)

end
