(* ===== verification/Agents.thy ===== *)
theory Agents
  imports Sdk_Api Configuration
begin

section \<open>The example agents\<close>

text \<open>
  The three programs under \<open>examples\<close>: a refund agent, a reviewer of money transfers, and one that
  adjudicates insurance claims. Each makes a client, opens a run, and works through its steps inside the run's \<open>with\<close>
  block, with a policy enforced before its last step; an approval that is asked for is given by the program itself. What the
  programs print is left out, and the values of their mock functions are the constants of the code; a float literal is the
  fraction its double stands for.
\<close>

subsection \<open>Blocks\<close>

definition void :: "'a op \<Rightarrow> unit op" where
  "void f = and_then f (\<lambda>x. ok ())"

fun in_order :: "unit op list \<Rightarrow> unit op" where
  "in_order [] = ok ()"
| "in_order (f # fs) = and_then f (\<lambda>u. in_order fs)"

text \<open>\<open>with run.tool_call(name) as tool\<close>, around a body that sets its input and its output and does not raise.\<close>

definition with_tool :: "world \<Rightarrow> client \<Rightarrow> string \<Rightarrow> pydict \<Rightarrow> json \<Rightarrow> unit op" where
  "with_tool w cl name input output =
     and_then (tool_call w name True) (\<lambda>tc.
     and_then (tool_enter w cl tc) (\<lambda>tc.
     void (tool_exit w cl (tool_output output None (tool_input (JDict input) tc)) None)))"

text \<open>\<open>except ApprovalRequiredError as exc\<close>, with the approval's identifier for the handler.\<close>

definition on_approval :: "'a op \<Rightarrow> (string \<Rightarrow> unit op) \<Rightarrow> unit op" where
  "on_approval f handler c =
    (case f c of
       (Inl (ApprovalRequiredError m approval_id policy_id), c') \<Rightarrow> handler approval_id c'
     | (Inl e, c') \<Rightarrow> (Inl e, c')
     | (Inr x, c') \<Rightarrow> (Inr (), c'))"

definition grant_approval :: "world \<Rightarrow> client \<Rightarrow> string \<Rightarrow> string \<Rightarrow> string \<Rightarrow> unit op" where
  "grant_approval w cl reviewer_id reason approval_id = void (human_approval w cl approval_id reviewer_id ''approved'' (Some reason))"

definition gate :: "world \<Rightarrow> client \<Rightarrow> string \<Rightarrow> pydict \<Rightarrow> string \<Rightarrow> string \<Rightarrow> unit op" where
  "gate w cl policy_id input reviewer_id reason =
     on_approval (enforce_policy w cl policy_id (JDict input)) (grant_approval w cl reviewer_id reason)"

text \<open>\<open>with control.run(...) as run\<close>; how an exception is shown, with its traceback, is the parameter \<open>describe\<close>.\<close>

definition with_run :: "world \<Rightarrow> client \<Rightarrow> (exn \<Rightarrow> error_info) \<Rightarrow> unit op \<Rightarrow> unit op" where
  "with_run w cl describe body c =
    (case body c of
       (Inl e, c') \<Rightarrow> (Inl e, snd (run_exit w cl (Some (describe e)) c'))
     | (Inr u, c') \<Rightarrow> void (run_exit w cl None) c')"

definition change :: "world \<Rightarrow> client \<Rightarrow> string \<Rightarrow> string \<Rightarrow> pydict \<Rightarrow> pydict \<Rightarrow> string option \<Rightarrow> bool \<Rightarrow> unit op" where
  "change w cl entity_type entity_id before after reason applied =
     void (state_change w cl entity_type entity_id (JDict before) (JDict after) reason applied True)"

subsection \<open>The refund agent\<close>

definition refund_steps :: "world \<Rightarrow> client \<Rightarrow> unit op list" where
  "refund_steps w cl = [
     input_event w cl (Some ''customer_42'') None [(''order_id'', JStr ''ord_123'')],
     with_tool w cl ''lookup_order'' [(''order_id'', JStr ''ord_123'')]
       (JDict [(''status'', JStr ''delivered''), (''amount'', JInt 7000)]),
     change w cl ''refund_case'' ''case_123'' [(''status'', JStr ''pending'')] [(''status'', JStr ''proposed'')]
       (Some ''Customer eligible'') False,
     gate w cl ''refund_requires_approval'' [(''action'', JStr ''approve_refund''), (''amount'', JInt 7000)]
       ''manager_07'' ''Manager override'',
     change w cl ''refund_case'' ''case_123'' [(''status'', JStr ''proposed'')] [(''status'', JStr ''approved'')]
       (Some ''Refund approved'') True,
     void (commit w cl)]"

subsection \<open>The reviewer of transfers\<close>

definition query_customer_profile :: "string \<Rightarrow> json" where
  "query_customer_profile customer_id =
     JDict [(''customer_id'', JStr customer_id), (''tier'', JStr ''standard''), (''country'', JStr ''US'')]"

definition query_transactions :: "string \<Rightarrow> json" where
  "query_transactions customer_id = JList [
     JDict [(''id'', JStr ''tx_1''), (''amount'', JInt 25000), (''currency'', JStr ''USD''), (''type'', JStr ''wire'')],
     JDict [(''id'', JStr ''tx_2''), (''amount'', JInt 800), (''currency'', JStr ''USD''), (''type'', JStr ''ach'')]]"

definition check_pep_list :: "string \<Rightarrow> json" where
  "check_pep_list customer_id = JDict [(''customer_id'', JStr customer_id), (''hits'', JInt 0)]"

definition risk_before :: json where "risk_before = JFloat (FRat (7566047373982433 / 18014398509481984))"  \<comment> \<open>0.42\<close>
definition risk_after :: json where "risk_after = JFloat (FRat (1823957849085051 / 2251799813685248))"  \<comment> \<open>0.81\<close>

definition aml_steps :: "world \<Rightarrow> client \<Rightarrow> unit op list" where
  "aml_steps w cl = [
     input_event w cl (Some ''analyst_42'') (Some ''sha256:case_123'') [(''case_id'', JStr ''case_123'')],
     with_tool w cl ''query_customer_profile'' [(''customer_id'', JStr ''cust_123'')] (query_customer_profile ''cust_123''),
     with_tool w cl ''query_transactions'' [(''customer_id'', JStr ''cust_123'')] (query_transactions ''cust_123''),
     with_tool w cl ''check_pep_list'' [(''customer_id'', JStr ''cust_123'')] (check_pep_list ''cust_123''),
     void (memory_write w cl ''risk_summary'' (JStr ''High-risk wire activity detected'') ''case'' True),
     change w cl ''customer_risk_profile'' ''cust_123'' [(''risk_score'', risk_before)] [(''risk_score'', risk_after)]
       (Some ''High-risk wire activity'') True,
     gate w cl ''high_risk_wire_requires_approval'' [(''risk_score'', risk_after), (''amount'', JInt 25000)]
       ''analyst_42'' ''Escalation criteria met'',
     change w cl ''case'' ''case_123'' [(''status'', JStr ''pending'')] [(''status'', JStr ''escalated'')]
       (Some ''Approved escalation'') True,
     void (commit w cl)]"

subsection \<open>The adjudicator of claims\<close>

definition fetch_claim :: "string \<Rightarrow> pydict" where
  "fetch_claim claim_id = [
     (''claim_id'', JStr claim_id), (''policy_number'', JStr ''POL-992211''), (''claimant'', JStr ''Jane Smith''),
     (''incident_date'', JStr ''2026-04-15''), (''incident_type'', JStr ''vehicle_collision''),
     (''claimed_amount'', JFloat (FRat 42500)), (''status'', JStr ''submitted'')]"

definition verify_policy_coverage :: "json \<Rightarrow> json \<Rightarrow> pydict" where
  "verify_policy_coverage policy_number incident_type = [
     (''policy_number'', policy_number), (''incident_type'', incident_type), (''covered'', JBool True),
     (''deductible'', JFloat (FRat 500)), (''coverage_limit'', JFloat (FRat 50000))]"

text \<open>The score is 0.12.\<close>

definition run_fraud_score :: "string \<Rightarrow> pydict" where
  "run_fraud_score claim_id = [
     (''claim_id'', JStr claim_id), (''fraud_score'', JFloat (FRat (1080863910568919 / 9007199254740992))),
     (''flags'', JList []), (''model_version'', JStr ''fraud-v3.1'')]"

text \<open>The confidence is 0.94.\<close>

definition get_repair_estimate :: "string \<Rightarrow> pydict" where
  "get_repair_estimate claim_id = [
     (''claim_id'', JStr claim_id), (''estimated_amount'', JFloat (FRat 41800)), (''vendor'', JStr ''AutoRepair Pro''),
     (''confidence'', JFloat (FRat (2116691824864133 / 2251799813685248)))]"

text \<open>\<open>str.upper\<close>, as far as ASCII goes.\<close>

definition upper_char :: "char \<Rightarrow> char" where
  "upper_char c = (if CHR ''a'' \<le> c \<and> c \<le> CHR ''z'' then char_of ((of_char c :: nat) - 32) else c)"

definition approve_payment :: "string \<Rightarrow> json \<Rightarrow> string \<Rightarrow> pydict" where
  "approve_payment claim_id amount approved_by = [
     (''claim_id'', JStr claim_id), (''payment_amount'', amount), (''approved_by'', JStr approved_by),
     (''payment_id'', JStr (''PAY-'' @ map upper_char (drop (length claim_id - 6) claim_id))), (''status'', JStr ''approved'')]"

text \<open>Amounts: floats whose sums here are exact, and \<open>f"{amount:,.2f}"\<close> for those that are not negative.\<close>

definition amount_of :: "json \<Rightarrow> rat" where
  "amount_of v = (case v of JFloat (FRat q) \<Rightarrow> q | _ \<Rightarrow> 0)"

fun by_thousands :: "string \<Rightarrow> string" where
  "by_thousands (a # b # c # d # s) = a # b # c # CHR '','' # by_thousands (d # s)"
| "by_thousands s = s"

definition cents :: "rat \<Rightarrow> int" where
  "cents q = (let n = \<lfloor>q * 100\<rfloor>; r = q * 100 - of_int n in if r < 1 / 2 \<or> (r = 1 / 2 \<and> even n) then n else n + 1)"

definition money :: "rat \<Rightarrow> string" where
  "money q = rev (by_thousands (rev (nat_str (nat (cents q div 100))))) @ ''.'' @ pad 2 (nat (cents q mod 100))"

definition settlement :: "pydict \<Rightarrow> pydict \<Rightarrow> rat" where
  "settlement estimate coverage =
     min (amount_of (dict_get estimate ''estimated_amount'')) (amount_of (dict_get coverage ''coverage_limit''))
       - amount_of (dict_get coverage ''deductible'')"

text \<open>The two early ends, and the way to a payment. The dash in a reason is given by its bytes in UTF-8.\<close>

definition claim_denied :: "world \<Rightarrow> client \<Rightarrow> string \<Rightarrow> unit op list" where
  "claim_denied w cl claim_id = [
     change w cl ''claim'' claim_id [(''status'', JStr ''submitted'')]
       [(''status'', JStr ''denied''), (''reason'', JStr ''not_covered'')] None True,
     void (commit w cl)]"

definition claim_flagged :: "world \<Rightarrow> client \<Rightarrow> string \<Rightarrow> json \<Rightarrow> unit op list" where
  "claim_flagged w cl claim_id score = [
     change w cl ''claim'' claim_id [(''status'', JStr ''submitted'')]
       [(''status'', JStr ''flagged_for_investigation''), (''fraud_score'', score)]
       (Some (''High fraud score '' @ [CHR 0xE2, CHR 0x80, CHR 0x94] @ '' escalated to SIU'')) True,
     void (commit w cl)]"

definition claim_paid :: "world \<Rightarrow> client \<Rightarrow> string \<Rightarrow> pydict \<Rightarrow> pydict \<Rightarrow> json \<Rightarrow> unit op list" where
  "claim_paid w cl claim_id claim coverage score =
    (let estimate = get_repair_estimate claim_id;
         amount = JFloat (FRat (settlement estimate coverage));
         payment = approve_payment claim_id amount ''manager_12''
     in [
     with_tool w cl ''get_repair_estimate'' [(''claim_id'', JStr claim_id)] (JDict estimate),
     void (memory_write w cl ''estimated_amount'' (dict_get estimate ''estimated_amount'') ''claim_context'' True),
     void (memory_write w cl ''fraud_cleared'' (JBool True) ''claim_context'' True),
     gate w cl ''large_claim_requires_manager_approval''
       [(''claimed_amount'', dict_get claim ''claimed_amount''), (''estimated_amount'', dict_get estimate ''estimated_amount''),
        (''fraud_score'', score), (''adjuster_id'', JStr ''adjuster_88'')]
       ''manager_12''
       (''Fraud cleared, estimate within coverage limit of $'' @ money (amount_of (dict_get coverage ''coverage_limit''))),
     with_tool w cl ''approve_payment''
       [(''claim_id'', JStr claim_id), (''amount'', amount), (''approved_by'', JStr ''manager_12'')] (JDict payment),
     change w cl ''claim'' claim_id [(''status'', JStr ''submitted'')]
       [(''status'', JStr ''approved''), (''payment_id'', dict_get payment ''payment_id''), (''settlement_amount'', amount)]
       (Some (''Adjudication complete. Settlement: $'' @ money (settlement estimate coverage))) True,
     void (commit w cl)])"

definition claims_steps :: "world \<Rightarrow> client \<Rightarrow> string \<Rightarrow> unit op list" where
  "claims_steps w cl claim_id =
    (let claim = fetch_claim claim_id;
         coverage = verify_policy_coverage (dict_get claim ''policy_number'') (dict_get claim ''incident_type'');
         score = dict_get (run_fraud_score claim_id) ''fraud_score''
     in [
     input_event w cl (Some ''adjuster_88'') (Some (''sha256:'' @ claim_id))
       [(''claim_id'', JStr claim_id), (''queue'', JStr ''auto_adjudication'')],
     with_tool w cl ''fetch_claim'' [(''claim_id'', JStr claim_id)] (JDict claim),
     with_tool w cl ''verify_policy_coverage''
       [(''policy_number'', dict_get claim ''policy_number''), (''incident_type'', dict_get claim ''incident_type'')] (JDict coverage)]
     @ (if \<not> truthy (dict_get coverage ''covered'') then claim_denied w cl claim_id
        else with_tool w cl ''run_fraud_score'' [(''claim_id'', JStr claim_id)] (JDict (run_fraud_score claim_id))
          # (if 3152519739159347 / 4503599627370496 < amount_of score  \<comment> \<open>0.70\<close>
             then claim_flagged w cl claim_id score
             else claim_paid w cl claim_id claim coverage score)))"

subsection \<open>The programs\<close>

datatype agent = RefundAgent | AmlAgent | ClaimsAgent string

fun agent_steps :: "world \<Rightarrow> client \<Rightarrow> agent \<Rightarrow> unit op list" where
  "agent_steps w cl RefundAgent = refund_steps w cl"
| "agent_steps w cl AmlAgent = aml_steps w cl"
| "agent_steps w cl (ClaimsAgent claim_id) = claims_steps w cl claim_id"

definition agent_block :: "world \<Rightarrow> client \<Rightarrow> (exn \<Rightarrow> error_info) \<Rightarrow> agent \<Rightarrow> unit op" where
  "agent_block w cl describe ag = with_run w cl describe (in_order (agent_steps w cl ag))"

definition agent_args :: "environ \<Rightarrow> string \<Rightarrow> raw_rule list \<Rightarrow> client_args" where
  "agent_args env project rules = \<lparr>ca_api_key = Some (getenv env ''CONTROLDB_API_KEY'' ''test-key''), ca_project = Some project,
     ca_environment = ''dev'', ca_org_id = None, ca_base_url = Some (getenv env ''CONTROLDB_URL'' ''http://localhost:8080''),
     ca_mode = ''full_payload'', ca_rules = rules, ca_callbacks = [], ca_batch_size = 16, ca_fail_open = False,
     ca_spool_path = None, ca_transport = None\<rparr>"

definition field_rule :: "string \<Rightarrow> string \<Rightarrow> raw_rule" where
  "field_rule f m = \<lparr>rr_field = Some f, rr_regex = None, rr_mode = Some m\<rparr>"

text \<open>A script: its client, its run, its block. The wire depends on where the client's connection leads.\<close>

definition script :: "(string \<Rightarrow> (string \<Rightarrow> bool) result) \<Rightarrow> environ \<Rightarrow> (connection \<Rightarrow> world) \<Rightarrow> (exn \<Rightarrow> error_info)
    \<Rightarrow> client_args \<Rightarrow> string \<Rightarrow> string \<Rightarrow> agent \<Rightarrow> sdk_state \<Rightarrow> unit result \<times> run option \<times> sdk_state" where
  "script re_compile env net describe args agent_id version ag st =
    (case new_client re_compile env args of
       Inl e \<Rightarrow> (Inl e, None, st)
     | Inr (cl, co) \<Rightarrow>
         (case client_run (net co) cl agent_id (Some version) None [] None None st of
            (Inl e, st') \<Rightarrow> (Inl e, None, st')
          | (Inr ro, st') \<Rightarrow> (case agent_block (net co) cl describe ag (ro, st') of (r, (ro', st'')) \<Rightarrow> (r, Some ro', st''))))"

fun agent_main :: "(string \<Rightarrow> (string \<Rightarrow> bool) result) \<Rightarrow> environ \<Rightarrow> (connection \<Rightarrow> world) \<Rightarrow> (exn \<Rightarrow> error_info)
    \<Rightarrow> agent \<Rightarrow> sdk_state \<Rightarrow> unit result \<times> run option \<times> sdk_state" where
  "agent_main re_compile env net describe RefundAgent st =
     script re_compile env net describe (agent_args env ''refund-agent'' []) ''refund-agent'' ''1.0.0'' RefundAgent st"
| "agent_main re_compile env net describe AmlAgent st =
     script re_compile env net describe (agent_args env ''aml-agent'' [field_rule ''customer_id'' ''hash''])
       ''aml-review-agent'' ''v1.0.0'' AmlAgent st"
| "agent_main re_compile env net describe (ClaimsAgent claim_id) st =
     script re_compile env net describe
       (agent_args env ''claims-adjudication'' [field_rule ''claimant'' ''redact'', field_rule ''policy_number'' ''hash''])
       ''claims-adjudication-agent'' ''v2.1.0'' (ClaimsAgent claim_id) st"

text \<open>The claim the third program works on is the one its environment names.\<close>

definition claims_main :: "(string \<Rightarrow> (string \<Rightarrow> bool) result) \<Rightarrow> environ \<Rightarrow> (connection \<Rightarrow> world) \<Rightarrow> (exn \<Rightarrow> error_info)
    \<Rightarrow> sdk_state \<Rightarrow> unit result \<times> run option \<times> sdk_state" where
  "claims_main re_compile env net describe =
     agent_main re_compile env net describe (ClaimsAgent (getenv env ''CLAIM_ID'' ''CLM-20260501-0042''))"

end
