(* ===== verification/Agent_Laws.thy ===== *)
theory Agent_Laws
  imports Trails Agents
begin

section \<open>The trails of the example agents\<close>

text \<open>
  The trails of the SDK's operations, of a policy that is enforced with its approval, and of the example agents. The
  trails of an agent are computed from those of its steps. What a policy answers is a parameter: unknown, one that
  asks for an approval, or one that permits.
\<close>

subsection \<open>Operations along trails\<close>

definition along :: "string list list \<Rightarrow> string list list \<Rightarrow> 'a result \<Rightarrow> string list \<Rightarrow> bool" where
  "along full cuts r ts \<longleftrightarrow>
     (case r of Inr x \<Rightarrow> ts \<in> set full | Inl e \<Rightarrow> plain_error e \<and> (\<exists>t \<in> set (full @ cuts). prefix ts t))"

definition seqs :: "string list list \<Rightarrow> string list list \<Rightarrow> string list list" where
  "seqs xs ys = concat (map (\<lambda>x. map (\<lambda>y. x @ y) ys) xs)"

lemma set_seqs: "set (seqs xs ys) = {x @ y | x y. x \<in> set xs \<and> y \<in> set ys}"
  by (auto simp: seqs_def)

lemma seqs_unit [simp]: "seqs xs [[]] = xs" "seqs xs [] = []" "seqs [[]] xs = xs" "seqs [] xs = []"
  by (simp_all add: seqs_def append_Nil [abs_def] map_idI)

lemma along_then:
  assumes "trail_op f w (along xs ss)" "\<And>x. trail_op (g x) w (along ys us)" "ys \<noteq> []"
  shows "trail_op (and_then f g) w (along (seqs xs ys) (ss @ seqs xs us))"
proof (rule trail_op.then_leaves [OF assms(1,2)])
  fix e :: exn and ts
  obtain y0 where y0: "y0 \<in> set ys" using assms(3) by (cases ys) auto
  assume "along xs ss (Inl e :: 'a result) ts"
  then obtain t where t: "plain_error e" "t \<in> set xs \<or> t \<in> set ss" "prefix ts t" by (auto simp: along_def)
  then have "\<exists>u \<in> set (seqs xs ys @ ss @ seqs xs us). prefix ts u"
  proof (cases "t \<in> set ss")
    case True
    with t(3) show ?thesis by auto
  next
    case False
    with t(2) y0 have "t @ y0 \<in> set (seqs xs ys)" by (auto simp: set_seqs)
    moreover have "prefix ts (t @ y0)" using t(3) by (rule prefix_prefix)
    ultimately show ?thesis by auto
  qed
  with t(1) show "along (seqs xs ys) (ss @ seqs xs us) (Inl e :: 'b result) ts" by (simp add: along_def)
next
  fix x :: 'a and r :: "'b result" and ts vs
  assume ts: "along xs ss (Inr x :: 'a result) ts" and vs: "along ys us r vs"
  from ts have x: "ts \<in> set xs" by (simp add: along_def)
  show "along (seqs xs ys) (ss @ seqs xs us) r (ts @ vs)"
  proof (cases r)
    case (Inr z)
    with x vs show ?thesis by (auto simp: along_def set_seqs)
  next
    case (Inl e)
    with vs obtain t where "plain_error e" "t \<in> set ys \<or> t \<in> set us" "prefix vs t" by (auto simp: along_def)
    moreover from this(2) x have "ts @ t \<in> set (seqs xs ys @ ss @ seqs xs us)" by (auto simp: set_seqs)
    moreover have "prefix (ts @ vs) (ts @ t)" using \<open>prefix vs t\<close> by simp
    ultimately show ?thesis unfolding along_def Inl sum.case by blast
  qed
qed

text \<open>Operations that make no event, and those that make one.\<close>

lemma silent_along:
  assumes "trail_op f w silent" "\<And>c e c'. f c = (Inl e, c') \<Longrightarrow> plain_error e"
  shows "trail_op f w (along [[]] [])"
proof unfold_locales
  show "\<exists>new. run_makes w c c' new \<and> along [[]] [] r (map event_kind new)" if "f c = (r, c')" for c r c'
  proof -
    have "run_makes w c c' []" using trail_op.leaves [OF assms(1) that] by (auto simp: silent_def)
    moreover have "along [[]] [] r []" using assms(2) [of c _ c'] that by (cases r) (simp_all add: along_def)
    ultimately show ?thesis by (intro exI [of _ "[]"]) simp
  qed
qed

lemma ok_along: "trail_op (ok x) w (along [[]] [])"
  by (rule silent_along [OF ok_silent]) (simp add: ok_def)

lemma flush_along: "trail_op (flush_run w cl) w (along [[]] [])"
  by (rule silent_along [OF flush_silent]) (rule flush_plain)

lemma close_run_along: "trail_op (close_run st b) w (along [[]] [])"
  by (rule silent_along [OF close_run_silent]) (simp add: close_run_def)

lemma emit_along: "em_step_index em = None \<Longrightarrow> trail_op (emit_event w cl em) w (along [[em_type em]] [])"
proof unfold_locales
  fix c r c'
  assume em: "em_step_index em = None" and eq: "emit_event w cl em c = (r, c')"
  from emit_event_makes [OF eq em] obtain new where new: "run_makes w c c' new" "makes_one (em_type em) r new" by blast
  then have "along [[em_type em]] [] r (map event_kind new)"
    using emit_event_plain eq by (cases r) (auto simp: along_def makes_one_def)
  with new(1) show "\<exists>new. run_makes w c c' new \<and> along [[em_type em]] [] r (map event_kind new)" by blast
qed

lemma emission_type [simp]:
  "em_type (emission_of t p) = t" "em_type (emission_of t p\<lparr>em_redact := b\<rparr>) = t"
  "em_type (emission_of t p\<lparr>em_actor := a\<rparr>) = t" "em_type (tool_emission tc t i) = t"
  by (simp_all add: emission_of_def tool_emission_def)

lemma one_along: "trail_op (emit_event w cl (emission_of t p)) w (along [[t]] [])"
  using emit_along [of "emission_of t p"] by simp

lemma void_along: "trail_op f w (along xs ss) \<Longrightarrow> trail_op (void f) w (along xs ss)"
  using along_then [OF _ ok_along, of f w xs ss] by (simp add: void_def)

lemma then_ok_along: "trail_op f w (along xs ss) \<Longrightarrow> trail_op (and_then f (\<lambda>x. ok (h x))) w (along xs ss)"
  using along_then [OF _ ok_along, of f w xs ss h] by simp

subsection \<open>The SDK's operations\<close>

lemma input_along: "trail_op (input_event w cl u h m) w (along [[''agent_run.started'']] [])"
  unfolding input_event_def by (intro then_ok_along one_along)

lemma memory_write_along: "trail_op (memory_write w cl k v st r) w (along [[''memory.write'']] [])"
  using emit_along [of "emission_of ''memory.write'' (JDict [(''store'', JStr st), (''key'', JStr k), (''value'', v)])\<lparr>em_redact := r\<rparr>"]
  by (simp add: memory_write_def memory_event_def)

definition change_type :: "bool \<Rightarrow> string" where
  "change_type applied = (if applied then ''state.change.applied'' else ''state.change.proposed'')"

lemma change_along: "trail_op (change w cl t i b a re applied) w (along [[change_type applied]] [])"
proof -
  let ?em = "emission_of (change_type applied) (JDict [(''entity_type'', JStr t), (''entity_id'', JStr i), (''before'', JDict b),
    (''after'', JDict a), (''reason'', js_str re)])\<lparr>em_redact := True\<rparr>"
  have "state_change w cl t i (JDict b) (JDict a) re applied True = emit_event w cl ?em"
    by (simp add: state_change_def change_type_def)
  with emit_along [of ?em w cl] show ?thesis
    unfolding change_def by (intro void_along) simp
qed

lemma tool_call_along: "trail_op (tool_call w name redact) w (along [[]] [])"
proof (rule silent_along)
  show "trail_op (tool_call w name redact) w silent"
  proof (rule silentI)
    fix c :: ctx
    show "run_makes w c (snd (tool_call w name redact c)) []"
      using clock_makes [OF run_makes_refl, of w "fst c" "snd c"] by (simp add: tool_call_def Let_def)
  qed
qed (simp add: tool_call_def Let_def)

lemma with_tool_along: "trail_op (with_tool w cl name i out) w (along [[''tool_call.started'', ''tool_call.completed'']] [])"
proof -
  have enter: "trail_op (tool_enter w cl tc) w (along [[''tool_call.started'']] [])" for tc
    using then_ok_along [OF emit_along, of "tool_emission tc ''tool_call.started'' []"] by (simp add: tool_enter_def)
  have leave: "trail_op (tool_exit w cl tc None) w (along [[''tool_call.completed'']] [])" for tc
    using then_ok_along [OF emit_along, of "tool_emission tc ''tool_call.completed'' [(''output'', tl_output tc)]"]
    by (simp add: tool_exit_def)
  have "trail_op (with_tool w cl name i out) w (along (seqs [[]] (seqs [[''tool_call.started'']] [[''tool_call.completed'']]))
      ([] @ seqs [[]] ([] @ seqs [[''tool_call.started'']] [])))"
    unfolding with_tool_def by (intro along_then tool_call_along enter void_along leave) (simp_all add: seqs_def)
  then show ?thesis by (simp add: seqs_def)
qed

lemma human_approval_along:
  "trail_op (human_approval w cl a r ''approved'' re) w (along [[''approval.approved'']] [])"
  using emit_along [of "emission_of ''approval.approved'' (JDict [(''approval_id'', JStr a), (''reviewer_id'', JStr r),
      (''decision'', JStr ''approved''), (''reason'', js_str re)])\<lparr>em_actor := Some \<lparr>ac_type = ''human'', ac_id = r\<rparr>\<rparr>"]
  by (simp add: human_approval_def)

lemma commit_along: "trail_op (commit w cl) w (along [[''agent_run.committed'']] [])"
proof unfold_locales
  fix c r c'
  assume eq: "commit w cl c = (r, c')"
  let ?chain = "and_then (emit_event w cl (emission_of ''agent_run.committed'' (JDict []))) (\<lambda>d.
     and_then (flush_run w cl) (\<lambda>u. and_then (close_run ''committed'' True) (\<lambda>u.
     on_wire (commit_run_call w (cl_transport cl) (ro_id (fst c))))))"
  have wire: "trail_op (on_wire (commit_run_call w (cl_transport cl) rid)) w (along [[]] [])" for rid
    by (rule silent_along [OF wire_calls_silent(3)])
      (auto simp: on_wire_def commit_run_call_def dest: request_plain split: prod.splits)
  have "trail_op ?chain w (along (seqs [[''agent_run.committed'']] (seqs [[]] (seqs [[]] [[]])))
      ([] @ seqs [[''agent_run.committed'']] ([] @ seqs [[]] ([] @ seqs [[]] []))))"
    by (intro along_then one_along flush_along close_run_along wire) simp_all
  then have chain: "trail_op ?chain w (along [[''agent_run.committed'']] [])" by simp
  show "\<exists>new. run_makes w c c' new \<and> along [[''agent_run.committed'']] [] r (map event_kind new)"
  proof (cases "ro_closed (fst c)")
    case True
    with eq run_makes_refl [of w c] show ?thesis by (auto simp: commit_def along_def intro!: exI [of _ "[]"])
  next
    case False
    with eq have "?chain c = (r, c')" by (simp add: commit_def)
    then show ?thesis by (rule trail_op.leaves [OF chain])
  qed
qed

lemma fail_along: "trail_op (fail w cl er) w (along [[''agent_run.failed''], []] [])"
proof unfold_locales
  fix c r c'
  assume eq: "fail w cl er c = (r, c')"
  have "trail_op (and_then (emit_event w cl (emission_of ''agent_run.failed'' p)) (\<lambda>d. and_then (flush_run w cl)
      (\<lambda>u. close_run ''failed'' False))) w (along (seqs [[''agent_run.failed'']] (seqs [[]] [[]])) ([] @ seqs [[''agent_run.failed'']]
      ([] @ seqs [[]] [])))" for p
    by (intro along_then one_along flush_along close_run_along) simp_all
  then have chain: "trail_op (and_then (emit_event w cl (emission_of ''agent_run.failed'' p)) (\<lambda>d. and_then (flush_run w cl)
      (\<lambda>u. close_run ''failed'' False))) w (along [[''agent_run.failed'']] [])" for p by simp
  show "\<exists>new. run_makes w c c' new \<and> along [[''agent_run.failed''], []] [] r (map event_kind new)"
  proof (cases "ro_closed (fst c)")
    case True
    with eq run_makes_refl [of w c] show ?thesis by (auto simp: fail_def along_def intro!: exI [of _ "[]"])
  next
    case False
    from trail_op.leaves [OF chain eq [unfolded fail_def if_not_P [OF False]]] show ?thesis
      by (fastforce simp: along_def split: sum.splits)
  qed
qed

subsection \<open>What a policy answers\<close>

datatype verdict = AnyVerdict | AsksApproval | Permits

fun fits :: "verdict \<Rightarrow> pydict \<Rightarrow> bool" where
  "fits AnyVerdict res = True"
| "fits AsksApproval res = truthy (dict_get res ''requires_approval'')"
| "fits Permits res = (check_passed res \<and> \<not> truthy (dict_get res ''requires_approval''))"

text \<open>Every check of the policy that is answered is answered in this way; the body is that of the check.\<close>

definition check_body :: "string \<Rightarrow> json \<Rightarrow> string \<Rightarrow> json" where
  "check_body policy_id input rid = JDict [(''policy_id'', JStr policy_id), (''input'', input), (''run_id'', JStr rid)]"

definition policy_says :: "world \<Rightarrow> string \<Rightarrow> json \<Rightarrow> verdict \<Rightarrow> bool" where
  "policy_says w policy_id input v \<longleftrightarrow>
     (\<forall>n rid reply res version h.
        attempt_result (wo_rt w) (wo_net w n \<lparr>hc_method = ''POST'', hc_path = ''/v1/policy/check'',
          hc_body = Some (check_body policy_id input rid), hc_key = None\<rparr>) = Inr reply
        \<and> policy_answer reply = Inr (res, version, h) \<longrightarrow> fits v res)"

lemma policy_says_any [simp]: "policy_says w pid input AnyVerdict"
  by (simp add: policy_says_def)

lemma request_answered:
  assumes "request w tc meth path body key retry st = (Inr v, st')"
  shows "\<exists>n. attempt_result (wo_rt w) (wo_net w n \<lparr>hc_method = meth, hc_path = path, hc_body = body,
      hc_key = (if str_truthy key then key else None)\<rparr>) = Inr v"
proof -
  let ?n = "if retry then tc_max_retries tc else 1"
  have "0 < ?n"
  proof (rule ccontr)
    assume "\<not> 0 < ?n"
    then have "?n = 0" by blast
    with assms show False by (simp add: request_def)
  qed
  from request_loop_spec [OF this, of w _ st tc 0 None] show ?thesis
    using assms unfolding request_def nth_attempt_def by (metis fst_conv)
qed

lemma policy_reply_fits:
  assumes "policy_says w pid input v" "policy_check_call w tc (check_body pid input rid) st = (Inr reply, st')"
    and "policy_answer reply = Inr (res, version, h)"
  shows "fits v res"
proof -
  from request_answered [OF assms(2) [unfolded policy_check_call_def]] obtain n where
    "attempt_result (wo_rt w) (wo_net w n \<lparr>hc_method = ''POST'', hc_path = ''/v1/policy/check'',
       hc_body = Some (check_body pid input rid), hc_key = None\<rparr>) = Inr reply" by (auto simp:)
  with assms(1,3) show ?thesis unfolding policy_says_def by blast
qed

definition check_type :: "pydict \<Rightarrow> string" where
  "check_type res = (if check_passed res then ''policy.check.passed'' else ''policy.check.failed'')"

definition checked :: "verdict \<Rightarrow> pydict result \<Rightarrow> string list \<Rightarrow> bool" where
  "checked v r ts \<longleftrightarrow>
     (case r of Inr res \<Rightarrow> fits v res \<and> ts = [check_type res]
      | Inl e \<Rightarrow> plain_error e \<and> (ts = [] \<or> (\<exists>res. fits v res \<and> ts = [check_type res])))"

lemma record_check_checked:
  assumes "fits v res"
  shows "trail_op (record_check w cl pid input res version h) w (checked v)"
proof -
  have "trail_op (and_then (emit_event w cl (emission_of (check_type res) p)) (\<lambda>d. ok res)) w (checked v)" for p
  proof (rule trail_op.then_leaves [OF one_along])
    show "trail_op (ok res) w (\<lambda>r ts. r = Inr res \<and> ts = [])"
      by unfold_locales (use run_makes_refl in \<open>fastforce simp: ok_def\<close>)
    show "checked v (Inl e) ts" if "along [[check_type res]] [] (Inl e :: pydict result) ts" for e ts
      using that assms by (auto simp: along_def checked_def prefix_Cons)
    show "checked v r (ts @ us)" if "along [[check_type res]] [] (Inr d :: pydict result) ts" "r = Inr res \<and> us = []" for d r ts us
      using that assms by (auto simp: along_def checked_def)
  qed
  then show ?thesis by (simp add: record_check_def check_type_def)
qed

lemma policy_check_checked:
  assumes "policy_says w pid input v"
  shows "trail_op (sdk_policy_check w cl pid input None None None) w (checked v)"
proof unfold_locales
  fix c r c'
  assume eq: "sdk_policy_check w cl pid input None None None c = (r, c')"
  let ?call = "on_wire (policy_check_call w (cl_transport cl) (check_body pid input (ro_id (fst c))))"
  let ?rest = "\<lambda>response. case policy_answer response of Inl e \<Rightarrow> throw e
    | Inr (res, version, h) \<Rightarrow> record_check w cl pid input res version h"
  have eq': "and_then ?call ?rest c = (r, c')"
    using eq unfolding sdk_policy_check_def check_body_def option.case str_truthy.simps if_False .
  obtain y c1 where call: "?call c = (y, c1)" by (cases "?call c")
  have quiet: "run_makes w c c1 []"
    using trail_op.leaves [OF wire_calls_silent(1) call] by (auto simp: silent_def)
  show "\<exists>new. run_makes w c c' new \<and> checked v r (map event_kind new)"
  proof (cases y)
    case (Inl e)
    with call have "plain_error e" by (auto dest: wire_calls_plain)
    with Inl call eq' quiet show ?thesis by (auto simp: and_then_def checked_def intro!: exI [of _ "[]"])
  next
    case (Inr reply)
    with call eq' have rest: "?rest reply c1 = (r, c')" by (simp add: and_then_def)
    show ?thesis
    proof (cases "policy_answer reply")
      case (Inl e)
      then have "plain_error e" by (rule policy_answer_plain)
      with Inl rest quiet show ?thesis by (auto simp: throw_def checked_def intro!: exI [of _ "[]"])
    next
      case (Inr answer)
      then obtain res version h where answer: "policy_answer reply = Inr (res, version, h)" by (cases answer) auto
      from call \<open>y = Inr reply\<close> obtain st where "policy_check_call w (cl_transport cl) (check_body pid input (ro_id (fst c))) (snd c)
          = (Inr reply, st)" by (auto simp: on_wire_def split: prod.splits)
      from policy_reply_fits [OF assms this answer] have "fits v res" .
      moreover have "record_check w cl pid input res version h c1 = (r, c')" using rest by (simp add: answer)
      ultimately obtain new where "run_makes w c1 c' new" "checked v r (map event_kind new)"
        using trail_op.leaves [OF record_check_checked] by blast
      with run_makes_trans [OF quiet] show ?thesis by fastforce
    qed
  qed
qed

subsection \<open>A policy that is enforced, with its approval\<close>

text \<open>Results of an enforcement: an exception that asks for approval comes after exactly two events.\<close>

fun gate_trails :: "verdict \<Rightarrow> string list list" where
  "gate_trails AnyVerdict = [[''policy.check.passed'', ''policy.enforcement.allowed''],
     [''policy.check.failed'', ''policy.enforcement.allowed''],
     [''policy.check.passed'', ''approval.requested'', ''approval.approved'']]"
| "gate_trails AsksApproval = [[''policy.check.passed'', ''approval.requested'', ''approval.approved'']]"
| "gate_trails Permits = [[''policy.check.passed'', ''policy.enforcement.allowed'']]"

fun gate_cuts :: "verdict \<Rightarrow> string list list" where
  "gate_cuts AnyVerdict = [[''policy.check.failed'', ''policy.enforcement.blocked'']]"
| "gate_cuts _ = []"

definition enforced :: "verdict \<Rightarrow> pydict result \<Rightarrow> string list \<Rightarrow> bool" where
  "enforced v r ts \<longleftrightarrow> along (gate_trails v) (gate_cuts v) r ts
     \<or> (\<exists>e. r = Inl e \<and> ts = [''policy.check.passed'', ''approval.requested'']
         \<and> [''policy.check.passed'', ''approval.requested'', ''approval.approved''] \<in> set (gate_trails v))"

text \<open>What follows the check, for each of its results.\<close>

definition decided_by :: "pydict \<Rightarrow> pydict result \<Rightarrow> string list \<Rightarrow> bool" where
  "decided_by res r us \<longleftrightarrow>
     (if denied res then (\<exists>e. r = Inl e \<and> plain_error e \<and> prefix us [''policy.enforcement.blocked''])
      else if truthy (dict_get res ''requires_approval'')
      then (\<exists>e. r = Inl e \<and> (plain_error e \<and> prefix us [''approval.requested''] \<or> us = [''approval.requested'']))
      else along [[''policy.enforcement.allowed'']] [] r us)"

lemma throw_leaves: "trail_op (throw e) w (\<lambda>r ts. r = Inl e \<and> ts = [])"
  by unfold_locales (use run_makes_refl in \<open>fastforce simp: throw_def\<close>)

lemma request_approval_along:
  "trail_op (sdk_request_approval w cl pid input reason None) w (along [[''approval.requested'']] [])"
proof unfold_locales
  fix c r c'
  assume eq: "sdk_request_approval w cl pid input reason None c = (r, c')"
  have wire: "trail_op (on_wire (request_approval_call w tc b)) w (along [[]] [])" for tc b
    by (rule silent_along [OF wire_calls_silent(2)]) (rule wire_calls_plain)
  have "trail_op (and_then (emit_event w cl (emission_of ''approval.requested'' b)) (\<lambda>d. and_then (flush_run w cl)
      (\<lambda>u. on_wire (request_approval_call w tc b)))) w (along (seqs [[''approval.requested'']] (seqs [[]] [[]]))
      ([] @ seqs [[''approval.requested'']] ([] @ seqs [[]] [])))" for b tc
    by (intro along_then one_along flush_along wire) simp_all
  then have chain: "trail_op (and_then (emit_event w cl (emission_of ''approval.requested'' b)) (\<lambda>d. and_then (flush_run w cl)
      (\<lambda>u. on_wire (request_approval_call w tc b)))) w (along [[''approval.requested'']] [])" for b tc by simp
  from eq obtain b where "and_then (emit_event w cl (emission_of ''approval.requested'' b)) (\<lambda>d. and_then (flush_run w cl)
      (\<lambda>u. on_wire (request_approval_call w (cl_transport cl) b))) (fst c, sdk_tick (snd c)) = (r, c')"
    by (simp add: sdk_request_approval_def Let_def)
  from trail_op.leaves [OF chain this] obtain new where "run_makes w (fst c, sdk_tick (snd c)) c' new"
    "along [[''approval.requested'']] [] r (map event_kind new)" by blast
  with clock_makes [of w "fst c" "snd c" c' new] show "\<exists>new. run_makes w c c' new \<and> along [[''approval.requested'']] [] r (map event_kind new)"
    unfolding prod.collapse by blast
qed

lemma enforcement_branch:
  "trail_op (let show' = show_value (wo_rt w) in
     if denied res then
       and_then (emit_event w cl (emission_of ''policy.enforcement.blocked'' (enforcement pid input res)))
         (\<lambda>d. throw (PolicyDeniedError (show' (dict_get_or res ''reason'' (JStr ''policy denied''))) pid
            (show' (dict_get_or res ''reason'' (JStr [])))))
     else if truthy (dict_get res ''requires_approval'') then
       and_then (sdk_request_approval w cl (Some pid) input (dict_get_or res ''reason'' (JStr ''approval required'')) None)
         (\<lambda>approval. case approval of
            JDict d \<Rightarrow> throw (ApprovalRequiredError (show' (dict_get_or res ''reason'' (JStr ''approval required'')))
              (show' (dict_get_or d ''approval_id'' (JStr []))) pid)
          | _ \<Rightarrow> throw (AttributeError ''get''))
     else
       and_then (emit_event w cl (emission_of ''policy.enforcement.allowed'' (enforcement pid input res)))
         (\<lambda>d. ok res)) w (decided_by res)"
proof (cases "denied res")
  case True
  have "trail_op (and_then (emit_event w cl (emission_of ''policy.enforcement.blocked'' p))
      (\<lambda>d. throw (PolicyDeniedError m pid reason))) w (decided_by res)" for p m reason
    by (rule trail_op.then_leaves [OF one_along throw_leaves])
      (use True in \<open>auto simp: along_def decided_by_def\<close>)
  with True show ?thesis by (simp add: Let_def)
next
  case False
  note permitted = this
  show ?thesis
  proof (cases "truthy (dict_get res ''requires_approval'')")
    case True
    have thrown: "trail_op (case approval of JDict d \<Rightarrow> throw (ex d) | _ \<Rightarrow> throw (AttributeError ''get'')) w
        (\<lambda>r ts. (\<exists>e. r = Inl e) \<and> ts = [])" for approval ex
      by (cases approval) (auto intro: trail_op.weaken [OF throw_leaves])
    have "trail_op (and_then (sdk_request_approval w cl (Some pid) input reason None)
        (\<lambda>approval. case approval of JDict d \<Rightarrow> throw (ex d) | _ \<Rightarrow> throw (AttributeError ''get''))) w (decided_by res)" for reason ex
      by (rule trail_op.then_leaves [OF request_approval_along thrown])
        (use True permitted in \<open>auto simp: along_def decided_by_def\<close>)
    with True permitted show ?thesis by (simp add: Let_def)
  next
    case False
    have "trail_op (and_then (emit_event w cl (emission_of ''policy.enforcement.allowed'' p)) (\<lambda>d. ok res)) w
        (decided_by res)" for p
      by (rule trail_op.weaken [OF then_ok_along [OF one_along]]) (use False permitted in \<open>simp add: decided_by_def\<close>)
    with False permitted show ?thesis by (simp add: Let_def)
  qed
qed

lemma check_type_gate: "fits v res \<Longrightarrow> \<exists>t \<in> set (gate_trails v @ gate_cuts v). prefix [check_type res] t"
  by (cases v) (auto simp: check_type_def check_passed_def)

lemma enforce_enforced:
  assumes "policy_says w pid input v"
  shows "trail_op (enforce_policy w cl pid input) w (enforced v)"
  unfolding enforce_policy_def
proof (rule trail_op.then_leaves [OF policy_check_checked [OF assms] enforcement_branch])
  fix e ts
  assume "checked v (Inl e) ts"
  then have "plain_error e" "ts = [] \<or> (\<exists>res. fits v res \<and> ts = [check_type res])" by (simp_all add: checked_def)
  moreover have "\<exists>t \<in> set (gate_trails v @ gate_cuts v). prefix [] t" by (cases v) auto
  ultimately show "enforced v (Inl e) ts" using check_type_gate by (auto simp: enforced_def along_def)
next
  fix res r ts us
  assume "checked v (Inr res) ts" and us: "decided_by res r us"
  then have res: "fits v res" "ts = [check_type res]" by (simp_all add: checked_def)
  show "enforced v r (ts @ us)"
  proof (cases "denied res")
    case True
    then have "v = AnyVerdict" "check_type res = ''policy.check.failed''"
      using res(1) by (cases v; auto simp: denied_def check_passed_def check_type_def split: option.splits)+
    with us res(2) True show ?thesis by (auto simp: decided_by_def enforced_def along_def)
  next
    case False
    note permitted = this
    show ?thesis
    proof (cases "truthy (dict_get res ''requires_approval'')")
      case True
      then have "v \<noteq> Permits" "check_type res = ''policy.check.passed''"
        using res(1) by (auto simp: check_passed_def check_type_def)
      with us res(2) True permitted show ?thesis
        by (cases v) (auto simp: decided_by_def enforced_def along_def prefix_Cons)
    next
      case False
      with us permitted have us': "along [[''policy.enforcement.allowed'']] [] r us" by (simp add: decided_by_def)
      from False res(1) have "v = AnyVerdict \<or> v = Permits \<and> check_type res = ''policy.check.passed''"
        by (cases v) (auto simp: check_type_def)
      with us' res(2) show ?thesis
        by (auto simp: enforced_def along_def check_type_def split: sum.splits)
    qed
  qed
qed

lemma on_approval_along:
  assumes "trail_op f w (enforced v)" "\<And>a. trail_op (handler a) w (along [[''approval.approved'']] [])"
  shows "trail_op (on_approval f handler) w (along (gate_trails v) (gate_cuts v))"
proof unfold_locales
  fix c r c'
  assume eq: "on_approval f handler c = (r, c')"
  obtain y c1 where fc: "f c = (y, c1)" by (cases "f c")
  from trail_op.leaves [OF assms(1) fc] obtain new where new: "run_makes w c c1 new" "enforced v y (map event_kind new)" by blast
  show "\<exists>new. run_makes w c c' new \<and> along (gate_trails v) (gate_cuts v) r (map event_kind new)"
  proof (cases "\<exists>e. y = Inl e \<and> \<not> plain_error e")
    case True
    then obtain m a p where y: "y = Inl (ApprovalRequiredError m a p)" by (metis plain_error.elims(3))
    then have ts: "map event_kind new = [''policy.check.passed'', ''approval.requested'']"
      "[''policy.check.passed'', ''approval.requested'', ''approval.approved''] \<in> set (gate_trails v)"
      using new(2) by (auto simp: enforced_def along_def)
    have "handler a c1 = (r, c')" using eq fc y by (simp add: on_approval_def)
    from trail_op.leaves [OF assms(2) this] obtain new' where new': "run_makes w c1 c' new'"
      "along [[''approval.approved'']] [] r (map event_kind new')" by blast
    have "along (gate_trails v) (gate_cuts v) r (map event_kind (new @ new'))"
    proof (cases r)
      case (Inr u)
      with new'(2) ts show ?thesis by (simp add: along_def)
    next
      case (Inl e)
      with new'(2) have e: "plain_error e" "prefix (map event_kind new') [''approval.approved'']" by (auto simp: along_def)
      then have "prefix (map event_kind (new @ new')) [''policy.check.passed'', ''approval.requested'', ''approval.approved'']"
        by (simp add: ts(1))
      with Inl e(1) ts(2) show ?thesis unfolding along_def by auto
    qed
    with run_makes_trans [OF new(1) new'(1)] show ?thesis by blast
  next
    case False
    then have r: "c' = c1 \<and> r = map_sum (\<lambda>e. e) (\<lambda>x. ()) y"
      using eq fc by (cases y) (auto simp: on_approval_def split: exn.splits)
    have "map event_kind new = [''policy.check.passed'', ''approval.requested'']
        \<Longrightarrow> [''policy.check.passed'', ''approval.requested'', ''approval.approved''] \<in> set (gate_trails v)
        \<Longrightarrow> \<exists>t \<in> set (gate_trails v @ gate_cuts v). prefix (map event_kind new) t"
      by (intro bexI [of _ "[''policy.check.passed'', ''approval.requested'', ''approval.approved'']"]) simp_all
    with new(2) False have "along (gate_trails v) (gate_cuts v) r (map event_kind new)"
      by (cases y) (auto simp: r enforced_def along_def)
    with new(1) r show ?thesis by blast
  qed
qed

lemma gate_along:
  "policy_says w pid (JDict input) v \<Longrightarrow> trail_op (gate w cl pid input by reason) w (along (gate_trails v) (gate_cuts v))"
  unfolding gate_def grant_approval_def
  by (intro on_approval_along enforce_enforced void_along human_approval_along)

subsection \<open>Blocks of steps\<close>

type_synonym trails = "string list list \<times> string list list"

fun joined :: "trails list \<Rightarrow> trails" where
  "joined [] = ([[]], [])"
| "joined ((xs, ss) # rest) = (seqs xs (fst (joined rest)), ss @ seqs xs (snd (joined rest)))"

definition step_along :: "world \<Rightarrow> unit op \<Rightarrow> trails \<Rightarrow> bool" where
  "step_along w f t \<longleftrightarrow> trail_op f w (along (fst t) (snd t)) \<and> fst t \<noteq> []"

lemma joined_nonempty: "(\<And>t. t \<in> set ts \<Longrightarrow> fst t \<noteq> []) \<Longrightarrow> fst (joined ts) \<noteq> []"
proof (induction ts rule: joined.induct)
  case (2 xs ss rest)
  then have "xs \<noteq> []" "fst (joined rest) \<noteq> []" by fastforce+
  then show ?case by (cases xs) (simp_all add: seqs_def)
qed simp

lemma in_order_along:
  "list_all2 (step_along w) fs ts \<Longrightarrow> trail_op (in_order fs) w (along (fst (joined ts)) (snd (joined ts)))"
proof (induction rule: list_all2_induct)
  case Nil
  show ?case by (simp add: ok_along)
next
  case (Cons f fs t ts)
  have "t' \<in> set ts \<Longrightarrow> fst t' \<noteq> []" for t'
    using Cons.hyps(2) by (auto simp: list_all2_conv_all_nth step_along_def in_set_conv_nth)
  then have "fst (joined ts) \<noteq> []" by (rule joined_nonempty)
  with Cons show ?case
    using along_then [of f w "fst t" "snd t" "\<lambda>u. in_order fs" "fst (joined ts)" "snd (joined ts)"]
    by (cases t) (simp add: step_along_def)
qed

end
