(* ===== verification/Agent_Trails.thy ===== *)
theory Agent_Trails
  imports Agent_Laws
begin

section \<open>Whole agents\<close>

text \<open>
  The trails of the three example agents, computed from their steps, and what their runs leave behind: a run whose block
  ends normally is committed and has sent everything; one that raises leaves a beginning, and at most the
  event of its failure.
\<close>

subsection \<open>Plans\<close>

definition one :: "string \<Rightarrow> trails" where
  "one t = ([[t]], [])"

definition tool_step :: trails where
  "tool_step = ([[''tool_call.started'', ''tool_call.completed'']], [])"

definition gate_step :: "verdict \<Rightarrow> trails" where
  "gate_step v = (gate_trails v, gate_cuts v)"

fun agent_plan :: "verdict \<Rightarrow> agent \<Rightarrow> trails list" where
  "agent_plan v RefundAgent = [one ''agent_run.started'', tool_step, one ''state.change.proposed'', gate_step v,
     one ''state.change.applied'', one ''agent_run.committed'']"
| "agent_plan v AmlAgent = [one ''agent_run.started'', tool_step, tool_step, tool_step, one ''memory.write'',
     one ''state.change.applied'', gate_step v, one ''state.change.applied'', one ''agent_run.committed'']"
| "agent_plan v (ClaimsAgent claim_id) = [one ''agent_run.started'', tool_step, tool_step, tool_step, tool_step,
     one ''memory.write'', one ''memory.write'', gate_step v, tool_step, one ''state.change.applied'',
     one ''agent_run.committed'']"

definition agent_trails :: "verdict \<Rightarrow> agent \<Rightarrow> string list list" where
  "agent_trails v ag = fst (joined (agent_plan v ag))"

definition agent_cuts :: "verdict \<Rightarrow> agent \<Rightarrow> string list list" where
  "agent_cuts v ag = snd (joined (agent_plan v ag))"

text \<open>The policy an agent enforces, and what it asks it.\<close>

fun agent_policy :: "agent \<Rightarrow> string" where
  "agent_policy RefundAgent = ''refund_requires_approval''"
| "agent_policy AmlAgent = ''high_risk_wire_requires_approval''"
| "agent_policy (ClaimsAgent claim_id) = ''large_claim_requires_manager_approval''"

fun agent_question :: "agent \<Rightarrow> pydict" where
  "agent_question RefundAgent = [(''action'', JStr ''approve_refund''), (''amount'', JInt 7000)]"
| "agent_question AmlAgent = [(''risk_score'', risk_after), (''amount'', JInt 25000)]"
| "agent_question (ClaimsAgent claim_id) =
     [(''claimed_amount'', dict_get (fetch_claim claim_id) ''claimed_amount''),
      (''estimated_amount'', dict_get (get_repair_estimate claim_id) ''estimated_amount''),
      (''fraud_score'', dict_get (run_fraud_score claim_id) ''fraud_score''), (''adjuster_id'', JStr ''adjuster_88'')]"

lemma one_step: "trail_op f w (along [[t]] []) \<Longrightarrow> step_along w f (one t)"
  by (simp add: step_along_def one_def)

lemma tool_along: "step_along w (with_tool w cl name i out) tool_step"
  by (simp add: step_along_def tool_step_def with_tool_along)

lemma gate_step_along: "policy_says w pid (JDict input) v \<Longrightarrow> step_along w (gate w cl pid input by reason) (gate_step v)"
  by (cases v) (simp_all add: step_along_def gate_step_def gate_along del: gate_trails.simps gate_cuts.simps, simp_all)

lemmas agent_rules = one_step input_along void_along memory_write_along commit_along tool_along

lemma change_steps:
  "step_along w (change w cl t i b a re True) (one ''state.change.applied'')"
  "step_along w (change w cl t i b a re False) (one ''state.change.proposed'')"
  using one_step [OF change_along, of w cl t i b a re True] one_step [OF change_along, of w cl t i b a re False]
  by (simp_all add: change_type_def)

text \<open>The claim is covered and its score is low, so that the third agent always pays.\<close>

definition claims_coverage :: "string \<Rightarrow> pydict" where
  "claims_coverage claim_id = verify_policy_coverage (dict_get (fetch_claim claim_id) ''policy_number'')
     (dict_get (fetch_claim claim_id) ''incident_type'')"

lemma claims_steps_paid:
  "claims_steps w cl claim_id =
     [input_event w cl (Some ''adjuster_88'') (Some (''sha256:'' @ claim_id))
        [(''claim_id'', JStr claim_id), (''queue'', JStr ''auto_adjudication'')],
      with_tool w cl ''fetch_claim'' [(''claim_id'', JStr claim_id)] (JDict (fetch_claim claim_id)),
      with_tool w cl ''verify_policy_coverage''
        [(''policy_number'', dict_get (fetch_claim claim_id) ''policy_number''),
         (''incident_type'', dict_get (fetch_claim claim_id) ''incident_type'')] (JDict (claims_coverage claim_id)),
      with_tool w cl ''run_fraud_score'' [(''claim_id'', JStr claim_id)] (JDict (run_fraud_score claim_id))]
     @ claim_paid w cl claim_id (fetch_claim claim_id) (claims_coverage claim_id)
         (dict_get (run_fraud_score claim_id) ''fraud_score'')"
  by (simp add: claims_steps_def claims_coverage_def Let_def verify_policy_coverage_def run_fraud_score_def amount_of_def)

lemma agent_steps_along:
  assumes "policy_says w (agent_policy ag) (JDict (agent_question ag)) v"
  shows "list_all2 (step_along w) (agent_steps w cl ag) (agent_plan v ag)"
proof (cases ag)
  case RefundAgent
  with assms show ?thesis
    by (simp add: refund_steps_def agent_rules change_steps gate_step_along)
next
  case AmlAgent
  with assms show ?thesis
    by (simp add: aml_steps_def agent_rules change_steps gate_step_along)
next
  case (ClaimsAgent claim_id)
  with assms show ?thesis
    by (simp add: claims_steps_paid claim_paid_def Let_def agent_rules change_steps gate_step_along)
qed

subsection \<open>The end of a block\<close>

lemma in_order_last: "in_order (fs @ [f]) c = (Inr u, c') \<Longrightarrow> \<exists>c1. f c1 = (Inr u, c')"
proof (induction fs arbitrary: c)
  case Nil
  then have "f c = (Inr u, c')" by (auto simp: and_then_def ok_def split: prod.splits sum.splits)
  then show ?case by blast
next
  case (Cons g gs)
  then show ?case by (auto simp: and_then_def split: prod.splits sum.splits)
qed

lemma commit_leaves:
  assumes "void (commit w cl) c = (Inr u, c')"
  shows "ro_committed (fst c') \<and> ro_closed (fst c') \<and> ro_buffer (fst c') = []"
  using assms by (auto simp: void_def commit_def and_then_def close_run_def on_wire_def ok_def
      dest!: flush_run_empty split: prod.splits sum.splits if_splits)

lemma agent_commits_last: "\<exists>fs. agent_steps w cl ag = fs @ [void (commit w cl)]"
proof (cases ag)
  case RefundAgent
  then show ?thesis by (intro exI [of _ "butlast (refund_steps w cl)"]) (simp add: refund_steps_def)
next
  case AmlAgent
  then show ?thesis by (intro exI [of _ "butlast (aml_steps w cl)"]) (simp add: aml_steps_def)
next
  case (ClaimsAgent claim_id)
  then show ?thesis
    by (intro exI [of _ "butlast (claims_steps w cl claim_id)"]) (simp add: claims_steps_paid claim_paid_def Let_def)
qed

text \<open>What an agent's block leaves: its result, its run, and the types of its events.\<close>

definition agent_left :: "verdict \<Rightarrow> agent \<Rightarrow> unit result \<Rightarrow> run \<Rightarrow> string list \<Rightarrow> bool" where
  "agent_left v ag r ro ts \<longleftrightarrow>
     (case r of
        Inr u \<Rightarrow> ts \<in> set (agent_trails v ag) \<and> ro_committed ro \<and> ro_buffer ro = []
      | Inl e \<Rightarrow> \<exists>t \<in> set (agent_trails v ag @ agent_cuts v ag). \<exists>p. prefix p t \<and> (ts = p \<or> ts = p @ [''agent_run.failed'']))"

lemma agent_block_leaves:
  assumes "agent_block w cl describe ag c = (r, c')"
    and "policy_says w (agent_policy ag) (JDict (agent_question ag)) v"
  shows "\<exists>new. run_makes w c c' new \<and> agent_left v ag r (fst c') (map event_kind new)"
proof -
  let ?body = "in_order (agent_steps w cl ag)"
  note body = in_order_along [OF agent_steps_along [OF assms(2)], of cl, folded agent_trails_def agent_cuts_def]
  obtain y c1 where run: "?body c = (y, c1)" by (cases "?body c")
  from trail_op.leaves [OF body run] obtain new where
    new: "run_makes w c c1 new" "along (agent_trails v ag) (agent_cuts v ag) y (map event_kind new)" by blast
  show ?thesis
  proof (cases y)
    case (Inr u)
    obtain fs where "agent_steps w cl ag = fs @ [void (commit w cl)]" using agent_commits_last by blast
    with run Inr have "\<exists>c0. void (commit w cl) c0 = (Inr u, c1)" using in_order_last by metis
    then have left: "ro_committed (fst c1)" "ro_buffer (fst c1) = []" using commit_leaves by blast+
    have "r = Inr () \<and> c' = c1"
      using assms(1) run Inr left(1)
      by (auto simp: agent_block_def with_run_def void_def run_exit_def and_then_def ok_def)
    with new left Inr show ?thesis by (auto simp: agent_left_def along_def)
  next
    case (Inl e)
    let ?fail = "fail w cl (describe e)"
    obtain z c2 where failed: "?fail c1 = (z, c2)" by (cases "?fail c1")
    have r: "r = Inl e" "c' = c2"
      using assms(1) run Inl failed by (simp_all add: agent_block_def with_run_def run_exit_def)
    from trail_op.leaves [OF fail_along failed] obtain new' where
      new': "run_makes w c1 c2 new'" "along [[''agent_run.failed''], []] [] z (map event_kind new')" by blast
    have "map event_kind new' = [] \<or> map event_kind new' = [''agent_run.failed'']"
      using new'(2) by (auto simp: along_def prefix_Cons split: sum.splits)
    moreover from new(2) Inl obtain t where "t \<in> set (agent_trails v ag @ agent_cuts v ag)" "prefix (map event_kind new) t"
      by (auto simp: along_def)
    ultimately have "agent_left v ag r (fst c') (map event_kind (new @ new'))"
      by (fastforce simp: agent_left_def r)
    with run_makes_trans [OF new(1) new'(1)] r show ?thesis by blast
  qed
qed

text \<open>The trails in full.\<close>

lemma refund_trails:
  "agent_trails AsksApproval RefundAgent = [[''agent_run.started'', ''tool_call.started'', ''tool_call.completed'',
     ''state.change.proposed'', ''policy.check.passed'', ''approval.requested'', ''approval.approved'',
     ''state.change.applied'', ''agent_run.committed'']]"
  by (simp add: agent_trails_def one_def tool_step_def gate_step_def seqs_def)

end
