(* ===== verification/Deployed.thy ===== *)
theory Deployed
  imports Decision_Properties Http_Properties Agent_Trails
begin

section \<open>The deployed policies\<close>

text \<open>
  The two policies of \<open>deploy/policies\<close>, as the YAML parser reads them, in the order of the files' names; what the
  engine that loads them decides for the questions of the example agents; and what the collector's endpoint
  then answers.
\<close>

definition risky_transfer :: pydict where
  "risky_transfer = [(''allowed'', JBool False), (''requires_approval'', JBool True),
     (''reason'', JStr ''High risk score requires AML reviewer approval'')]"

definition large_transfer :: pydict where
  "large_transfer = [(''allowed'', JBool False), (''requires_approval'', JBool True),
     (''reason'', JStr ''Wire transfer above $10k requires approval'')]"

definition wire_rules :: "json list" where
  "wire_rules = [
     JDict [(''when'', JDict [(''risk_score'', JDict [(''gte'', JFloat (FRat (3602879701896397 / 4503599627370496)))])]),  \<comment> \<open>0.8\<close>
            (''result'', JDict risky_transfer)],
     JDict [(''when'', JDict [(''amount'', JDict [(''gt'', JInt 10000)])]), (''result'', JDict large_transfer)],
     JDict [(''default'', JBool True), (''result'', JDict [(''allowed'', JBool True), (''requires_approval'', JBool False)])]]"

definition wire_items :: pydict where
  "wire_items = [
     (''policy_id'', JStr ''high_risk_wire_requires_approval''),
     (''policy_version'', JStr ''2026-05-01''),
     (''description'', JStr ''High-risk wire transfers require AML reviewer approval.''),
     (''rules'', JList wire_rules)]"

definition deployed_files :: "json list" where
  "deployed_files = [JDict wire_items, JDict refund_items]"

definition deployed_engine :: "runtime \<Rightarrow> engine" where
  "deployed_engine rt = \<lparr>en_policies = [
     (JStr ''high_risk_wire_requires_approval'', stored_policy rt (JDict wire_items)),
     (JStr ''refund_requires_approval'', stored_policy rt (JDict refund_items))], en_opa = None\<rparr>"

lemma wire_stored:
  obtains h where "hash_json (rt_sha256 rt) (rt_float_repr rt) (JDict wire_items) = Inr h"
    "stored_policy rt (JDict wire_items) = dict_set wire_items ''_policy_hash'' (JStr h)"
proof -
  have "\<not> has_nan (JDict wire_items)"
    by (simp add: wire_items_def wire_rules_def risky_transfer_def large_transfer_def)
  then obtain h where h: "hash_json (rt_sha256 rt) (rt_float_repr rt) (JDict wire_items) = Inr h"
    by (simp add: hash_json_def canonical_json_def)
  then show thesis by (intro that) (simp_all add: stored_policy_def)
qed

lemma wire_id: "map_of wire_items ''policy_id'' = Some (JStr ''high_risk_wire_requires_approval'')"
  by (simp add: wire_items_def)

lemma deployed_loaded: "load_engine rt (Some deployed_files) None = Inr (deployed_engine rt)"
  by (rule wire_stored [of rt], rule refund_stored [of rt])
    (simp add: load_engine_def deployed_files_def deployed_engine_def hashable_def refund_id wire_id)

subsection \<open>Decisions on the agents' questions\<close>

text \<open>The result that decides, and the policy it is of.\<close>

fun agent_result :: "agent \<Rightarrow> pydict" where
  "agent_result RefundAgent = big_refund"
| "agent_result AmlAgent = risky_transfer"
| "agent_result (ClaimsAgent claim_id) = de_raw (no_policy [])"

lemma deployed_found:
  "find_policy (deployed_engine rt) ''high_risk_wire_requires_approval'' = Some (stored_policy rt (JDict wire_items))"
  "find_policy (deployed_engine rt) ''refund_requires_approval'' = Some (stored_policy rt (JDict refund_items))"
  "find_policy (deployed_engine rt) ''large_claim_requires_manager_approval'' = None"
  by (simp_all add: find_policy_def deployed_engine_def entry_is_def)

lemma stored_simps:
  "stored_policy rt (JDict wire_items) \<noteq> []"
  "map_of (stored_policy rt (JDict wire_items)) ''rules'' = Some (JList wire_rules)"
  "map_of (stored_policy rt (JDict wire_items)) ''policy_id'' = Some (JStr ''high_risk_wire_requires_approval'')"
  "map_of (stored_policy rt (JDict wire_items)) ''policy_version'' = Some (JStr ''2026-05-01'')"
  "\<exists>h. map_of (stored_policy rt (JDict wire_items)) ''_policy_hash'' = Some (JStr h)"
  "map_of (stored_policy rt (JDict refund_items)) ''policy_id'' = Some (JStr ''refund_requires_approval'')"
  "map_of (stored_policy rt (JDict refund_items)) ''policy_version'' = Some (JStr ''2026-05-01'')"
  "\<exists>h. map_of (stored_policy rt (JDict refund_items)) ''_policy_hash'' = Some (JStr h)"
  by (rule wire_stored [of rt], rule refund_stored [of rt], simp add: wire_items_def refund_items_def)+

lemma wire_decision:
  "evaluate rt opa (deployed_engine rt) ''high_risk_wire_requires_approval'' [(''risk_score'', risk_after), (''amount'', JInt 25000)]
     = Inr (wrap rt (stored_policy rt (JDict wire_items)) risky_transfer)"
proof -
  let ?input = "[(''risk_score'', risk_after), (''amount'', JInt 25000)]"
  have "item_holds ?input ''risk_score'' (JDict [(''gte'', JFloat (FRat (3602879701896397 / 4503599627370496)))]) = Inr True"
    by (simp add: item_holds_def operators_def compare_num_def risk_after_def num_le_def)
  then have "rule_fires (hd wire_rules) ?input = Inr True"
    by (simp add: wire_rules_def rule_fires_def match_cond_def)
  moreover have "rule_result (hd wire_rules) = Inr risky_transfer"
    by (simp add: wire_rules_def rule_result_def py_get_def py_dict_def)
  moreover have "wire_rules = hd wire_rules # tl wire_rules" by (simp add: wire_rules_def)
  ultimately have "run_rules rt (stored_policy rt (JDict wire_items)) wire_rules ?input
      = Inr (wrap rt (stored_policy rt (JDict wire_items)) risky_transfer)"
    using run_rules_first [of "[]" ?input "hd wire_rules" risky_transfer rt _ "tl wire_rules"] by simp
  then show ?thesis
    by (simp add: evaluate_def deployed_found stored_simps py_iter_def) (simp add: deployed_engine_def)
qed

lemma refund_decision:
  "evaluate rt opa (deployed_engine rt) ''refund_requires_approval'' (refund_request (JInt 7000))
     = Inr (wrap rt (stored_policy rt (JDict refund_items)) big_refund)"
proof -
  have "rule_fires (refund_rules ! 0) (refund_request (JInt 7000)) = Inr True"
    by (simp add: refund_fires compare_num_def)
  with refund_rules_split have "run_rules rt (stored_policy rt (JDict refund_items)) refund_rules (refund_request (JInt 7000))
      = Inr (wrap rt (stored_policy rt (JDict refund_items)) big_refund)"
    using run_rules_first [of "[]" _ "refund_rules ! 0" big_refund rt _ "[refund_rules ! 1, refund_rules ! 2]"]
    by (simp add: refund_results)
  then show ?thesis
    using refund_found(3) [of rt] refund_rules_read [of rt]
    by (simp add: evaluate_def deployed_found) (simp add: deployed_engine_def)
qed

text \<open>For each agent: the result, no value of which is a float that JSON lacks.\<close>

lemma deployed_decision:
  "\<exists>d. evaluate rt opa (deployed_engine rt) (agent_policy ag) (agent_question ag) = Inr d
     \<and> de_raw d = agent_result ag \<and> \<not> has_nan (de_version d) \<and> \<not> has_nan (de_hash d) \<and> \<not> has_nan (de_policy d)"
proof (cases ag)
  case RefundAgent
  with refund_decision [of rt opa] stored_simps(6-8) [of rt] show ?thesis
    by (auto simp: refund_request_def wrap_def)
next
  case AmlAgent
  with wire_decision [of rt opa] stored_simps(3-5) [of rt] show ?thesis by (auto simp: wrap_def)
next
  case (ClaimsAgent claim_id)
  then show ?thesis by (simp add: evaluate_def deployed_found no_policy_def) (simp add: deployed_engine_def)
qed

definition deployed_verdict :: "agent \<Rightarrow> verdict" where
  "deployed_verdict ag = (case ag of ClaimsAgent claim_id \<Rightarrow> Permits | _ \<Rightarrow> AsksApproval)"

text \<open>The result as the SDK finds it in the answer.\<close>

definition shown_result :: "decision \<Rightarrow> pydict" where
  "shown_result d = dict_update [(''allowed'', JBool (de_allowed d)), (''requires_approval'', JBool (de_requires d)),
     (''reason'', JStr (de_reason d))] (de_raw d)"

definition policy_reply :: "decision \<Rightarrow> json" where
  "policy_reply d = JDict [(''policy_id'', de_policy d), (''policy_version'', de_version d), (''policy_hash'', de_hash d),
     (''result'', JDict (shown_result d))]"

lemma shown_agent_result: "de_raw d = agent_result ag \<Longrightarrow> shown_result d = agent_result ag"
  by (cases ag) (simp_all add: shown_result_def dict_update_def big_refund_def risky_transfer_def no_policy_def)

lemma agent_result_laws:
  "fits (deployed_verdict ag) (agent_result ag)" "\<not> denied (agent_result ag)" "\<not> has_nan (JDict (agent_result ag))"
proof -
  show "fits (deployed_verdict ag) (agent_result ag)"
    by (cases ag) (simp_all add: deployed_verdict_def check_passed_def big_refund_def risky_transfer_def no_policy_def)
  show "\<not> denied (agent_result ag)"
    by (cases ag) (simp_all add: denied_def big_refund_def risky_transfer_def no_policy_def)
  show "\<not> has_nan (JDict (agent_result ag))"
    by (cases ag) (simp_all add: big_refund_def risky_transfer_def no_policy_def)
qed

lemma policy_reply_answer: "policy_answer (policy_reply d) = Inr (shown_result d, de_version d, de_hash d)"
  by (simp add: policy_reply_def policy_answer_def)

subsection \<open>The endpoint\<close>

lemma check_route:
  "dispatch rt dp lax auth [] \<lparr>hc_method = ''POST'', hc_path = ''/v1/policy/check'',
       hc_body = Some (check_body pid (JDict input) rid), hc_key = k\<rparr> s
     = serve rt dp auth (PolicyCheck pid input) s"
proof -
  have "segments ''/v1/policy/check'' = [[], ''v1'', ''policy'', ''check'']" by simp
  then show ?thesis
    by (simp add: dispatch_def find_route_def route_params_def route_tables body_of_def policy_check_request_def
        check_body_def field_def field_or_def optional_def del: segments.simps)
qed

text \<open>A check is answered with the decision, or refused.\<close>

lemma check_granted:
  assumes "evaluate rt (dp_opa dp) (dp_engine dp) pid input = Inr d" "\<not> has_nan (policy_reply d)"
    and "current_principal rt auth (st_db s) = Inr p" "require_scope ''policies'' ''read'' p = Inr p'"
  shows "fst (answer_call rt dp lax auth \<lparr>hc_method = ''POST'', hc_path = ''/v1/policy/check'',
       hc_body = Some (check_body pid (JDict input) rid), hc_key = k\<rparr> s) = Answer 200 (JsonBody (policy_reply d))"
proof -
  obtain s' where "policy_check rt (dp_opa dp) (dp_engine dp) pid input s = (Inr (policy_reply d), s')"
    using assms(1) by (simp add: policy_check_def policy_reply_def shown_result_def)
  then have "handle rt dp p' (PolicyCheck pid input) s = (Inr (RJson (policy_reply d)), s')"
    by (simp add: respond_st_def respond_def)
  with assms(2-4) show ?thesis by (simp add: answer_call_def check_route serve_def answer_of_def)
qed

lemma check_answered:
  assumes "evaluate rt (dp_opa dp) (dp_engine dp) pid input = Inr d" "\<not> has_nan (policy_reply d)"
  shows "fst (answer_call rt dp lax auth \<lparr>hc_method = ''POST'', hc_path = ''/v1/policy/check'',
       hc_body = Some (check_body pid (JDict input) rid), hc_key = k\<rparr> s) = Answer 200 (JsonBody (policy_reply d))
    \<or> (\<exists>code b. 400 \<le> code \<and> fst (answer_call rt dp lax auth \<lparr>hc_method = ''POST'', hc_path = ''/v1/policy/check'',
       hc_body = Some (check_body pid (JDict input) rid), hc_key = k\<rparr> s) = Answer code b)"
proof -
  have refused: "\<exists>code b. 400 \<le> code \<and> answer_of (Inl e :: response result) = Answer code b"
    if "http_status (Inl e) \<in> {401, 403}" for e
    using that by (auto simp: http_status_def answer_of_def split: exn.splits)
  show ?thesis
  proof (cases "current_principal rt auth (st_db s)")
    case (Inl e)
    with refused current_principal_Inl [OF Inl] show ?thesis
      by (simp add: answer_call_def check_route serve_def)
  next
    case (Inr p)
    show ?thesis
    proof (cases "require_scope ''policies'' ''read'' p")
      case (Inl e)
      with refused require_scope_Inl [OF Inl] Inr show ?thesis
        by (simp add: answer_call_def check_route serve_def)
    next
      case (Inr p')
      from check_granted [OF assms \<open>current_principal rt auth (st_db s) = Inr p\<close> Inr] show ?thesis by blast
    qed
  qed
qed

end
