(* ===== verification/Agent_Runs.thy ===== *)
theory Agent_Runs
  imports Deployed
begin

section \<open>Agents that come to their end\<close>

text \<open>
  When the wire answers the calls of an agent, and the checks of its policy as a collector with the deployed policies does,
  the agent's block ends without an exception. Operations are shown to return on a run that is open, and to leave it
  open; only the last step closes it.
\<close>

definition finishes :: "'a op \<Rightarrow> ('a \<Rightarrow> bool) \<Rightarrow> bool" where
  "finishes f P \<longleftrightarrow> (\<forall>c. \<not> ro_closed (fst c) \<longrightarrow> (\<exists>x c'. f c = (Inr x, c') \<and> P x \<and> \<not> ro_closed (fst c')))"

lemma finishesI:
  "(\<And>c. \<not> ro_closed (fst c) \<Longrightarrow> \<exists>x c'. f c = (Inr x, c') \<and> P x \<and> \<not> ro_closed (fst c')) \<Longrightarrow> finishes f P"
  by (simp add: finishes_def)

lemma finishesE:
  assumes "finishes f P" "\<not> ro_closed (fst c)"
  obtains x c' where "f c = (Inr x, c')" "P x" "\<not> ro_closed (fst c')"
  using assms unfolding finishes_def by blast

lemma finishes_weaken: "finishes f P \<Longrightarrow> (\<And>x. P x \<Longrightarrow> Q x) \<Longrightarrow> finishes f Q"
  unfolding finishes_def by meson

lemma finishes_then:
  assumes "finishes f P" "\<And>x. P x \<Longrightarrow> finishes (g x) Q"
  shows "finishes (and_then f g) Q"
proof (rule finishesI)
  fix c :: ctx
  assume c: "\<not> ro_closed (fst c)"
  obtain x c1 where f: "f c = (Inr x, c1)" "P x" "\<not> ro_closed (fst c1)" using finishesE [OF assms(1) c] .
  obtain y c2 where "g x c1 = (Inr y, c2)" "Q y" "\<not> ro_closed (fst c2)" using finishesE [OF assms(2) [OF f(2)] f(3)] .
  with f(1) show "\<exists>y c'. and_then f g c = (Inr y, c') \<and> Q y \<and> \<not> ro_closed (fst c')" by (simp add: and_then_def)
qed

lemma finishes_ok: "P x \<Longrightarrow> finishes (ok x) P"
  by (simp add: finishes_def ok_def)

lemma finishes_void: "finishes f P \<Longrightarrow> finishes (void f) (\<lambda>u. True)"
  unfolding void_def by (rule finishes_then, assumption) (simp add: finishes_ok)

subsection \<open>A wire that answers\<close>

definition check_call :: "agent \<Rightarrow> string \<Rightarrow> http_call" where
  "check_call ag rid = \<lparr>hc_method = ''POST'', hc_path = ''/v1/policy/check'',
     hc_body = Some (check_body (agent_policy ag) (JDict (agent_question ag)) rid), hc_key = None\<rparr>"

text \<open>The calls an agent may make: those to other paths, and the check of its own policy.\<close>

definition agent_call :: "agent \<Rightarrow> http_call \<Rightarrow> bool" where
  "agent_call ag call \<longleftrightarrow> hc_path call \<noteq> ''/v1/policy/check'' \<or> (\<exists>rid. call = check_call ag rid)"

definition answers_agent :: "world \<Rightarrow> agent \<Rightarrow> bool" where
  "answers_agent w ag \<longleftrightarrow>
     (\<forall>n call. agent_call ag call \<longrightarrow> (\<exists>d. attempt_result (wo_rt w) (wo_net w n call) = Inr (JDict d)))"

text \<open>Each check is answered as the collector does, in whatever state it is then.\<close>

definition checks_served :: "(http_call \<Rightarrow> cstate \<Rightarrow> answer \<times> cstate) \<Rightarrow> world \<Rightarrow> agent \<Rightarrow> bool" where
  "checks_served C w ag \<longleftrightarrow> (\<forall>n rid. \<exists>s. wo_net w n (check_call ag rid) = fst (C (check_call ag rid) s))"

lemma raised_by_status: "400 \<le> code \<Longrightarrow> \<exists>e. attempt_result rt (Answer code b) = Inl e"
  by (simp add: attempt_result_def raise_for_status_def Let_def)

lemma check_reply:
  assumes "checks_served (answer_call rt dp lax auth) w ag" "dp_engine dp = deployed_engine rt"
    and "attempt_result (wo_rt w) (wo_net w n (check_call ag rid)) = Inr v"
  shows "\<exists>d. v = policy_reply d \<and> de_raw d = agent_result ag \<and> \<not> has_nan (de_version d) \<and> \<not> has_nan (de_hash d)"
proof -
  obtain d where d: "evaluate rt (dp_opa dp) (dp_engine dp) (agent_policy ag) (agent_question ag) = Inr d"
    "de_raw d = agent_result ag" "\<not> has_nan (de_version d)" "\<not> has_nan (de_hash d)" "\<not> has_nan (de_policy d)"
    using deployed_decision [of rt "dp_opa dp" ag] assms(2) by auto
  have "\<not> has_nan (policy_reply d)"
    using d agent_result_laws(3) [of ag] by (simp add: policy_reply_def shown_agent_result [OF d(2)])
  note answer = check_answered [OF d(1) this, of lax auth rid None]
  obtain s where "wo_net w n (check_call ag rid) = fst (answer_call rt dp lax auth (check_call ag rid) s)"
    using assms(1) unfolding checks_served_def by blast
  with answer [of s] assms(3) have "wo_net w n (check_call ag rid) = Answer 200 (JsonBody (policy_reply d))"
    unfolding check_call_def by (metis raised_by_status sum.distinct(1))
  with assms(3) have "v = policy_reply d"
    by (simp add: attempt_result_def raise_for_status_def)
  with d show ?thesis by blast
qed

lemma deployed_says:
  assumes "checks_served (answer_call rt dp lax auth) w ag" "dp_engine dp = deployed_engine rt"
  shows "policy_says w (agent_policy ag) (JDict (agent_question ag)) (deployed_verdict ag)"
  unfolding policy_says_def
proof (intro allI impI, elim conjE)
  fix n rid reply res version h
  assume reply: "attempt_result (wo_rt w) (wo_net w n \<lparr>hc_method = ''POST'', hc_path = ''/v1/policy/check'',
      hc_body = Some (check_body (agent_policy ag) (JDict (agent_question ag)) rid), hc_key = None\<rparr>) = Inr reply"
    and res: "policy_answer reply = Inr (res, version, h)"
  obtain d where "reply = policy_reply d" "de_raw d = agent_result ag"
    using check_reply [OF assms reply [folded check_call_def]] by blast
  with res have "res = agent_result ag" by (simp add: policy_reply_answer shown_agent_result)
  with agent_result_laws(1) show "fits (deployed_verdict ag) res" by simp
qed

lemma request_done:
  assumes "0 < tc_max_retries tc"
    and "\<forall>n. \<exists>d. attempt_result (wo_rt w) (wo_net w n \<lparr>hc_method = meth, hc_path = path, hc_body = body,
      hc_key = (if str_truthy key then key else None)\<rparr>) = Inr (JDict d)"
  shows "\<exists>d st'. request w tc meth path body key True st = (Inr (JDict d), st')"
proof -
  obtain m where m: "tc_max_retries tc = Suc m" using assms(1) gr0_conv_Suc by blast
  obtain d where "attempt_result (wo_rt w) (wo_net w (length (sd_sent st)) \<lparr>hc_method = meth, hc_path = path, hc_body = body,
      hc_key = (if str_truthy key then key else None)\<rparr>) = Inr (JDict d)" using assms(2) by blast
  then show ?thesis by (simp add: request_def m send_def)
qed

subsection \<open>Emissions\<close>

text \<open>An agent's client, and the wire it has.\<close>

definition agent_ready :: "world \<Rightarrow> client \<Rightarrow> agent \<Rightarrow> bool" where
  "agent_ready w cl ag \<longleftrightarrow> 0 < tc_max_retries (cl_transport cl) \<and> cl_mode cl = ''full_payload'' \<and> answers_agent w ag"

lemma other_path_done:
  assumes "agent_ready w cl ag" "path \<noteq> ''/v1/policy/check''"
  shows "\<exists>d st'. request w (cl_transport cl) meth path body key True st = (Inr (JDict d), st')"
  by (rule request_done) (use assms in \<open>auto simp: agent_ready_def answers_agent_def agent_call_def\<close>)

lemma events_path_other: "events_path rid \<noteq> ''/v1/policy/check''"
  using events_path_last [of rid] by force

lemma flush_finishes:
  assumes "agent_ready w cl ag"
  shows "finishes (flush_run w cl) (\<lambda>u. True)"
proof (rule finishesI)
  fix c :: ctx
  assume c: "\<not> ro_closed (fst c)"
  let ?events = "ro_buffer (fst c)"
  obtain d st' where "request w (cl_transport cl) ''POST'' (events_path (ro_id (fst c)))
      (Some (events_body (map JDict ?events))) (Some (batch_key (ro_id (fst c)) ?events)) True (snd c) = (Inr (JDict d), st')"
    using other_path_done [OF assms events_path_other] by blast
  then have "post_events w (cl_transport cl) (ro_id (fst c)) (map JDict ?events) (Some (batch_key (ro_id (fst c)) ?events)) (snd c)
      = (Inr (JDict d), st')" by (simp add: post_events_def)
  with c show "\<exists>u c'. flush_run w cl c = (Inr u, c') \<and> True \<and> \<not> ro_closed (fst c')"
    by (cases c) (simp add: flush_run_def Let_def)
qed

lemma build_finishes:
  assumes "cl_mode cl = ''full_payload''" "em_mode em = None" "em_type em \<in> set SDK_EVENT_TYPES"
    and "em_payload em = JDict p" "\<not> has_nan (JDict p)"
  shows "finishes (build_envelope w cl em) (\<lambda>en. True)"
proof (rule finishesI)
  fix c :: ctx
  assume c: "\<not> ro_closed (fst c)"
  obtain h where cap: "capture (wo_rt w) cl FULL_PAYLOAD (JDict p) (em_redact em) = Inr (JDict p, Some h)"
    using assms(5) by (simp add: capture_def sdk_payload_hash_def compute_payload_hash_def hash_json_def canonical_json_def
        as_dict_def)
  have mode: "payload_mode_of (str_or (em_mode em) (cl_mode cl)) = Inr FULL_PAYLOAD"
    by (simp add: assms(1,2) payload_mode_of_def payload_modes_def)
  have "\<not> has_nan (JDict (envelope_dict cl ro (unsigned_envelope rt ro em FULL_PAYLOAD (JDict p) ph t) None))" for rt ro ph t
    using assms(5) by (simp add: envelope_dict_def unsigned_envelope_def actor_dict_def)
  then have "\<exists>h'. sdk_event_hash rt (envelope_dict cl ro (unsigned_envelope rt ro em FULL_PAYLOAD (JDict p) ph t) None) = Inr h'"
    for rt ro ph t
    by (simp add: sdk_event_hash_def compute_event_hash_def hash_json_def canonical_json_def del: has_nan.simps)
      (auto simp: envelope_dict_def unsigned_envelope_def actor_dict_def)
  then obtain h' where "sdk_event_hash (wo_rt w) (envelope_dict cl (fst c) (unsigned_envelope (wo_rt w) (fst c) em FULL_PAYLOAD
      (JDict p) (Some h) (sd_tick (snd c))) None) = Inr h'" by blast
  with cap mode c assms(3,4) show "\<exists>en c'. build_envelope w cl em c = (Inr en, c') \<and> True \<and> \<not> ro_closed (fst c')"
    by (simp add: build_envelope_def Let_def)
qed

lemma emit_finishes:
  assumes "agent_ready w cl ag" "em_mode em = None" "em_type em \<in> set SDK_EVENT_TYPES"
    and "\<exists>p. em_payload em = JDict p" "\<not> has_nan (em_payload em)"
  shows "finishes (emit_event w cl em) (\<lambda>d. True)"
  unfolding emit_event_def
proof (rule finishes_then)
  obtain p where "em_payload em = JDict p" using assms(4) by blast
  with assms show "finishes (build_envelope w cl em) (\<lambda>en. True)"
    by (intro build_finishes) (simp_all add: agent_ready_def)
  fix en
  show "finishes (\<lambda>c. let ro = fst c; d = envelope_dict cl ro en (Some (event_key ro en));
       ro1 = ro\<lparr>ro_buffer := ro_buffer ro @ [d]\<rparr>
     in if cl_batch cl \<le> length (ro_buffer ro1)
        then and_then (flush_run w cl) (\<lambda>u. ok d) (ro1, snd c) else (Inr d, (ro1, snd c))) (\<lambda>d. True)"
  proof (rule finishesI)
    fix c :: ctx
    assume c: "\<not> ro_closed (fst c)"
    let ?d = "envelope_dict cl (fst c) en (Some (event_key (fst c) en))"
    let ?c1 = "((fst c)\<lparr>ro_buffer := ro_buffer (fst c) @ [?d]\<rparr>, snd c)"
    have "finishes (and_then (flush_run w cl) (\<lambda>u. ok ?d)) (\<lambda>d. True)"
      by (rule finishes_then [OF flush_finishes [OF assms(1)]]) (simp add: finishes_ok)
    then obtain x c' where "and_then (flush_run w cl) (\<lambda>u. ok ?d) ?c1 = (Inr x, c')" "\<not> ro_closed (fst c')"
      by (rule finishesE [where c = ?c1]) (use c in simp_all)
    with c show "\<exists>x c'. (let ro = fst c; d = envelope_dict cl ro en (Some (event_key ro en));
       ro1 = ro\<lparr>ro_buffer := ro_buffer ro @ [d]\<rparr>
     in if cl_batch cl \<le> length (ro_buffer ro1)
        then and_then (flush_run w cl) (\<lambda>u. ok d) (ro1, snd c) else (Inr d, (ro1, snd c))) = (Inr x, c')
          \<and> True \<and> \<not> ro_closed (fst c')"
      by (cases c') (simp add: Let_def)
  qed
qed

subsection \<open>Steps\<close>

lemma one_finishes:
  assumes "agent_ready w cl ag" "t \<in> set SDK_EVENT_TYPES" "\<not> has_nan (JDict p)"
  shows "finishes (emit_event w cl (emission_of t (JDict p))) (\<lambda>d. True)"
  by (rule emit_finishes [OF assms(1)]) (use assms in \<open>simp_all add: emission_of_def\<close>)

lemma input_finishes:
  assumes "agent_ready w cl ag" "\<not> has_nan (JDict m)"
  shows "finishes (input_event w cl u h m) (\<lambda>u. True)"
  unfolding input_event_def
  by (rule finishes_then [OF one_finishes [OF assms(1)]])
    (use assms(2) in \<open>simp_all add: SDK_EVENT_TYPES_def finishes_ok\<close>)

lemma memory_finishes:
  assumes "agent_ready w cl ag" "\<not> has_nan v"
  shows "finishes (memory_write w cl k v st r) (\<lambda>d. True)"
  unfolding memory_write_def memory_event_def
  by (rule emit_finishes [OF assms(1)]) (use assms(2) in \<open>simp_all add: emission_of_def SDK_EVENT_TYPES_def\<close>)

lemma change_finishes:
  assumes "agent_ready w cl ag" "\<not> has_nan (JDict b)" "\<not> has_nan (JDict a)"
  shows "finishes (change w cl t i b a re applied) (\<lambda>u. True)"
  unfolding change_def state_change_def
  by (rule finishes_void, rule emit_finishes [OF assms(1)])
    (use assms(2,3) in \<open>simp_all add: emission_of_def SDK_EVENT_TYPES_def\<close>)

lemma tool_finishes:
  assumes "agent_ready w cl ag" "\<not> has_nan (JDict i)" "\<not> has_nan out"
  shows "finishes (with_tool w cl name i out) (\<lambda>u. True)"
proof -
  have call: "finishes (tool_call w name True) (\<lambda>tc. tl_input tc = JNull)"
    by (rule finishesI) (simp add: tool_call_def Let_def)
  have enter: "finishes (tool_enter w cl tc) (\<lambda>tc. True)" if "tl_input tc = JNull" for tc
    unfolding tool_enter_def
    by (rule finishes_then [OF emit_finishes [OF assms(1)]])
      (use that in \<open>simp_all add: tool_emission_def emission_of_def SDK_EVENT_TYPES_def finishes_ok\<close>)
  have leave: "finishes (tool_exit w cl (tool_output out None (tool_input (JDict i) tc)) None) (\<lambda>b. True)" for tc
    unfolding tool_exit_def option.case
    by (rule finishes_then [OF emit_finishes [OF assms(1)]])
      (use assms(2,3) in \<open>simp_all add: tool_emission_def tool_output_def tool_input_def emission_of_def SDK_EVENT_TYPES_def finishes_ok\<close>)
  show ?thesis
    unfolding with_tool_def
    by (rule finishes_then [OF call], rule finishes_then [OF enter], assumption, rule finishes_void [OF leave])
qed

lemma human_finishes:
  assumes "agent_ready w cl ag"
  shows "finishes (human_approval w cl a r ''approved'' re) (\<lambda>d. True)"
proof -
  have "human_approval w cl a r ''approved'' re = emit_event w cl (emission_of ''approval.approved'' (JDict [(''approval_id'', JStr a),
      (''reviewer_id'', JStr r), (''decision'', JStr ''approved''), (''reason'', js_str re)])\<lparr>em_actor := Some \<lparr>ac_type = ''human'', ac_id = r\<rparr>\<rparr>)"
    by (simp add: human_approval_def)
  then show ?thesis
    by (simp only:) (rule emit_finishes [OF assms], simp_all add: emission_of_def SDK_EVENT_TYPES_def)
qed

lemma commit_finishes:
  assumes "agent_ready w cl ag" "\<not> ro_closed (fst c)"
  shows "\<exists>u c'. void (commit w cl) c = (Inr u, c')"
proof -
  have "finishes (and_then (emit_event w cl (emission_of ''agent_run.committed'' (JDict []))) (\<lambda>d. flush_run w cl)) (\<lambda>u. True)"
    by (rule finishes_then [OF one_finishes [OF assms(1)] flush_finishes [OF assms(1)]])
      (simp_all add: SDK_EVENT_TYPES_def)
  then obtain u c1 where "and_then (emit_event w cl (emission_of ''agent_run.committed'' (JDict []))) (\<lambda>d. flush_run w cl) c = (Inr u, c1)"
    using finishesE assms(2) by blast
  moreover have "commit_path (ro_id (fst c)) \<noteq> ''/v1/policy/check''"
  proof
    assume "commit_path (ro_id (fst c)) = ''/v1/policy/check''"
    then have "last (commit_path (ro_id (fst c))) = CHR ''k''" by simp
    then show False by (simp add: commit_path_def)
  qed
  then have "\<exists>d st'. commit_run_call w (cl_transport cl) (ro_id (fst c)) st = (Inr (JDict d), st')" for st
    using other_path_done [OF assms(1)] by (simp add: commit_run_call_def commit_path_def)
  then obtain d st' where "commit_run_call w (cl_transport cl) (ro_id (fst c)) (snd c1) = (Inr (JDict d), st')" by blast
  ultimately show ?thesis
    using assms(2) by (auto simp: void_def commit_def and_then_def close_run_def on_wire_def ok_def split: prod.splits sum.splits)
qed

subsection \<open>The gate\<close>

lemma check_finishes:
  assumes "agent_ready w cl ag" "checks_served (answer_call rt dp lax auth) w ag" "dp_engine dp = deployed_engine rt"
  shows "finishes (sdk_policy_check w cl (agent_policy ag) (JDict (agent_question ag)) None None None) (\<lambda>res. res = agent_result ag)"
proof (rule finishesI)
  fix c :: ctx
  assume c: "\<not> ro_closed (fst c)"
  let ?body = "check_body (agent_policy ag) (JDict (agent_question ag)) (ro_id (fst c))"
  have "\<forall>n. \<exists>d. attempt_result (wo_rt w) (wo_net w n (check_call ag (ro_id (fst c)))) = Inr (JDict d)"
    using assms(1) by (auto simp: agent_ready_def answers_agent_def agent_call_def)
  then obtain v st where call: "policy_check_call w (cl_transport cl) ?body (snd c) = (Inr v, st)"
    using request_done [of "cl_transport cl" w "''POST''" "''/v1/policy/check''" "Some ?body" None "snd c"] assms(1)
    by (auto simp: policy_check_call_def check_call_def agent_ready_def)
  from request_answered [OF this [unfolded policy_check_call_def]] obtain n
    where "attempt_result (wo_rt w) (wo_net w n (check_call ag (ro_id (fst c)))) = Inr v" by (auto simp: check_call_def)
  from check_reply [OF assms(2,3) this] obtain d where
    d: "v = policy_reply d" "de_raw d = agent_result ag" "\<not> has_nan (de_version d)" "\<not> has_nan (de_hash d)" by blast
  have "\<not> has_nan (JDict (agent_question ag))"
    by (cases ag) (simp_all add: risk_after_def fetch_claim_def get_repair_estimate_def run_fraud_score_def)
  then have "finishes (record_check w cl (agent_policy ag) (JDict (agent_question ag)) (agent_result ag) (de_version d) (de_hash d))
      (\<lambda>res. res = agent_result ag)"
    unfolding record_check_def using d(3,4) agent_result_laws(3) [of ag]
    by (intro finishes_then [OF one_finishes [OF assms(1)]])
      (simp_all add: SDK_EVENT_TYPES_def finishes_ok del: agent_result.simps agent_question.simps)
  then obtain x c' where "record_check w cl (agent_policy ag) (JDict (agent_question ag)) (agent_result ag) (de_version d)
      (de_hash d) (fst c, st) = (Inr x, c')" "x = agent_result ag" "\<not> ro_closed (fst c')"
    by (rule finishesE [where c = "(fst c, st)"]) (use c in simp_all)
  moreover have "policy_answer v = Inr (agent_result ag, de_version d, de_hash d)"
    using d(2) by (simp add: d(1) policy_reply_answer shown_agent_result)
  ultimately show "\<exists>x c'. sdk_policy_check w cl (agent_policy ag) (JDict (agent_question ag)) None None None c = (Inr x, c')
      \<and> x = agent_result ag \<and> \<not> ro_closed (fst c')"
    using call by (cases c') (simp add: sdk_policy_check_def and_then_def on_wire_def check_body_def)
qed

lemma approval_finishes:
  assumes "agent_ready w cl ag" "\<not> has_nan input" "\<not> has_nan reason"
  shows "finishes (sdk_request_approval w cl (Some pid) input reason None) (\<lambda>v. \<exists>d. v = JDict d)"
proof (rule finishesI)
  fix c :: ctx
  assume c: "\<not> ro_closed (fst c)"
  have wire: "finishes (on_wire (request_approval_call w (cl_transport cl) b)) (\<lambda>v. \<exists>d. v = JDict d)" for b
  proof (rule finishesI)
    fix c :: ctx
    assume "\<not> ro_closed (fst c)"
    moreover obtain d st where "request_approval_call w (cl_transport cl) b (snd c) = (Inr (JDict d), st)"
      using other_path_done [OF assms(1)] by (fastforce simp: request_approval_call_def)
    ultimately show "\<exists>x c'. on_wire (request_approval_call w (cl_transport cl) b) c = (Inr x, c')
        \<and> (\<exists>d. x = JDict d) \<and> \<not> ro_closed (fst c')"
      by (simp add: on_wire_def)
  qed
  let ?body = "\<lambda>aid. approval_body aid (ro_id (fst c)) (Some pid) input reason"
  have "\<not> has_nan (?body aid)" for aid using assms(2,3) by (simp add: approval_body_def)
  then have "finishes (and_then (emit_event w cl (emission_of ''approval.requested'' (?body aid))) (\<lambda>d.
      and_then (flush_run w cl) (\<lambda>u. on_wire (request_approval_call w (cl_transport cl) (?body aid))))) (\<lambda>v. \<exists>d. v = JDict d)" for aid
    by (intro finishes_then [OF emit_finishes [OF assms(1)]] finishes_then [OF flush_finishes [OF assms(1)]] wire)
      (simp_all add: emission_of_def SDK_EVENT_TYPES_def approval_body_def)
  then show "\<exists>x c'. sdk_request_approval w cl (Some pid) input reason None c = (Inr x, c')
      \<and> (\<exists>d. x = JDict d) \<and> \<not> ro_closed (fst c')"
    unfolding finishes_def using c
    by (auto simp: sdk_request_approval_def Let_def)
qed

lemma question_json: "\<not> has_nan (JDict (agent_question ag))"
  by (cases ag) (simp_all add: risk_after_def fetch_claim_def get_repair_estimate_def run_fraud_score_def)

lemma agent_result_requires:
  "truthy (dict_get (agent_result ag) ''requires_approval'') \<longleftrightarrow> deployed_verdict ag = AsksApproval"
  by (cases ag) (simp_all add: deployed_verdict_def big_refund_def risky_transfer_def no_policy_def)

text \<open>An enforcement returns, or asks for the approval that the program then gives.\<close>

lemma enforce_ends:
  assumes "agent_ready w cl ag" "checks_served (answer_call rt dp lax auth) w ag" "dp_engine dp = deployed_engine rt"
    and "\<not> ro_closed (fst c)"
  shows "\<exists>r c'. enforce_policy w cl (agent_policy ag) (JDict (agent_question ag)) c = (r, c') \<and> \<not> ro_closed (fst c')
    \<and> ((\<exists>res. r = Inr res) \<or> (\<exists>m a p. r = Inl (ApprovalRequiredError m a p)))"
proof -
  let ?input = "JDict (agent_question ag)" and ?res = "agent_result ag"
  obtain c1 where check: "sdk_policy_check w cl (agent_policy ag) ?input None None None c = (Inr ?res, c1)" "\<not> ro_closed (fst c1)"
    using finishesE [OF check_finishes [OF assms(1-3)] assms(4)] by metis
  show ?thesis
  proof (cases "deployed_verdict ag = AsksApproval")
    case True
    let ?reason = "dict_get_or ?res ''reason'' (JStr ''approval required'')"
    have "\<not> has_nan ?reason" using agent_result_laws(3) [of ag]
      by (cases ag) (simp_all add: big_refund_def risky_transfer_def no_policy_def)
    from finishesE [OF approval_finishes [OF assms(1) question_json this] check(2)] obtain d c2
      where "sdk_request_approval w cl (Some (agent_policy ag)) ?input ?reason None c1 = (Inr (JDict d), c2)" "\<not> ro_closed (fst c2)"
      by metis
    with check(1) True agent_result_requires [of ag] agent_result_laws(2) [of ag] show ?thesis
      by (cases c2) (simp add: enforce_policy_def and_then_def throw_def Let_def del: agent_result.simps)
  next
    case False
    have "finishes (emit_event w cl (emission_of ''policy.enforcement.allowed'' (enforcement (agent_policy ag) ?input ?res))) (\<lambda>d. True)"
      using question_json [of ag] agent_result_laws(3) [of ag]
      by (intro emit_finishes [OF assms(1)])
        (simp_all add: enforcement_def emission_of_def SDK_EVENT_TYPES_def del: agent_result.simps agent_question.simps)
    from finishesE [OF this check(2)] obtain d c2 where
      "emit_event w cl (emission_of ''policy.enforcement.allowed'' (enforcement (agent_policy ag) ?input ?res)) c1 = (Inr d, c2)"
      "\<not> ro_closed (fst c2)" by metis
    with check(1) False agent_result_requires [of ag] agent_result_laws(2) [of ag] show ?thesis
      by (cases c2) (simp add: enforce_policy_def and_then_def ok_def Let_def del: agent_result.simps)
  qed
qed

lemma gate_finishes:
  assumes "agent_ready w cl ag" "checks_served (answer_call rt dp lax auth) w ag" "dp_engine dp = deployed_engine rt"
  shows "finishes (gate w cl (agent_policy ag) (agent_question ag) by reason) (\<lambda>u. True)"
proof (rule finishesI)
  fix c :: ctx
  assume c: "\<not> ro_closed (fst c)"
  obtain r c1 where run: "enforce_policy w cl (agent_policy ag) (JDict (agent_question ag)) c = (r, c1)" "\<not> ro_closed (fst c1)"
    and r: "(\<exists>res. r = Inr res) \<or> (\<exists>m a p. r = Inl (ApprovalRequiredError m a p))"
    using enforce_ends [OF assms c] by blast
  from r show "\<exists>u c'. gate w cl (agent_policy ag) (agent_question ag) by reason c = (Inr u, c') \<and> True \<and> \<not> ro_closed (fst c')"
  proof
    assume "\<exists>res. r = Inr res"
    with run show ?thesis by (cases c1) (auto simp: gate_def on_approval_def)
  next
    assume "\<exists>m a p. r = Inl (ApprovalRequiredError m a p)"
    then obtain m a p where r: "r = Inl (ApprovalRequiredError m a p)" by blast
    obtain u c2 where "grant_approval w cl by reason a c1 = (Inr u, c2)" "\<not> ro_closed (fst c2)"
      using finishesE [OF finishes_void [OF human_finishes [OF assms(1)]] run(2)] unfolding grant_approval_def by metis
    with run r show ?thesis by (cases c2) (simp add: gate_def on_approval_def)
  qed
qed

subsection \<open>Whole agents\<close>

lemma in_order_ends:
  assumes "\<forall>g \<in> set fs. finishes g (\<lambda>u. True)" "\<not> ro_closed (fst c)"
    and "\<And>c. \<not> ro_closed (fst c) \<Longrightarrow> \<exists>u c'. f c = (Inr u, c')"
  shows "\<exists>c'. in_order (fs @ [f]) c = (Inr (), c')"
  using assms(1,2)
proof (induction fs arbitrary: c)
  case Nil
  obtain u c' where "f c = (Inr u, c')" using assms(3) Nil.prems(2) by blast
  then show ?case by (cases c') (simp add: and_then_def ok_def)
next
  case (Cons g gs)
  obtain u c1 where g: "g c = (Inr u, c1)" "\<not> ro_closed (fst c1)"
    by (rule finishesE [of g "\<lambda>u. True" c]) (use Cons.prems in simp_all)
  from Cons.IH [OF _ g(2)] Cons.prems(1) obtain c' where "in_order (gs @ [f]) c1 = (Inr (), c')" by auto
  with g(1) show ?case by (cases c') (simp add: and_then_def)
qed

definition agent_work :: "world \<Rightarrow> client \<Rightarrow> agent \<Rightarrow> unit op list" where
  "agent_work w cl ag = butlast (agent_steps w cl ag)"

lemma agent_work_last: "agent_steps w cl ag = agent_work w cl ag @ [void (commit w cl)]"
  using agent_commits_last [of w cl ag] by (auto simp: agent_work_def)

lemma agent_work_finishes:
  assumes "agent_ready w cl ag" "checks_served (answer_call rt dp lax auth) w ag" "dp_engine dp = deployed_engine rt"
  shows "\<forall>g \<in> set (agent_work w cl ag). finishes g (\<lambda>u. True)"
proof -
  note gate_ends = gate_finishes [OF assms]
  note steps = input_finishes [OF assms(1)] tool_finishes [OF assms(1)] change_finishes [OF assms(1)]
    finishes_void [OF memory_finishes [OF assms(1)]]
  show ?thesis
  proof (cases ag)
    case RefundAgent
    with gate_ends show ?thesis by (simp add: agent_work_def refund_steps_def steps)
  next
    case AmlAgent
    with gate_ends show ?thesis
      by (simp add: agent_work_def aml_steps_def steps query_customer_profile_def query_transactions_def check_pep_list_def
          risk_before_def risk_after_def)
  next
    case (ClaimsAgent claim_id)
    with gate_ends show ?thesis
      by (simp add: agent_work_def claims_steps_paid claim_paid_def Let_def steps fetch_claim_def claims_coverage_def
          verify_policy_coverage_def run_fraud_score_def get_repair_estimate_def approve_payment_def)
  qed
qed

lemma agent_ends:
  assumes "agent_ready w cl ag" "checks_served (answer_call rt dp lax auth) w ag" "dp_engine dp = deployed_engine rt"
    and "\<not> ro_closed (fst c)"
  shows "\<exists>c'. agent_block w cl describe ag c = (Inr (), c')"
proof -
  obtain c' where run: "in_order (agent_steps w cl ag) c = (Inr (), c')"
    using in_order_ends [OF agent_work_finishes [OF assms(1-3)] assms(4), of "void (commit w cl)"] commit_finishes [OF assms(1)]
    unfolding agent_work_last by blast
  then obtain c0 where "void (commit w cl) c0 = (Inr (), c')"
    using in_order_last unfolding agent_work_last by metis
  then have "ro_committed (fst c')" using commit_leaves by blast
  with run show ?thesis
    by (simp add: agent_block_def with_run_def void_def run_exit_def and_then_def ok_def)
qed

end
