(* ===== verification/Agent_Clock.thy ===== *)
theory Agent_Clock
  imports Agent_Trails
begin

section \<open>How often an agent reads the clock\<close>

text \<open>
  A bound on the readings of clock and random source that an example agent takes with a client that tries each request once: the
  identifiers of a run stay distinct as long as the readings it takes give different ones.
\<close>

definition reads_clock :: "'a op \<Rightarrow> nat \<Rightarrow> bool" where
  "reads_clock f k \<longleftrightarrow> (\<forall>c. sd_tick (snd (snd (f c))) \<le> sd_tick (snd c) + k)"

lemma reads_clockD: "reads_clock f k \<Longrightarrow> f c = (r, c') \<Longrightarrow> sd_tick (snd c') \<le> sd_tick (snd c) + k"
  unfolding reads_clock_def by (metis snd_conv)

lemma reads_clockI: "(\<And>c r c'. f c = (r, c') \<Longrightarrow> sd_tick (snd c') \<le> sd_tick (snd c) + k) \<Longrightarrow> reads_clock f k"
  unfolding reads_clock_def by (metis prod.collapse)

lemma clock_then:
  assumes "reads_clock f k" "\<And>x. reads_clock (g x) l"
  shows "reads_clock (and_then f g) (k + l)"
proof (rule reads_clockI)
  fix c r c'
  assume eq: "and_then f g c = (r, c')"
  obtain y c1 where f: "f c = (y, c1)" by (cases "f c")
  note first = reads_clockD [OF assms(1) f]
  show "sd_tick (snd c') \<le> sd_tick (snd c) + (k + l)"
  proof (cases y)
    case (Inl e)
    with eq f first show ?thesis by (simp add: and_then_def)
  next
    case (Inr x)
    with eq f have "g x c1 = (r, c')" by (simp add: and_then_def)
    with first reads_clockD [OF assms(2) this] show ?thesis by simp
  qed
qed

lemma clock_simple: "reads_clock (ok x) 0" "reads_clock (throw e) 0" "reads_clock (close_run st b) 0"
  by (simp_all add: reads_clock_def ok_def throw_def close_run_def)

lemma clock_then_ok: "reads_clock f k \<Longrightarrow> reads_clock (and_then f (\<lambda>x. ok (h x))) k"
  using clock_then [OF _ clock_simple(1), of f k h] by simp

lemma clock_void: "reads_clock f k \<Longrightarrow> reads_clock (void f) k"
  using clock_then [OF _ clock_simple(1), of f k "\<lambda>x. ()"] by (simp add: void_def)

text \<open>A client that tries once never waits.\<close>

lemma once_request:
  assumes "tc_max_retries tc = 1"
  shows "sd_tick (snd (request w tc meth path body key True st)) = sd_tick st"
  using assms by (simp add: request_def send_def split: sum.split)

lemma clock_wire:
  assumes "tc_max_retries tc = 1"
  shows "reads_clock (on_wire (policy_check_call w tc b)) 0" "reads_clock (on_wire (request_approval_call w tc b)) 0"
    "reads_clock (on_wire (commit_run_call w tc rid)) 0"
  using once_request [OF assms]
  by (auto simp: reads_clock_def on_wire_def policy_check_call_def request_approval_call_def commit_run_call_def split: prod.split)
    (metis eq_imp_le snd_conv)+

lemma clock_flush:
  assumes "tc_max_retries (cl_transport cl) = 1"
  shows "reads_clock (flush_run w cl) 0"
proof -
  have "sd_tick (snd (post_events w (cl_transport cl) rid events key st)) = sd_tick st" for rid events key st
    using once_request [OF assms, of w "''POST''" "events_path rid" "Some (events_body events)" key st]
    by (auto simp: post_events_def spool_write_def split: prod.split sum.split)
  then show ?thesis
    by (auto simp: reads_clock_def flush_run_def Let_def split: prod.split sum.split) (metis eq_imp_le snd_conv)+
qed

lemma clock_emit:
  assumes "tc_max_retries (cl_transport cl) = 1"
  shows "reads_clock (emit_event w cl em) 3"
proof -
  have build: "reads_clock (build_envelope w cl em) 3"
    by (auto simp: reads_clock_def build_envelope_def Let_def split: sum.split prod.split)
  have "reads_clock (\<lambda>c. let ro = fst c; d = envelope_dict cl ro en (Some (event_key ro en));
         ro1 = ro\<lparr>ro_buffer := ro_buffer ro @ [d]\<rparr>
     in if cl_batch cl \<le> length (ro_buffer ro1)
        then and_then (flush_run w cl) (\<lambda>u. ok d) (ro1, snd c)
        else (Inr d, (ro1, snd c))) 0" for en
  proof -
    have "reads_clock (and_then (flush_run w cl) (\<lambda>u. ok d)) 0" for d :: pydict
      using clock_then [OF clock_flush [OF assms] clock_simple(1)] by simp
    then show ?thesis by (auto simp: reads_clock_def Let_def)
  qed
  from clock_then [OF build this] show ?thesis by (simp add: emit_event_def)
qed

lemma clock_more: "reads_clock f k \<Longrightarrow> k \<le> l \<Longrightarrow> reads_clock f l"
  unfolding reads_clock_def by (meson add_left_mono order_trans)

lemma clock_named:
  assumes once: "tc_max_retries (cl_transport cl) = 1"
  shows "reads_clock (input_event w cl u h m) 10" "reads_clock (memory_write w cl k v st b) 10"
  "reads_clock (change w cl t i bef aft re applied) 10" "reads_clock (human_approval w cl a who d why) 3"
proof -
  show "reads_clock (input_event w cl u h m) 10"
    using clock_more [OF clock_then [OF clock_emit [OF once] clock_simple(1)], of 10] by (simp add: input_event_def)
  show "reads_clock (memory_write w cl k v st b) 10"
    using clock_more [OF clock_emit [OF once], of 10] by (simp add: memory_write_def memory_event_def)
  show "reads_clock (change w cl t i bef aft re applied) 10"
    using clock_more [OF clock_void [OF clock_emit [OF once]], of 10] by (simp add: change_def state_change_def)
  show "reads_clock (human_approval w cl a who d why) 3"
    by (simp add: human_approval_def clock_emit [OF once] clock_more [OF clock_simple(2), of 3])
qed

lemma clock_tool:
  assumes once: "tc_max_retries (cl_transport cl) = 1"
  shows "reads_clock (with_tool w cl name i out) 10"
proof -
  have "reads_clock (tool_call w name True) 1" by (simp add: reads_clock_def tool_call_def Let_def sdk_tick_def)
  moreover have "reads_clock (tool_enter w cl tc) 3" for tc
    using clock_then [OF clock_emit [OF once] clock_simple(1)] by (simp add: tool_enter_def)
  moreover have "reads_clock (tool_exit w cl tc ex) 3" for tc ex
    using clock_then [OF clock_emit [OF once] clock_simple(1)] by (simp add: tool_exit_def)
  ultimately have "reads_clock (with_tool w cl name i out) (1 + (3 + 3))"
    unfolding with_tool_def by (intro clock_then clock_void)
  then show ?thesis by (rule clock_more) simp
qed

lemma clock_end:
  assumes once: "tc_max_retries (cl_transport cl) = 1"
  shows "reads_clock (commit w cl) 3" "reads_clock (fail w cl er) 3"
proof -
  have "reads_clock (and_then (emit_event w cl em) (\<lambda>d. and_then (flush_run w cl) (\<lambda>u. and_then (close_run st b)
      (\<lambda>u. on_wire (commit_run_call w (cl_transport cl) rid))))) (3 + (0 + (0 + 0)))" for em st b rid
    by (intro clock_then clock_emit [OF once] clock_flush [OF once] clock_simple clock_wire [OF once])
  then show "reads_clock (commit w cl) 3" by (auto simp: reads_clock_def commit_def)
  have "reads_clock (and_then (emit_event w cl em) (\<lambda>d. and_then (flush_run w cl) (\<lambda>u. close_run st b))) (3 + (0 + 0))" for em st b
    by (intro clock_then clock_emit [OF once] clock_flush [OF once] clock_simple)
  then show "reads_clock (fail w cl er) 3" by (auto simp: reads_clock_def fail_def)
qed

lemma clock_check:
  assumes once: "tc_max_retries (cl_transport cl) = 1"
  shows "reads_clock (sdk_policy_check w cl pid input None None None) 3"
proof -
  have noted: "reads_clock (record_check w cl pid input res version h) 3" for res version h
    unfolding record_check_def by (rule clock_then_ok [OF clock_emit [OF once]])
  have "reads_clock (case policy_answer response of Inl e \<Rightarrow> throw e
      | Inr (res, v, h') \<Rightarrow> record_check w cl pid input res (f v) (f h')) 3" for response f
    using noted by (simp add: clock_more [OF clock_simple(2), of 3] split: sum.split prod.split)
  from clock_then [OF clock_wire(1) [OF once] this] show ?thesis
    unfolding sdk_policy_check_def option.case by (simp add: reads_clock_def)
qed

lemma clock_approval:
  assumes once: "tc_max_retries (cl_transport cl) = 1"
  shows "reads_clock (sdk_request_approval w cl pid input reason None) 4"
proof -
  have "reads_clock (and_then (emit_event w cl em) (\<lambda>d. and_then (flush_run w cl)
      (\<lambda>u. on_wire (request_approval_call w (cl_transport cl) b)))) (3 + (0 + 0))" for em b
    by (intro clock_then clock_emit [OF once] clock_flush [OF once] clock_wire [OF once])
  then have bound: "sd_tick (snd (snd (and_then (emit_event w cl em) (\<lambda>d. and_then (flush_run w cl)
      (\<lambda>u. on_wire (request_approval_call w (cl_transport cl) b))) c))) \<le> sd_tick (snd c) + 3" for em b c
    by (simp add: reads_clock_def del: split_paired_All)
  show ?thesis
  proof (rule reads_clockI)
    fix c r c'
    assume "sdk_request_approval w cl pid input reason None c = (r, c')"
    then obtain em b where "and_then (emit_event w cl em) (\<lambda>d. and_then (flush_run w cl)
        (\<lambda>u. on_wire (request_approval_call w (cl_transport cl) b))) (fst c, sdk_tick (snd c)) = (r, c')"
      by (auto simp: sdk_request_approval_def Let_def)
    with bound [of em b "(fst c, sdk_tick (snd c))"] show "sd_tick (snd c') \<le> sd_tick (snd c) + 4"
      by (simp add: sdk_tick_def)
  qed
qed

lemma clock_enforce:
  assumes once: "tc_max_retries (cl_transport cl) = 1"
  shows "reads_clock (enforce_policy w cl pid input) 7"
proof -
  have branch: "reads_clock ((case v of JDict d \<Rightarrow> throw (ex d) | _ \<Rightarrow> throw (AttributeError ''get'')) :: pydict op) 0" for v ex
    by (cases v) (simp_all add: clock_simple)
  have "reads_clock (and_then (emit_event w cl em) (\<lambda>d. throw ex :: pydict op)) (3 + 0)"
    "reads_clock (and_then (emit_event w cl em) (\<lambda>d. ok res)) (3 + 0)"
    for em ex and res :: pydict
    by (intro clock_then clock_emit [OF once] clock_simple)+
  note ends = this [THEN clock_more [where l = 4], simplified]
  have "reads_clock (and_then (sdk_request_approval w cl (Some pid) input reason None)
      (\<lambda>v. (case v of JDict d \<Rightarrow> throw (ex d) | _ \<Rightarrow> throw (AttributeError ''get'')) :: pydict op)) (4 + 0)" for reason ex
    by (intro clock_then clock_approval [OF once] branch)
  with ends have "reads_clock (enforce_policy w cl pid input) (3 + 4)"
    unfolding enforce_policy_def Let_def by (intro clock_then clock_check [OF once]) simp
  then show ?thesis by simp
qed

lemma clock_gate:
  assumes once: "tc_max_retries (cl_transport cl) = 1"
  shows "reads_clock (gate w cl pid input who reason) 10"
proof (rule reads_clockI)
  fix c r c'
  assume eq: "gate w cl pid input who reason c = (r, c')"
  obtain y c1 where f: "enforce_policy w cl pid (JDict input) c = (y, c1)" by (cases "enforce_policy w cl pid (JDict input) c")
  note first = reads_clockD [OF clock_enforce [OF once] f]
  have grant: "reads_clock (grant_approval w cl who reason a) 3" for a
    unfolding grant_approval_def by (rule clock_void [OF clock_named(4) [OF once]])
  from eq f have "c' = c1 \<or> (\<exists>a r'. grant_approval w cl who reason a c1 = (r', c'))"
    by (auto simp: gate_def on_approval_def split: sum.splits exn.splits)
  then show "sd_tick (snd c') \<le> sd_tick (snd c) + 10"
    using first reads_clockD [OF grant] by fastforce
qed

lemma clock_block:
  assumes once: "tc_max_retries (cl_transport cl) = 1" and few: "length (agent_steps w cl ag) \<le> 16"
  shows "reads_clock (agent_block w cl describe ag) 200"
proof (rule reads_clockI)
  fix c r c'
  assume eq: "agent_block w cl describe ag c = (r, c')"
  have steps: "\<forall>g \<in> set (agent_steps w cl ag). reads_clock g 10"
    using clock_more [OF clock_void [OF clock_end(1) [OF once]], of 10]
    by (cases ag) (simp_all add: refund_steps_def aml_steps_def claims_steps_paid claim_paid_def Let_def clock_named [OF once] clock_void
        clock_tool [OF once] clock_gate [OF once])
  have "reads_clock (in_order fs) (10 * length fs)" if "\<forall>g \<in> set fs. reads_clock g 10" for fs
    using that
  proof (induction fs)
    case Nil
    then show ?case by (simp add: clock_simple)
  next
    case (Cons g fs)
    then have "reads_clock (and_then g (\<lambda>u. in_order fs)) (10 + 10 * length fs)" by (intro clock_then) simp_all
    then show ?case by simp
  qed
  from this [OF steps] have body: "reads_clock (in_order (agent_steps w cl ag)) 160"
    by (rule clock_more) (use few in simp)
  obtain y c1 where f: "in_order (agent_steps w cl ag) c = (y, c1)" by (cases "in_order (agent_steps w cl ag) c")
  have closing: "reads_clock (run_exit w cl exc) 3" for exc
  proof -
    have "reads_clock (and_then (commit w cl) (\<lambda>v. ok False)) (3 + 0)" by (intro clock_then clock_end [OF once] clock_simple)
    then show ?thesis using clock_end(2) [OF once]
      by (auto simp: reads_clock_def run_exit_def split: option.split)
  qed
  from eq f have "\<exists>exc. snd (run_exit w cl exc c1) = c'"
    by (cases y) (auto simp: agent_block_def with_run_def void_def and_then_def ok_def split: prod.splits sum.splits
        intro: exI [of _ None])
  then obtain exc r' where "run_exit w cl exc c1 = (r', c')" by (metis prod.collapse)
  with reads_clockD [OF closing this] reads_clockD [OF body f] show "sd_tick (snd c') \<le> sd_tick (snd c) + 200" by simp
qed

end
