(* ===== verification/Agent_Properties.thy ===== *)
theory Agent_Properties
  imports Agent_Runs Agent_Clock Delivery_Properties
begin

section \<open>Properties of the example agents\<close>

text \<open>
  The agents against any wire, against one that decides by the deployed policies, and against the whole collector: which
  events they leave, that they come to their end, and what is then in the table of events.
\<close>

subsection \<open>Trails\<close>

definition agent_client :: client where
  "agent_client = demo_client\<lparr>cl_mode := ''full_payload''\<rparr>"

definition deployed_dp :: deployment where
  "deployed_dp = demo_dp\<lparr>dp_engine := deployed_engine demo_rt\<rparr>"

definition deployed_call :: "http_call \<Rightarrow> cstate \<Rightarrow> answer \<times> cstate" where
  "deployed_call = answer_call demo_rt deployed_dp int_of_json (Some ''Bearer secret'')"

text \<open>A wire that leads checks of policies to the collector and accepts everything else.\<close>

definition deployed_world :: world where
  "deployed_world = \<lparr>wo_rt = demo_rt, wo_net = (\<lambda>n call. if hc_path call = ''/v1/policy/check''
     then fst (deployed_call call open_state) else Answer 200 (JsonBody (JDict []))), wo_jitter = (\<lambda>n. 0)\<rparr>"

lemma open_principal: "\<exists>p. current_principal demo_rt (Some ''Bearer secret'') (st_db open_state) = Inr p
    \<and> require_scope ''policies'' ''read'' p = Inr p"
proof -
  let ?row = "bootstrap_key demo_rt demo_cfg demo_now ''secret''"
  have "current_principal demo_rt (Some (''Bearer '' @ ''secret'')) open_db
      = Inr \<lparr>pr_key = ak_id ?row, pr_org = ak_org ?row, pr_project = ak_project ?row, pr_scopes = ak_scopes ?row\<rparr>"
    by (subst current_principal_bearer) (simp_all add: open_db_def key_by_hash_def bootstrap_key_def)
  then show ?thesis
    by (simp add: open_state_def require_scope_def bootstrap_key_def bootstrap_scopes_def scope_ok_def Let_def)
qed

lemma deployed_checks: "checks_served deployed_call deployed_world ag"
  by (auto simp: checks_served_def deployed_world_def check_call_def)

lemma deployed_ready: "agent_ready deployed_world agent_client ag"
proof -
  have other: "hc_path call \<noteq> ''/v1/policy/check''
      \<Longrightarrow> attempt_result (wo_rt deployed_world) (wo_net deployed_world n call) = Inr (JDict [])" for n call
    by (simp add: deployed_world_def attempt_result_def raise_for_status_def)
  obtain d where d: "evaluate demo_rt (dp_opa deployed_dp) (dp_engine deployed_dp) (agent_policy ag) (agent_question ag) = Inr d"
    "de_raw d = agent_result ag" "\<not> has_nan (de_version d)" "\<not> has_nan (de_hash d)" "\<not> has_nan (de_policy d)"
    using deployed_decision [of demo_rt "dp_opa deployed_dp" ag] by (auto simp: deployed_dp_def)
  have nan: "\<not> has_nan (policy_reply d)"
    using d agent_result_laws(3) [of ag] by (simp add: policy_reply_def shown_agent_result [OF d(2)])
  have "fst (deployed_call (check_call ag rid) open_state) = Answer 200 (JsonBody (policy_reply d))" for rid
    using check_granted [OF d(1) nan] open_principal by (auto simp: deployed_call_def check_call_def)
  then have "attempt_result (wo_rt deployed_world) (wo_net deployed_world n (check_call ag rid)) = Inr (policy_reply d)" for n rid
    by (simp add: deployed_world_def check_call_def attempt_result_def raise_for_status_def)
  then have "\<exists>d. attempt_result (wo_rt deployed_world) (wo_net deployed_world n call) = Inr (JDict d)"
    if "agent_call ag call" for n call
    using that other unfolding agent_call_def policy_reply_def by blast
  then show ?thesis
    by (simp add: agent_ready_def answers_agent_def agent_client_def demo_client_def demo_transport_def)
qed

text \<open>What a run's events are: one chain from the start, of which those that left the buffer were sent.\<close>

lemma makes_chain:
  assumes "run_makes w (new_run cl rid agent version env meta trace, st) (ro', st') new"
  shows "sdk_linked (wo_rt w) None new \<and> (\<exists>out. new = out @ ro_buffer ro' \<and> (\<forall>d \<in> set out. sent_since st st' d))"
  using assms by (auto simp: run_makes_if_def new_events_def new_run_def)

subsection \<open>The programs\<close>

text \<open>A run of the client is a new one, whatever the answer to its start.\<close>

lemma client_run_new:
  assumes "client_run w cl agent version env meta trace run_id st = (Inr ro, st')"
  shows "(\<exists>rid. ro = new_run cl rid agent version env meta trace) \<and> grows st st'"
proof -
  obtain x st1 where start: "start_run_call w (cl_transport cl) (JDict [(''agent_id'', JStr agent), (''agent_version'', js_str version),
         (''environment'', JStr (str_or env (cl_env cl))), (''org_id'', JStr (cl_org cl)),
         (''project_id'', JStr (cl_project cl)), (''metadata'', JDict meta), (''run_id'', js_str run_id)]) st = (x, st1)"
    (is "?start = _") by (cases ?start)
  then have "grows st st1" by (auto simp: start_run_call_def dest: request_grows)
  moreover have "grows st (sdk_tick st1)" if "grows st st1" using that by (simp add: grows_def sdk_tick_def)
  ultimately show ?thesis
    using assms start by (auto simp: client_run_def Let_def split: sum.splits json.splits if_splits)
qed

lemma script_block:
  assumes "script re_compile env net describe args agent_id version ag st = (r, Some ro', st')"
  shows "\<exists>co cl rid st1. grows st st1
    \<and> agent_block (net co) cl describe ag (new_run cl rid agent_id (Some version) None [] None, st1) = (r, (ro', st'))"
  using assms by (auto simp: script_def dest!: client_run_new split: sum.splits prod.splits)

lemma agent_main_block:
  assumes "agent_main re_compile env net describe ag st = (r, Some ro', st')"
  shows "\<exists>co cl rid agent version st1. grows st st1
    \<and> agent_block (net co) cl describe ag (new_run cl rid agent (Some version) None [] None, st1) = (r, (ro', st'))"
proof -
  have "\<exists>args agent version. agent_main re_compile env net describe ag st = script re_compile env net describe args agent version ag st"
    by (cases ag) (simp_all, blast+)
  then obtain args agent version where "script re_compile env net describe args agent version ag st = (r, Some ro', st')"
    using assms by auto
  from script_block [OF this] show ?thesis by blast
qed

text \<open>The agents' clients: full payloads, four attempts.\<close>

definition agent_key :: "environ \<Rightarrow> string" where
  "agent_key env = getenv env ''CONTROLDB_API_KEY'' ''test-key''"

lemma agent_client_made:
  assumes "agent_key env \<noteq> []" "project \<noteq> []" "\<exists>rs. rules_from re_compile rules = Inr rs"
  shows "\<exists>cl co. new_client re_compile env (agent_args env project rules) = Inr (cl, co)
    \<and> cl_mode cl = ''full_payload'' \<and> tc_max_retries (cl_transport cl) = 4"
  using assms
  by (auto simp: new_client_def agent_args_def agent_key_def or_env_def new_transport_def payload_mode_of_def payload_modes_def Let_def)

lemma field_rule_read: "m \<in> redaction_modes \<Longrightarrow> f \<noteq> [] \<Longrightarrow> \<exists>r. rule_from_dict re_compile (field_rule f m) = Inr r"
  by (simp add: rule_from_dict_def field_rule_def RedactionRule_def compile_opt_def)

lemma agent_main_starts:
  assumes "agent_key env \<noteq> []" "\<forall>co. answers_agent (net co) ag"
  shows "\<exists>co cl rid agent version st1. grows st st1 \<and> agent_ready (net co) cl ag
    \<and> agent_main re_compile env net describe ag st
      = (case agent_block (net co) cl describe ag (new_run cl rid agent (Some version) None [] None, st1) of
           (r, (ro', st')) \<Rightarrow> (r, Some ro', st'))"
proof -
  have modes: "''hash'' \<in> redaction_modes" "''redact'' \<in> redaction_modes" by (simp_all add: redaction_modes_def)
  have rules: "\<exists>rs. rules_from re_compile [] = Inr rs" "\<exists>rs. rules_from re_compile [field_rule ''customer_id'' ''hash''] = Inr rs"
    "\<exists>rs. rules_from re_compile [field_rule ''claimant'' ''redact'', field_rule ''policy_number'' ''hash''] = Inr rs"
    using field_rule_read [OF modes(1), of "''customer_id''" re_compile] field_rule_read [OF modes(2), of "''claimant''" re_compile]
      field_rule_read [OF modes(1), of "''policy_number''" re_compile] by auto
  have started: "\<exists>co cl rid st1. grows st st1 \<and> agent_ready (net co) cl ag
      \<and> script re_compile env net describe (agent_args env project rs) agent version ag st
        = (case agent_block (net co) cl describe ag (new_run cl rid agent (Some version) None [] None, st1) of
             (r, (ro', st')) \<Rightarrow> (r, Some ro', st'))"
    if args: "project \<noteq> []" "\<exists>rr. rules_from re_compile rs = Inr rr" for project rs agent version
  proof -
    obtain cl co where cl: "new_client re_compile env (agent_args env project rs) = Inr (cl, co)"
      "cl_mode cl = ''full_payload''" "tc_max_retries (cl_transport cl) = 4"
      using agent_client_made [OF assms(1) args] by blast
    then have ready: "agent_ready (net co) cl ag" using assms(2) by (simp add: agent_ready_def)
    have "\<forall>body. \<exists>d st0. start_run_call (net co) (cl_transport cl) body st = (Inr (JDict d), st0)"
      using other_path_done [OF ready, of "''/v1/runs/start''"] by (simp add: start_run_call_def)
    then obtain d st0 where "\<And>body. start_run_call (net co) (cl_transport cl) body st = (Inr (JDict (d body)), st0 body)" by metis
    then have "\<exists>ro st1. client_run (net co) cl agent (Some version) None [] None None st = (Inr ro, st1)"
      by (simp add: client_run_def Let_def)
    then obtain ro st1 where run: "client_run (net co) cl agent (Some version) None [] None None st = (Inr ro, st1)" by blast
    from client_run_new [OF run] obtain rid where "ro = new_run cl rid agent (Some version) None [] None" "grows st st1" by blast
    with cl(1) run ready show ?thesis
      by (intro exI [of _ co] exI [of _ cl] exI [of _ rid] exI [of _ st1]) (simp add: script_def)
  qed
  show ?thesis
  proof (cases ag)
    case RefundAgent
    with started [of "''refund-agent''", OF _ rules(1), of "''refund-agent''" "''1.0.0''"] show ?thesis by simp blast
  next
    case AmlAgent
    with started [of "''aml-agent''", OF _ rules(2), of "''aml-review-agent''" "''v1.0.0''"] show ?thesis by simp blast
  next
    case (ClaimsAgent claim_id)
    with started [of "''claims-adjudication''", OF _ rules(3), of "''claims-adjudication-agent''" "''v2.1.0''"] show ?thesis by simp blast
  qed
qed

lemma makes_sent:
  assumes "run_makes w (new_run cl rid agent version env meta trace, st1) (ro', st') new" "grows st st1"
  shows "\<exists>out. new = out @ ro_buffer ro' \<and> (\<forall>d \<in> set out. sent_since st st' d)"
proof -
  have "grows st1 st'" using assms(1) by (simp add: run_makes_if_def)
  then show ?thesis using makes_chain [OF assms(1)] sent_since_right [OF assms(2)] by blast
qed

text \<open>
  C9: An example agent, in any environment and whatever the wire answers, once its run was started. If its block ends
  normally, the types of its events are one of the agent's trails: the policy was checked and either allowed, or an
  approval was asked for and given, before the change it guards; the run is committed and everything was sent. If it raises,
  they are a beginning of a trail, or of an end in which the policy blocks the agent (\<open>policy.check.failed\<close>,
  \<open>policy.enforcement.blocked\<close>), and then at most \<open>agent_run.failed\<close>. Either way the events are one hash chain from the
  start, and all that are not in the buffer were sent.
\<close>

theorem agents_leave_trail:
  assumes "agent_main re_compile env net describe ag st = (r, Some ro', st')"
  shows "\<exists>co events out. sdk_linked (wo_rt (net co)) None events \<and> events = out @ ro_buffer ro'
    \<and> (\<forall>d \<in> set out. sent_since st st' d) \<and> agent_left AnyVerdict ag r ro' (map event_kind events)"
proof -
  obtain co cl rid agent version st1 where g: "grows st st1"
    and run: "agent_block (net co) cl describe ag (new_run cl rid agent (Some version) None [] None, st1) = (r, (ro', st'))"
    using agent_main_block [OF assms] by blast
  obtain new where new: "run_makes (net co) (new_run cl rid agent (Some version) None [] None, st1) (ro', st') new"
    "agent_left AnyVerdict ag r ro' (map event_kind new)"
    using agent_block_leaves [OF run policy_says_any] by auto
  with makes_chain [OF new(1)] makes_sent [OF new(1) g] show ?thesis by blast
qed

definition plain_description :: "exn \<Rightarrow> error_info" where
  "plain_description e = \<lparr>er_type = ''Exception'', er_message = [], er_traceback = []\<rparr>"

definition no_environment :: environ where
  "no_environment = (\<lambda>name. None)"

lemma deployed_answers: "answers_agent deployed_world ag"
  using deployed_ready by (simp add: agent_ready_def)

lemma no_environment_key: "agent_key no_environment \<noteq> []"
  by (simp add: agent_key_def no_environment_def getenv_def)

theorem agents_leave_trail_witness:
  "\<exists>r ro' st' events. agent_main (\<lambda>s. Inr (\<lambda>t. False)) no_environment (\<lambda>co. deployed_world) plain_description RefundAgent fresh_sdk = (r, Some ro', st')
     \<and> sdk_linked demo_rt None events \<and> agent_left AnyVerdict RefundAgent r ro' (map event_kind events)"
proof -
  have "\<forall>co. answers_agent ((\<lambda>co. deployed_world) co) RefundAgent" using deployed_answers by simp
  from agent_main_starts [OF no_environment_key this, of fresh_sdk "\<lambda>s. Inr (\<lambda>t. False)" plain_description]
  obtain cl rid agent version st1 where
    main: "agent_main (\<lambda>s. Inr (\<lambda>t. False)) no_environment (\<lambda>co. deployed_world) plain_description RefundAgent fresh_sdk
      = (case agent_block deployed_world cl plain_description RefundAgent (new_run cl rid agent (Some version) None [] None, st1) of
           (r, (ro', st')) \<Rightarrow> (r, Some ro', st'))" by blast
  obtain r ro' st' where
    run: "agent_main (\<lambda>s. Inr (\<lambda>t. False)) no_environment (\<lambda>co. deployed_world) plain_description RefundAgent fresh_sdk = (r, Some ro', st')"
    unfolding main
    by (cases "agent_block deployed_world cl plain_description RefundAgent (new_run cl rid agent (Some version) None [] None, st1)") auto
  from agents_leave_trail [OF run] run show ?thesis by (auto simp: deployed_world_def)
qed

subsection \<open>The deployed policies\<close>

text \<open>The one trail of each agent under the deployed policies. The third enforces a policy that is not among them.\<close>

fun deployed_trail :: "agent \<Rightarrow> string list" where
  "deployed_trail RefundAgent = [''agent_run.started'', ''tool_call.started'', ''tool_call.completed'',
     ''state.change.proposed'', ''policy.check.passed'', ''approval.requested'', ''approval.approved'',
     ''state.change.applied'', ''agent_run.committed'']"
| "deployed_trail AmlAgent = [''agent_run.started'', ''tool_call.started'', ''tool_call.completed'',
     ''tool_call.started'', ''tool_call.completed'', ''tool_call.started'', ''tool_call.completed'', ''memory.write'',
     ''state.change.applied'', ''policy.check.passed'', ''approval.requested'', ''approval.approved'',
     ''state.change.applied'', ''agent_run.committed'']"
| "deployed_trail (ClaimsAgent claim_id) = [''agent_run.started'', ''tool_call.started'', ''tool_call.completed'',
     ''tool_call.started'', ''tool_call.completed'', ''tool_call.started'', ''tool_call.completed'',
     ''tool_call.started'', ''tool_call.completed'', ''memory.write'', ''memory.write'',
     ''policy.check.passed'', ''policy.enforcement.allowed'', ''tool_call.started'', ''tool_call.completed'',
     ''state.change.applied'', ''agent_run.committed'']"

lemma deployed_trails: "agent_trails (deployed_verdict ag) ag = [deployed_trail ag]"
  by (cases ag) (simp_all add: agent_trails_def deployed_verdict_def one_def tool_step_def gate_step_def seqs_def)

text \<open>
  C6: Against a collector whose engine was loaded from the deployed policy files, and a wire that answers the agent's
  calls, every example agent that has a key comes to its end: its client and its run are made, its block returns, the run is committed, all
  events were sent, and their types are exactly the agent's trail. The refund and the transfer have an approval, asked for and given,
  before the change they make; the payment of a claim has none, because its policy is not deployed and the engine
  allows what it does not know.
\<close>

theorem agents_run_to_end:
  assumes "load_engine rt (Some deployed_files) None = Inr (dp_engine dp)"
    and "\<forall>co. checks_served (answer_call rt dp lax auth) (net co) ag \<and> answers_agent (net co) ag" "agent_key env \<noteq> []"
  shows "\<exists>co ro' st' events. agent_main re_compile env net describe ag st = (Inr (), Some ro', st') \<and> ro_committed ro'
    \<and> sdk_linked (wo_rt (net co)) None events \<and> (\<forall>d \<in> set events. sent_since st st' d) \<and> map event_kind events = deployed_trail ag"
proof -
  have en: "dp_engine dp = deployed_engine rt" using assms(1) by (simp add: deployed_loaded)
  have "\<forall>co. answers_agent (net co) ag" using assms(2) by blast
  from agent_main_starts [OF assms(3) this, of st re_compile describe]
  obtain co cl rid agent version st1 where g: "grows st st1" and ready: "agent_ready (net co) cl ag"
    and main: "agent_main re_compile env net describe ag st
      = (case agent_block (net co) cl describe ag (new_run cl rid agent (Some version) None [] None, st1) of
           (r, (ro', st')) \<Rightarrow> (r, Some ro', st'))" by blast
  have checks: "checks_served (answer_call rt dp lax auth) (net co) ag" using assms(2) by blast
  have "\<not> ro_closed (fst (new_run cl rid agent (Some version) None [] None, st1))" by (simp add: new_run_def)
  from agent_ends [OF ready checks en this, of describe] obtain ro' st'
    where run: "agent_block (net co) cl describe ag (new_run cl rid agent (Some version) None [] None, st1) = (Inr (), (ro', st'))" by auto
  obtain new where new: "run_makes (net co) (new_run cl rid agent (Some version) None [] None, st1) (ro', st') new"
    "agent_left (deployed_verdict ag) ag (Inr ()) ro' (map event_kind new)"
    using agent_block_leaves [OF run deployed_says [OF checks en]] by auto
  then have "map event_kind new = deployed_trail ag" "ro_committed ro'" "ro_buffer ro' = []"
    by (simp_all add: agent_left_def deployed_trails del: deployed_trail.simps)
  with main run makes_chain [OF new(1)] makes_sent [OF new(1) g] show ?thesis by auto
qed

theorem agents_run_to_end_witness:
  "\<exists>ro' st' events. agent_main (\<lambda>s. Inr (\<lambda>t. False)) no_environment (\<lambda>co. deployed_world) plain_description (ClaimsAgent ''CLM-7'') fresh_sdk
       = (Inr (), Some ro', st')
     \<and> map event_kind events = deployed_trail (ClaimsAgent ''CLM-7'') \<and> ''approval.requested'' \<notin> set (map event_kind events)
     \<and> (\<forall>d \<in> set events. sent_since fresh_sdk st' d)"
proof -
  have engine: "load_engine demo_rt (Some deployed_files) None = Inr (dp_engine deployed_dp)"
    by (simp add: deployed_loaded deployed_dp_def)
  have wire: "\<forall>co. checks_served (answer_call demo_rt deployed_dp int_of_json (Some ''Bearer secret'')) ((\<lambda>co. deployed_world) co) (ClaimsAgent ''CLM-7'')
      \<and> answers_agent ((\<lambda>co. deployed_world) co) (ClaimsAgent ''CLM-7'')"
    using deployed_checks deployed_answers by (simp add: deployed_call_def)
  from agents_run_to_end [OF engine wire no_environment_key, of "\<lambda>s. Inr (\<lambda>t. False)" plain_description fresh_sdk]
  obtain ro' st' events where
    "agent_main (\<lambda>s. Inr (\<lambda>t. False)) no_environment (\<lambda>co. deployed_world) plain_description (ClaimsAgent ''CLM-7'') fresh_sdk = (Inr (), Some ro', st')"
    "map event_kind events = deployed_trail (ClaimsAgent ''CLM-7'')" "\<forall>d \<in> set events. sent_since fresh_sdk st' d" by blast
  moreover have "''approval.requested'' \<notin> set (deployed_trail (ClaimsAgent ''CLM-7''))" by simp
  ultimately show ?thesis by metis
qed

subsection \<open>The record of an agent\<close>

lemma row_kinds: "list_all2 (row_shows rid) out rows \<Longrightarrow> map e_type rows = map event_kind out"
  by (induction rule: list_all2_induct) (auto simp: row_shows_def event_kind_def dict_str_def split: json.splits)

text \<open>
  C7: An example agent whose calls the collector serves, on a run that is open there: the table of events gains
  rows whose types, in order and with those still in the buffer, are what the agent leaves. For a block that ended normally this
  is exactly one of its trails; for one that raised, a beginning of a trail or of an end in which the policy blocks the
  agent, and then at most \<open>agent_run.failed\<close>. The run then verifies with these rows, if its chain was sound before. The
  collector is in UTC, the identifiers drawn are distinct and new, no key of the table is one of this run, and the run's id is
  of letters, digits, \<open>_\<close> and \<open>-\<close>.
\<close>

theorem agents_audited:
  assumes "agent_block w cl describe ag (new_run cl rid agent version env meta trace, st) = (r, (ro', st'))"
    and "served_by (answer_call rt dp lax auth) w (length (sd_sent st)) (drop (length (sd_sent st)) (sd_sent st')) s = Some s'"
    and "plain_id rid" "reads_ints lax" "may_record rt auth p rid (st_db s)"
    and "inj_on (event_id_at (wo_rt w)) {sd_tick st..<sd_tick st'}"
    and "\<forall>e \<in> set (db_events (st_db s)). e_id e \<notin> event_id_at (wo_rt w) ` {sd_tick st..<sd_tick st'}
      \<and> (\<forall>t. e_idem e \<noteq> Some (rid @ '':'' @ t))"
    and "sd_tick st' \<le> 2 ^ 63"
    and "utc_runtime rt" "reads_offset rt" "chain_sound rt (st_db s) rid"
  shows "\<exists>rows. db_events (st_db s') = db_events (st_db s) @ rows
    \<and> agent_left AnyVerdict ag r ro' (map e_type rows @ map event_kind (ro_buffer ro'))
    \<and> verify rt p rid (st_db s') = Inr \<lparr>v_run = rid, v_valid = True,
        v_count = length (run_events (st_db s) rid) + length rows, v_broken = None\<rparr>"
proof -
  obtain new where new: "run_makes w (new_run cl rid agent version env meta trace, st) (ro', st') new"
    "agent_left AnyVerdict ag r ro' (map event_kind new)"
    using agent_block_leaves [OF assms(1) policy_says_any] by auto
  from run_recorded [OF new(1) assms(2-8)] obtain out rows where
    rows: "new = out @ ro_buffer ro'" "db_events (st_db s') = db_events (st_db s) @ rows" "list_all2 (row_shows rid) out rows"
    and after: "may_record rt auth p rid (st_db s')" "keeps_chain rt rid (st_db s) (st_db s')" by blast
  from new(2) rows(1) row_kinds [OF rows(3)]
  have "agent_left AnyVerdict ag r ro' (map e_type rows @ map event_kind (ro_buffer ro'))" by simp
  moreover note recorded_verifies [OF rows(2,3) assms(5) after assms(9-11)]
  moreover have "length rows = length out" using rows(3) by (simp add: list_all2_lengthD)
  ultimately show ?thesis using rows(2) by auto
qed

text \<open>
  A key that may check policies and write events, and no more: requests to end a run or for an approval are refused in
  the same way in every state, and the other answers do not depend on what was recorded, so that a wire may give the answers of one
  state.
\<close>

lemma side_answer_same:
  assumes "side_call call" "current_principal rt auth (st_db s) = Inr p" "current_principal rt auth (st_db s0) = Inr p"
    and "\<exists>e. require_scope ''runs'' ''write'' p = Inl e" "\<exists>e. require_scope ''approvals'' ''review'' p = Inl e"
  shows "fst (answer_call rt dp lax auth call s) = fst (answer_call rt dp lax auth call s0)"
proof -
  have served: "fst (serve rt dp auth req s) = fst (serve rt dp auth req s0)" if "side_request req" for req
  proof (cases req)
    case (PolicyCheck pid input)
    have "fst (policy_check rt opa en pid input s) = fst (policy_check rt opa en pid input s0)" for opa en
      by (simp add: policy_check_def split: sum.split)
    with PolicyCheck assms(2,3) show ?thesis
      by (simp add: serve_def respond_st_def split: sum.split)
  qed (use that assms(2-5) in \<open>auto simp: side_request_def serve_def\<close>)
  have "fst (dispatch rt dp lax auth [] call s) = fst (dispatch rt dp lax auth [] call s0)"
  proof (cases "find_route (hc_method call) (hc_path call)")
    case (Inl e)
    then show ?thesis by (simp add: dispatch_def)
  next
    case (Inr route)
    obtain rte ps where route: "route = (rte, ps)" by (cases route)
    show ?thesis
    proof (cases "rt_read rte lax ps [] (hc_body call)")
      case None
      have "admit rt auth scope (st_db s) = admit rt auth scope (st_db s0)" for scope
        using assms(2,3) by (simp add: admit_def split: option.split prod.split)
      with Inr route None show ?thesis by (simp add: dispatch_def split: sum.split)
    next
      case (Some req)
      with Inr route served [OF side_call_request [OF assms(1) _ Some]] show ?thesis by (simp add: dispatch_def)
    qed
  qed
  then show ?thesis
    by (cases "dispatch rt dp lax auth [] call s"; cases "dispatch rt dp lax auth [] call s0") (simp add: answer_call_def)
qed

lemma one_state_serves:
  assumes "delivers w rid n calls due left" "\<And>n call. wo_net w n call = fst (answer_call rt dp lax auth call s0)"
    and "plain_id rid" "reads_ints lax" "may_record rt auth p rid (st_db s)" "may_record rt auth p rid (st_db s0)"
    and "\<forall>d \<in> set due. emitted rid d \<and> sdk_good sdk_rt d \<and> recordable (st_db s) d \<and> recordable (st_db s0) d"
    and "distinct (map sdk_id due)" "distinct (map sdk_key due)"
    and "\<exists>e. require_scope ''runs'' ''write'' p = Inl e" "\<exists>e. require_scope ''approvals'' ''review'' p = Inl e"
  shows "\<exists>s'. served_by (answer_call rt dp lax auth) w n calls s = Some s'"
  using assms(1,5,7-9)
proof (induction calls arbitrary: n due s)
  case Nil
  then show ?case by simp
next
  case (Cons call calls)
  obtain a s1 where ans: "answer_call rt dp lax auth call s = (a, s1)" by force
  show ?case
  proof (cases "hc_path call = events_path rid")
    case True
    with Cons.prems(1) obtain batch rest where batch: "batch_call rid batch call" "due = batch @ rest"
      "accepted w n call \<longrightarrow> delivers w rid (Suc n) calls rest left" by auto
    from batch_answer [OF assms(3) batch(1) assms(4) Cons.prems(2), of sdk_rt dp] Cons.prems(3-5) batch(2) ans
    obtain rows where posted: "a = Answer 200 (JsonBody (event_ids_json (map sdk_id batch)))" "db_events (st_db s1) = db_events (st_db s) @ rows"
      "list_all2 (row_shows rid) batch rows" "may_record rt auth p rid (st_db s1)" by auto
    from batch_answer [OF assms(3) batch(1) assms(4,6), of sdk_rt dp] Cons.prems(3-5) batch(2)
    have "fst (answer_call rt dp lax auth call s0) = a" by (auto simp: posted(1))
    with assms(2) have net: "wo_net w n call = a" by simp
    then have "accepted w n call"
      using posted(1) by (simp add: accepted_def attempt_result_def raise_for_status_def)
    then have deliv: "delivers w rid (Suc n) calls rest left" using batch(3) by blast
    have "recordable (st_db s1) d" if "d \<in> set rest" for d
      using that Cons.prems(3-5) batch(2) by (intro recordable_after [OF posted(2,3)]) auto
    then have "\<forall>d \<in> set rest. emitted rid d \<and> sdk_good sdk_rt d \<and> recordable (st_db s1) d \<and> recordable (st_db s0) d"
      using Cons.prems(3) batch(2) by simp
    from Cons.IH [OF deliv posted(4) this] Cons.prems(4,5) batch(2) ans net show ?thesis by simp
  next
    case False
    with Cons.prems(1) have side: "side_call call" and deliv: "delivers w rid (Suc n) calls due left" by simp_all
    have cp: "current_principal rt auth (st_db s) = Inr p" "current_principal rt auth (st_db s0) = Inr p"
      using Cons.prems(2) assms(6) by (simp_all add: may_record_def)
    have net: "wo_net w n call = a"
      using assms(2) side_answer_same [OF side cp assms(10,11)] ans by (metis fst_conv)
    from side_answer [OF side ans Cons.prems(2)] have "db_events (st_db s1) = db_events (st_db s)" "may_record rt auth p rid (st_db s1)"
      by blast+
    with Cons.IH [OF deliv] Cons.prems(3-5) ans net show ?thesis by (auto simp: recordable_def)
  qed
qed

text \<open>A collector with such a key; a wire that gives its answers from the state before the run; a client that tries once.\<close>

definition clerk_db :: database where
  "clerk_db = demo_db\<lparr>db_keys := [(bootstrap_key demo_rt demo_cfg demo_now ''secret'')
     \<lparr>ak_scopes := [(''events'', JStr ''write''), (''policies'', JStr ''read'')]\<rparr>]\<rparr>"

definition clerk_state :: cstate where
  "clerk_state = demo_state\<lparr>st_db := clerk_db\<rparr>"

definition clerk_world :: world where
  "clerk_world = \<lparr>wo_rt = demo_rt, wo_net = (\<lambda>n call. fst (deployed_call call clerk_state)), wo_jitter = (\<lambda>n. 0)\<rparr>"

definition clerk_client :: client where
  "clerk_client = agent_client\<lparr>cl_transport := demo_transport\<lparr>tc_max_retries := 1\<rparr>\<rparr>"

lemma clerk_may_record: "\<exists>p. may_record demo_rt (Some ''Bearer secret'') p ''run_1'' clerk_db
    \<and> (\<exists>e. require_scope ''runs'' ''write'' p = Inl e) \<and> (\<exists>e. require_scope ''approvals'' ''review'' p = Inl e)"
proof -
  let ?row = "(bootstrap_key demo_rt demo_cfg demo_now ''secret'')\<lparr>ak_scopes := [(''events'', JStr ''write''), (''policies'', JStr ''read'')]\<rparr>"
  have "current_principal demo_rt (Some (''Bearer '' @ ''secret'')) clerk_db
      = Inr \<lparr>pr_key = ak_id ?row, pr_org = ak_org ?row, pr_project = ak_project ?row, pr_scopes = ak_scopes ?row\<rparr>"
    by (subst current_principal_bearer) (simp_all add: clerk_db_def key_by_hash_def bootstrap_key_def)
  moreover have "db_ok clerk_db" using demo_db_ok by (simp add: clerk_db_def db_ok_def)
  ultimately show ?thesis
    by (intro exI [of _ "\<lparr>pr_key = ak_id ?row, pr_org = ak_org ?row, pr_project = ak_project ?row, pr_scopes = ak_scopes ?row\<rparr>"])
      (simp add: may_record_def require_scope_def bootstrap_key_def scope_ok_def Let_def authorize_run_def
        get_run_def clerk_db_def demo_db_def demo_run_def demo_cfg_def)
qed

lemma clerk_facts: "db_events (st_db clerk_state) = []" "run_events (st_db clerk_state) ''run_1'' = []"
  "chain_sound demo_rt (st_db clerk_state) ''run_1''" "wo_rt clerk_world = demo_rt"
proof -
  show events: "db_events (st_db clerk_state) = []" "run_events (st_db clerk_state) ''run_1'' = []"
    by (simp_all add: clerk_state_def clerk_db_def run_events_def)
  have "get_run (st_db clerk_state) ''run_1'' = Some demo_run"
    by (simp add: clerk_state_def clerk_db_def get_run_def demo_db_def demo_run_def)
  then show "chain_sound demo_rt (st_db clerk_state) ''run_1''" by (simp add: chain_sound_def events demo_run_def)
qed (simp add: clerk_world_def)

theorem agents_audited_witness:
  "\<exists>r ro' st' s' p rows. agent_block clerk_world clerk_client plain_description (ClaimsAgent ''CLM-7'')
       (new_run clerk_client ''run_1'' ''agent'' None None [] None, fresh_sdk) = (r, (ro', st'))
     \<and> served_by deployed_call clerk_world 0 (sd_sent st') clerk_state = Some s' \<and> db_events (st_db s') = rows
     \<and> agent_left AnyVerdict (ClaimsAgent ''CLM-7'') r ro' (map e_type rows @ map event_kind (ro_buffer ro'))
     \<and> verify demo_rt p ''run_1'' (st_db s') = Inr \<lparr>v_run = ''run_1'', v_valid = True, v_count = length rows, v_broken = None\<rparr>"
proof -
  let ?ag = "ClaimsAgent ''CLM-7''" and ?ro = "new_run clerk_client ''run_1'' ''agent'' None None [] None"
  obtain r ro' st' where run: "agent_block clerk_world clerk_client plain_description ?ag (?ro, fresh_sdk) = (r, (ro', st'))"
    by (cases "agent_block clerk_world clerk_client plain_description ?ag (?ro, fresh_sdk)") auto
  have "length (agent_steps clerk_world clerk_client ?ag) \<le> 16" "tc_max_retries (cl_transport clerk_client) = 1"
    by (simp_all add: claims_steps_paid claim_paid_def Let_def clerk_client_def)
  from reads_clockD [OF clock_block [OF this(2,1)] run] have ids: "inj_on (event_id_at (wo_rt clerk_world)) {sd_tick fresh_sdk..<sd_tick st'}"
    and few: "sd_tick st' \<le> 2 ^ 63"
    using demo_ids [of "sd_tick st'"] by (simp_all add: fresh_sdk_def clerk_facts)
  have unused: "\<forall>e \<in> set (db_events (st_db clerk_state)). e_id e \<notin> event_id_at (wo_rt clerk_world) ` {sd_tick fresh_sdk..<sd_tick st'}
      \<and> (\<forall>t. e_idem e \<noteq> Some (''run_1'' @ '':'' @ t))" by (simp add: clerk_facts)
  obtain new where new: "run_makes clerk_world (?ro, fresh_sdk) (ro', st') new"
    using agent_block_leaves [OF run policy_says_any] by auto
  note due = makes_due [OF new ids unused few]
  obtain p where p: "may_record demo_rt (Some ''Bearer secret'') p ''run_1'' (st_db clerk_state)"
    "\<exists>e. require_scope ''runs'' ''write'' p = Inl e" "\<exists>e. require_scope ''approvals'' ''review'' p = Inl e"
    using clerk_may_record by (auto simp: clerk_state_def)
  have "\<exists>s'. served_by deployed_call clerk_world 0 (drop 0 (sd_sent st')) clerk_state = Some s'"
    unfolding deployed_call_def
    by (rule one_state_serves [OF _ _ open_facts(1,2) p(1,1) _ due(3,4) p(2,3), where left = "ro_buffer ro'" and sdk_rt = demo_rt])
      (use due(2,5) in \<open>simp_all add: clerk_world_def deployed_call_def fresh_sdk_def\<close>)
  then obtain s' where served: "served_by deployed_call clerk_world 0 (sd_sent st') clerk_state = Some s'" by auto
  from agents_audited [OF run _ open_facts(1,2) p(1) ids unused few demo_utc open_facts(8) clerk_facts(3), of deployed_dp s'] served
  have "agent_left AnyVerdict ?ag r ro' (map e_type (db_events (st_db s')) @ map event_kind (ro_buffer ro'))
    \<and> verify demo_rt p ''run_1'' (st_db s')
      = Inr \<lparr>v_run = ''run_1'', v_valid = True, v_count = length (db_events (st_db s')), v_broken = None\<rparr>"
    by (auto simp: fresh_sdk_def deployed_call_def clerk_facts)
  with run served show ?thesis by blast
qed

end
