(* ===== verification/Approval_Properties.thy ===== *)
theory Approval_Properties
  imports Delivery_Properties Decision_Properties
begin

section \<open>Approvals a run asks for\<close>

text \<open>
  What becomes of the collector's table of approvals while the SDK is used: it gains the requests, and no decision. A decision that is
  given to the SDK is an event of the run and nothing else.
\<close>

definition requests_only :: "database \<Rightarrow> database \<Rightarrow> bool" where
  "requests_only db db' \<longleftrightarrow>
     (\<exists>new. db_approvals db' = db_approvals db @ new \<and> (\<forall>a \<in> set new. a_status a = ''requested''))"

lemma requests_only_same: "db_approvals db' = db_approvals db \<Longrightarrow> requests_only db db'"
  by (simp add: requests_only_def)

lemma requests_only_trans: "requests_only a b \<Longrightarrow> requests_only b c \<Longrightarrow> requests_only a c"
  unfolding requests_only_def by fastforce

lemma requests_only_handle:
  assumes "side_request req \<or> (\<exists>rid evs. req = RunsEvents rid evs)" "handle rt dp p req s = (r, s')" "db_ok (st_db s)"
  shows "requests_only (st_db s) (st_db s')"
proof (cases "\<exists>rid evs. req = RunsEvents rid evs")
  case True
  then obtain rid evs where req: "req = RunsEvents rid evs" by blast
  then obtain x where run: "append_events rt rules_of_app (cfg_schema_version (dp_cfg dp)) p rid evs s = (x, s')"
    using assms(2) by (auto dest: respond_st_state)
  show ?thesis
  proof (cases x)
    case (Inl e)
    then have "\<exists>e. r = Inl e" using run assms(2) req by (auto simp: respond_st_def respond_def)
    with assms(2) have "st_db s' = st_db s" using handle_fails by blast
    then show ?thesis by (simp add: requests_only_same)
  next
    case (Inr ids)
    with append_events_session [OF run [unfolded Inr] assms(3)] show ?thesis
      by (simp add: run_session_def requests_only_same)
  qed
next
  case False
  then have side: "side_request req" using assms(1) by blast
  have commit: "requests_only (st_db s) (st_db s')" if "commit_run rt p rid s = (x, s')" for rid x
    using that by (intro requests_only_same) (auto simp: commit_run_def with_session_def split: sum.splits)
  have rollback: "requests_only (st_db s) (st_db s')" if "rollback_run rt p rid reason s = (x, s')" for rid reason x
    using that by (intro requests_only_same) (auto simp: rollback_run_def with_session_def split: sum.splits)
  have request: "requests_only (st_db s) (st_db s')" if "request_approval rt p q s = (x, s')" for q x
    using that by (auto simp: request_approval_def with_session_def requests_only_def Let_def split: option.splits if_splits)
  show ?thesis
    using side assms(2) commit rollback request
    by (cases req) (auto simp: side_request_def requests_only_same dest!: respond_st_state dest: policy_check_frame)
qed

lemma requests_only_serve:
  assumes "side_request req \<or> (\<exists>rid evs. req = RunsEvents rid evs)" "serve rt dp auth req s = (r, s')" "db_ok (st_db s)"
  shows "requests_only (st_db s) (st_db s') \<and> db_ok (st_db s')"
  using assms(2)
proof (cases rule: serve_cases)
  case (refused e)
  with assms(3) show ?thesis by (simp add: requests_only_same)
next
  case open_endpoint
  from requests_only_handle [OF assms(1) open_endpoint(2) assms(3)] handle_tenant [OF open_endpoint(2) assms(3)]
  show ?thesis by (simp add: tenant_step_def)
next
  case (principal p resource action)
  from requests_only_handle [OF assms(1) principal(4) assms(3)] handle_tenant [OF principal(4) assms(3)]
  show ?thesis by (simp add: tenant_step_def)
qed

text \<open>A call of a run: the route of its path is that of events, or of a side request.\<close>

lemma events_find_route:
  assumes "plain_id rid"
  obtains rte where "find_route ''POST'' (events_path rid) = Inr (rte, [rid])"
    "rt_read rte = (\<lambda>lax ps q b. map_option (RunsEvents (hd ps)) (body_of (events_request lax) b))"
proof -
  have "rid \<noteq> []" "CHR ''/'' \<notin> set rid" using assms plain_id_slash by (auto simp: plain_id_def)
  then have "find_route ''POST'' (events_path rid) = Inr (\<lparr>rt_method = ''POST'',
      rt_pattern = [Fixed ''v1'', Fixed ''runs'', Param, Fixed ''events''], rt_scope = Some (''events'', ''write''),
      rt_read = (\<lambda>lax ps q b. map_option (RunsEvents (hd ps)) (body_of (events_request lax) b))\<rparr>, [rid])"
    by (simp add: find_route_def route_params_def segments_events route_tables del: segments.simps)
  then show thesis by (rule that) simp
qed

lemma run_call_request:
  assumes "run_call rid call" "plain_id rid"
    and "find_route (hc_method call) (hc_path call) = Inr (rte, ps)" "rt_read rte lax ps [] (hc_body call) = Some req"
  shows "side_request req \<or> (\<exists>rid evs. req = RunsEvents rid evs)"
proof (cases "side_call call")
  case True
  from side_call_request [OF True assms(3,4)] show ?thesis ..
next
  case False
  with assms(1) have call: "hc_method call = ''POST''" "hc_path call = events_path rid"
    by (auto simp: run_call_def batch_call_def)
  obtain rte' where "find_route ''POST'' (events_path rid) = Inr (rte', [rid])"
    "rt_read rte' = (\<lambda>lax ps q b. map_option (RunsEvents (hd ps)) (body_of (events_request lax) b))"
    using events_find_route [OF assms(2)] .
  with assms(3,4) call show ?thesis by auto
qed

lemma requests_only_answer:
  assumes "run_call rid call" "plain_id rid"
    and "answer_call rt dp lax auth call s = (a, s')" "db_ok (st_db s)"
  shows "requests_only (st_db s) (st_db s') \<and> db_ok (st_db s')"
proof -
  obtain r where disp: "dispatch rt dp lax auth [] call s = (r, s')"
    using assms(3) by (auto simp: answer_call_def split: prod.splits)
  show ?thesis
  proof (cases "\<exists>rte ps req. find_route (hc_method call) (hc_path call) = Inr (rte, ps) \<and> rt_read rte lax ps [] (hc_body call) = Some req")
    case True
    then obtain rte ps req where route: "find_route (hc_method call) (hc_path call) = Inr (rte, ps)"
      "rt_read rte lax ps [] (hc_body call) = Some req" by blast
    have "serve rt dp auth req s = (r, s')" using disp dispatch_serve [OF route] by metis
    with requests_only_serve [OF run_call_request [OF assms(1,2) route]] assms(4) show ?thesis by blast
  next
    case False
    then have "s' = s" using disp by (auto simp: dispatch_def split: sum.splits prod.splits option.splits)
    with assms(4) show ?thesis by (simp add: requests_only_same)
  qed
qed

lemma served_requests:
  assumes "served_by (answer_call rt dp lax auth) w n calls s = Some s'" "\<forall>call \<in> set calls. run_call rid call"
    and "plain_id rid" "db_ok (st_db s)"
  shows "requests_only (st_db s) (st_db s')"
  using assms(1,2,4)
proof (induction calls arbitrary: n s)
  case Nil
  then show ?case by (simp add: requests_only_same)
next
  case (Cons call calls)
  obtain a s1 where ans: "answer_call rt dp lax auth call s = (a, s1)" by force
  have later: "served_by (answer_call rt dp lax auth) w (Suc n) calls s1 = Some s'"
    using Cons.prems(1) ans by (auto split: if_splits)
  have one: "requests_only (st_db s) (st_db s1)" "db_ok (st_db s1)"
    using requests_only_answer [OF _ assms(3) ans Cons.prems(3)] Cons.prems(2) by auto
  from Cons.IH [OF later _ one(2)] Cons.prems(2) have "requests_only (st_db s1) (st_db s')" by simp
  with one(1) show ?case by (rule requests_only_trans)
qed

text \<open>
  C8: The SDK decides no approval. Over any session of a run, decisions given with \<open>human_approval\<close> and events with
  numbers of their own included, whose calls the collector serves, the table of approvals gains rows that are
  requested and keeps all others as they are: what was pending stays pending, and so does every request of the session. The run's id is
  of letters, digits, \<open>_\<close> and \<open>-\<close>, and the database is well-formed, as every reachable one is.
\<close>

theorem approvals_stay_pending:
  assumes "fold (hook_step w cl) hooks (new_run cl rid agent version env meta trace, st) = (ro', st')"
    and "served_by (answer_call rt dp lax auth) w (length (sd_sent st)) (drop (length (sd_sent st)) (sd_sent st')) s = Some s'"
    and "plain_id rid" "db_ok (st_db s)"
  shows "\<exists>new. db_approvals (st_db s') = db_approvals (st_db s) @ new \<and> (\<forall>a \<in> set new. a_status a = ''requested'')
    \<and> (\<forall>q. set (pending_rows q (st_db s')) = set (pending_rows q (st_db s)) \<union> {a \<in> set new. own_approval q a})"
proof -
  let ?ro = "new_run cl rid agent version env meta trace"
  from hooks_run [of hooks w "(?ro, st)" cl] assms(1)
  obtain events where "run_makes_if (\<forall>h \<in> set hooks. numbered_hook h) w (?ro, st) (ro', st') events"
    by (auto simp: run_step_if_def)
  then have "\<forall>call \<in> set (drop (length (sd_sent st)) (sd_sent st')). run_call rid call"
    by (auto simp: run_makes_if_def carries_def new_run_def)
  then have "requests_only (st_db s) (st_db s')" using served_requests [OF assms(2)] assms(3,4) by blast
  then obtain new where new: "db_approvals (st_db s') = db_approvals (st_db s) @ new" "\<forall>a \<in> set new. a_status a = ''requested''"
    unfolding requests_only_def by blast
  then have "set (pending_rows q (st_db s')) = set (pending_rows q (st_db s)) \<union> {a \<in> set new. own_approval q a}" for q
    by (auto simp: pending_rows_set)
  with new show ?thesis by blast
qed

text \<open>A run with an approval that is pending, and one decision given to the SDK.\<close>

definition asked_state :: cstate where
  "asked_state = open_state\<lparr>st_db := open_db\<lparr>db_approvals := [demo_approval]\<rparr>\<rparr>"

definition asked_world :: world where
  "asked_world = \<lparr>wo_rt = demo_rt, wo_net = (\<lambda>n call. fst (open_call call asked_state)), wo_jitter = (\<lambda>n. 0)\<rparr>"

lemma asked_may_record: "\<exists>p. may_record demo_rt (Some ''Bearer secret'') p ''run_1'' (st_db asked_state)"
proof -
  obtain p where p: "may_record demo_rt (Some ''Bearer secret'') p ''run_1'' open_db" using open_may_record by blast
  then have "db_ok open_db" by (simp add: may_record_def)
  then have "db_ok (st_db asked_state)" by (simp add: asked_state_def db_ok_def)
  with p have "may_record demo_rt (Some ''Bearer secret'') p ''run_1'' (st_db asked_state)"
    by (rule may_record_keep) (simp_all add: asked_state_def)
  then show ?thesis by blast
qed

theorem approvals_stay_pending_witness:
  "\<exists>ro' st' s'. fold (hook_step asked_world eager_client) [OnCall (ApiHumanApproval ''ap_1'' ''alice'' ''approved'' None)] (open_run, fresh_sdk)
       = (ro', st')
     \<and> served_by open_call asked_world 0 (sd_sent st') asked_state = Some s'
     \<and> demo_approval \<in> set (pending_rows demo_p (st_db s'))"
proof -
  let ?em = "emission_of ''approval.approved'' (JDict [(''approval_id'', JStr ''ap_1''), (''reviewer_id'', JStr ''alice''),
    (''decision'', JStr ''approved''), (''reason'', js_str None)])\<lparr>em_actor := Some \<lparr>ac_type = ''human'', ac_id = ''alice''\<rparr>\<rparr>"
  obtain r ro' st' where emit: "emit_event asked_world eager_client ?em (open_run, fresh_sdk) = (r, (ro', st'))"
    by (cases "emit_event asked_world eager_client ?em (open_run, fresh_sdk)") auto
  then have run: "fold (hook_step asked_world eager_client) [OnCall (ApiHumanApproval ''ap_1'' ''alice'' ''approved'' None)] (open_run, fresh_sdk)
      = (ro', st')" by (simp add: human_approval_def)
  have "ro_buffer open_run = []" by (simp add: open_run_def new_run_def)
  then have bounds: "length (sd_sent st') \<le> 1" "sd_tick st' \<le> 3"
    using eager_emit [OF emit] by (auto simp: fresh_sdk_def)
  obtain s' where served: "served_by open_call asked_world 0 (sd_sent st') asked_state = Some s'"
  proof -
    have "\<exists>s'. served_by open_call asked_world 0 (sd_sent st') asked_state = Some s'"
      using bounds(1) by (cases "sd_sent st'") (auto simp: asked_world_def split: prod.split)
    then show thesis using that by blast
  qed
  have ok: "db_ok (st_db asked_state)" using asked_may_record by (auto simp: may_record_def)
  have "demo_approval \<in> set (pending_rows demo_p (st_db asked_state))"
    by (simp add: pending_rows_set asked_state_def demo_approval_def own_approval_def demo_p_def)
  then have "demo_approval \<in> set (pending_rows demo_p (st_db s'))"
    using approvals_stay_pending [OF run [unfolded open_run_def] _ open_facts(1) ok,
        of demo_rt demo_dp int_of_json "Some ''Bearer secret''" s'] served
    by (auto simp: open_facts open_call_def)
  with run served show ?thesis by blast
qed

end
