(* ===== verification/Rocks_Process.thy ===== *)
theory Rocks_Process
  imports Wal Rocks_Journal
begin

section \<open>The RocksDB database of a process\<close>

text \<open>
  The class \<open>RocksDBDatabase\<close> keeps one instance per process, which is made over a directory: its log, its store and
  its bootstrap. This is the life of that instance, with \<open>instance\<close>, \<open>reset\<close>, \<open>close\<close>, sessions on it and
  the end of the process, and what the directories hold meanwhile. A path stands for its directory. RocksDB keeps a directory locked
  while it is open; an object that is dropped gives its lock back.
\<close>

subsection \<open>Objects\<close>

datatype rocks_error =
    ImportError
  | LockHeld string                      \<comment> \<open>the directory is open in this process\<close>
  | ClosedStore                          \<comment> \<open>the \<open>KeyError\<close> or \<open>AttributeError\<close> of an object that was closed\<close>
  | Raised exn

text \<open>A closed object has lost its column families and its store.\<close>

record 'kv rocks_object =
  rj_path :: string
  rj_wal :: wal
  rj_log_open :: bool
  rj_store :: "'kv rocks option"

record 'kv rocks_process =
  rp_disk :: "string \<Rightarrow> 'kv"
  rp_logs :: "string \<Rightarrow> string \<times> string option"    \<comment> \<open>the log below a path, and its file of the applied number\<close>
  rp_instance :: "'kv rocks_object option"

text \<open>\<open>text.replace(old, "")\<close>\<close>

function without :: "string \<Rightarrow> string \<Rightarrow> string" where
  "without old s =
    (case s of
       [] \<Rightarrow> []
     | c # cs \<Rightarrow> if old \<noteq> [] \<and> take (length old) s = old then without old (drop (length old) s) else c # without old cs)"
  by auto
termination by (relation "measure (\<lambda>(old, s). length s)") auto

declare without.simps [simp del]

definition url_path :: "string \<Rightarrow> string" where
  "url_path url = without ''rocksdb:///'' (without ''rocksdb://'' url)"

definition lock_held :: "'kv rocks_process \<Rightarrow> string \<Rightarrow> bool" where
  "lock_held pr path = (case rp_instance pr of None \<Rightarrow> False | Some ob \<Rightarrow> rj_path ob = path \<and> rj_store ob \<noteq> None)"

text \<open>The constructor: the log, \<open>_open\<close>, \<open>_bootstrap\<close>.\<close>

definition new_database :: "'kv rocks_env \<Rightarrow> settings \<Rightarrow> bool \<Rightarrow> string \<Rightarrow> 'kv rocks_process
    \<Rightarrow> (rocks_error + 'kv rocks_object) \<times> 'kv rocks_process" where
  "new_database en cfg available path pr =
    (if \<not> available then (Inl ImportError, pr)
     else (let log = (case rp_logs pr path of (content, applied) \<Rightarrow> wal_open content applied) in
       if lock_held pr path then (Inl (LockHeld path), pr)
       else (case rocks_open en (rp_disk pr path) of
           Inl e \<Rightarrow> (Inl (Raised e), pr)
         | Inr s \<Rightarrow> (let s' = rocks_bootstrap en cfg s in
             (Inr \<lparr>rj_path = path, rj_wal = log, rj_log_open = True, rj_store = Some s'\<rparr>,
              pr\<lparr>rp_disk := (rp_disk pr)(path := sh_kv (rk_db s'))\<rparr>)))))"

definition keep_instance :: "(rocks_error + 'kv rocks_object) \<times> 'kv rocks_process
    \<Rightarrow> (rocks_error + 'kv rocks_object) \<times> 'kv rocks_process" where
  "keep_instance x = (case x of (Inl e, pr) \<Rightarrow> (Inl e, pr) | (Inr ob, pr) \<Rightarrow> (Inr ob, pr\<lparr>rp_instance := Some ob\<rparr>))"

definition rocks_instance :: "'kv rocks_env \<Rightarrow> settings \<Rightarrow> bool \<Rightarrow> string \<Rightarrow> string option \<Rightarrow> 'kv rocks_process
    \<Rightarrow> (rocks_error + 'kv rocks_object) \<times> 'kv rocks_process" where
  "rocks_instance en cfg available url path pr =
    (case rp_instance pr of
       Some ob \<Rightarrow> (Inr ob, pr)
     | None \<Rightarrow> keep_instance (new_database en cfg available (str_or path (url_path url)) pr))"

text \<open>\<open>reset\<close> closes the log of the old object, and holds the object until the new one is there.\<close>

definition close_log :: "'kv rocks_object \<Rightarrow> 'kv rocks_object" where
  "close_log ob = ob\<lparr>rj_log_open := False\<rparr>"

definition rocks_reset :: "'kv rocks_env \<Rightarrow> settings \<Rightarrow> bool \<Rightarrow> string option \<Rightarrow> 'kv rocks_process
    \<Rightarrow> (rocks_error + 'kv rocks_object) \<times> 'kv rocks_process" where
  "rocks_reset en cfg available path pr =
    keep_instance (new_database en cfg available (str_or path ''./controldb_rocksdb'')
      (pr\<lparr>rp_instance := map_option close_log (rp_instance pr)\<rparr>))"

definition close_database :: "'kv rocks_object \<Rightarrow> 'kv rocks_object" where
  "close_database ob = (close_log ob)\<lparr>rj_store := None\<rparr>"

text \<open>A session on the instance: whatever it writes is in the directory when it returns.\<close>

definition instance_session :: "'kv rocks_env \<Rightarrow> (session \<times> 'kv rocks \<Rightarrow> 'a result \<times> session \<times> 'kv rocks)
    \<Rightarrow> 'kv rocks_object \<Rightarrow> 'kv rocks_process \<Rightarrow> (rocks_error + 'a) \<times> 'kv rocks_process" where
  "instance_session en body ob pr =
    (case rj_store ob of
       None \<Rightarrow> (Inl ClosedStore, pr)
     | Some s \<Rightarrow> (case rocks_session en body s of (x, s') \<Rightarrow>
         (map_sum Raised id x, pr\<lparr>rp_disk := (rp_disk pr)(rj_path ob := sh_kv (rk_db s')),
            rp_instance := Some (ob\<lparr>rj_store := Some s'\<rparr>)\<rparr>)))"

subsection \<open>The life of a process\<close>

datatype life = GetInstance "string option" | ResetTo "string option" | CloseInstance | AddRows "orm list" | ProcessEnds

definition add_rows :: "'kv rocks_env \<Rightarrow> settings \<Rightarrow> bool \<Rightarrow> string \<Rightarrow> orm list \<Rightarrow> 'kv rocks_process
    \<Rightarrow> (rocks_error + unit) \<times> 'kv rocks_process" where
  "add_rows en cfg available url objs pr =
    (case rocks_instance en cfg available url None pr of
       (Inl e, pr') \<Rightarrow> (Inl e, pr')
     | (Inr ob, pr') \<Rightarrow> instance_session en (add_all objs) ob pr')"

fun live :: "'kv rocks_env \<Rightarrow> settings \<Rightarrow> bool \<Rightarrow> string \<Rightarrow> life \<Rightarrow> 'kv rocks_process \<Rightarrow> 'kv rocks_process" where
  "live en cfg available url (GetInstance path) pr = snd (rocks_instance en cfg available url path pr)"
| "live en cfg available url (ResetTo path) pr = snd (rocks_reset en cfg available path pr)"
| "live en cfg available url CloseInstance pr = pr\<lparr>rp_instance := map_option close_database (rp_instance pr)\<rparr>"
| "live en cfg available url (AddRows objs) pr = snd (add_rows en cfg available url objs pr)"
| "live en cfg available url ProcessEnds pr = pr\<lparr>rp_instance := None\<rparr>"

fun added :: "life \<Rightarrow> orm list" where
  "added (AddRows objs) = objs"
| "added _ = []"

subsection \<open>What the bootstrap leaves alone\<close>

lemma put_keys_frame:
  "put_keys en cfg raws b s = (b', s') \<Longrightarrow> rk_db s' = rk_db s \<and> rk_seq s' = rk_seq s
     \<and> (\<forall>cf \<in> INDEXED. with_batch b' g cf = with_batch b g cf)"
proof (induction raws arbitrary: b s)
  case (Cons raw raws)
  obtain h d where e: "key_entry en cfg s raw = (h, d)" by (cases "key_entry en cfg s raw")
  with Cons.prems have "put_keys en cfg raws (batch_put ''api_keys'' h (Json d) b) (rocks_tick s) = (b', s')" by simp
  from Cons.IH [OF this] show ?case by (auto simp: rocks_tick_def with_batch_put INDEXED_def)
qed simp

lemma bootstrap_frame:
  assumes "rd_laws (re_lib en)" "rocks_ok en s"
  shows "rocks_ok en (rocks_bootstrap en cfg s) \<and> rk_seq (rocks_bootstrap en cfg s) = rk_seq s
    \<and> journal en (rocks_bootstrap en cfg s) = journal en s"
proof (cases "present (get_raw en s ''orgs'' (cfg_org cfg))")
  case True
  with assms(2) show ?thesis by (simp add: rocks_bootstrap_def)
next
  case False
  define b2 where "b2 = batch_put ''projects'' (cfg_project cfg) (Json [(''project_id'', JStr (cfg_project cfg)),
      (''org_id'', JStr (cfg_org cfg)), (''name'', JStr ''default''), (''created_at_ms'', now_ms en (rocks_tick s))])
    (batch_put ''orgs'' (cfg_org cfg) (Json [(''org_id'', JStr (cfg_org cfg)), (''name'', JStr ''default''),
      (''created_at_ms'', now_ms en s)]) [])"
  obtain b s2 where keys: "put_keys en cfg (cfg_keys cfg) b2 (rocks_tick (rocks_tick s)) = (b, s2)" by force
  have boot: "rocks_bootstrap en cfg s = rocks_write en b s2"
    using False keys by (simp add: rocks_bootstrap_def b2_def Let_def)
  have db: "rk_db s2 = rk_db s" and seq: "rk_seq s2 = rk_seq s"
    using put_keys_frame [OF keys] by (simp_all add: rocks_tick_def)
  have h: "sh_handles (rk_db s2) = CF_NAMES" using assms(2) db by (simp add: rocks_ok_def)
  let ?s' = "rocks_write en b s2"
  have same: "get_raw en ?s' cf k = get_raw en s cf k" if "cf \<in> INDEXED" for cf k
  proof -
    have "with_batch b (get_raw en s) cf = with_batch b2 (get_raw en s) cf" using put_keys_frame [OF keys] that by blast
    also have "\<dots> = get_raw en s cf" using that by (auto simp: b2_def with_batch_put INDEXED_def)
    finally show ?thesis
      using get_raw_write [OF assms(1) h INDEXED_names [OF that], of b k] get_raw_cong [OF db, of en] by simp
  qed
  then have "index_ok (get_raw en ?s') (rk_seq s)"
    using assms(2) index_ok_same [where m = "rk_seq s", OF ext [OF same]] by (simp add: rocks_ok_def)
  then have ok: "rocks_ok en ?s'" using h seq by (simp add: rocks_ok_def rocks_write_def db_write_def)
  have cf: "''events'' \<in> set CF_NAMES" "''events'' \<in> INDEXED" by (simp_all add: CF_NAMES_def INDEXED_def)
  let ?items = "\<lambda>s. rd_items (re_lib en) (sh_kv (rk_db s)) ''events''"
  have "map_of (?items s) k = get_raw en s ''events'' k" "map_of (?items ?s') k = get_raw en ?s' ''events'' k" for k
    using assms ok cf by (simp_all add: rd_laws_def get_raw_def db_get_def resolve_cf_def rocks_ok_def)
  then have "map_of (?items ?s') = map_of (?items s)" using same [OF cf(2)] by auto
  then have "?items ?s' = ?items s"
    using rd_items_sorted [OF assms(1)] by (intro sorted_items_unique) auto
  then have "journal en ?s' = journal en s"
    by (simp add: journal_items [OF assms] journal_items [OF assms(1) ok])
  with ok seq boot show ?thesis by (simp add: rocks_write_def)
qed

subsection \<open>Directories\<close>

text \<open>What a directory holds, as the journal of its events, and when it is one that the backend wrote, with numbers up to \<open>N\<close>.\<close>

definition store_on :: "'kv \<Rightarrow> 'kv rocks" where
  "store_on kv = \<lparr>rk_db = shim_open kv CF_NAMES, rk_seq = 0, rk_tick = 0\<rparr>"

definition disk_journal :: "'kv rocks_env \<Rightarrow> 'kv \<Rightarrow> row list" where
  "disk_journal en kv = journal en (store_on kv)"

definition store_ok :: "'kv rocks_env \<Rightarrow> int \<Rightarrow> 'kv \<Rightarrow> 'kv rocks \<Rightarrow> bool" where
  "store_ok en N kv s \<longleftrightarrow> rocks_ok en s \<and> rk_seq s \<le> N \<and> sh_kv (rk_db s) = kv"

definition process_ok :: "'kv rocks_env \<Rightarrow> int \<Rightarrow> 'kv rocks_process \<Rightarrow> bool" where
  "process_ok en N pr \<longleftrightarrow> (\<forall>path. \<exists>s. store_ok en N (rp_disk pr path) s)
     \<and> (\<forall>ob s. rp_instance pr = Some ob \<longrightarrow> rj_store ob = Some s \<longrightarrow> store_ok en N (rp_disk pr (rj_path ob)) s)"

lemma store_journal:
  assumes "store_ok en N kv s"
  shows "journal en s = disk_journal en kv"
proof -
  have "sh_handles (rk_db s) = CF_NAMES" "sh_kv (rk_db s) = kv" using assms by (simp_all add: store_ok_def rocks_ok_def)
  then have "rk_db (store_on kv) = rk_db s" by (simp add: store_on_def shim_open_def)
  from journal_cong [OF this] show ?thesis by (simp add: disk_journal_def)
qed

lemma store_ok_mono: "store_ok en N kv s \<Longrightarrow> N \<le> M \<Longrightarrow> store_ok en M kv s"
  by (simp add: store_ok_def)

lemma process_ok_mono: "process_ok en N pr \<Longrightarrow> N \<le> M \<Longrightarrow> process_ok en M pr"
  by (simp add: process_ok_def) (meson store_ok_mono)

text \<open>The same directories, and an instance whose store fits its own.\<close>

lemma process_ok_instance:
  assumes "process_ok en N pr" "rp_disk pr' = rp_disk pr"
    and "\<And>ob s. rp_instance pr' = Some ob \<Longrightarrow> rj_store ob = Some s \<Longrightarrow> store_ok en N (rp_disk pr (rj_path ob)) s"
  shows "process_ok en N pr'"
  using assms(1,3) by (simp add: process_ok_def assms(2))

lemma store_opens:
  assumes "rd_laws (re_lib en)" "store_ok en N kv s"
  shows "\<exists>s0. rocks_open en kv = Inr s0
    \<and> store_ok en N (sh_kv (rk_db (rocks_bootstrap en cfg s0))) (rocks_bootstrap en cfg s0)
    \<and> journal en (rocks_bootstrap en cfg s0) = disk_journal en kv"
proof -
  have ok: "rocks_ok en s" "rk_seq s \<le> N" "sh_kv (rk_db s) = kv" using assms(2) by (simp_all add: store_ok_def)
  from reopen_ok [OF ok(1)] ok(3) obtain s0 where s0: "rocks_open en kv = Inr s0" "rocks_ok en s0" "rk_db s0 = rk_db s" "rk_seq s0 \<le> rk_seq s"
    by blast
  from bootstrap_frame [OF assms(1) s0(2), of cfg] have "journal en (rocks_bootstrap en cfg s0) = journal en s0"
    "rocks_ok en (rocks_bootstrap en cfg s0)" "rk_seq (rocks_bootstrap en cfg s0) \<le> N" using s0(4) ok(2) by simp_all
  with journal_cong [OF s0(3)] s0(1) store_journal [OF assms(2)] show ?thesis by (simp add: store_ok_def)
qed

definition opened :: "'kv rocks_env \<Rightarrow> int \<Rightarrow> string \<Rightarrow> 'kv rocks_process \<Rightarrow> 'kv rocks_object \<Rightarrow> bool" where
  "opened en N path pr ob \<longleftrightarrow> rj_path ob = path \<and> (\<exists>s. rj_store ob = Some s \<and> store_ok en N (rp_disk pr path) s)"

lemma new_database_keeps:
  assumes "rd_laws (re_lib en)" "process_ok en N pr" "new_database en cfg available path pr = (x, pr')"
  shows "process_ok en N pr' \<and> rp_instance pr' = rp_instance pr
    \<and> (\<forall>p. disk_journal en (rp_disk pr' p) = disk_journal en (rp_disk pr p))
    \<and> (\<forall>ob. x = Inr ob \<longrightarrow> opened en N path pr' ob)
    \<and> (available \<and> \<not> lock_held pr path \<longrightarrow> (\<exists>ob. x = Inr ob))"
proof -
  obtain s where "store_ok en N (rp_disk pr path) s" using assms(2) unfolding process_ok_def by blast
  from store_opens [OF assms(1) this, of cfg] obtain s0 where s0: "rocks_open en (rp_disk pr path) = Inr s0"
    "store_ok en N (sh_kv (rk_db (rocks_bootstrap en cfg s0))) (rocks_bootstrap en cfg s0)"
    "journal en (rocks_bootstrap en cfg s0) = disk_journal en (rp_disk pr path)" by blast
  show ?thesis
  proof (cases "available \<and> \<not> lock_held pr path")
    case False
    with assms(2,3) show ?thesis by (auto simp: new_database_def Let_def split: if_splits)
  next
    case True
    let ?s = "rocks_bootstrap en cfg s0"
    obtain log where x: "x = Inr \<lparr>rj_path = path, rj_wal = log, rj_log_open = True, rj_store = Some ?s\<rparr>"
      and pr': "pr' = pr\<lparr>rp_disk := (rp_disk pr)(path := sh_kv (rk_db ?s))\<rparr>"
      using assms(3) True s0(1) by (auto simp: new_database_def Let_def)
    have "rj_path ob \<noteq> path" if "rp_instance pr = Some ob" "rj_store ob = Some s" for ob s
      using True that by (auto simp: lock_held_def)
    then have "process_ok en N pr'" using assms(2) s0(2) by (auto simp: process_ok_def pr')
    moreover have "disk_journal en (rp_disk pr' p) = disk_journal en (rp_disk pr p)" for p
      using store_journal [OF s0(2)] s0(3) by (simp add: pr')
    ultimately show ?thesis using s0(2) by (simp add: x pr' opened_def)
  qed
qed

lemma keep_instance_keeps:
  assumes "rd_laws (re_lib en)" "process_ok en N pr" "keep_instance (new_database en cfg available path pr) = (x, pr')"
  shows "process_ok en N pr' \<and> (\<forall>p. disk_journal en (rp_disk pr' p) = disk_journal en (rp_disk pr p))
    \<and> (\<forall>ob. x = Inr ob \<longrightarrow> rp_instance pr' = Some ob)"
proof -
  obtain y pr1 where new: "new_database en cfg available path pr = (y, pr1)" by force
  note kept = new_database_keeps [OF assms(1,2) new]
  show ?thesis
  proof (cases y)
    case (Inl e)
    with assms(3) new kept show ?thesis by (auto simp: keep_instance_def)
  next
    case (Inr ob)
    then have x: "x = Inr ob" "pr' = pr1\<lparr>rp_instance := Some ob\<rparr>" using assms(3) new by (auto simp: keep_instance_def)
    have "process_ok en N pr'"
      by (rule process_ok_instance [of en N pr1]) (use kept Inr in \<open>auto simp: x opened_def\<close>)
    with kept x show ?thesis by simp
  qed
qed

lemma rocks_instance_keeps:
  assumes "rd_laws (re_lib en)" "process_ok en N pr" "rocks_instance en cfg available url path pr = (x, pr')"
  shows "process_ok en N pr' \<and> (\<forall>p. disk_journal en (rp_disk pr' p) = disk_journal en (rp_disk pr p))
    \<and> (\<forall>ob. x = Inr ob \<longrightarrow> rp_instance pr' = Some ob)"
  using assms(2,3) keep_instance_keeps [OF assms(1,2)]
  by (auto simp: rocks_instance_def split: option.splits)

lemma rocks_reset_keeps:
  assumes "rd_laws (re_lib en)" "process_ok en N pr" "rocks_reset en cfg available path pr = (x, pr')"
  shows "process_ok en N pr' \<and> (\<forall>p. disk_journal en (rp_disk pr' p) = disk_journal en (rp_disk pr p))"
proof -
  let ?pr = "pr\<lparr>rp_instance := map_option close_log (rp_instance pr)\<rparr>"
  have "process_ok en N ?pr"
    by (rule process_ok_instance [OF assms(2)]) (use assms(2) in \<open>auto simp: close_log_def process_ok_def\<close>)
  from keep_instance_keeps [OF assms(1) this assms(3) [unfolded rocks_reset_def]] show ?thesis by simp
qed

text \<open>A session on the instance appends the rows it was given, or none.\<close>

lemma instance_session_appends:
  assumes "rd_laws (re_lib en)" "process_ok en N pr" "rp_instance pr = Some ob"
    and "list_all plain_orm objs" "N + int (length objs) < 2 ^ 63"
    and "instance_session en (add_all objs) ob pr = (x, pr')"
  shows "process_ok en (N + int (length objs)) pr'
    \<and> (\<exists>n. disk_journal en (rp_disk pr' p) = disk_journal en (rp_disk pr p) @ (if x = Inr () \<and> p = rj_path ob then new_rows n objs else []))"
proof (cases "rj_store ob")
  case None
  with assms(6) have "x = Inl ClosedStore" "pr' = pr" by (simp_all add: instance_session_def)
  with process_ok_mono [OF assms(2), of "N + int (length objs)"] show ?thesis by simp
next
  case (Some s)
  obtain y s' where run: "rocks_session en (add_all objs) s = (y, s')" by force
  then have x: "x = map_sum Raised id y" and pr': "pr' = pr\<lparr>rp_disk := (rp_disk pr)(rj_path ob := sh_kv (rk_db s')),
      rp_instance := Some (ob\<lparr>rj_store := Some s'\<rparr>)\<rparr>"
    using assms(6) Some by (simp_all add: instance_session_def)
  have s: "rocks_ok en s" "rk_seq s \<le> N" "store_ok en N (rp_disk pr (rj_path ob)) s"
    using assms(2,3) Some by (auto simp: process_ok_def store_ok_def)
  have bound: "rk_seq s + int (length objs) < 2 ^ 63" using assms(5) s(2) by simp
  from session_index [OF assms(1) s(1) assms(4) bound run] s(2)
  have s': "store_ok en (N + int (length objs)) (sh_kv (rk_db s')) s'" by (simp add: store_ok_def)
  have "process_ok en (N + int (length objs)) pr'"
    using process_ok_mono [OF assms(2), of "N + int (length objs)"] s' by (auto simp: process_ok_def pr')
  moreover have "disk_journal en (rp_disk pr' (rj_path ob)) = disk_journal en (rp_disk pr (rj_path ob))
      @ (case y of Inl e \<Rightarrow> [] | Inr u \<Rightarrow> new_rows (rk_seq s) objs)"
    using session_journal [OF assms(1) s(1) assms(4) bound run] store_journal [OF s'] store_journal [OF s(3)] by (simp add: pr')
  ultimately show ?thesis by (cases y) (auto simp: x pr')
qed

lemma add_rows_appends:
  assumes "rd_laws (re_lib en)" "process_ok en N pr" "list_all plain_orm objs" "N + int (length objs) < 2 ^ 63"
    and "add_rows en cfg available url objs pr = (x, pr')"
  shows "process_ok en (N + int (length objs)) pr'
    \<and> (\<exists>n. disk_journal en (rp_disk pr' p) \<in> {disk_journal en (rp_disk pr p), disk_journal en (rp_disk pr p) @ new_rows n objs})"
proof -
  obtain y pr1 where inst: "rocks_instance en cfg available url None pr = (y, pr1)" by force
  note kept = rocks_instance_keeps [OF assms(1,2) inst]
  show ?thesis
  proof (cases y)
    case (Inl e)
    with assms(5) inst have "pr' = pr1" by (simp add: add_rows_def)
    with kept process_ok_mono [of en N pr1 "N + int (length objs)"] show ?thesis by simp
  next
    case (Inr ob)
    with assms(5) inst have "instance_session en (add_all objs) ob pr1 = (x, pr')" by (simp add: add_rows_def)
    from instance_session_appends [OF assms(1) _ _ assms(3,4) this, of p] kept Inr show ?thesis by (auto split: if_splits)
  qed
qed

subsection \<open>Lives\<close>

lemma new_rows_origin: "row \<in> set (new_rows n objs) \<Longrightarrow> \<exists>r m. AuditEventRow r \<in> set objs \<and> row = stored_row (numbered m r)"
  by (induction n objs rule: new_rows.induct) auto

lemma live_keeps:
  assumes "rd_laws (re_lib en)" "process_ok en N pr" "list_all plain_orm (added l)" "N + int (length (added l)) < 2 ^ 63"
  shows "process_ok en (N + int (length (added l))) (live en cfg available url l pr)
    \<and> (\<exists>new. disk_journal en (rp_disk (live en cfg available url l pr) p) = disk_journal en (rp_disk pr p) @ new
        \<and> (\<forall>row \<in> set new. \<exists>r m. AuditEventRow r \<in> set (added l) \<and> row = stored_row (numbered m r)))"
proof (cases l)
  case (GetInstance path)
  obtain x pr' where "rocks_instance en cfg available url path pr = (x, pr')" by force
  with rocks_instance_keeps [OF assms(1,2) this] GetInstance show ?thesis by simp
next
  case (ResetTo path)
  obtain x pr' where "rocks_reset en cfg available path pr = (x, pr')" by force
  with rocks_reset_keeps [OF assms(1,2) this] ResetTo show ?thesis by simp
next
  case CloseInstance
  have "process_ok en N (pr\<lparr>rp_instance := map_option close_database (rp_instance pr)\<rparr>)"
    by (rule process_ok_instance [OF assms(2)]) (auto simp: close_database_def)
  with CloseInstance show ?thesis by simp
next
  case (AddRows objs)
  obtain x pr' where add: "add_rows en cfg available url objs pr = (x, pr')" by force
  from add_rows_appends [OF assms(1,2) _ _ add, of p] assms(3,4) AddRows obtain n where
    "process_ok en (N + int (length objs)) pr'"
    "disk_journal en (rp_disk pr' p) \<in> {disk_journal en (rp_disk pr p), disk_journal en (rp_disk pr p) @ new_rows n objs}" by auto
  with add AddRows new_rows_origin [of _ n objs] show ?thesis by auto
next
  case ProcessEnds
  have "process_ok en N (pr\<lparr>rp_instance := None\<rparr>)" by (rule process_ok_instance [OF assms(2)]) auto
  with ProcessEnds show ?thesis by simp
qed

lemma lives_keep:
  assumes "rd_laws (re_lib en)" "process_ok en N pr" "list_all plain_orm (concat (map added ls))"
    and "N + int (length (concat (map added ls))) < 2 ^ 63"
  shows "process_ok en (N + int (length (concat (map added ls)))) (fold (live en cfg available url) ls pr)
    \<and> (\<exists>new. disk_journal en (rp_disk (fold (live en cfg available url) ls pr) p) = disk_journal en (rp_disk pr p) @ new
        \<and> (\<forall>row \<in> set new. \<exists>r m. AuditEventRow r \<in> set (concat (map added ls)) \<and> row = stored_row (numbered m r)))"
  using assms(2-)
proof (induction ls arbitrary: N pr)
  case Nil
  then show ?case by simp
next
  case (Cons l ls)
  let ?pr = "live en cfg available url l pr" and ?N = "N + int (length (added l))"
  have "list_all plain_orm (added l)" "?N < 2 ^ 63" "list_all plain_orm (concat (map added ls))"
    "?N + int (length (concat (map added ls))) < 2 ^ 63" using Cons.prems by simp_all
  note first = live_keeps [OF assms(1) Cons.prems(1) this(1,2), of cfg available url p]
  from Cons.IH [of ?N ?pr] first Cons.prems(2,3) obtain new where
    later: "process_ok en (?N + int (length (concat (map added ls)))) (fold (live en cfg available url) ls ?pr)"
    "disk_journal en (rp_disk (fold (live en cfg available url) ls ?pr) p) = disk_journal en (rp_disk ?pr p) @ new"
    "\<forall>row \<in> set new. \<exists>r m. AuditEventRow r \<in> set (concat (map added ls)) \<and> row = stored_row (numbered m r)" by auto
  from first obtain new' where "disk_journal en (rp_disk ?pr p) = disk_journal en (rp_disk pr p) @ new'"
    "\<forall>row \<in> set new'. \<exists>r m. AuditEventRow r \<in> set (added l) \<and> row = stored_row (numbered m r)" by blast
  with later(2,3) have "\<exists>new. disk_journal en (rp_disk (fold (live en cfg available url) (l # ls) pr) p) = disk_journal en (rp_disk pr p) @ new
      \<and> (\<forall>row \<in> set new. \<exists>r m. AuditEventRow r \<in> set (concat (map added (l # ls))) \<and> row = stored_row (numbered m r))"
    by (intro exI [of _ "new' @ new"] conjI ballI) (simp, simp, blast)
  with later(1) show ?case by (simp add: add.assoc)
qed

text \<open>The rows of a session that returned are in the journal of a directory, and stay there.\<close>

lemma added_rows_kept:
  assumes "rd_laws (re_lib en)" "process_ok en N pr" "list_all plain_orm objs" "N + int (length objs) < 2 ^ 63"
    and "add_rows en cfg available url objs pr = (Inr (), pr')"
  shows "\<exists>p n. disk_journal en (rp_disk pr' p) = disk_journal en (rp_disk pr p) @ new_rows n objs"
proof -
  obtain y pr1 where inst: "rocks_instance en cfg available url None pr = (y, pr1)" by force
  with assms(5) obtain ob where y: "y = Inr ob" and run: "instance_session en (add_all objs) ob pr1 = (Inr (), pr')"
    by (auto simp: add_rows_def split: sum.splits)
  note kept = rocks_instance_keeps [OF assms(1,2) inst]
  from instance_session_appends [OF assms(1) _ _ assms(3,4) run, of "rj_path ob"] kept y show ?thesis by auto
qed

lemma committed_rows:
  assumes "rd_laws (re_lib en)" "process_ok en N pr" "list_all plain_orm (concat (map added (ls1 @ AddRows objs # ls2)))"
    and "N + int (length (concat (map added (ls1 @ AddRows objs # ls2)))) < 2 ^ 63"
    and "add_rows en cfg available url objs (fold (live en cfg available url) ls1 pr) = (Inr (), pr2)"
  shows "\<exists>p n before after. disk_journal en (rp_disk (fold (live en cfg available url) (ls1 @ AddRows objs # ls2) pr) p)
    = before @ new_rows n objs @ after"
proof -
  let ?N = "N + int (length (concat (map added ls1)))" and ?pr = "fold (live en cfg available url) ls1 pr"
  have "process_ok en ?N ?pr" using lives_keep [OF assms(1,2), of ls1] assms(3,4) by simp
  moreover have plain: "list_all plain_orm objs" and bound: "?N + int (length objs) < 2 ^ 63" using assms(3,4) by simp_all
  ultimately have ok: "process_ok en (?N + int (length objs)) pr2"
    and "\<exists>p n. disk_journal en (rp_disk pr2 p) = disk_journal en (rp_disk ?pr p) @ new_rows n objs"
    using add_rows_appends [OF assms(1) _ _ _ assms(5)] added_rows_kept [OF assms(1) _ _ _ assms(5)] by blast+
  then obtain p n where rows: "disk_journal en (rp_disk pr2 p) = disk_journal en (rp_disk ?pr p) @ new_rows n objs" by blast
  from lives_keep [OF assms(1) ok, of ls2 cfg available url p] assms(3,4)
  obtain after where "disk_journal en (rp_disk (fold (live en cfg available url) ls2 pr2) p) = disk_journal en (rp_disk pr2 p) @ after" by auto
  with rows assms(5) have "disk_journal en (rp_disk (fold (live en cfg available url) (ls1 @ AddRows objs # ls2) pr) p)
      = disk_journal en (rp_disk ?pr p) @ new_rows n objs @ after" by simp
  then show ?thesis by blast
qed

subsection \<open>Properties\<close>

lemma two_events_store: "store_ok list_env 2 (sh_kv (rk_db two_events)) two_events"
proof -
  let ?objs = "[AuditEventRow (rocks_event ''e1'' ''tool.started''), AuditEventRow (rocks_event ''e2'' ''run.failed'')]"
  obtain x s where s: "rocks_session list_env (add_all ?objs) fresh_rocks = (x, s)"
    by (cases "rocks_session list_env (add_all ?objs) fresh_rocks")
  have "list_all plain_orm ?objs" by (simp add: plain_orm_def rocks_event_plain)
  moreover have "rk_seq fresh_rocks = 0" by (simp add: fresh_rocks_def)
  ultimately have "rk_seq s \<le> 2" using session_index [OF list_env_laws fresh_rocks_ok _ _ s] by simp
  with s show ?thesis using two_events_ok by (simp add: two_events_def store_ok_def)
qed

text \<open>
  C30: Whatever a process does with its RocksDB database - taking the instance, resetting it to any path, closing it, sessions on it that
  return or raise, ending and starting again - no directory loses an event: its journal is the one it had with the new
  events behind it, each of which a session was given, and the events of a session that returned are in a journal at the end. And the directory opens again, when it is not open already, with this journal.
\<close>

theorem life_keeps_journals:
  assumes "rd_laws (re_lib en)" "process_ok en N pr" "list_all plain_orm (concat (map added ls))"
    and "N + int (length (concat (map added ls))) < 2 ^ 63" "fold (live en cfg available url) ls pr = pr'"
  shows "\<exists>new. disk_journal en (rp_disk pr' p) = disk_journal en (rp_disk pr p) @ new
    \<and> (\<forall>row \<in> set new. \<exists>r m. AuditEventRow r \<in> set (concat (map added ls)) \<and> row = stored_row (numbered m r))
    \<and> (available \<and> \<not> lock_held pr' p \<longrightarrow> (\<exists>ob s pr''. new_database en cfg available p pr' = (Inr ob, pr'')
         \<and> rj_store ob = Some s \<and> journal en s = disk_journal en (rp_disk pr p) @ new))
    \<and> (\<forall>ls1 objs ls2 pr2. ls = ls1 @ AddRows objs # ls2
         \<longrightarrow> add_rows en cfg available url objs (fold (live en cfg available url) ls1 pr) = (Inr (), pr2)
         \<longrightarrow> (\<exists>q n before after. disk_journal en (rp_disk pr' q) = before @ new_rows n objs @ after))"
proof -
  obtain x pr'' where new: "new_database en cfg available p pr' = (x, pr'')" by force
  from lives_keep [OF assms(1-4), of cfg available url p] assms(5) obtain rows where
    ok: "process_ok en (N + int (length (concat (map added ls)))) pr'"
    and rows: "disk_journal en (rp_disk pr' p) = disk_journal en (rp_disk pr p) @ rows"
      "\<forall>row \<in> set rows. \<exists>r m. AuditEventRow r \<in> set (concat (map added ls)) \<and> row = stored_row (numbered m r)" by blast
  note opens = new_database_keeps [OF assms(1) ok new]
  have "\<exists>ob s pr''. new_database en cfg available p pr' = (Inr ob, pr'') \<and> rj_store ob = Some s
      \<and> journal en s = disk_journal en (rp_disk pr p) @ rows" if "available \<and> \<not> lock_held pr' p"
  proof -
    from opens that have "\<exists>ob. x = Inr ob" by blast
    then obtain ob where x: "x = Inr ob" ..
    then obtain s where s: "rj_store ob = Some s" "store_ok en (N + int (length (concat (map added ls)))) (rp_disk pr'' p) s"
      using opens unfolding opened_def by blast
    then have "journal en s = disk_journal en (rp_disk pr p) @ rows"
      using store_journal [OF s(2)] opens rows(1) by metis
    with new x s(1) show ?thesis by blast
  qed
  moreover have "\<exists>q n before after. disk_journal en (rp_disk pr' q) = before @ new_rows n objs @ after"
    if "ls = ls1 @ AddRows objs # ls2"
      "add_rows en cfg available url objs (fold (live en cfg available url) ls1 pr) = (Inr (), pr2)" for ls1 objs ls2 pr2
    using committed_rows [OF assms(1,2) _ _ that(2)] assms(3-5) that(1) by blast
  ultimately show ?thesis using rows by blast
qed

definition demo_process :: "kv_list rocks_process" where
  "demo_process = \<lparr>rp_disk = (\<lambda>p. if p = ''db'' then sh_kv (rk_db two_events) else []), rp_logs = (\<lambda>p. ([], None)), rp_instance = None\<rparr>"

definition demo_life :: "life list" where
  "demo_life = [GetInstance (Some ''db''), AddRows [AuditEventRow (rocks_event ''e3'' ''tool.started'')], ResetTo (Some ''db''),
     CloseInstance, ResetTo (Some ''other''), ProcessEnds]"

theorem life_keeps_journals_witness:
  "\<exists>new ob s pr''. new_database list_env demo_cfg True ''db'' (fold (live list_env demo_cfg True ''rocksdb:///var/db'') demo_life demo_process)
      = (Inr ob, pr'') \<and> rj_store ob = Some s \<and> journal list_env s = journal list_env two_events @ new"
proof -
  note two = two_events_store
  have none: "store_ok list_env 2 [] fresh_rocks"
    using fresh_rocks_ok by (simp add: store_ok_def fresh_rocks_def shim_open_def)
  have ok: "process_ok list_env 2 demo_process"
    using two none by (auto simp: process_ok_def demo_process_def)
  have plain: "list_all plain_orm (concat (map added demo_life))"
    by (simp add: demo_life_def plain_orm_def rocks_event_plain)
  have bound: "2 + int (length (concat (map added demo_life))) < 2 ^ 63" by (simp add: demo_life_def)
  have free: "\<not> lock_held (fold (live list_env demo_cfg True url) demo_life demo_process) path" for url path
    by (simp add: demo_life_def lock_held_def)
  from life_keeps_journals [OF list_env_laws ok plain bound refl, of demo_cfg True "''rocksdb:///var/db''" "''db''"] free
  obtain new ob s pr'' where
    "new_database list_env demo_cfg True ''db'' (fold (live list_env demo_cfg True ''rocksdb:///var/db'') demo_life demo_process) = (Inr ob, pr'')"
    "rj_store ob = Some s" "journal list_env s = disk_journal list_env (rp_disk demo_process ''db'') @ new" by blast
  then show ?thesis using store_journal [OF two] by (auto simp: demo_process_def)
qed

text \<open>
  \<open>reset\<close> to the path that is in use: the new object is made while the old one still holds the lock. It raises, and leaves the old
  one in place with its log closed. An instance that was closed stays the instance, and refuses every session.
\<close>

lemma reset_in_use_fails:
  assumes "rp_instance pr = Some ob" "rj_store ob \<noteq> None" "str_or path ''./controldb_rocksdb'' = rj_path ob"
  shows "rocks_reset en cfg True path pr = (Inl (LockHeld (rj_path ob)), pr\<lparr>rp_instance := Some (close_log ob)\<rparr>)"
  using assms by (simp add: rocks_reset_def new_database_def lock_held_def close_log_def keep_instance_def Let_def)

lemma closed_instance_stays:
  assumes "rp_instance pr = Some ob"
  shows "fst (add_rows en cfg available url objs (live en cfg available url CloseInstance pr)) = Inl ClosedStore"
    and "rp_instance (live en cfg available url (GetInstance path) (live en cfg available url CloseInstance pr)) = Some (close_database ob)"
  using assms by (simp_all add: add_rows_def rocks_instance_def instance_session_def close_database_def)

lemma url_path_root: "url_path ''rocksdb:///var/db'' = ''/var/db''"
  by (simp add: url_path_def without.simps)

end
