(* ===== verification/Dashboard.thy ===== *)
theory Dashboard
  imports Canonical_Json
begin

section \<open>Values in the pages of the dashboard\<close>

text \<open>
  \<open>dashboard/views.py\<close> puts the API key of the query string and the run's identifier into HTML and into the
  scripts of its pages. The literal text of the f-strings between two interpolated values is data here: a page
  is woven from its fragments and its values.
\<close>

text \<open>\<open>html.escape(s)\<close>\<close>

definition html_char :: "char \<Rightarrow> string" where
  "html_char c =
    (if c = CHR ''&'' then ''&amp;'' else if c = CHR ''<'' then ''&lt;'' else if c = CHR ''>'' then ''&gt;''
     else if c = quote then ''&quot;'' else if c = CHR 0x27 then ''&#x27;'' else [c])"

definition html_escape :: "string \<Rightarrow> string" where
  "html_escape s = concat (map html_char s)"

text \<open>\<open>json.dumps\<close> of a string or \<open>None\<close>, which escapes what is not printable ASCII.\<close>

definition ascii_char :: "char \<Rightarrow> string" where
  "ascii_char c = (if (of_char c :: nat) < 127 then esc_char c
     else [backslash, CHR ''u'', CHR ''0'', CHR ''0'', hex_char (of_char c div 16), hex_char (of_char c mod 16)])"

definition dumps_opt :: "string option \<Rightarrow> string" where
  "dumps_opt v = (case v of None \<Rightarrow> ''null'' | Some s \<Rightarrow> quote # concat (map ascii_char s) @ [quote])"

fun weave :: "string list \<Rightarrow> string list \<Rightarrow> string" where
  "weave (f # fs) (v # vs) = f @ v @ weave fs vs"
| "weave fs vs = concat fs"

text \<open>\<open>_render_page(title, body)\<close>, with the text before the title, between title and body, and after it.\<close>

definition render_page :: "string list \<Rightarrow> string \<Rightarrow> string \<Rightarrow> string" where
  "render_page frame title body = weave frame [html_escape title, body]"

definition index_page :: "string list \<Rightarrow> string list \<Rightarrow> string option \<Rightarrow> string" where
  "index_page frame frags api_key =
     render_page frame ''Runs'' (weave frags [html_escape (if str_truthy api_key then the api_key else []), dumps_opt api_key])"

definition run_detail :: "string list \<Rightarrow> string list \<Rightarrow> string \<Rightarrow> string option \<Rightarrow> string" where
  "run_detail frame frags run_id api_key =
     render_page frame (''Run '' @ run_id) (weave frags [html_escape run_id, dumps_opt api_key, dumps_opt (Some run_id)])"

definition approvals_view :: "string list \<Rightarrow> string list \<Rightarrow> string option \<Rightarrow> string" where
  "approvals_view frame frags api_key = render_page frame ''Approvals'' (weave frags [dumps_opt api_key])"

definition query_view :: "string list \<Rightarrow> string list \<Rightarrow> string option \<Rightarrow> string" where
  "query_view frame frags api_key = render_page frame ''Query'' (weave frags [dumps_opt api_key])"

subsection \<open>What the escapes let through\<close>

lemma html_char_clean: "c' \<in> set (html_char c) \<Longrightarrow> c' \<notin> {CHR ''<'', CHR ''>'', quote, CHR 0x27}"
  by (auto simp: html_char_def quote_def split: if_splits)

lemma html_escape_clean: "set (html_escape s) \<inter> {CHR ''<'', CHR ''>'', quote, CHR 0x27} = {}"
  using html_char_clean by (fastforce simp: html_escape_def)

text \<open>Printable characters other than the quote and the backslash.\<close>

definition plain_char :: "char \<Rightarrow> bool" where
  "plain_char c \<longleftrightarrow> 32 \<le> (of_char c :: nat) \<and> (of_char c :: nat) < 127 \<and> c \<noteq> quote \<and> c \<noteq> backslash"

lemma ascii_char_plain: "plain_char c \<Longrightarrow> ascii_char c = [c]"
  by (auto simp: plain_char_def ascii_char_def esc_char_def)

lemma dumps_plain: "list_all plain_char s \<Longrightarrow> dumps_opt (Some s) = quote # s @ [quote]"
proof -
  assume "list_all plain_char s"
  then have "concat (map ascii_char s) = s" by (induction s) (simp_all add: ascii_char_plain)
  then show ?thesis by (simp add: dumps_opt_def)
qed

end
