(* ===== verification/Spec2Isabelle.thy ===== *)
theory Spec2Isabelle
  imports Ledger_Properties Service_Properties Decision_Properties Sdk_Properties Rocks_Properties Integration_Properties
    Access_Properties Http_Properties Delivery_Properties Typed_Rows Benchmark_Properties Agent_Properties Approval_Properties Rocks_Process
    Dashboard
begin

text \<open>
  ControlDB records what AI agents do as audit events that are chained by hashes. An SDK
  (\<open>src/sdk/python/controldb\<close>) builds the events of a run, buffers them and posts them over HTTP; a collector
  (\<open>src/services/collector/controldb_collector\<close>) authenticates the caller, stores the events, decides policies,
  keeps approvals, verifies chains and exports evidence. This development models the Python code of both and proves
  what makes it correct. The theories follow the code's files, in this order.

  Common ground. \<open>Prelude\<close> holds the exceptions of the program as one datatype \<open>exn\<close>, the type \<open>'a result\<close> (\<open>Inl\<close> an
  exception, \<open>Inr\<close> a value), and the lemmas that all components share. \<open>Json_Value\<close> has Python's JSON-like values with their
  truth, equality, order and membership. \<open>Py_Runtime\<close> has dates and the run time: SHA-256, the text of floats and of other
  values, the clocks and random numbers as functions of a reading's number, and what a date column of the database gives back
  and a text column makes of a float.
  These are parameters; what the properties rely on of them is stated as hypotheses (\<open>float_repr_ok\<close>, \<open>utc_runtime\<close>) that
  \<open>Demo\<close> meets. \<open>Positional\<close> is the interface of fixed-width positional text, with instances for decimal fields
  (\<open>Text_Format\<close>), Crockford's base 32 (\<open>Ids\<close>) and bytes (\<open>Byte_Keys\<close>).

  Hashes. \<open>Canonical_Json\<close> is \<open>hashing.py\<close> (the same in SDK and collector): the canonical text of a value determines the value
  up to the order of dictionary items. Values are those of JSON, with texts as keys; the dates, bytes and tuples that a Python
  caller of the SDK could put into a payload are outside. \<open>Hash_Chain\<close> states once, as a locale, what a chain of records guarantees; the collector's
  rows and the SDK's envelopes are its two instances.

  The collector. \<open>Store\<close>: the tables of \<open>storage/models.py\<close> as lists of rows in the order of insertion, with the unique constraints
  that the services run into, what SQLite makes of an actor's values and of a step's number when they are bound to their columns
  (numbers become texts, integers beyond 64 bits and nested values raise), and \<open>with_session\<close> for the commit or rollback of \<open>storage/db.py\<close>. \<open>Auth\<close>: \<open>auth.py\<close> and the bootstrap of
  keys. \<open>Instances\<close>: the one database of a process and what starting on a database in use does. \<open>Redaction\<close>, \<open>Telemetry\<close>, \<open>Ids\<close>: the files of these names. \<open>Ingest\<close>: \<open>ingest.py\<close>, with the state \<open>cstate\<close> (database, metrics,
  number of clock readings so far, files) passed along; each operation gives its result or exception and the state it leaves.
  \<open>Policy\<close>: \<open>policy/engine.py\<close>; \<open>Approvals\<close>: \<open>approvals.py\<close> and \<open>query.py\<close>; \<open>Export\<close>: \<open>export.py\<close>; \<open>App\<close>: \<open>app.py\<close>, its requests as a
  datatype, the scopes they ask for, the exceptions each endpoint catches, and the reachable states of a collector that is
  bootstrapped and then serves requests one at a time or is started again; \<open>Http_Api\<close>: the routes, the request models and the answers of the same file,
  which turn a call with a path and a body into such a request. \<open>Configuration\<close>: \<open>config.py\<close>. \<open>Dashboard\<close>: what \<open>dashboard/views.py\<close> puts into pages.

  The RocksDB backend. \<open>Byte_Keys\<close>, \<open>Wal\<close>, \<open>Rocks_Rows\<close>, \<open>Rocks_Backend\<close>, \<open>Rocks_Query\<close>: \<open>storage/rocksdb_backend.py\<close>; \<open>Rocks_Shim\<close>:
  \<open>storage/_rocksdict_compat.py\<close> over the rocksdict library, which is a record of functions with the laws \<open>rd_laws\<close> that RocksDB
  documents (a batch applies atomically and in order, a family is iterated in the order of its keys). \<open>Rocks_Demo\<close> meets them.
  \<open>Rocks_Process\<close>: the one database object of a process over its directories, and that no life of a process loses an event.

  The SDK. \<open>Transport\<close>: \<open>transport.py\<close> with the wire and the jitter as parameters (\<open>world\<close>), the calls sent, pauses and spool file as state.
  \<open>Sdk_Run\<close>: envelopes, capture modes, buffering (\<open>run.py\<close>, \<open>events.py\<close>); \<open>Sdk_Api\<close>: the named helpers, raw events with their
  options, tool calls, policies, approvals, the life cycle and \<open>client.py\<close>; \<open>Configuration\<close>: the client's constructor; \<open>Integrations\<close>: the adapters for agent frameworks.
  \<open>Benchmark\<close>: \<open>scripts/bench/benchmark.py\<close>, which calls a collector without the SDK. \<open>Agents\<close>: the three programs under
  \<open>examples\<close>, which work through the whole SDK.

  What is shown. \<open>Ingest_Laws\<close>, \<open>Chain_Laws\<close>, \<open>Batch_Laws\<close>, \<open>Verify_Laws\<close>: what one event, a batch and a verification do; they give
  \<open>Ledger_Properties\<close> (the chain is kept, verified histories that end alike are alike, batches are all or nothing, paging is complete, and the
  cases in which the code breaks its own chain). \<open>App_Laws\<close> is the contract of a service operation as a locale with one interpretation
  per operation; it gives \<open>Service_Properties\<close> (tenants are kept apart, reachable states are well-formed, the history
  only grows). \<open>Policy_Laws\<close>, \<open>Service_Laws\<close> give \<open>Decision_Properties\<close>. \<open>Sdk_Laws\<close>, with the locale of operations that are steps of a run, and
  \<open>Sdk_Calls\<close>, the sessions of a user with any calls, give \<open>Sdk_Properties\<close> and \<open>Integration_Properties\<close>. \<open>Rocks_Laws\<close>, \<open>Rocks_Session\<close>, \<open>Rocks_Scan\<close> give \<open>Rocks_Properties\<close>: the index of the
  events by run is kept by every session, and a scan along it equals a filter over all events; \<open>Rocks_Journal\<close>: sessions refine appends to
  the list of events that the backend reads. \<open>Access_Properties\<close> spans
  both halves: a key of the collector's environment in a client of the SDK opens every endpoint. So do \<open>Deliveries\<close>, which reads the
  batches a run has sent off the list of its calls, \<open>Http_Laws\<close>, which says what such a call is to the collector, and \<open>Recording\<close>, where
  \<open>served_by\<close> joins the two: the wire answers as the collector would. \<open>Delivery_Properties\<close> concludes that the collector's table gains the events
  the run emitted, one row each, and verifies them. This holds where the run numbers its events itself: a number that a caller of
  \<open>emit\<close> gives twice makes one key of two events, and the collector takes the second for a replay. \<open>Http_Properties\<close> and \<open>Typed_Rows\<close>
  state access, failures and types over HTTP calls. A call that fails changes no table, but for approvals with a NaN in their input,
  which are written before the answer turns out to be no JSON;
  \<open>Benchmark_Properties\<close> runs the benchmark against the collector. \<open>Approval_Properties\<close>: what a run does to the collector's approvals.

  The examples. \<open>Trails\<close> is the contract of an operation that leaves events of known types, a locale above that of \<open>Sdk_Laws\<close>, and
  \<open>Agent_Laws\<close> meets it for the SDK's helpers; \<open>Agent_Trails\<close> composes them to the trails of the agents. \<open>Deployed\<close> is what the files under
  \<open>deploy/policies\<close> make the policy engine answer, \<open>Agent_Runs\<close> shows that an agent ends normally if its calls are answered, \<open>Agent_Clock\<close>
  counts its readings of the clock, and \<open>Agent_Properties\<close> concludes for the programs and for the collector they run against.

  Bounds and fuel. No definition runs on fuel but the clients of \<open>Paging\<close>, which follow a cursor; their properties give the number of
  pages that is enough. The retry loop of \<open>Transport\<close> recurses on the attempts that are left, the scan of the log in \<open>Wal\<close> on the length
  of the file. Integers are unbounded as in Python, but for the columns of SQLite; the eight-byte keys of \<open>Byte_Keys\<close> are checked against the signed 64-bit range, and the
  backend's properties assume that its sequence numbers stay below it. Characters are 8-bit; texts are compared by them.

  Not modelled. Third-party code: SQLAlchemy beyond the behaviour of the sessions used, FastAPI and pydantic beyond routes and
  models (the text of JSON is parsed before the model begins, paths carry no percent escapes, how an integer is read from other values
  is a parameter), httpx, PyYAML, OPA, the zip format, rocksdict, the agent frameworks. Concurrent requests and threads: the
  locks are taken to serialise what they guard. Option objects of RocksDB and the release of its handles, which hold no state of
  the model. The literal HTML, CSS and JavaScript of the dashboard. The tables \<open>PolicyRecord\<close> and \<open>DashboardAuditLog\<close>, which no code writes.
  The file \<open>core/setup.py\<close>, which builds the native module. What the example agents print.
\<close>

end
